(* ===== verification/Thorax_Prelude.thy ===== *)
theory Thorax_Prelude
  imports Main "HOL-Library.Word" "HOL-Library.List_Lexorder" "HOL-Library.Product_Lexorder"
    "HOL-Library.Char_ord" "HOL-Library.Sublist" "HOL-Library.Multiset"
begin

text \<open>
  Shared vocabulary of the development: the machine integers and byte strings of the Rust
  sources, the result type of fallible functions, the ordered maps (\<open>BTreeMap\<close>) and ordered
  sets (\<open>BTreeSet\<close>) of the standard library as sorted association lists and sorted lists, and
  the generic lemmas the component theories use.

  A Rust \<open>String\<close> is the \<open>string\<close> of its UTF-8 bytes, so that the order of strings is the
  bytewise order that \<open>str\<close> has. A \<open>BTreeMap\<close> iterates in key order, and several computations
  of the program (the vectors of an authority set, for one) depend on that order, so the
  model keeps it.
\<close>

named_theorems bt_simps \<open>rewrite rules of ordered maps\<close>
named_theorems authz_simps \<open>unfolding rules of the authority checks\<close>

type_synonym u8 = "8 word"
type_synonym u64 = "64 word"
type_synonym Bytes = "u8 list"

section \<open>Results\<close>

text \<open>The \<open>?\<close> operator: the first error is returned.\<close>

fun and_then :: "'e + 'a \<Rightarrow> ('a \<Rightarrow> 'e + 'b) \<Rightarrow> 'e + 'b" where
  "and_then (Inl e) f = Inl e"
| "and_then (Inr x) f = f x"

fun map_err :: "('e \<Rightarrow> 'f) \<Rightarrow> 'e + 'a \<Rightarrow> 'f + 'a" where
  "map_err f (Inl e) = Inl (f e)"
| "map_err f (Inr x) = Inr x"

text \<open>\<open>iter().map(f).collect::<Result<_>>()\<close>: the results in order, or the first error.\<close>

fun collect_results :: "('a \<Rightarrow> 'e + 'b) \<Rightarrow> 'a list \<Rightarrow> 'e + 'b list" where
  "collect_results f [] = Inr []"
| "collect_results f (x # xs) =
     and_then (f x) (\<lambda>y. and_then (collect_results f xs) (\<lambda>ys. Inr (y # ys)))"

lemma and_then_Inr_iff: "and_then m f = Inr y \<longleftrightarrow> (\<exists>x. m = Inr x \<and> f x = Inr y)"
  by (cases m) auto

lemma and_then_Inl_iff:
  "and_then m f = Inl e \<longleftrightarrow> m = Inl e \<or> (\<exists>x. m = Inr x \<and> f x = Inl e)"
  by (cases m) auto

lemma map_err_Inr_iff [simp]: "map_err f m = Inr y \<longleftrightarrow> m = Inr y"
  by (cases m) auto

lemma and_then_Inr_right [simp]: "and_then m Inr = m"
  by (cases m) auto

lemma and_then_cong [fundef_cong]:
  "m = m' \<Longrightarrow> (\<And>x. m' = Inr x \<Longrightarrow> f x = g x) \<Longrightarrow> and_then m f = and_then m' g"
  by (cases m') auto

lemma collect_results_Inr_iff:
  "collect_results f xs = Inr ys \<longleftrightarrow> list_all2 (\<lambda>x y. f x = Inr y) xs ys"
  by (induction xs arbitrary: ys) (auto simp: and_then_Inr_iff list_all2_Cons1)

lemma collect_results_total:
  "(\<And>x. x \<in> set xs \<Longrightarrow> f x = Inr (g x)) \<Longrightarrow> collect_results f xs = Inr (map g xs)"
  by (induction xs) auto

lemma collect_results_ok:
  "(\<exists>ys. collect_results f xs = Inr ys) \<longleftrightarrow> (\<forall>x \<in> set xs. \<exists>y. f x = Inr y)"
  by (induction xs) (auto simp: and_then_Inr_iff)

lemma collect_results_set:
  "collect_results f xs = Inr ys \<Longrightarrow> set ys = {y. \<exists>x \<in> set xs. f x = Inr y}"
  by (induction xs arbitrary: ys) (auto simp: and_then_Inr_iff)

lemma set_map_filter: "set (List.map_filter f xs) = {y. \<exists>x \<in> set xs. f x = Some y}"
  by (force simp: List.map_filter_def)

section \<open>Ordered maps\<close>

type_synonym ('k, 'v) BTreeMap = "('k \<times> 'v) list"

fun bt_insert :: "'k::linorder \<Rightarrow> 'v \<Rightarrow> ('k, 'v) BTreeMap \<Rightarrow> ('k, 'v) BTreeMap" where
  "bt_insert k v [] = [(k, v)]"
| "bt_insert k v (p # ps) =
     (if k < fst p then (k, v) # p # ps
      else if fst p < k then p # bt_insert k v ps
      else (k, v) # ps)"

definition bt_get :: "('k, 'v) BTreeMap \<Rightarrow> 'k \<Rightarrow> 'v option" where
  "bt_get m k = map_of m k"

definition bt_contains_key :: "('k, 'v) BTreeMap \<Rightarrow> 'k \<Rightarrow> bool" where
  "bt_contains_key m k \<longleftrightarrow> bt_get m k \<noteq> None"

definition bt_remove :: "'k \<Rightarrow> ('k, 'v) BTreeMap \<Rightarrow> ('k, 'v) BTreeMap" where
  "bt_remove k m = filter (\<lambda>p. fst p \<noteq> k) m"

abbreviation bt_keys :: "('k, 'v) BTreeMap \<Rightarrow> 'k list" where
  "bt_keys m \<equiv> map fst m"

abbreviation bt_values :: "('k, 'v) BTreeMap \<Rightarrow> 'v list" where
  "bt_values m \<equiv> map snd m"

text \<open>\<open>map.entry(k).or_insert(d)\<close> followed by an update of the entry.\<close>

definition bt_entry :: "'k::linorder \<Rightarrow> 'v \<Rightarrow> ('v \<Rightarrow> 'v) \<Rightarrow> ('k, 'v) BTreeMap \<Rightarrow> ('k, 'v) BTreeMap"
where
  "bt_entry k d f m = bt_insert k (f (case bt_get m k of None \<Rightarrow> d | Some v \<Rightarrow> v)) m"

definition bt_extend :: "('k::linorder, 'v) BTreeMap \<Rightarrow> ('k \<times> 'v) list \<Rightarrow> ('k, 'v) BTreeMap" where
  "bt_extend m ps = fold (\<lambda>(k, v). bt_insert k v) ps m"

definition bt_wf :: "('k::linorder, 'v) BTreeMap \<Rightarrow> bool" where
  "bt_wf m \<longleftrightarrow> sorted_wrt (<) (bt_keys m)"

text \<open>The contract of an ordered map, and what its clients derive from it.\<close>

locale ordered_map =
  fixes empty :: "'m"
    and insert :: "'k::linorder \<Rightarrow> 'v \<Rightarrow> 'm \<Rightarrow> 'm"
    and get :: "'m \<Rightarrow> 'k \<Rightarrow> 'v option"
    and wf :: "'m \<Rightarrow> bool"
  assumes get_empty: "get empty k = None"
    and get_insert: "get (insert k v m) k' = (if k' = k then Some v else get m k')"
    and wf_empty: "wf empty"
    and wf_insert: "wf m \<Longrightarrow> wf (insert k v m)"
    and wf_ext: "wf m \<Longrightarrow> wf m' \<Longrightarrow> (\<And>k. get m k = get m' k) \<Longrightarrow> m = m'"
begin

lemma wf_fold: "wf m \<Longrightarrow> wf (fold (\<lambda>x. insert (f x) (g x)) xs m)"
  by (induction xs arbitrary: m) (auto intro: wf_insert)

lemma get_fold_notin:
  "k \<notin> f ` set xs \<Longrightarrow> get (fold (\<lambda>x. insert (f x) (g x)) xs m) k = get m k"
  by (induction xs arbitrary: m) (auto simp: get_insert)

lemma get_fold_in:
  assumes "k \<in> f ` set xs"
  shows "\<exists>x \<in> set xs. f x = k \<and> get (fold (\<lambda>x. insert (f x) (g x)) xs m) k = Some (g x)"
  using assms
proof (induction xs rule: rev_induct)
  case Nil
  then show ?case by simp
next
  case (snoc x xs)
  then show ?case by (cases "f x = k") (auto simp: get_insert)
qed

lemma get_fold_in_unique:
  assumes "inj_on f (set xs)" and "x \<in> set xs"
  shows "get (fold (\<lambda>x. insert (f x) (g x)) xs m) (f x) = Some (g x)"
  using get_fold_in [of "f x" f xs g m] assms by (auto dest: inj_onD)

lemma insert_commute:
  assumes "wf m" and "k \<noteq> k'"
  shows "insert k v (insert k' v' m) = insert k' v' (insert k v m)"
  using assms by (intro wf_ext wf_insert) (auto simp: get_insert)

lemma insert_twice:
  assumes "wf m"
  shows "insert k v (insert k v' m) = insert k v m"
  using assms by (intro wf_ext wf_insert) (auto simp: get_insert)

end

lemma bt_get_insert_impl: "bt_get (bt_insert k v m) k' = (if k' = k then Some v else bt_get m k')"
  by (induction m) (auto simp: bt_get_def)

lemma keys_bt_insert [simp]: "fst ` set (bt_insert k v m) = Set.insert k (fst ` set m)"
proof (induction m)
  case (Cons p m)
  then show ?case by (cases p) auto
qed simp

lemma bt_wf_insert_impl: "bt_wf m \<Longrightarrow> bt_wf (bt_insert k v m)"
proof (induction m)
  case (Cons p m)
  show ?case
  proof (cases "fst p < k")
    case True
    with Cons show ?thesis by (fastforce simp: bt_wf_def)
  qed (use Cons in \<open>force simp: bt_wf_def\<close>)
qed (simp add: bt_wf_def)

lemma bt_ext_impl:
  assumes "bt_wf m" and "bt_wf m'" and "\<And>k. bt_get m k = bt_get m' k"
  shows "m = m'"
proof -
  have dist: "distinct (map fst m)" "distinct (map fst m')"
    using assms(1,2) by (auto simp: bt_wf_def strict_sorted_iff)
  have "map_of m = map_of m'"
    using assms(3) by (auto simp: bt_get_def)
  then have eq: "set m = set m'"
    using dist map_of_inject_set by blast
  have sorted: "sorted (map fst m)" "sorted (map fst m')"
    using assms(1,2) by (auto simp: bt_wf_def strict_sorted_iff)
  have inj: "inj_on fst (set m)"
    using dist by (simp add: distinct_map)
  have "mset m = mset m'"
    using dist eq by (metis distinct_map set_eq_iff_mset_eq_distinct)
  then show ?thesis
    using sort_key_inj_key_eq [OF _ inj] sorted by metis
qed

interpretation bt: ordered_map "[]" bt_insert bt_get bt_wf
proof
  show "bt_get [] k = None" for k :: 'a
    by (simp add: bt_get_def)
  show "bt_wf []"
    by (simp add: bt_wf_def)
qed (auto simp: bt_get_insert_impl intro: bt_wf_insert_impl bt_ext_impl)

text \<open>The entries after removing a key, inserting one and extending.\<close>

lemma insert_values: "set (bt_insert k v m) \<subseteq> insert (k, v) (set m)"
  by (induction k v m rule: bt_insert.induct) auto

lemma extend_values: "set (bt_extend m ps) \<subseteq> set m \<union> set ps"
proof (induction ps arbitrary: m)
  case (Cons p ps)
  obtain k v where p: "p = (k, v)" by (cases p)
  show ?case
    using Cons [of "bt_insert k v m"] insert_values [of k v m] by (auto simp: bt_extend_def p)
qed (simp add: bt_extend_def)

lemma bt_get_remove: "bt_get (bt_remove k m) k' = (if k' = k then None else bt_get m k')"
  by (induction m) (auto simp: bt_get_def bt_remove_def)

lemma bt_wf_remove: "bt_wf m \<Longrightarrow> bt_wf (bt_remove k m)"
  by (simp add: bt_wf_def bt_remove_def sorted_wrt_map sorted_wrt_filter)

lemma set_remove: "set (bt_remove k m) = {p \<in> set m. fst p \<noteq> k}"
  by (simp add: bt_remove_def)

lemma extended_keys: "fst ` set (bt_extend m ps) = fst ` set m \<union> fst ` set ps"
proof (induction ps arbitrary: m)
  case (Cons p ps)
  then show ?case by (cases p) (simp add: bt_extend_def)
qed (simp add: bt_extend_def)

lemma contains_key_iff: "bt_contains_key m k \<longleftrightarrow> k \<in> fst ` set m"
  by (simp add: bt_contains_key_def bt_get_def map_of_eq_None_iff)

section \<open>Hash sets\<close>

text \<open>
  A \<open>cord::Set\<close> (a hash set) as the list of its elements in iteration order; collecting an
  iterator into one drops repetitions.
\<close>

definition set_insert :: "'a \<Rightarrow> 'a list \<Rightarrow> 'a list" where
  "set_insert x xs = (if x \<in> set xs then xs else xs @ [x])"

definition collect_set :: "'a list \<Rightarrow> 'a list" where
  "collect_set xs = fold set_insert xs []"

lemma set_fold_insert: "set (fold set_insert xs acc) = set acc \<union> set xs"
  by (induction xs arbitrary: acc) (auto simp: set_insert_def)

lemma distinct_fold_insert: "distinct acc \<Longrightarrow> distinct (fold set_insert xs acc)"
  by (induction xs arbitrary: acc) (auto simp: set_insert_def)

lemma set_collect [simp]: "set (collect_set xs) = set xs"
  by (simp add: collect_set_def set_fold_insert)

lemma distinct_collect [simp]: "distinct (collect_set xs)"
  by (simp add: collect_set_def distinct_fold_insert)

end
