(* ===== verification/Thorax_Format.thy ===== *)
theory Thorax_Format
  imports Thorax_Prelude
begin

text \<open>
  The data model of \<open>crates/thorax-core/src/format.rs\<close>: identifiers, selectors, permissions,
  the fourteen record bodies, the record envelope, the vault and the persisted ratchet
  records, with the total, executable methods of that file. Constructors keep the names of
  the Rust variants and are used qualified (\<open>RecordBodyV1.User\<close>, \<open>RecordKey.User\<close>), record
  fields carry a prefix for their struct because Isabelle's record fields share one name
  space. \<open>KeyOrigin\<close> (of \<open>ratchet.rs\<close>) is here because the ratchet records refer to it.

  \<open>cord::Evolving\<close> is the wrapper of the serialisation library for bodies that a newer build
  may extend; the program uses it through \<open>known()\<close> only, so the model keeps its two cases.
  A \<open>cord::Set\<close> is the list of its elements in iteration order, without repetition.
\<close>

section \<open>Identifiers\<close>

datatype HashValue = HashValue Bytes
datatype UserId = UserId HashValue
datatype UserHandleId = UserHandleId HashValue
datatype VaultHandleId = VaultHandleId HashValue
datatype GroupId = GroupId HashValue
datatype GroupMemberId = GroupMemberId HashValue
datatype GrantId = GrantId HashValue
datatype SecretId = SecretId HashValue
datatype IdSeed = IdSeed Bytes

datatype PrincipalRefV1 = User UserId | Group GroupId

datatype RecordKey =
    VaultRoot
  | EntryPoint UserId
  | User UserId
  | UserHandle UserHandleId
  | Group GroupId
  | GroupMember GroupMemberId
  | Grant GrantId
  | Secret SecretId
  | VaultHandle VaultHandleId

record UserIdInputV1 =
  uii_signing_public_key :: Bytes
  uii_hpke_public_key :: Bytes

record GroupMemberIdInputV1 =
  gmi_group_id :: GroupId
  gmi_member_id :: PrincipalRefV1

subsection \<open>Derived orders\<close>

text \<open>
  The identifiers are keys of ordered maps. \<open>derive(Ord)\<close> compares a newtype by its content
  and an enum by the index of its variant first, then by its fields; each order is given by
  an injective key function into a type that is ordered already.
\<close>

primrec hash_bytes :: "HashValue \<Rightarrow> Bytes" where
  "hash_bytes (HashValue b) = b"

primrec principal_rank :: "PrincipalRefV1 \<Rightarrow> nat \<times> Bytes" where
  "principal_rank (PrincipalRefV1.User u) = (0, case u of UserId h \<Rightarrow> hash_bytes h)"
| "principal_rank (PrincipalRefV1.Group g) = (1, case g of GroupId h \<Rightarrow> hash_bytes h)"

primrec key_rank :: "RecordKey \<Rightarrow> nat \<times> Bytes" where
  "key_rank RecordKey.VaultRoot = (0, [])"
| "key_rank (RecordKey.EntryPoint u) = (1, case u of UserId h \<Rightarrow> hash_bytes h)"
| "key_rank (RecordKey.User u) = (2, case u of UserId h \<Rightarrow> hash_bytes h)"
| "key_rank (RecordKey.UserHandle u) = (3, case u of UserHandleId h \<Rightarrow> hash_bytes h)"
| "key_rank (RecordKey.Group u) = (4, case u of GroupId h \<Rightarrow> hash_bytes h)"
| "key_rank (RecordKey.GroupMember u) = (5, case u of GroupMemberId h \<Rightarrow> hash_bytes h)"
| "key_rank (RecordKey.Grant u) = (6, case u of GrantId h \<Rightarrow> hash_bytes h)"
| "key_rank (RecordKey.Secret u) = (7, case u of SecretId h \<Rightarrow> hash_bytes h)"
| "key_rank (RecordKey.VaultHandle u) = (8, case u of VaultHandleId h \<Rightarrow> hash_bytes h)"

lemma hash_bytes_inject: "hash_bytes a = hash_bytes b \<longleftrightarrow> a = b"
  by (cases a; cases b) simp

lemma principal_rank_inject: "principal_rank a = principal_rank b \<longleftrightarrow> a = b"
  by (cases a; cases b)
     (auto simp: hash_bytes_inject split: UserId.splits GroupId.splits)

lemma key_rank_inject: "key_rank a = key_rank b \<longleftrightarrow> a = b"
  by (cases a; cases b)
     (auto simp: hash_bytes_inject split: UserId.splits UserHandleId.splits GroupId.splits
        GroupMemberId.splits GrantId.splits SecretId.splits VaultHandleId.splits)

instantiation HashValue :: linorder
begin
definition less_eq_HashValue :: "HashValue \<Rightarrow> HashValue \<Rightarrow> bool" where
  "less_eq_HashValue a b \<longleftrightarrow> hash_bytes a \<le> hash_bytes b"
definition less_HashValue :: "HashValue \<Rightarrow> HashValue \<Rightarrow> bool" where
  "less_HashValue a b \<longleftrightarrow> hash_bytes a < hash_bytes b"
instance
  by standard (auto simp: less_eq_HashValue_def less_HashValue_def less_le_not_le hash_bytes_inject [symmetric])
end

instantiation PrincipalRefV1 :: linorder
begin
definition less_eq_PrincipalRefV1 :: "PrincipalRefV1 \<Rightarrow> PrincipalRefV1 \<Rightarrow> bool" where
  "less_eq_PrincipalRefV1 a b \<longleftrightarrow> principal_rank a \<le> principal_rank b"
definition less_PrincipalRefV1 :: "PrincipalRefV1 \<Rightarrow> PrincipalRefV1 \<Rightarrow> bool" where
  "less_PrincipalRefV1 a b \<longleftrightarrow> principal_rank a < principal_rank b"
instance
  by standard (auto simp: less_eq_PrincipalRefV1_def less_PrincipalRefV1_def less_le_not_le principal_rank_inject [symmetric])
end

instantiation RecordKey :: linorder
begin
definition less_eq_RecordKey :: "RecordKey \<Rightarrow> RecordKey \<Rightarrow> bool" where
  "less_eq_RecordKey a b \<longleftrightarrow> key_rank a \<le> key_rank b"
definition less_RecordKey :: "RecordKey \<Rightarrow> RecordKey \<Rightarrow> bool" where
  "less_RecordKey a b \<longleftrightarrow> key_rank a < key_rank b"
instance
  by standard (auto simp: less_eq_RecordKey_def less_RecordKey_def less_le_not_le key_rank_inject [symmetric])
end

instantiation UserId :: linorder
begin
definition less_eq_UserId :: "UserId \<Rightarrow> UserId \<Rightarrow> bool" where
  "less_eq_UserId a b \<longleftrightarrow> (case a of UserId x \<Rightarrow> case b of UserId y \<Rightarrow> x \<le> y)"
definition less_UserId :: "UserId \<Rightarrow> UserId \<Rightarrow> bool" where
  "less_UserId a b \<longleftrightarrow> (case a of UserId x \<Rightarrow> case b of UserId y \<Rightarrow> x < y)"
instance
  by standard (auto simp: less_eq_UserId_def less_UserId_def split: UserId.splits)
end

instantiation UserHandleId :: linorder
begin
definition less_eq_UserHandleId :: "UserHandleId \<Rightarrow> UserHandleId \<Rightarrow> bool" where
  "less_eq_UserHandleId a b \<longleftrightarrow> (case a of UserHandleId x \<Rightarrow> case b of UserHandleId y \<Rightarrow> x \<le> y)"
definition less_UserHandleId :: "UserHandleId \<Rightarrow> UserHandleId \<Rightarrow> bool" where
  "less_UserHandleId a b \<longleftrightarrow> (case a of UserHandleId x \<Rightarrow> case b of UserHandleId y \<Rightarrow> x < y)"
instance
  by standard (auto simp: less_eq_UserHandleId_def less_UserHandleId_def split: UserHandleId.splits)
end

instantiation VaultHandleId :: linorder
begin
definition less_eq_VaultHandleId :: "VaultHandleId \<Rightarrow> VaultHandleId \<Rightarrow> bool" where
  "less_eq_VaultHandleId a b \<longleftrightarrow> (case a of VaultHandleId x \<Rightarrow> case b of VaultHandleId y \<Rightarrow> x \<le> y)"
definition less_VaultHandleId :: "VaultHandleId \<Rightarrow> VaultHandleId \<Rightarrow> bool" where
  "less_VaultHandleId a b \<longleftrightarrow> (case a of VaultHandleId x \<Rightarrow> case b of VaultHandleId y \<Rightarrow> x < y)"
instance
  by standard (auto simp: less_eq_VaultHandleId_def less_VaultHandleId_def split: VaultHandleId.splits)
end

instantiation GroupId :: linorder
begin
definition less_eq_GroupId :: "GroupId \<Rightarrow> GroupId \<Rightarrow> bool" where
  "less_eq_GroupId a b \<longleftrightarrow> (case a of GroupId x \<Rightarrow> case b of GroupId y \<Rightarrow> x \<le> y)"
definition less_GroupId :: "GroupId \<Rightarrow> GroupId \<Rightarrow> bool" where
  "less_GroupId a b \<longleftrightarrow> (case a of GroupId x \<Rightarrow> case b of GroupId y \<Rightarrow> x < y)"
instance
  by standard (auto simp: less_eq_GroupId_def less_GroupId_def split: GroupId.splits)
end

instantiation GroupMemberId :: linorder
begin
definition less_eq_GroupMemberId :: "GroupMemberId \<Rightarrow> GroupMemberId \<Rightarrow> bool" where
  "less_eq_GroupMemberId a b \<longleftrightarrow> (case a of GroupMemberId x \<Rightarrow> case b of GroupMemberId y \<Rightarrow> x \<le> y)"
definition less_GroupMemberId :: "GroupMemberId \<Rightarrow> GroupMemberId \<Rightarrow> bool" where
  "less_GroupMemberId a b \<longleftrightarrow> (case a of GroupMemberId x \<Rightarrow> case b of GroupMemberId y \<Rightarrow> x < y)"
instance
  by standard (auto simp: less_eq_GroupMemberId_def less_GroupMemberId_def split: GroupMemberId.splits)
end

instantiation GrantId :: linorder
begin
definition less_eq_GrantId :: "GrantId \<Rightarrow> GrantId \<Rightarrow> bool" where
  "less_eq_GrantId a b \<longleftrightarrow> (case a of GrantId x \<Rightarrow> case b of GrantId y \<Rightarrow> x \<le> y)"
definition less_GrantId :: "GrantId \<Rightarrow> GrantId \<Rightarrow> bool" where
  "less_GrantId a b \<longleftrightarrow> (case a of GrantId x \<Rightarrow> case b of GrantId y \<Rightarrow> x < y)"
instance
  by standard (auto simp: less_eq_GrantId_def less_GrantId_def split: GrantId.splits)
end

instantiation SecretId :: linorder
begin
definition less_eq_SecretId :: "SecretId \<Rightarrow> SecretId \<Rightarrow> bool" where
  "less_eq_SecretId a b \<longleftrightarrow> (case a of SecretId x \<Rightarrow> case b of SecretId y \<Rightarrow> x \<le> y)"
definition less_SecretId :: "SecretId \<Rightarrow> SecretId \<Rightarrow> bool" where
  "less_SecretId a b \<longleftrightarrow> (case a of SecretId x \<Rightarrow> case b of SecretId y \<Rightarrow> x < y)"
instance
  by standard (auto simp: less_eq_SecretId_def less_SecretId_def split: SecretId.splits)
end

section \<open>Selectors and permissions\<close>

record SecretLabelV1 =
  label_key :: string
  label_value :: string

record SecretSelectorV1 =
  sel_tuple :: "string list"
  sel_labels :: "SecretLabelV1 list"

datatype TupleMatcherV1 = Any | Exact "string list" | Prefix "string list"

datatype LabelMatcherV1 = Any | Equals string | In "string list" | Absent

record KeyspaceLabelMatcherV1 =
  klm_key :: string
  klm_matcher :: LabelMatcherV1

record KeyspaceSelectorV1 =
  ks_tuple :: TupleMatcherV1
  ks_labels :: "KeyspaceLabelMatcherV1 list"

datatype KeyspaceGrantClassV1 = Read | Write | Manage

record ManageKeyspaceGrantV1 =
  mk_selector :: KeyspaceSelectorV1
  mk_grantable :: "KeyspaceGrantClassV1 list"

datatype GrantPermissionV1 =
    ReadKeyspace KeyspaceSelectorV1
  | WriteKeyspace KeyspaceSelectorV1
  | ManageKeyspace ManageKeyspaceGrantV1
  | Administer

text \<open>\<open>SecretSelectorV1::tuple\<close> and the constructors of \<open>KeyspaceSelectorV1\<close>.\<close>

definition selector_tuple :: "string list \<Rightarrow> SecretSelectorV1" where
  "selector_tuple parts = \<lparr>sel_tuple = parts, sel_labels = []\<rparr>"

definition keyspace_all :: KeyspaceSelectorV1 where
  "keyspace_all = \<lparr>ks_tuple = TupleMatcherV1.Any, ks_labels = []\<rparr>"

definition keyspace_exact :: "string list \<Rightarrow> KeyspaceSelectorV1" where
  "keyspace_exact parts = \<lparr>ks_tuple = Exact parts, ks_labels = []\<rparr>"

definition keyspace_prefix :: "string list \<Rightarrow> KeyspaceSelectorV1" where
  "keyspace_prefix parts =
     (if parts = [] then keyspace_all else \<lparr>ks_tuple = Prefix parts, ks_labels = []\<rparr>)"

text \<open>The derived order of the grant classes.\<close>

primrec class_rank :: "KeyspaceGrantClassV1 \<Rightarrow> nat" where
  "class_rank Read = 0"
| "class_rank Write = 1"
| "class_rank Manage = 2"

lemma class_rank_inject: "class_rank a = class_rank b \<longleftrightarrow> a = b"
  by (cases a; cases b) simp_all

instantiation KeyspaceGrantClassV1 :: linorder
begin
definition less_eq_KeyspaceGrantClassV1 :: "KeyspaceGrantClassV1 \<Rightarrow> KeyspaceGrantClassV1 \<Rightarrow> bool" where
  "less_eq_KeyspaceGrantClassV1 a b \<longleftrightarrow> class_rank a \<le> class_rank b"
definition less_KeyspaceGrantClassV1 :: "KeyspaceGrantClassV1 \<Rightarrow> KeyspaceGrantClassV1 \<Rightarrow> bool" where
  "less_KeyspaceGrantClassV1 a b \<longleftrightarrow> class_rank a < class_rank b"
instance
  by standard (auto simp: less_eq_KeyspaceGrantClassV1_def less_KeyspaceGrantClassV1_def
      less_le_not_le class_rank_inject [symmetric])
end

section \<open>Secret payloads\<close>

record RecipientSlotV1 =
  recipient_id :: UserId
  hpke_encapsulated_key :: Bytes
  wrapped_content_key :: Bytes

record SealedPayloadV1 =
  sealed_nonce :: Bytes
  sealed_ciphertext :: Bytes
  recipient_slots :: "RecipientSlotV1 list"

record SecretFieldEntryV1 =
  field_key :: string
  field_value :: Bytes

record SecretValueV1 =
  sv_primary :: Bytes
  sv_fields :: "SecretFieldEntryV1 list"

definition from_primary :: "Bytes \<Rightarrow> SecretValueV1" where
  "from_primary primary = \<lparr>sv_primary = primary, sv_fields = []\<rparr>"

section \<open>Record bodies\<close>

record VaultRootRecordV1 =
  root_id :: UserId
  root_hpke_public_key :: Bytes

record EntryPointRecordV1 =
  ep_trusted_root_user_id :: UserId
  ep_hpke_public_key :: Bytes
  ep_counter :: u64

record UserRecordV1 =
  user_id :: UserId
  user_signing_public_key :: Bytes
  user_hpke_public_key :: Bytes
  user_counter :: u64

record UserHandleRecordV1 =
  uh_id :: UserHandleId
  uh_handle :: string
  uh_user_id :: UserId
  uh_counter :: u64

record VaultHandleRecordV1 =
  vh_id :: VaultHandleId
  vh_handle :: string
  vh_counter :: u64

record GroupRecordV1 =
  group_id :: GroupId
  group_seed :: IdSeed
  group_handle :: string
  group_counter :: u64

record GroupDeletedRecordV1 =
  gd_id :: GroupId
  gd_counter :: u64

record GroupMemberRecordV1 =
  gm_id :: GroupMemberId
  gm_group_id :: GroupId
  gm_member_id :: PrincipalRefV1
  gm_counter :: u64

record GroupMemberDeletedRecordV1 =
  gmd_id :: GroupMemberId
  gmd_group_id :: GroupId
  gmd_member_id :: PrincipalRefV1
  gmd_counter :: u64

record GrantRecordV1 =
  grant_id :: GrantId
  grant_seed :: IdSeed
  grant_subject_id :: PrincipalRefV1
  grant_permission :: GrantPermissionV1
  grant_counter :: u64

record GrantDeletedRecordV1 =
  grd_id :: GrantId
  grd_permission :: GrantPermissionV1
  grd_counter :: u64

record UserDeletedRecordV1 =
  ud_id :: UserId
  ud_reason :: "string option"
  ud_counter :: u64

record SecretRecordV1 =
  secret_id :: SecretId
  secret_selector :: SecretSelectorV1
  secret_sealed :: SealedPayloadV1
  secret_counter :: u64

record SecretDeletedRecordV1 =
  sd_id :: SecretId
  sd_selector :: SecretSelectorV1
  sd_counter :: u64

datatype RecordBodyV1 =
    VaultRoot VaultRootRecordV1
  | EntryPoint EntryPointRecordV1
  | User UserRecordV1
  | UserHandle UserHandleRecordV1
  | Group GroupRecordV1
  | GroupDeleted GroupDeletedRecordV1
  | GroupMember GroupMemberRecordV1
  | GroupMemberDeleted GroupMemberDeletedRecordV1
  | Grant GrantRecordV1
  | GrantDeleted GrantDeletedRecordV1
  | UserDeleted UserDeletedRecordV1
  | Secret SecretRecordV1
  | SecretDeleted SecretDeletedRecordV1
  | VaultHandle VaultHandleRecordV1

primrec lww_counter :: "RecordBodyV1 \<Rightarrow> u64 option" where
  "lww_counter (RecordBodyV1.EntryPoint r) = Some (ep_counter r)"
| "lww_counter (RecordBodyV1.User r) = Some (user_counter r)"
| "lww_counter (RecordBodyV1.UserDeleted r) = Some (ud_counter r)"
| "lww_counter (RecordBodyV1.UserHandle r) = Some (uh_counter r)"
| "lww_counter (RecordBodyV1.VaultHandle r) = Some (vh_counter r)"
| "lww_counter (RecordBodyV1.Group r) = Some (group_counter r)"
| "lww_counter (RecordBodyV1.GroupDeleted r) = Some (gd_counter r)"
| "lww_counter (RecordBodyV1.GroupMember r) = Some (gm_counter r)"
| "lww_counter (RecordBodyV1.GroupMemberDeleted r) = Some (gmd_counter r)"
| "lww_counter (RecordBodyV1.Grant r) = Some (grant_counter r)"
| "lww_counter (RecordBodyV1.GrantDeleted r) = Some (grd_counter r)"
| "lww_counter (RecordBodyV1.Secret r) = Some (secret_counter r)"
| "lww_counter (RecordBodyV1.SecretDeleted r) = Some (sd_counter r)"
| "lww_counter (RecordBodyV1.VaultRoot r) = None"

primrec with_lww_counter :: "RecordBodyV1 \<Rightarrow> u64 \<Rightarrow> RecordBodyV1 option" where
  "with_lww_counter (RecordBodyV1.EntryPoint r) c = Some (RecordBodyV1.EntryPoint (r\<lparr>ep_counter := c\<rparr>))"
| "with_lww_counter (RecordBodyV1.User r) c = Some (RecordBodyV1.User (r\<lparr>user_counter := c\<rparr>))"
| "with_lww_counter (RecordBodyV1.UserDeleted r) c = Some (RecordBodyV1.UserDeleted (r\<lparr>ud_counter := c\<rparr>))"
| "with_lww_counter (RecordBodyV1.UserHandle r) c = Some (RecordBodyV1.UserHandle (r\<lparr>uh_counter := c\<rparr>))"
| "with_lww_counter (RecordBodyV1.VaultHandle r) c = Some (RecordBodyV1.VaultHandle (r\<lparr>vh_counter := c\<rparr>))"
| "with_lww_counter (RecordBodyV1.Group r) c = Some (RecordBodyV1.Group (r\<lparr>group_counter := c\<rparr>))"
| "with_lww_counter (RecordBodyV1.GroupDeleted r) c = Some (RecordBodyV1.GroupDeleted (r\<lparr>gd_counter := c\<rparr>))"
| "with_lww_counter (RecordBodyV1.GroupMember r) c = Some (RecordBodyV1.GroupMember (r\<lparr>gm_counter := c\<rparr>))"
| "with_lww_counter (RecordBodyV1.GroupMemberDeleted r) c =
     Some (RecordBodyV1.GroupMemberDeleted (r\<lparr>gmd_counter := c\<rparr>))"
| "with_lww_counter (RecordBodyV1.Grant r) c = Some (RecordBodyV1.Grant (r\<lparr>grant_counter := c\<rparr>))"
| "with_lww_counter (RecordBodyV1.GrantDeleted r) c = Some (RecordBodyV1.GrantDeleted (r\<lparr>grd_counter := c\<rparr>))"
| "with_lww_counter (RecordBodyV1.Secret r) c = Some (RecordBodyV1.Secret (r\<lparr>secret_counter := c\<rparr>))"
| "with_lww_counter (RecordBodyV1.SecretDeleted r) c = Some (RecordBodyV1.SecretDeleted (r\<lparr>sd_counter := c\<rparr>))"
| "with_lww_counter (RecordBodyV1.VaultRoot r) c = None"

fun is_deletion :: "RecordBodyV1 \<Rightarrow> bool" where
  "is_deletion (RecordBodyV1.UserDeleted _) = True"
| "is_deletion (RecordBodyV1.GroupDeleted _) = True"
| "is_deletion (RecordBodyV1.GroupMemberDeleted _) = True"
| "is_deletion (RecordBodyV1.GrantDeleted _) = True"
| "is_deletion (RecordBodyV1.SecretDeleted _) = True"
| "is_deletion _ = False"

section \<open>Envelope and vault\<close>

datatype 'a Evolving = Known 'a | Unknown Bytes

primrec known :: "'a Evolving \<Rightarrow> 'a option" where
  "known (Known x) = Some x"
| "known (Unknown b) = None"

record VaultRecordV1 =
  rec_body :: "RecordBodyV1 Evolving"
  rec_signing_public_key :: Bytes
  rec_signature :: Bytes

record VaultStoreV1 =
  vs_records :: "VaultRecordV1 list"

datatype VaultStore = V1 VaultStoreV1

primrec format_version :: "VaultStore \<Rightarrow> u64" where
  "format_version (VaultStore.V1 v) = 1"

end
