(* ===== verification/Thorax_Crypto.thy ===== *)
theory Thorax_Crypto
  imports Thorax_Format
begin

text \<open>
  Hashing, identity derivation and record signing: \<open>crypto.rs\<close>, \<open>ids.rs\<close> and the record
  builders of \<open>hazmat.rs\<close> in \<open>crates/thorax-core/src\<close>.

  The canonical serialiser \<open>cord::serialize\<close> and the hash and signature primitives behind the
  \<open>CryptoProvider\<close> trait are not part of the repository's core; they are the fields of the
  record \<open>CryptoProvider\<close>, an argument of every definition that uses them. The types that the
  core serialises are the constructors of \<open>CordValue\<close>. The repository's own provider,
  \<open>DeterministicCrypto\<close>, is modelled and interprets the contract of signatures.
\<close>

section \<open>Serialisation, hashing, signing\<close>

datatype CordError = CordError string

datatype CoreError = Cord CordError | Validation string

datatype CordValue =
    CvStr string
  | CvBytes Bytes
  | CvSeed IdSeed
  | CvUserIdInput UserIdInputV1
  | CvGroupMemberIdInput GroupMemberIdInputV1
  | CvSelector SecretSelectorV1
  | CvBody "RecordBodyV1 Evolving"
  | CvRecord VaultRecordV1

record CryptoProvider =
  cord_serialize :: "CordValue \<Rightarrow> CordError + Bytes"
  crypto_hash :: "string \<Rightarrow> Bytes \<Rightarrow> HashValue"
  verify_signature :: "string \<Rightarrow> Bytes \<Rightarrow> Bytes \<Rightarrow> Bytes \<Rightarrow> bool"

record RecordSigner =
  signer_user_id :: UserId
  signer_signing_public_key :: Bytes
  signer_hpke_public_key :: Bytes
  signer_sign :: "string \<Rightarrow> Bytes \<Rightarrow> Bytes"

definition canonical_bytes :: "CryptoProvider \<Rightarrow> CordValue \<Rightarrow> CoreError + Bytes" where
  "canonical_bytes crypto value = map_err Cord (cord_serialize crypto value)"

definition derive_hash :: "CryptoProvider \<Rightarrow> string \<Rightarrow> CordValue \<Rightarrow> CoreError + HashValue" where
  "derive_hash crypto domain value =
     and_then (canonical_bytes crypto value) (\<lambda>b. Inr (crypto_hash crypto domain b))"

definition derive_user_id :: "CryptoProvider \<Rightarrow> Bytes \<Rightarrow> Bytes \<Rightarrow> CoreError + UserId" where
  "derive_user_id crypto signing_public_key hpke_public_key =
     and_then (derive_hash crypto ''thorax.user.v1''
        (CvUserIdInput \<lparr>uii_signing_public_key = signing_public_key,
                        uii_hpke_public_key = hpke_public_key\<rparr>))
       (\<lambda>h. Inr (UserId h))"

definition derive_seeded_hash :: "CryptoProvider \<Rightarrow> string \<Rightarrow> IdSeed \<Rightarrow> CoreError + HashValue" where
  "derive_seeded_hash crypto domain seed = derive_hash crypto domain (CvSeed seed)"

definition key_hash :: "CryptoProvider \<Rightarrow> Bytes \<Rightarrow> CoreError + HashValue" where
  "key_hash crypto public_key = derive_hash crypto ''thorax.key.v1'' (CvBytes public_key)"

definition signed_record_message :: "CryptoProvider \<Rightarrow> VaultRecordV1 \<Rightarrow> CoreError + Bytes" where
  "signed_record_message crypto sr = canonical_bytes crypto (CvBody (rec_body sr))"

definition record_hash :: "CryptoProvider \<Rightarrow> VaultRecordV1 \<Rightarrow> CoreError + HashValue" where
  "record_hash crypto sr = derive_hash crypto ''thorax.record-hash.v1'' (CvRecord sr)"

section \<open>The deterministic provider\<close>

definition str_bytes :: "string \<Rightarrow> Bytes" where
  "str_bytes s = map of_char s"

definition det_hash_step :: "Bytes \<Rightarrow> nat \<Rightarrow> u8 \<Rightarrow> Bytes" where
  "det_hash_step state idx byte =
     (let lane = idx mod 32;
          state1 = state[lane := state ! lane * 31 + byte
                                 + word_rotl (lane mod 7) (of_nat idx)];
          j = (lane * 7) mod 32
      in state1[j := xor (state1 ! j) (word_rotl (idx mod 8) byte)])"

fun det_hash_loop :: "Bytes \<Rightarrow> nat \<Rightarrow> Bytes \<Rightarrow> Bytes" where
  "det_hash_loop state idx [] = state"
| "det_hash_loop state idx (b # bs) = det_hash_loop (det_hash_step state idx b) (Suc idx) bs"

definition det_hash :: "string \<Rightarrow> Bytes \<Rightarrow> HashValue" where
  "det_hash domain bytes =
     HashValue (det_hash_loop (replicate 32 0) 0 (str_bytes domain @ [0xff] @ bytes))"

definition det_sign :: "string \<Rightarrow> Bytes \<Rightarrow> Bytes \<Rightarrow> Bytes" where
  "det_sign domain public_key message = hash_bytes (det_hash domain (public_key @ message))"

definition det_verify_signature :: "string \<Rightarrow> Bytes \<Rightarrow> Bytes \<Rightarrow> Bytes \<Rightarrow> bool" where
  "det_verify_signature domain public_key message signature \<longleftrightarrow>
     det_sign domain public_key message = signature"

definition DeterministicCrypto :: "(CordValue \<Rightarrow> CordError + Bytes) \<Rightarrow> CryptoProvider" where
  "DeterministicCrypto serialize =
     \<lparr>cord_serialize = serialize, crypto_hash = det_hash, verify_signature = det_verify_signature\<rparr>"

section \<open>Handles and derived identifiers\<close>

text \<open>
  \<open>str::trim\<close> removes Unicode white space, so it works on characters: a lead byte with its
  continuation bytes.
\<close>

definition is_continuation :: "char \<Rightarrow> bool" where
  "is_continuation c \<longleftrightarrow> 128 \<le> (of_char c :: nat) \<and> (of_char c :: nat) < 192"

function utf8_chars :: "string \<Rightarrow> string list" where
  "utf8_chars [] = []"
| "utf8_chars (c # cs) =
     (c # takeWhile is_continuation cs) # utf8_chars (dropWhile is_continuation cs)"
  by pat_completeness auto
termination
  by (relation "measure length") (auto simp: le_imp_less_Suc length_dropWhile_le)

definition is_whitespace :: "string \<Rightarrow> bool" where
  "is_whitespace ch \<longleftrightarrow>
     (let b = map (\<lambda>c. of_char c :: nat) ch in
      b \<in> set [[9], [10], [11], [12], [13], [32], [0xC2, 0x85], [0xC2, 0xA0],
              [0xE1, 0x9A, 0x80], [0xE2, 0x80, 0xA8], [0xE2, 0x80, 0xA9], [0xE2, 0x80, 0xAF],
              [0xE2, 0x81, 0x9F], [0xE3, 0x80, 0x80]]
      \<or> (length b = 3 \<and> take 2 b = [0xE2, 0x80] \<and> 0x80 \<le> b ! 2 \<and> b ! 2 \<le> 0x8A))"

definition str_trim :: "string \<Rightarrow> string" where
  "str_trim s =
     concat (rev (dropWhile is_whitespace (rev (dropWhile is_whitespace (utf8_chars s)))))"

definition to_ascii_lowercase :: "char \<Rightarrow> char" where
  "to_ascii_lowercase c =
     (let n = (of_char c :: nat) in if 65 \<le> n \<and> n \<le> 90 then char_of (n + 32) else c)"

definition normalize_handle :: "string \<Rightarrow> string" where
  "normalize_handle handle = map to_ascii_lowercase (str_trim handle)"

definition MAX_HANDLE_LEN :: nat where
  "MAX_HANDLE_LEN = 64"

definition is_handle_alnum :: "char \<Rightarrow> bool" where
  "is_handle_alnum c \<longleftrightarrow>
     (let n = (of_char c :: nat) in 97 \<le> n \<and> n \<le> 122 \<or> 48 \<le> n \<and> n \<le> 57)"

definition is_handle_inner :: "char \<Rightarrow> bool" where
  "is_handle_inner c \<longleftrightarrow> is_handle_alnum c \<or> c = CHR ''-'' \<or> c = CHR ''_''"

definition is_valid_handle :: "string \<Rightarrow> bool" where
  "is_valid_handle handle \<longleftrightarrow>
     (if handle = [] \<or> length handle > MAX_HANDLE_LEN then False
      else is_handle_alnum (hd handle) \<and> is_handle_alnum (last handle)
           \<and> list_all is_handle_inner handle)"

definition derive_user_handle_id :: "CryptoProvider \<Rightarrow> string \<Rightarrow> CoreError + UserHandleId" where
  "derive_user_handle_id crypto handle =
     and_then (derive_hash crypto ''thorax.handle.v1'' (CvStr (normalize_handle handle)))
       (\<lambda>h. Inr (UserHandleId h))"

definition derive_vault_handle_id :: "CryptoProvider \<Rightarrow> string \<Rightarrow> CoreError + VaultHandleId" where
  "derive_vault_handle_id crypto handle =
     and_then (derive_hash crypto ''thorax.vault-handle.v1'' (CvStr (normalize_handle handle)))
       (\<lambda>h. Inr (VaultHandleId h))"

definition derive_grant_id :: "CryptoProvider \<Rightarrow> IdSeed \<Rightarrow> CoreError + GrantId" where
  "derive_grant_id crypto seed =
     and_then (derive_seeded_hash crypto ''thorax.grant.v1'' seed) (\<lambda>h. Inr (GrantId h))"

definition derive_group_id :: "CryptoProvider \<Rightarrow> IdSeed \<Rightarrow> CoreError + GroupId" where
  "derive_group_id crypto seed =
     and_then (derive_seeded_hash crypto ''thorax.group.v1'' seed) (\<lambda>h. Inr (GroupId h))"

definition derive_group_member_id ::
  "CryptoProvider \<Rightarrow> GroupId \<Rightarrow> PrincipalRefV1 \<Rightarrow> CoreError + GroupMemberId" where
  "derive_group_member_id crypto g m =
     and_then (derive_hash crypto ''thorax.group-member.v1''
        (CvGroupMemberIdInput \<lparr>gmi_group_id = g, gmi_member_id = m\<rparr>))
       (\<lambda>h. Inr (GroupMemberId h))"

definition derive_secret_id :: "CryptoProvider \<Rightarrow> SecretSelectorV1 \<Rightarrow> CoreError + SecretId" where
  "derive_secret_id crypto selector =
     and_then (derive_hash crypto ''thorax.secret.v1'' (CvSelector selector)) (\<lambda>h. Inr (SecretId h))"

section \<open>Record builders\<close>

datatype HazmatError = Core CoreError | InvalidSignerIdentity UserId UserId

definition append_record :: "VaultStore \<Rightarrow> VaultRecordV1 \<Rightarrow> VaultStore" where
  "append_record vault sr =
     (case vault of VaultStore.V1 v1 \<Rightarrow>
        VaultStore.V1 (v1\<lparr>vs_records := (if sr \<in> set (vs_records v1) then vs_records v1
                                         else vs_records v1 @ [sr])\<rparr>))"

definition record_payload :: "RecordBodyV1 \<Rightarrow> RecordBodyV1 Evolving" where
  "record_payload body = Known body"

definition vault_root_record_payload ::
  "CryptoProvider \<Rightarrow> Bytes \<Rightarrow> Bytes \<Rightarrow> HazmatError + RecordBodyV1 Evolving" where
  "vault_root_record_payload crypto spk hpk =
     and_then (map_err Core (derive_user_id crypto spk hpk)) (\<lambda>i.
       Inr (record_payload (RecordBodyV1.VaultRoot \<lparr>root_id = i, root_hpke_public_key = hpk\<rparr>)))"

definition entry_point_record_payload :: "UserId \<Rightarrow> Bytes \<Rightarrow> u64 \<Rightarrow> RecordBodyV1 Evolving" where
  "entry_point_record_payload trusted_root_user_id hpk counter =
     record_payload (RecordBodyV1.EntryPoint
       \<lparr>ep_trusted_root_user_id = trusted_root_user_id, ep_hpke_public_key = hpk,
        ep_counter = counter\<rparr>)"

definition user_record_payload ::
  "CryptoProvider \<Rightarrow> Bytes \<Rightarrow> Bytes \<Rightarrow> u64 \<Rightarrow> HazmatError + RecordBodyV1 Evolving" where
  "user_record_payload crypto spk hpk counter =
     and_then (map_err Core (derive_user_id crypto spk hpk)) (\<lambda>i.
       Inr (record_payload (RecordBodyV1.User
         \<lparr>user_id = i, user_signing_public_key = spk, user_hpke_public_key = hpk,
          user_counter = counter\<rparr>)))"

definition user_handle_record_payload ::
  "CryptoProvider \<Rightarrow> string \<Rightarrow> UserId \<Rightarrow> u64 \<Rightarrow> HazmatError + RecordBodyV1 Evolving" where
  "user_handle_record_payload crypto handle user counter =
     and_then (map_err Core (derive_user_handle_id crypto handle)) (\<lambda>i.
       Inr (record_payload (RecordBodyV1.UserHandle
         \<lparr>uh_id = i, uh_handle = handle, uh_user_id = user, uh_counter = counter\<rparr>)))"

definition vault_handle_record_payload ::
  "CryptoProvider \<Rightarrow> string \<Rightarrow> u64 \<Rightarrow> HazmatError + RecordBodyV1 Evolving" where
  "vault_handle_record_payload crypto handle counter =
     and_then (map_err Core (derive_vault_handle_id crypto handle)) (\<lambda>i.
       Inr (record_payload (RecordBodyV1.VaultHandle
         \<lparr>vh_id = i, vh_handle = handle, vh_counter = counter\<rparr>)))"

definition grant_record_payload ::
  "CryptoProvider \<Rightarrow> PrincipalRefV1 \<Rightarrow> GrantPermissionV1 \<Rightarrow> IdSeed \<Rightarrow> u64
     \<Rightarrow> HazmatError + RecordBodyV1 Evolving" where
  "grant_record_payload crypto subject permission seed counter =
     and_then (map_err Core (derive_grant_id crypto seed)) (\<lambda>i.
       Inr (record_payload (RecordBodyV1.Grant
         \<lparr>grant_id = i, grant_seed = seed, grant_subject_id = subject,
          grant_permission = permission, grant_counter = counter\<rparr>)))"

definition grant_deleted_record_payload ::
  "GrantId \<Rightarrow> GrantPermissionV1 \<Rightarrow> u64 \<Rightarrow> RecordBodyV1 Evolving" where
  "grant_deleted_record_payload gid permission counter =
     record_payload (RecordBodyV1.GrantDeleted
       \<lparr>grd_id = gid, grd_permission = permission, grd_counter = counter\<rparr>)"

definition group_record_payload ::
  "CryptoProvider \<Rightarrow> IdSeed \<Rightarrow> string \<Rightarrow> u64 \<Rightarrow> HazmatError + RecordBodyV1 Evolving" where
  "group_record_payload crypto seed handle counter =
     and_then (map_err Core (derive_group_id crypto seed)) (\<lambda>i.
       Inr (record_payload (RecordBodyV1.Group
         \<lparr>group_id = i, group_seed = seed, group_handle = handle, group_counter = counter\<rparr>)))"

definition group_deleted_record_payload :: "GroupId \<Rightarrow> u64 \<Rightarrow> RecordBodyV1 Evolving" where
  "group_deleted_record_payload gid counter =
     record_payload (RecordBodyV1.GroupDeleted \<lparr>gd_id = gid, gd_counter = counter\<rparr>)"

definition group_member_record_payload ::
  "CryptoProvider \<Rightarrow> GroupId \<Rightarrow> PrincipalRefV1 \<Rightarrow> u64 \<Rightarrow> HazmatError + RecordBodyV1 Evolving" where
  "group_member_record_payload crypto g m counter =
     and_then (map_err Core (derive_group_member_id crypto g m)) (\<lambda>i.
       Inr (record_payload (RecordBodyV1.GroupMember
         \<lparr>gm_id = i, gm_group_id = g, gm_member_id = m, gm_counter = counter\<rparr>)))"

definition group_member_deleted_record_payload ::
  "CryptoProvider \<Rightarrow> GroupId \<Rightarrow> PrincipalRefV1 \<Rightarrow> u64 \<Rightarrow> HazmatError + RecordBodyV1 Evolving" where
  "group_member_deleted_record_payload crypto g m counter =
     and_then (map_err Core (derive_group_member_id crypto g m)) (\<lambda>i.
       Inr (record_payload (RecordBodyV1.GroupMemberDeleted
         \<lparr>gmd_id = i, gmd_group_id = g, gmd_member_id = m, gmd_counter = counter\<rparr>)))"

definition user_deleted_record_payload ::
  "UserId \<Rightarrow> string option \<Rightarrow> u64 \<Rightarrow> RecordBodyV1 Evolving" where
  "user_deleted_record_payload user reason counter =
     record_payload (RecordBodyV1.UserDeleted \<lparr>ud_id = user, ud_reason = reason, ud_counter = counter\<rparr>)"

definition secret_record_payload ::
  "CryptoProvider \<Rightarrow> SecretSelectorV1 \<Rightarrow> SealedPayloadV1 \<Rightarrow> u64
     \<Rightarrow> HazmatError + RecordBodyV1 Evolving" where
  "secret_record_payload crypto selector sealed counter =
     and_then (map_err Core (derive_secret_id crypto selector)) (\<lambda>i.
       Inr (record_payload (RecordBodyV1.Secret
         \<lparr>secret_id = i, secret_selector = selector, secret_sealed = sealed,
          secret_counter = counter\<rparr>)))"

definition secret_deleted_record_payload ::
  "CryptoProvider \<Rightarrow> SecretSelectorV1 \<Rightarrow> u64 \<Rightarrow> HazmatError + RecordBodyV1 Evolving" where
  "secret_deleted_record_payload crypto selector counter =
     and_then (map_err Core (derive_secret_id crypto selector)) (\<lambda>i.
       Inr (record_payload (RecordBodyV1.SecretDeleted
         \<lparr>sd_id = i, sd_selector = selector, sd_counter = counter\<rparr>)))"

definition ensure_identity_consistent :: "CryptoProvider \<Rightarrow> RecordSigner \<Rightarrow> HazmatError + UserId" where
  "ensure_identity_consistent crypto signer =
     and_then (map_err Core (derive_user_id crypto (signer_signing_public_key signer)
                                                 (signer_hpke_public_key signer))) (\<lambda>derived.
       if derived = signer_user_id signer then Inr derived
       else Inl (InvalidSignerIdentity (signer_user_id signer) derived))"

definition signed_payload ::
  "CryptoProvider \<Rightarrow> RecordSigner \<Rightarrow> RecordBodyV1 Evolving \<Rightarrow> HazmatError + VaultRecordV1" where
  "signed_payload crypto signer body =
     and_then (ensure_identity_consistent crypto signer) (\<lambda>_.
       let unsigned_rec = \<lparr>rec_body = body, rec_signing_public_key = signer_signing_public_key signer,
                           rec_signature = []\<rparr>
       in and_then (map_err Core (signed_record_message crypto unsigned_rec)) (\<lambda>message.
            Inr (unsigned_rec\<lparr>rec_signature := signer_sign signer ''thorax.signed.v1'' message\<rparr>)))"

text \<open>The signed form of each payload.\<close>

definition vault_root_record :: "CryptoProvider \<Rightarrow> RecordSigner \<Rightarrow> HazmatError + VaultRecordV1" where
  "vault_root_record crypto root =
     and_then (vault_root_record_payload crypto (signer_signing_public_key root)
                 (signer_hpke_public_key root)) (signed_payload crypto root)"

definition entry_point_record ::
  "CryptoProvider \<Rightarrow> RecordSigner \<Rightarrow> UserId \<Rightarrow> u64 \<Rightarrow> HazmatError + VaultRecordV1" where
  "entry_point_record crypto signer trusted_root_user_id counter =
     signed_payload crypto signer
       (entry_point_record_payload trusted_root_user_id (signer_hpke_public_key signer) counter)"

definition user_record ::
  "CryptoProvider \<Rightarrow> RecordSigner \<Rightarrow> Bytes \<Rightarrow> Bytes \<Rightarrow> u64 \<Rightarrow> HazmatError + VaultRecordV1" where
  "user_record crypto signer spk hpk counter =
     and_then (user_record_payload crypto spk hpk counter) (signed_payload crypto signer)"

definition user_handle_record ::
  "CryptoProvider \<Rightarrow> RecordSigner \<Rightarrow> string \<Rightarrow> UserId \<Rightarrow> u64 \<Rightarrow> HazmatError + VaultRecordV1" where
  "user_handle_record crypto signer handle user counter =
     and_then (user_handle_record_payload crypto handle user counter) (signed_payload crypto signer)"

definition vault_handle_record ::
  "CryptoProvider \<Rightarrow> RecordSigner \<Rightarrow> string \<Rightarrow> u64 \<Rightarrow> HazmatError + VaultRecordV1" where
  "vault_handle_record crypto signer handle counter =
     and_then (vault_handle_record_payload crypto handle counter) (signed_payload crypto signer)"

definition grant_record ::
  "CryptoProvider \<Rightarrow> RecordSigner \<Rightarrow> PrincipalRefV1 \<Rightarrow> GrantPermissionV1 \<Rightarrow> IdSeed \<Rightarrow> u64
     \<Rightarrow> HazmatError + VaultRecordV1" where
  "grant_record crypto issuer subject permission seed counter =
     and_then (grant_record_payload crypto subject permission seed counter) (signed_payload crypto issuer)"

definition grant_deleted_record ::
  "CryptoProvider \<Rightarrow> RecordSigner \<Rightarrow> GrantId \<Rightarrow> GrantPermissionV1 \<Rightarrow> u64
     \<Rightarrow> HazmatError + VaultRecordV1" where
  "grant_deleted_record crypto signer gid permission counter =
     signed_payload crypto signer (grant_deleted_record_payload gid permission counter)"

definition group_record ::
  "CryptoProvider \<Rightarrow> RecordSigner \<Rightarrow> IdSeed \<Rightarrow> string \<Rightarrow> u64 \<Rightarrow> HazmatError + VaultRecordV1" where
  "group_record crypto signer seed handle counter =
     and_then (group_record_payload crypto seed handle counter) (signed_payload crypto signer)"

definition group_deleted_record ::
  "CryptoProvider \<Rightarrow> RecordSigner \<Rightarrow> GroupId \<Rightarrow> u64 \<Rightarrow> HazmatError + VaultRecordV1" where
  "group_deleted_record crypto signer gid counter =
     signed_payload crypto signer (group_deleted_record_payload gid counter)"

definition group_member_record ::
  "CryptoProvider \<Rightarrow> RecordSigner \<Rightarrow> GroupId \<Rightarrow> PrincipalRefV1 \<Rightarrow> u64
     \<Rightarrow> HazmatError + VaultRecordV1" where
  "group_member_record crypto signer g m counter =
     and_then (group_member_record_payload crypto g m counter) (signed_payload crypto signer)"

definition group_member_deleted_record ::
  "CryptoProvider \<Rightarrow> RecordSigner \<Rightarrow> GroupId \<Rightarrow> PrincipalRefV1 \<Rightarrow> u64
     \<Rightarrow> HazmatError + VaultRecordV1" where
  "group_member_deleted_record crypto signer g m counter =
     and_then (group_member_deleted_record_payload crypto g m counter) (signed_payload crypto signer)"

definition user_deleted_record ::
  "CryptoProvider \<Rightarrow> RecordSigner \<Rightarrow> UserId \<Rightarrow> string option \<Rightarrow> u64
     \<Rightarrow> HazmatError + VaultRecordV1" where
  "user_deleted_record crypto signer user reason counter =
     signed_payload crypto signer (user_deleted_record_payload user reason counter)"

definition secret_record ::
  "CryptoProvider \<Rightarrow> RecordSigner \<Rightarrow> SecretSelectorV1 \<Rightarrow> SealedPayloadV1 \<Rightarrow> u64
     \<Rightarrow> HazmatError + VaultRecordV1" where
  "secret_record crypto signer selector sealed counter =
     and_then (secret_record_payload crypto selector sealed counter) (signed_payload crypto signer)"

definition secret_deleted_record ::
  "CryptoProvider \<Rightarrow> RecordSigner \<Rightarrow> SecretSelectorV1 \<Rightarrow> u64 \<Rightarrow> HazmatError + VaultRecordV1" where
  "secret_deleted_record crypto signer selector counter =
     and_then (secret_deleted_record_payload crypto selector counter) (signed_payload crypto signer)"

section \<open>Signatures\<close>

text \<open>
  What the validator relies on of a signature scheme, and the deterministic provider as one.
\<close>

locale signature_scheme =
  fixes sign :: "string \<Rightarrow> Bytes \<Rightarrow> Bytes \<Rightarrow> Bytes"
    and verify :: "string \<Rightarrow> Bytes \<Rightarrow> Bytes \<Rightarrow> Bytes \<Rightarrow> bool"
  assumes verify_sign: "verify domain pk message (sign domain pk message)"
begin

lemma signed_payload_verified:
  assumes "signed_payload crypto signer body = Inr sr"
    and "verify_signature crypto = verify"
    and "signer_sign signer = (\<lambda>domain. sign domain (signer_signing_public_key signer))"
  shows "\<exists>message. signed_record_message crypto sr = Inr message
    \<and> verify_signature crypto ''thorax.signed.v1'' (rec_signing_public_key sr) message (rec_signature sr)"
  using assms(1,3) verify_sign unfolding assms(2)
  by (auto simp: signed_payload_def and_then_Inr_iff Let_def signed_record_message_def)

end

interpretation det: signature_scheme det_sign det_verify_signature
  by unfold_locales (simp add: det_verify_signature_def)

section \<open>Handles\<close>

lemma alnum_codes: "is_handle_inner c \<Longrightarrow> (of_char c :: nat) < 128"
  by (auto simp: is_handle_inner_def is_handle_alnum_def Let_def)

lemma inner_not_continuation: "is_handle_inner c \<Longrightarrow> \<not> is_continuation c"
  using alnum_codes [of c] by (auto simp: is_continuation_def)

lemma inner_not_whitespace: "is_handle_inner c \<Longrightarrow> \<not> is_whitespace [c]"
  by (auto simp: is_whitespace_def is_handle_inner_def is_handle_alnum_def Let_def)

lemma inner_lowercase: "is_handle_inner c \<Longrightarrow> to_ascii_lowercase c = c"
  by (auto simp: to_ascii_lowercase_def is_handle_inner_def is_handle_alnum_def Let_def)

lemma utf8_chars_plain: "\<forall>c \<in> set s. \<not> is_continuation c \<Longrightarrow> utf8_chars s = map (\<lambda>c. [c]) s"
proof (induction s rule: utf8_chars.induct)
  case (2 c cs)
  then have "takeWhile is_continuation cs = []" "dropWhile is_continuation cs = cs"
    by (cases cs; simp)+
  with 2 show ?case by simp
qed simp

lemma dropWhile_none: "\<forall>x \<in> set xs. \<not> P x \<Longrightarrow> dropWhile P xs = xs"
  by (cases xs) auto

lemma trim_plain: "\<forall>c \<in> set s. \<not> is_continuation c \<and> \<not> is_whitespace [c] \<Longrightarrow> str_trim s = s"
proof -
  assume s: "\<forall>c \<in> set s. \<not> is_continuation c \<and> \<not> is_whitespace [c]"
  then have "\<forall>x \<in> set (utf8_chars s). \<not> is_whitespace x"
    by (auto simp: utf8_chars_plain)
  then have "str_trim s = concat (utf8_chars s)"
    by (simp add: str_trim_def dropWhile_none)
  with s show ?thesis
    by (simp add: utf8_chars_plain)
qed

lemma trim_inner: "list_all is_handle_inner s \<Longrightarrow> str_trim s = s"
  by (rule trim_plain) (auto simp: list_all_iff dest: inner_not_continuation inner_not_whitespace)

text \<open>
  A valid handle is its own normal form: normalising (trimming white space and folding
  ASCII case) leaves it unchanged, so the handle id of a validated handle is the hash of the
  handle as written.
\<close>

lemma valid_handle_is_normalized:
  assumes "is_valid_handle handle"
  shows "normalize_handle handle = handle"
proof -
  have inner: "list_all is_handle_inner handle"
    using assms by (auto simp: is_valid_handle_def split: if_splits)
  then have "map to_ascii_lowercase handle = handle"
    by (auto simp: list_all_iff inner_lowercase intro: map_idI)
  with inner show ?thesis
    by (simp add: normalize_handle_def trim_inner)
qed

text \<open>
  A record signed by an identity that is consistent with its keys verifies: whatever body
  \<open>signed_payload\<close> wraps, the envelope's signature checks under the envelope's key with the
  repository's deterministic provider, for any serialiser that encodes the body.
\<close>

lemma signed_payload_signature_verifies:
  assumes "signed_payload (DeterministicCrypto ser) signer body = Inr sr"
    and "signer_sign signer = (\<lambda>domain. det_sign domain (signer_signing_public_key signer))"
  shows "\<exists>message. signed_record_message (DeterministicCrypto ser) sr = Inr message
    \<and> verify_signature (DeterministicCrypto ser) ''thorax.signed.v1''
        (rec_signing_public_key sr) message (rec_signature sr)"
  using assms by (intro det.signed_payload_verified) (auto simp: DeterministicCrypto_def)

end
