(* ===== verification/Thorax_Authz.thy ===== *)
theory Thorax_Authz
  imports Thorax_Format
begin

text \<open>
  Authority sets and keyspace selectors, from \<open>crates/thorax-core/src/authz.rs\<close>: matching a
  secret against a grant's selector, the subsumption test between selectors, the capability
  hierarchy (administer, manage, write, read) and the delegation rule. The theorems show that
  subsumption is sound for matching, that delegation can never hand out more than its issuer
  holds, and that merging authority sets is a union that reports a change exactly when it
  changes something, which is what makes the membership fixpoint of the validator stop.
\<close>

section \<open>Selector matching and subsumption\<close>

definition secret_label_value :: "SecretSelectorV1 \<Rightarrow> string \<Rightarrow> string option" where
  "secret_label_value selector key =
     map_option label_value (find (\<lambda>label. label_key label = key) (sel_labels selector))"

definition child_label_matcher :: "KeyspaceSelectorV1 \<Rightarrow> string \<Rightarrow> LabelMatcherV1 option" where
  "child_label_matcher selector key =
     map_option klm_matcher (find (\<lambda>label. klm_key label = key) (ks_labels selector))"

fun tuple_matches :: "TupleMatcherV1 \<Rightarrow> string list \<Rightarrow> bool" where
  "tuple_matches TupleMatcherV1.Any tuple = True"
| "tuple_matches (Exact exact) tuple = (exact = tuple)"
| "tuple_matches (Prefix pre) tuple = prefix pre tuple"

fun label_matches :: "LabelMatcherV1 \<Rightarrow> string option \<Rightarrow> bool" where
  "label_matches LabelMatcherV1.Any v = (v \<noteq> None)"
| "label_matches (Equals expected) v = (v = Some expected)"
| "label_matches (In values) v = (case v of None \<Rightarrow> False | Some actual \<Rightarrow> actual \<in> set values)"
| "label_matches Absent v = (v = None)"

definition selector_matches :: "KeyspaceSelectorV1 \<Rightarrow> SecretSelectorV1 \<Rightarrow> bool" where
  "selector_matches grant secret \<longleftrightarrow>
     tuple_matches (ks_tuple grant) (sel_tuple secret)
     \<and> list_all (\<lambda>label. label_matches (klm_matcher label) (secret_label_value secret (klm_key label)))
         (ks_labels grant)"

fun tuple_subsumes :: "TupleMatcherV1 \<Rightarrow> TupleMatcherV1 \<Rightarrow> bool" where
  "tuple_subsumes TupleMatcherV1.Any child = True"
| "tuple_subsumes (Prefix parent) (Prefix child) = prefix parent child"
| "tuple_subsumes (Prefix parent) (Exact child) = prefix parent child"
| "tuple_subsumes (Exact parent) (Exact child) = (parent = child)"
| "tuple_subsumes parent child = False"

fun label_subsumes :: "LabelMatcherV1 \<Rightarrow> LabelMatcherV1 option \<Rightarrow> bool" where
  "label_subsumes parent None = False"
| "label_subsumes LabelMatcherV1.Any (Some LabelMatcherV1.Any) = True"
| "label_subsumes LabelMatcherV1.Any (Some (Equals _)) = True"
| "label_subsumes LabelMatcherV1.Any (Some (In _)) = True"
| "label_subsumes LabelMatcherV1.Any (Some Absent) = False"
| "label_subsumes (Equals parent) (Some (Equals child)) = (parent = child)"
| "label_subsumes (Equals parent) (Some (In child)) = list_all (\<lambda>value. value = parent) child"
| "label_subsumes (In parent) (Some (Equals child)) = (child \<in> set parent)"
| "label_subsumes (In parent) (Some (In child)) = list_all (\<lambda>value. value \<in> set parent) child"
| "label_subsumes Absent (Some Absent) = True"
| "label_subsumes parent child = False"

fun labels_subsume_loop :: "KeyspaceLabelMatcherV1 list \<Rightarrow> KeyspaceSelectorV1 \<Rightarrow> bool" where
  "labels_subsume_loop [] child = True"
| "labels_subsume_loop (parent_label # rest) child =
     (if \<not> label_subsumes (klm_matcher parent_label) (child_label_matcher child (klm_key parent_label))
      then False else labels_subsume_loop rest child)"

definition labels_subsume :: "KeyspaceSelectorV1 \<Rightarrow> KeyspaceSelectorV1 \<Rightarrow> bool" where
  "labels_subsume parent child = labels_subsume_loop (ks_labels parent) child"

definition selector_subsumes :: "KeyspaceSelectorV1 \<Rightarrow> KeyspaceSelectorV1 \<Rightarrow> bool" where
  "selector_subsumes parent child \<longleftrightarrow>
     tuple_subsumes (ks_tuple parent) (ks_tuple child) \<and> labels_subsume parent child"

definition has_grantable :: "KeyspaceGrantClassV1 list \<Rightarrow> KeyspaceGrantClassV1 \<Rightarrow> bool" where
  "has_grantable items cl \<longleftrightarrow> cl \<in> set items"

definition grantable_subset :: "KeyspaceGrantClassV1 list \<Rightarrow> KeyspaceGrantClassV1 list \<Rightarrow> bool" where
  "grantable_subset child parent \<longleftrightarrow> list_all (has_grantable parent) child"

section \<open>Authority sets\<close>

record AuthoritySet =
  auth_read :: "KeyspaceSelectorV1 list"
  auth_write :: "KeyspaceSelectorV1 list"
  auth_manage :: "ManageKeyspaceGrantV1 list"
  auth_administer :: bool

definition default_authority :: AuthoritySet where
  "default_authority =
     \<lparr>auth_read = [], auth_write = [], auth_manage = [], auth_administer = False\<rparr>"

definition root_authority :: AuthoritySet where
  "root_authority =
     \<lparr>auth_read = [keyspace_all], auth_write = [keyspace_all],
      auth_manage = [\<lparr>mk_selector = keyspace_all, mk_grantable = [Read, Write, Manage]\<rparr>],
      auth_administer = True\<rparr>"

definition push_unique :: "'a list \<Rightarrow> 'a \<Rightarrow> 'a list \<times> bool" where
  "push_unique items item =
     (if item \<in> set items then (items, False) else (items @ [item], True))"

fun add_permission :: "AuthoritySet \<Rightarrow> GrantPermissionV1 \<Rightarrow> AuthoritySet \<times> bool" where
  "add_permission a (ReadKeyspace selector) =
     (case push_unique (auth_read a) selector of (xs, changed) \<Rightarrow> (a\<lparr>auth_read := xs\<rparr>, changed))"
| "add_permission a (WriteKeyspace selector) =
     (case push_unique (auth_write a) selector of (xs, changed) \<Rightarrow> (a\<lparr>auth_write := xs\<rparr>, changed))"
| "add_permission a (ManageKeyspace manage) =
     (case push_unique (auth_manage a) manage of (xs, changed) \<Rightarrow> (a\<lparr>auth_manage := xs\<rparr>, changed))"
| "add_permission a Administer = (a\<lparr>auth_administer := True\<rparr>, \<not> auth_administer a)"

definition can_read :: "AuthoritySet \<Rightarrow> SecretSelectorV1 \<Rightarrow> bool" where
  "can_read a selector \<longleftrightarrow>
     auth_administer a
     \<or> list_ex (\<lambda>g. selector_matches g selector) (auth_read a)
     \<or> list_ex (\<lambda>g. selector_matches g selector) (auth_write a)
     \<or> list_ex (\<lambda>m. selector_matches (mk_selector m) selector) (auth_manage a)"

definition can_write :: "AuthoritySet \<Rightarrow> SecretSelectorV1 \<Rightarrow> bool" where
  "can_write a selector \<longleftrightarrow>
     auth_administer a
     \<or> list_ex (\<lambda>g. selector_matches g selector) (auth_write a)
     \<or> list_ex (\<lambda>m. selector_matches (mk_selector m) selector) (auth_manage a)"

definition can_manage :: "AuthoritySet \<Rightarrow> SecretSelectorV1 \<Rightarrow> bool" where
  "can_manage a selector \<longleftrightarrow>
     auth_administer a
     \<or> list_ex (\<lambda>m. selector_matches (mk_selector m) selector) (auth_manage a)"

definition holds_read_over :: "AuthoritySet \<Rightarrow> KeyspaceSelectorV1 \<Rightarrow> bool" where
  "holds_read_over a selector \<longleftrightarrow>
     auth_administer a
     \<or> list_ex (\<lambda>h. selector_subsumes h selector) (auth_read a)
     \<or> list_ex (\<lambda>h. selector_subsumes h selector) (auth_write a)
     \<or> list_ex (\<lambda>m. selector_subsumes (mk_selector m) selector) (auth_manage a)"

definition holds_write_over :: "AuthoritySet \<Rightarrow> KeyspaceSelectorV1 \<Rightarrow> bool" where
  "holds_write_over a selector \<longleftrightarrow>
     auth_administer a
     \<or> list_ex (\<lambda>h. selector_subsumes h selector) (auth_write a)
     \<or> list_ex (\<lambda>m. selector_subsumes (mk_selector m) selector) (auth_manage a)"

fun can_create_permission :: "AuthoritySet \<Rightarrow> GrantPermissionV1 \<Rightarrow> bool" where
  "can_create_permission a (ReadKeyspace selector) =
     (auth_administer a
      \<or> holds_read_over a selector
        \<and> list_ex (\<lambda>m. has_grantable (mk_grantable m) Read
                        \<and> selector_subsumes (mk_selector m) selector) (auth_manage a))"
| "can_create_permission a (WriteKeyspace selector) =
     (auth_administer a
      \<or> holds_write_over a selector
        \<and> list_ex (\<lambda>m. has_grantable (mk_grantable m) Write
                        \<and> selector_subsumes (mk_selector m) selector) (auth_manage a))"
| "can_create_permission a (ManageKeyspace target) =
     (auth_administer a
      \<or> list_ex (\<lambda>m. has_grantable (mk_grantable m) Manage
                     \<and> selector_subsumes (mk_selector m) (mk_selector target)
                     \<and> grantable_subset (mk_grantable target) (mk_grantable m)) (auth_manage a))"
| "can_create_permission a Administer = auth_administer a"

definition as_grant_permissions :: "AuthoritySet \<Rightarrow> GrantPermissionV1 list" where
  "as_grant_permissions a =
     map ReadKeyspace (auth_read a) @ map WriteKeyspace (auth_write a)
     @ map ManageKeyspace (auth_manage a) @ (if auth_administer a then [Administer] else [])"

fun push_all :: "'a list \<Rightarrow> bool \<Rightarrow> 'a list \<Rightarrow> 'a list \<times> bool" where
  "push_all items changed [] = (items, changed)"
| "push_all items changed (x # xs) =
     (case push_unique items x of (items', c) \<Rightarrow> push_all items' (changed \<or> c) xs)"

definition merge_from :: "AuthoritySet \<Rightarrow> AuthoritySet \<Rightarrow> AuthoritySet \<times> bool" where
  "merge_from a other =
     (case push_all (auth_read a) False (auth_read other) of (r, c1) \<Rightarrow>
      case push_all (auth_write a) c1 (auth_write other) of (w, c2) \<Rightarrow>
      case push_all (auth_manage a) c2 (auth_manage other) of (m, c3) \<Rightarrow>
        if auth_administer other \<and> \<not> auth_administer a
        then (\<lparr>auth_read = r, auth_write = w, auth_manage = m, auth_administer = True\<rparr>, True)
        else (\<lparr>auth_read = r, auth_write = w, auth_manage = m,
               auth_administer = auth_administer a\<rparr>, c3))"

section \<open>Subsumption is a preorder that refines matching\<close>

lemma find_Some_in: "find P xs = Some x \<Longrightarrow> x \<in> set xs \<and> P x"
  by (auto simp: find_Some_iff)

lemma labels_subsume_iff [authz_simps]:
  "labels_subsume parent child \<longleftrightarrow>
     (\<forall>l \<in> set (ks_labels parent).
        label_subsumes (klm_matcher l) (child_label_matcher child (klm_key l)))"
proof -
  have "labels_subsume_loop ls child \<longleftrightarrow>
      (\<forall>l \<in> set ls. label_subsumes (klm_matcher l) (child_label_matcher child (klm_key l)))" for ls
    by (induction ls) auto
  then show ?thesis by (simp add: labels_subsume_def)
qed

lemma tuple_subsumes_sound: "tuple_subsumes p c \<Longrightarrow> tuple_matches c t \<Longrightarrow> tuple_matches p t"
  by (cases p; cases c) (auto intro: prefix_order.trans)

lemma label_subsumes_sound: "label_subsumes p (Some c) \<Longrightarrow> label_matches c v \<Longrightarrow> label_matches p v"
  by (cases p; cases c; cases v) (auto simp: list_all_iff)

lemma tuple_subsumes_trans:
  "tuple_subsumes a b \<Longrightarrow> tuple_subsumes b c \<Longrightarrow> tuple_subsumes a c"
  by (cases a; cases b; cases c) (auto intro: prefix_order.trans)

lemma label_subsumes_trans:
  "label_subsumes a (Some b) \<Longrightarrow> label_subsumes b c \<Longrightarrow> label_subsumes a c"
  by (cases a; cases b; cases c; cases "the c") (auto simp: list_all_iff)

lemma label_subsumes_SomeD: "label_subsumes a c \<Longrightarrow> \<exists>b. c = Some b"
  by (cases c) auto

lemma child_label_matcher_SomeD:
  "child_label_matcher c key = Some m \<Longrightarrow>
     \<exists>l \<in> set (ks_labels c). klm_key l = key \<and> klm_matcher l = m"
  by (auto simp: child_label_matcher_def dest: find_Some_in)

lemma selector_subsumes_trans:
  assumes ab: "selector_subsumes a b" and bc: "selector_subsumes b c"
  shows "selector_subsumes a c"
proof -
  have "label_subsumes (klm_matcher l) (child_label_matcher c (klm_key l))"
    if l: "l \<in> set (ks_labels a)" for l
  proof -
    from ab l have sub: "label_subsumes (klm_matcher l) (child_label_matcher b (klm_key l))"
      by (simp add: selector_subsumes_def authz_simps)
    then obtain m where m: "child_label_matcher b (klm_key l) = Some m"
      using label_subsumes_SomeD by blast
    then obtain l' where l': "l' \<in> set (ks_labels b)" "klm_key l' = klm_key l" "klm_matcher l' = m"
      using child_label_matcher_SomeD by blast
    with bc have "label_subsumes m (child_label_matcher c (klm_key l))"
      by (auto simp: selector_subsumes_def authz_simps)
    with sub m show ?thesis
      by (auto intro: label_subsumes_trans)
  qed
  then show ?thesis
    using ab bc by (auto simp: selector_subsumes_def authz_simps intro: tuple_subsumes_trans)
qed

lemma selector_subsumes_matches:
  assumes sub: "selector_subsumes parent child" and matches: "selector_matches child s"
  shows "selector_matches parent s"
proof -
  have "label_matches (klm_matcher l) (secret_label_value s (klm_key l))"
    if l: "l \<in> set (ks_labels parent)" for l
  proof -
    from sub l have p: "label_subsumes (klm_matcher l) (child_label_matcher child (klm_key l))"
      by (simp add: selector_subsumes_def authz_simps)
    then obtain m where m: "child_label_matcher child (klm_key l) = Some m"
      using label_subsumes_SomeD by blast
    then have "label_matches m (secret_label_value s (klm_key l))"
      using matches child_label_matcher_SomeD [OF m] by (auto simp: selector_matches_def list_all_iff)
    with p m show ?thesis
      by (auto intro: label_subsumes_sound)
  qed
  then show ?thesis
    using sub matches
    by (auto simp: selector_matches_def selector_subsumes_def list_all_iff intro: tuple_subsumes_sound)
qed

section \<open>Authority sets as sets of permissions\<close>

text \<open>
  The permissions a set confers, as a set, and what one permission confers on its own: every
  check of \<open>AuthoritySet\<close> is the existence of one permission that passes it.
\<close>

abbreviation perms :: "AuthoritySet \<Rightarrow> GrantPermissionV1 set" where
  "perms a \<equiv> set (as_grant_permissions a)"

fun perm_reads :: "GrantPermissionV1 \<Rightarrow> SecretSelectorV1 \<Rightarrow> bool" where
  "perm_reads (ReadKeyspace g) s = selector_matches g s"
| "perm_reads (WriteKeyspace g) s = selector_matches g s"
| "perm_reads (ManageKeyspace m) s = selector_matches (mk_selector m) s"
| "perm_reads Administer s = True"

fun perm_writes :: "GrantPermissionV1 \<Rightarrow> SecretSelectorV1 \<Rightarrow> bool" where
  "perm_writes (ReadKeyspace g) s = False"
| "perm_writes (WriteKeyspace g) s = selector_matches g s"
| "perm_writes (ManageKeyspace m) s = selector_matches (mk_selector m) s"
| "perm_writes Administer s = True"

fun perm_manages :: "GrantPermissionV1 \<Rightarrow> SecretSelectorV1 \<Rightarrow> bool" where
  "perm_manages (ManageKeyspace m) s = selector_matches (mk_selector m) s"
| "perm_manages Administer s = True"
| "perm_manages p s = False"

fun perm_creates :: "GrantPermissionV1 \<Rightarrow> GrantPermissionV1 \<Rightarrow> bool" where
  "perm_creates Administer q = True"
| "perm_creates (ManageKeyspace m) (ReadKeyspace g) =
     (Read \<in> set (mk_grantable m) \<and> selector_subsumes (mk_selector m) g)"
| "perm_creates (ManageKeyspace m) (WriteKeyspace g) =
     (Write \<in> set (mk_grantable m) \<and> selector_subsumes (mk_selector m) g)"
| "perm_creates (ManageKeyspace m) (ManageKeyspace t) =
     (Manage \<in> set (mk_grantable m) \<and> selector_subsumes (mk_selector m) (mk_selector t)
      \<and> set (mk_grantable t) \<subseteq> set (mk_grantable m))"
| "perm_creates p q = False"

lemma bex_perms:
  "(\<exists>p \<in> perms a. P p) \<longleftrightarrow>
     (\<exists>g \<in> set (auth_read a). P (ReadKeyspace g)) \<or> (\<exists>g \<in> set (auth_write a). P (WriteKeyspace g))
     \<or> (\<exists>m \<in> set (auth_manage a). P (ManageKeyspace m)) \<or> auth_administer a \<and> P Administer"
  by (auto simp: as_grant_permissions_def bex_Un)

lemma can_read_iff: "can_read a s \<longleftrightarrow> (\<exists>p \<in> perms a. perm_reads p s)"
  by (auto simp: can_read_def bex_perms list_ex_iff)

lemma can_write_iff: "can_write a s \<longleftrightarrow> (\<exists>p \<in> perms a. perm_writes p s)"
  by (auto simp: can_write_def bex_perms list_ex_iff)

lemma can_manage_iff: "can_manage a s \<longleftrightarrow> (\<exists>p \<in> perms a. perm_manages p s)"
  by (auto simp: can_manage_def bex_perms list_ex_iff)

lemma can_create_iff: "can_create_permission a q \<longleftrightarrow> (\<exists>p \<in> perms a. perm_creates p q)"
  by (cases q) (auto simp: bex_perms list_ex_iff has_grantable_def grantable_subset_def
      holds_read_over_def holds_write_over_def list_all_iff)

lemma administer_iff: "auth_administer a \<longleftrightarrow> Administer \<in> perms a"
  by (auto simp: as_grant_permissions_def)

lemmas authority_iffs = can_read_iff can_write_iff can_manage_iff can_create_iff

lemma perms_default [simp]: "perms default_authority = {}"
  by (simp add: default_authority_def as_grant_permissions_def)

lemma perms_add: "perms (fst (add_permission a p)) = insert p (perms a)"
  by (cases p) (auto simp: as_grant_permissions_def push_unique_def)

lemma push_all_set:
  "set (fst (push_all items c xs)) = set items \<union> set xs"
  "snd (push_all items c xs) \<longleftrightarrow> c \<or> \<not> set xs \<subseteq> set items"
  by (induction xs arbitrary: items c) (auto simp: push_unique_def)

lemma perms_merge: "perms (fst (merge_from a b)) = perms a \<union> perms b"
proof -
  have "set (auth_read (fst (merge_from a b))) = set (auth_read a) \<union> set (auth_read b)"
    "set (auth_write (fst (merge_from a b))) = set (auth_write a) \<union> set (auth_write b)"
    "set (auth_manage (fst (merge_from a b))) = set (auth_manage a) \<union> set (auth_manage b)"
    "auth_administer (fst (merge_from a b)) \<longleftrightarrow> auth_administer a \<or> auth_administer b"
    by (auto simp: merge_from_def case_prod_beta push_all_set)
  then show ?thesis
    by (auto simp: as_grant_permissions_def)
qed

lemma merge_changed: "snd (merge_from a b) \<longleftrightarrow> \<not> perms b \<subseteq> perms a"
proof -
  have "snd (merge_from a b) \<longleftrightarrow> \<not> set (auth_read b) \<subseteq> set (auth_read a)
      \<or> \<not> set (auth_write b) \<subseteq> set (auth_write a) \<or> \<not> set (auth_manage b) \<subseteq> set (auth_manage a)
      \<or> auth_administer b \<and> \<not> auth_administer a"
    by (auto simp: merge_from_def case_prod_beta push_all_set)
  also have "\<dots> \<longleftrightarrow> \<not> perms b \<subseteq> perms a"
    by (auto simp: as_grant_permissions_def)
  finally show ?thesis .
qed

text \<open>
  The contract the membership fixpoint of the validator relies on: merging is union, and the
  returned flag says exactly whether the target grew.
\<close>

locale authority_join =
  fixes empty_auth :: "'a"
    and join :: "'a \<Rightarrow> 'a \<Rightarrow> 'a \<times> bool"
    and view :: "'a \<Rightarrow> 'p set"
  assumes view_empty: "view empty_auth = {}"
    and view_join: "view (fst (join a b)) = view a \<union> view b"
    and join_changed: "snd (join a b) \<longleftrightarrow> \<not> view b \<subseteq> view a"
    and view_finite: "finite (view a)"
begin

lemma join_unchanged_view: "\<not> snd (join a b) \<Longrightarrow> view (fst (join a b)) = view a"
  by (auto simp: join_changed view_join)

lemma join_grows: "snd (join a b) \<Longrightarrow> view a \<subset> view (fst (join a b))"
  by (auto simp: join_changed view_join)

lemma join_idem: "\<not> snd (join (fst (join a b)) b)"
  by (auto simp: join_changed view_join)

end

interpretation authority: authority_join default_authority merge_from perms
  by unfold_locales (auto simp: perms_merge merge_changed)

section \<open>Delegation never escalates\<close>

lemma perm_creates_reads: "perm_creates p q \<Longrightarrow> perm_reads q s \<Longrightarrow> perm_reads p s"
  by (cases p; cases q) (auto intro: selector_subsumes_matches)

lemma perm_creates_writes: "perm_creates p q \<Longrightarrow> perm_writes q s \<Longrightarrow> perm_writes p s"
  by (cases p; cases q) (auto intro: selector_subsumes_matches)

lemma perm_creates_manages: "perm_creates p q \<Longrightarrow> perm_manages q s \<Longrightarrow> perm_manages p s"
  by (cases p; cases q) (auto intro: selector_subsumes_matches)

lemma perm_creates_trans: "perm_creates p q \<Longrightarrow> perm_creates q r \<Longrightarrow> perm_creates p r"
  by (cases p; cases q; cases r) (auto intro: selector_subsumes_trans)

lemma delegation_step:
  assumes "can_create_permission issuer p"
  shows "can_read (fst (add_permission b p)) s \<Longrightarrow> can_read b s \<or> can_read issuer s"
    and "can_write (fst (add_permission b p)) s \<Longrightarrow> can_write b s \<or> can_write issuer s"
    and "can_manage (fst (add_permission b p)) s \<Longrightarrow> can_manage b s \<or> can_manage issuer s"
    and "can_create_permission (fst (add_permission b p)) q \<Longrightarrow>
           can_create_permission b q \<or> can_create_permission issuer q"
  using assms
  by (auto simp: authority_iffs perms_add
      intro: perm_creates_reads perm_creates_writes perm_creates_manages perm_creates_trans)

text \<open>
  C31. No escalation by delegation: when an issuer may create a permission, giving that
  permission to any principal lets the principal read, write, manage or itself delegate only
  what it could before or what the issuer already can.
\<close>

theorem delegation_no_escalation:
  assumes "can_create_permission issuer p"
  shows "(can_read (fst (add_permission b p)) s \<longrightarrow> can_read b s \<or> can_read issuer s)
    \<and> (can_write (fst (add_permission b p)) s \<longrightarrow> can_write b s \<or> can_write issuer s)
    \<and> (can_manage (fst (add_permission b p)) s \<longrightarrow> can_manage b s \<or> can_manage issuer s)
    \<and> (can_create_permission (fst (add_permission b p)) q \<longrightarrow>
         can_create_permission b q \<or> can_create_permission issuer q)"
  using delegation_step [OF assms] by blast

theorem delegation_no_escalation_witness:
  "let issuer = fst (add_permission default_authority
         (ManageKeyspace \<lparr>mk_selector = keyspace_prefix [''app''], mk_grantable = [Read]\<rparr>));
       p = ReadKeyspace (keyspace_exact [''app'', ''db'']);
       s = selector_tuple [''app'', ''db'']
   in can_create_permission issuer p \<and> can_read (fst (add_permission default_authority p)) s
      \<and> can_read issuer s"
proof -
  let ?issuer = "fst (add_permission default_authority
         (ManageKeyspace \<lparr>mk_selector = keyspace_prefix [''app''], mk_grantable = [Read]\<rparr>))"
  let ?p = "ReadKeyspace (keyspace_exact [''app'', ''db''])"
  let ?s = "selector_tuple [''app'', ''db'']"
  have c: "can_create_permission ?issuer ?p"
    by (simp add: can_create_iff perms_add keyspace_prefix_def keyspace_exact_def
        selector_subsumes_def labels_subsume_def del: add_permission.simps)
  have r: "can_read (fst (add_permission default_authority ?p)) ?s"
    by (simp add: can_read_iff perms_add keyspace_exact_def selector_matches_def selector_tuple_def
        del: add_permission.simps)
  have "\<not> can_read default_authority ?s"
    by (simp add: can_read_iff)
  with delegation_no_escalation [OF c, of default_authority ?s] r c show ?thesis
    by (simp del: add_permission.simps)
qed

text \<open>
  The capability hierarchy: on every secret, manage authority implies write authority and
  write authority implies read authority, and an administrator holds all three and may create
  every permission.
\<close>

lemma capability_hierarchy:
  "(can_manage a s \<longrightarrow> can_write a s) \<and> (can_write a s \<longrightarrow> can_read a s)
   \<and> (auth_administer a \<longrightarrow> can_manage a s \<and> can_create_permission a p)"
  by (cases p) (auto simp: can_manage_def can_write_def can_read_def)

end
