(* ===== verification/Thorax_Structure.thy ===== *)
theory Thorax_Structure
  imports Thorax_Crypto Thorax_Authz
begin

text \<open>
  Structural validation of a record, from \<open>crates/thorax-core/src/validate/structure.rs\<close>, with
  the issue type and the counter ceiling of \<open>validate/mod.rs\<close>: every check a record passes on
  its own, before signatures and authority are looked at, with the error of each branch.

  The theorems show what the checks buy: on selectors that pass them, the syntactic subsumption
  test of the delegation rule decides inclusion of the covered secrets exactly; a secret or a
  tombstone that passes them can only sit at the key of the selector it claims; and the records
  that \<open>hazmat.rs\<close> builds pass them under exactly the conditions on their inputs stated here.
\<close>

section \<open>Issues and the counter ceiling\<close>

datatype ValidationIssue =
    InvalidStructure string
  | InvalidSignature RecordKey
  | UnknownSignerKey HashValue
  | RootNotTrusted
  | AmbiguousRoot
  | AuthorityDidNotConverge
  | FormatVersionRegression u64 u64

definition MAX_LWW_COUNTER :: u64 where
  "MAX_LWW_COUNTER = push_bit 62 1"

section \<open>The checks\<close>

definition invalid :: "string \<Rightarrow> ValidationIssue" where
  "invalid message = InvalidStructure message"

fun core_error_to_string :: "CoreError \<Rightarrow> string" where
  "core_error_to_string (Cord (CordError e)) = ''cord error: '' @ e"
| "core_error_to_string (Validation e) = ''validation failed: '' @ e"

definition to_issue :: "CoreError \<Rightarrow> ValidationIssue" where
  "to_issue error = InvalidStructure (core_error_to_string error)"

text \<open>
  The loop that the four ordering checks share: the projected value of each item against the
  previous one.
\<close>

fun sorted_unique_loop ::
  "ValidationIssue \<Rightarrow> ('a \<Rightarrow> 'k::linorder) \<Rightarrow> 'k option \<Rightarrow> 'a list \<Rightarrow> ValidationIssue + unit" where
  "sorted_unique_loop issue f previous [] = Inr ()"
| "sorted_unique_loop issue f previous (x # xs) =
     (case previous of
        Some p \<Rightarrow> if f x \<le> p then Inl issue else sorted_unique_loop issue f (Some (f x)) xs
      | None \<Rightarrow> sorted_unique_loop issue f (Some (f x)) xs)"

definition validate_sorted_unique_secret_labels :: "SecretLabelV1 list \<Rightarrow> ValidationIssue + unit" where
  "validate_sorted_unique_secret_labels labels =
     sorted_unique_loop (invalid ''secret selector labels must be sorted and unique'')
       label_key None labels"

definition validate_sorted_unique_keyspace_labels ::
  "KeyspaceLabelMatcherV1 list \<Rightarrow> ValidationIssue + unit" where
  "validate_sorted_unique_keyspace_labels labels =
     sorted_unique_loop (invalid ''keyspace selector labels must be sorted and unique'')
       klm_key None labels"

definition validate_sorted_unique_strings :: "string list \<Rightarrow> string \<Rightarrow> ValidationIssue + unit" where
  "validate_sorted_unique_strings values description =
     (if values = [] then Inl (invalid (description @ '' must not be empty''))
      else sorted_unique_loop (invalid (description @ '' must be sorted and unique''))
             (\<lambda>v. v) None values)"

definition validate_sorted_unique_grantable ::
  "KeyspaceGrantClassV1 list \<Rightarrow> ValidationIssue + unit" where
  "validate_sorted_unique_grantable values =
     (if values = [] then Inl (invalid ''manage grant must grant at least one class'')
      else sorted_unique_loop (invalid ''manage grant classes must be sorted and unique'')
             (\<lambda>v. v) None values)"

definition validate_secret_selector :: "SecretSelectorV1 \<Rightarrow> ValidationIssue + unit" where
  "validate_secret_selector selector = validate_sorted_unique_secret_labels (sel_labels selector)"

fun validate_in_matchers :: "KeyspaceLabelMatcherV1 list \<Rightarrow> ValidationIssue + unit" where
  "validate_in_matchers [] = Inr ()"
| "validate_in_matchers (label # rest) =
     (case klm_matcher label of
        In values \<Rightarrow> and_then (validate_sorted_unique_strings values ''label in matcher'')
                       (\<lambda>_. validate_in_matchers rest)
      | _ \<Rightarrow> validate_in_matchers rest)"

definition validate_keyspace_selector :: "KeyspaceSelectorV1 \<Rightarrow> ValidationIssue + unit" where
  "validate_keyspace_selector selector =
     (if ks_tuple selector = Prefix []
      then Inl (invalid ''empty tuple prefix must be encoded as any'')
      else and_then (validate_sorted_unique_keyspace_labels (ks_labels selector))
             (\<lambda>_. validate_in_matchers (ks_labels selector)))"

fun validate_permission :: "GrantPermissionV1 \<Rightarrow> ValidationIssue + unit" where
  "validate_permission (ReadKeyspace selector) = validate_keyspace_selector selector"
| "validate_permission (WriteKeyspace selector) = validate_keyspace_selector selector"
| "validate_permission (ManageKeyspace manage) =
     and_then (validate_keyspace_selector (mk_selector manage))
       (\<lambda>_. validate_sorted_unique_grantable (mk_grantable manage))"
| "validate_permission Administer = Inr ()"

definition structurally_valid_user :: "CryptoProvider \<Rightarrow> UserRecordV1 \<Rightarrow> ValidationIssue + unit" where
  "structurally_valid_user crypto r =
     and_then (map_err to_issue (derive_user_id crypto (user_signing_public_key r) (user_hpke_public_key r)))
       (\<lambda>user. if user_id r \<noteq> user then Inl (invalid ''invalid user record'') else Inr ())"

fun recipient_slots_loop :: "UserId set \<Rightarrow> RecipientSlotV1 list \<Rightarrow> ValidationIssue + unit" where
  "recipient_slots_loop slots [] = Inr ()"
| "recipient_slots_loop slots (slot # rest) =
     (if recipient_id slot \<in> slots then Inl (invalid ''duplicate recipient slot'')
      else recipient_slots_loop (insert (recipient_id slot) slots) rest)"

fun structurally_validate_body ::
  "CryptoProvider \<Rightarrow> VaultRecordV1 \<Rightarrow> VaultRootRecordV1 \<Rightarrow> RecordBodyV1 \<Rightarrow> ValidationIssue + unit" where
  "structurally_validate_body crypto sr root (RecordBodyV1.VaultRoot r) =
     and_then (map_err to_issue
         (derive_user_id crypto (rec_signing_public_key sr) (root_hpke_public_key r)))
       (\<lambda>i. if root_id r \<noteq> i then Inl (invalid ''invalid root record'') else Inr ())"
| "structurally_validate_body crypto sr root (RecordBodyV1.EntryPoint r) =
     (if ep_trusted_root_user_id r \<noteq> root_id root
      then Inl (invalid ''invalid entry point record'') else Inr ())"
| "structurally_validate_body crypto sr root (RecordBodyV1.User r) = structurally_valid_user crypto r"
| "structurally_validate_body crypto sr root (RecordBodyV1.UserHandle r) =
     (if \<not> is_valid_handle (uh_handle r) then Inl (invalid ''invalid user handle'')
      else and_then (map_err to_issue (derive_user_handle_id crypto (uh_handle r)))
             (\<lambda>i. if uh_id r \<noteq> i then Inl (invalid ''invalid user handle'') else Inr ()))"
| "structurally_validate_body crypto sr root (RecordBodyV1.VaultHandle r) =
     (if \<not> is_valid_handle (vh_handle r) then Inl (invalid ''invalid vault handle record'')
      else and_then (map_err to_issue (derive_vault_handle_id crypto (vh_handle r)))
             (\<lambda>i. if vh_id r \<noteq> i then Inl (invalid ''invalid vault handle record'') else Inr ()))"
| "structurally_validate_body crypto sr root (RecordBodyV1.Group r) =
     and_then (map_err to_issue (derive_seeded_hash crypto ''thorax.group.v1'' (group_seed r)))
       (\<lambda>h. if group_id r \<noteq> GroupId h \<or> \<not> is_valid_handle (group_handle r)
             then Inl (invalid ''invalid group record'') else Inr ())"
| "structurally_validate_body crypto sr root (RecordBodyV1.GroupDeleted r) = Inr ()"
| "structurally_validate_body crypto sr root (RecordBodyV1.GroupMember r) =
     and_then (map_err to_issue (derive_group_member_id crypto (gm_group_id r) (gm_member_id r)))
       (\<lambda>i. if gm_id r \<noteq> i then Inl (invalid ''invalid group membership'') else Inr ())"
| "structurally_validate_body crypto sr root (RecordBodyV1.GroupMemberDeleted r) =
     and_then (map_err to_issue (derive_group_member_id crypto (gmd_group_id r) (gmd_member_id r)))
       (\<lambda>i. if gmd_id r \<noteq> i then Inl (invalid ''invalid group membership deletion'') else Inr ())"
| "structurally_validate_body crypto sr root (RecordBodyV1.Grant r) =
     and_then (map_err to_issue (derive_seeded_hash crypto ''thorax.grant.v1'' (grant_seed r)))
       (\<lambda>h. and_then (validate_permission (grant_permission r))
         (\<lambda>_. if grant_id r \<noteq> GrantId h then Inl (invalid ''invalid grant'') else Inr ()))"
| "structurally_validate_body crypto sr root (RecordBodyV1.GrantDeleted r) =
     validate_permission (grd_permission r)"
| "structurally_validate_body crypto sr root (RecordBodyV1.UserDeleted r) =
     (if ud_id r = root_id root then Inl (invalid ''invalid user deletion'') else Inr ())"
| "structurally_validate_body crypto sr root (RecordBodyV1.Secret r) =
     and_then (validate_secret_selector (secret_selector r)) (\<lambda>_.
       and_then (map_err to_issue (derive_secret_id crypto (secret_selector r))) (\<lambda>i.
         if secret_id r \<noteq> i then Inl (invalid ''invalid secret value'')
         else recipient_slots_loop {} (recipient_slots (secret_sealed r))))"
| "structurally_validate_body crypto sr root (RecordBodyV1.SecretDeleted r) =
     and_then (validate_secret_selector (sd_selector r)) (\<lambda>_.
       and_then (map_err to_issue (derive_secret_id crypto (sd_selector r))) (\<lambda>i.
         if sd_id r \<noteq> i then Inl (invalid ''invalid secret deletion'') else Inr ()))"

definition structurally_validate_record ::
  "CryptoProvider \<Rightarrow> VaultRecordV1 \<Rightarrow> RecordBodyV1 \<Rightarrow> VaultRootRecordV1 \<Rightarrow> ValidationIssue + unit" where
  "structurally_validate_record crypto sr body root =
     (if (case lww_counter body of None \<Rightarrow> False | Some counter \<Rightarrow> counter > MAX_LWW_COUNTER)
      then Inl (invalid ''counter exceeds the supported ceiling'')
      else structurally_validate_body crypto sr root body)"

section \<open>What the loops decide\<close>

lemma sorted_unique_loop_iff:
  "sorted_unique_loop issue f previous xs = Inr () \<longleftrightarrow>
     sorted_wrt (<) ((case previous of None \<Rightarrow> [] | Some p \<Rightarrow> [p]) @ map f xs)"
proof (induction xs arbitrary: previous)
  case (Cons x xs)
  show ?case
  proof (cases previous)
    case (Some p)
    have "sorted_wrt (<) (p # f x # map f xs) \<longleftrightarrow> p < f x \<and> sorted_wrt (<) (f x # map f xs)"
      by (auto intro: less_trans)
    then show ?thesis
      using Cons [of "Some (f x)"] Some by (auto simp: not_le)
  qed (use Cons [of "Some (f x)"] in simp)
qed (simp split: option.splits)

lemma sorted_unique_loop_None_iff:
  "sorted_unique_loop issue f None xs = Inr () \<longleftrightarrow> sorted_wrt (<) (map f xs)"
  by (simp add: sorted_unique_loop_iff)

lemma recipient_slots_loop_iff:
  "recipient_slots_loop slots xs = Inr () \<longleftrightarrow>
     distinct (map recipient_id xs) \<and> slots \<inter> recipient_id ` set xs = {}"
  by (induction xs arbitrary: slots) auto

lemma validate_in_matchers_iff:
  "validate_in_matchers ls = Inr () \<longleftrightarrow>
     (\<forall>l \<in> set ls. \<forall>vs. klm_matcher l = In vs \<longrightarrow> vs \<noteq> [] \<and> sorted_wrt (<) vs)"
  by (induction ls)
     (auto simp: and_then_Inr_iff validate_sorted_unique_strings_def sorted_unique_loop_None_iff
       split: LabelMatcherV1.splits if_splits)

lemma unit_Inr: "(m :: 'e + unit) = Inr x \<longleftrightarrow> m = Inr ()"
  by simp

lemma validate_keyspace_selector_iff:
  "validate_keyspace_selector g = Inr () \<longleftrightarrow>
     ks_tuple g \<noteq> Prefix [] \<and> sorted_wrt (<) (map klm_key (ks_labels g))
     \<and> (\<forall>l \<in> set (ks_labels g). \<forall>vs. klm_matcher l = In vs \<longrightarrow> vs \<noteq> [] \<and> sorted_wrt (<) vs)"
  by (auto simp: validate_keyspace_selector_def and_then_Inr_iff validate_in_matchers_iff
      validate_sorted_unique_keyspace_labels_def sorted_unique_loop_None_iff)

lemma validate_secret_selector_iff:
  "validate_secret_selector s = Inr () \<longleftrightarrow> sorted_wrt (<) (map label_key (sel_labels s))"
  by (simp add: validate_secret_selector_def validate_sorted_unique_secret_labels_def
      sorted_unique_loop_None_iff)

text \<open>A selector with prescribed label values on a finite set of keys.\<close>

definition selector_of :: "string list \<Rightarrow> string set \<Rightarrow> (string \<Rightarrow> string option) \<Rightarrow> SecretSelectorV1" where
  "selector_of t K f =
     \<lparr>sel_tuple = t,
      sel_labels = map (\<lambda>k. \<lparr>label_key = k, label_value = the (f k)\<rparr>)
                     (filter (\<lambda>k. f k \<noteq> None) (sorted_list_of_set K))\<rparr>"

lemma selector_of_tuple [simp]: "sel_tuple (selector_of t K f) = t"
  by (simp add: selector_of_def)

lemma find_map_key:
  "find (\<lambda>l. label_key l = k) (map (\<lambda>k. \<lparr>label_key = k, label_value = g k\<rparr>) ks) =
     (if k \<in> set ks then Some \<lparr>label_key = k, label_value = g k\<rparr> else None)"
  by (induction ks) auto

lemma selector_of_value:
  assumes "finite K"
  shows "secret_label_value (selector_of t K f) k = (if k \<in> K then f k else None)"
  using assms by (auto simp: selector_of_def secret_label_value_def find_map_key)

lemma selector_of_valid: "validate_secret_selector (selector_of t K f) = Inr ()"
proof -
  have "map label_key (sel_labels (selector_of t K f)) = filter (\<lambda>k. f k \<noteq> None) (sorted_list_of_set K)"
    by (simp add: selector_of_def comp_def)
  moreover have "sorted_wrt (<) (sorted_list_of_set K)"
    by (simp add: strict_sorted_iff)
  ultimately show ?thesis
    by (simp add: validate_secret_selector_iff sorted_wrt_filter)
qed

lemma child_matcher_unique:
  assumes "sorted_wrt (<) (map klm_key (ks_labels c))" and "l \<in> set (ks_labels c)"
  shows "child_label_matcher c (klm_key l) = Some (klm_matcher l)"
proof -
  have d: "distinct (map klm_key (ks_labels c))"
    using assms(1) by (simp add: strict_sorted_iff)
  obtain l' where l': "find (\<lambda>x. klm_key x = klm_key l) (ks_labels c) = Some l'"
    using assms(2) by (cases "find (\<lambda>x. klm_key x = klm_key l) (ks_labels c)") (auto simp: find_None_iff)
  have "l' = l"
    using assms(2) d find_Some_in [OF l'] by (meson distinct_map inj_onD)
  with l' show ?thesis by (simp add: child_label_matcher_def)
qed

lemma fresh_string: "\<exists>v :: string. v \<notin> set vs"
  using ex_new_if_finite [OF infinite_UNIV_listI, of "set vs"] by auto

text \<open>A value the child accepts and the parent does not, whenever subsumption fails.\<close>

lemma label_satisfiable: "(\<And>vs. m = In vs \<Longrightarrow> vs \<noteq> []) \<Longrightarrow> \<exists>v. label_matches m v"
  by (cases m; cases "case m of In vs \<Rightarrow> vs | _ \<Rightarrow> []") (fastforce intro: exI [of _ "Some _"])+

lemma label_fresh: "\<exists>w. (\<forall>vs. p = In vs \<longrightarrow> w \<notin> set vs) \<and> (\<forall>v. p = Equals v \<longrightarrow> w \<noteq> v)"
  using fresh_string [of "case p of In vs \<Rightarrow> vs | Equals v \<Rightarrow> [v] | _ \<Rightarrow> []"]
  by (cases p) auto

lemma label_counterexample_Some:
  assumes "\<not> label_subsumes p (Some m)" and "\<And>vs. m = In vs \<Longrightarrow> vs \<noteq> []"
  shows "\<exists>v. label_matches m v \<and> \<not> label_matches p v"
proof (cases m)
  case Any
  obtain w where "\<forall>vs. p = In vs \<longrightarrow> w \<notin> set vs" "\<forall>v. p = Equals v \<longrightarrow> w \<noteq> v"
    using label_fresh [of p] by blast
  with Any assms(1) show ?thesis
    by (cases p) (auto intro!: exI [of _ "Some w"])
next
  case (In vs)
  with assms(2) obtain v where "v \<in> set vs" by (cases vs) auto
  with In assms(1) show ?thesis
    by (cases p) (auto simp: list_all_iff intro: exI [of _ "Some v"] exI [of _ "Some _"])
qed (use assms(1) in \<open>cases p; auto intro: exI [of _ None] exI [of _ "Some _"]\<close>)+

lemma label_counterexample:
  assumes "\<not> label_subsumes p c" and "\<And>vs. c = Some (In vs) \<Longrightarrow> vs \<noteq> []"
  shows "\<exists>v. (\<forall>m. c = Some m \<longrightarrow> label_matches m v) \<and> \<not> label_matches p v"
proof (cases c)
  case None
  have "\<exists>v. \<not> label_matches p v"
    by (cases "p = Absent"; cases p) (auto intro: exI [of _ None] exI [of _ "Some []"])
  with None show ?thesis by simp
qed (use assms label_counterexample_Some in auto)

lemma tuple_counterexample:
  assumes "\<not> tuple_subsumes p c" and "p \<noteq> Prefix []"
  shows "\<exists>t. tuple_matches c t \<and> \<not> tuple_matches p t"
proof (cases p)
  case (Exact t)
  have "\<exists>u. prefix x u \<and> t \<noteq> u" for x
    by (cases "t = x") (auto intro: exI [of _ "x @ [[]]"] exI [of _ x])
  with Exact show ?thesis
    using assms by (cases c) (auto intro: exI [of _ "t @ [[]]"])
next
  case (Prefix t)
  then show ?thesis
    using assms by (cases c) (auto intro: exI [of _ "[]"])
qed (use assms in simp)

lemma selector_counterexample:
  assumes p: "validate_keyspace_selector parent = Inr ()"
    and c: "validate_keyspace_selector child = Inr ()"
    and no: "\<not> selector_subsumes parent child"
  shows "\<exists>s. validate_secret_selector s = Inr () \<and> selector_matches child s \<and> \<not> selector_matches parent s"
proof -
  let ?K = "klm_key ` set (ks_labels child) \<union> klm_key ` set (ks_labels parent)"
  have in_ne: "vs \<noteq> []" if "child_label_matcher child k = Some (In vs)" for k vs
    using c child_label_matcher_SomeD [OF that] by (auto simp: validate_keyspace_selector_iff)
  have "\<forall>k. \<exists>v. \<forall>m. child_label_matcher child k = Some m \<longrightarrow> label_matches m v"
  proof
    fix k
    show "\<exists>v. \<forall>m. child_label_matcher child k = Some m \<longrightarrow> label_matches m v"
      using label_satisfiable [of "the (child_label_matcher child k)"] in_ne [of k]
      by (cases "child_label_matcher child k") auto
  qed
  from choice [OF this] obtain f where f: "child_label_matcher child k = Some m \<Longrightarrow> label_matches m (f k)" for k m
    by blast
  have sat: "\<exists>t. tuple_matches (ks_tuple child) t"
    by (cases "ks_tuple child") auto
  have uniq: "child_label_matcher child (klm_key l) = Some (klm_matcher l)"
    if "l \<in> set (ks_labels child)" for l
    using c that by (intro child_matcher_unique) (auto simp: validate_keyspace_selector_iff)
  have child: "selector_matches child (selector_of t ?K g)"
    if "tuple_matches (ks_tuple child) t"
      and "\<And>k m. child_label_matcher child k = Some m \<Longrightarrow> label_matches m (g k)" for t g
    using that uniq by (simp add: selector_matches_def list_all_iff selector_of_value)
  show ?thesis
  proof (cases "tuple_subsumes (ks_tuple parent) (ks_tuple child)")
    case False
    then obtain t where t: "tuple_matches (ks_tuple child) t" "\<not> tuple_matches (ks_tuple parent) t"
      using tuple_counterexample [OF False] p by (auto simp: validate_keyspace_selector_iff)
    then have "\<not> selector_matches parent (selector_of t ?K f)"
      by (simp add: selector_matches_def)
    then show ?thesis
      using child [OF t(1) f] selector_of_valid [of t ?K f] by (intro exI [of _ "selector_of t ?K f"]) simp
  next
    case True
    with no obtain l where l: "l \<in> set (ks_labels parent)"
        "\<not> label_subsumes (klm_matcher l) (child_label_matcher child (klm_key l))"
      by (auto simp: selector_subsumes_def labels_subsume_iff)
    obtain v where v: "\<And>m. child_label_matcher child (klm_key l) = Some m \<Longrightarrow> label_matches m v"
        "\<not> label_matches (klm_matcher l) v"
      using label_counterexample [OF l(2) in_ne [of "klm_key l"]] by auto
    obtain t where t: "tuple_matches (ks_tuple child) t" using sat by blast
    have "selector_matches child (selector_of t ?K (f(klm_key l := v)))"
      using f v(1) by (intro child [OF t]) auto
    moreover have "\<not> selector_matches parent (selector_of t ?K (f(klm_key l := v)))"
    proof
      assume "selector_matches parent (selector_of t ?K (f(klm_key l := v)))"
      then have "label_matches (klm_matcher l)
          (secret_label_value (selector_of t ?K (f(klm_key l := v))) (klm_key l))"
        using l(1) by (simp add: selector_matches_def list_all_iff)
      with l(1) v(2) show False by (simp add: selector_of_value)
    qed
    ultimately show ?thesis
      using selector_of_valid [of t ?K "f(klm_key l := v)"]
      by (intro exI [of _ "selector_of t ?K (f(klm_key l := v))"]) simp
  qed
qed

section \<open>Built records\<close>

lemmas payload_defs =
  record_payload_def vault_root_record_payload_def entry_point_record_payload_def
  user_record_payload_def user_handle_record_payload_def vault_handle_record_payload_def
  grant_record_payload_def grant_deleted_record_payload_def group_record_payload_def
  group_deleted_record_payload_def group_member_record_payload_def
  group_member_deleted_record_payload_def user_deleted_record_payload_def
  secret_record_payload_def secret_deleted_record_payload_def

abbreviation accepted ::
  "CryptoProvider \<Rightarrow> VaultRecordV1 \<Rightarrow> VaultRootRecordV1 \<Rightarrow> RecordBodyV1 Evolving \<Rightarrow> bool" where
  "accepted crypto sr root payload \<equiv>
     \<exists>body. known payload = Some body \<and> structurally_validate_record crypto sr body root = Inr ()"

lemma Inr_and_then_iff: "Inr y = and_then m f \<longleftrightarrow> (\<exists>x. m = Inr x \<and> f x = Inr y)"
  by (metis and_then_Inr_iff)

lemma accepted_Known:
  assumes "structurally_validate_body crypto sr root body = Inr ()"
    and "\<And>c. lww_counter body = Some c \<Longrightarrow> c \<le> MAX_LWW_COUNTER"
  shows "accepted crypto sr root (Known body)"
  using assms by (auto simp: structurally_validate_record_def not_less split: option.splits)

section \<open>Properties\<close>

text \<open>
  C32. Subsumption is exact on validated selectors: for two keyspace selectors that pass
  structural validation, the delegation rule's syntactic test accepts exactly when every
  well-formed secret covered by the child is covered by the parent. The test neither lets a
  wider selector through nor refuses a narrower one.
\<close>

theorem selector_subsumes_exact:
  assumes "validate_keyspace_selector parent = Inr ()" and "validate_keyspace_selector child = Inr ()"
  shows "selector_subsumes parent child \<longleftrightarrow>
    (\<forall>s. validate_secret_selector s = Inr () \<longrightarrow> selector_matches child s \<longrightarrow> selector_matches parent s)"
  using selector_counterexample [OF assms] selector_subsumes_matches [of parent child] by blast

theorem selector_subsumes_exact_witness:
  "validate_keyspace_selector (keyspace_prefix [''app'']) = Inr ()
   \<and> selector_subsumes (keyspace_prefix [''app'']) (keyspace_exact [''app'', ''db''])
   \<and> (\<exists>s. validate_secret_selector s = Inr () \<and> selector_matches (keyspace_prefix [''app'']) s
        \<and> \<not> selector_matches (keyspace_exact [''app'', ''db'']) s)"
proof -
  let ?p = "keyspace_prefix [''app'']" and ?e = "keyspace_exact [''app'', ''db'']"
  have v: "validate_keyspace_selector ?p = Inr ()" "validate_keyspace_selector ?e = Inr ()"
    by (simp_all add: validate_keyspace_selector_iff keyspace_prefix_def keyspace_exact_def)
  have "selector_subsumes ?p ?e" "\<not> selector_subsumes ?e ?p"
    by (simp_all add: selector_subsumes_def keyspace_prefix_def keyspace_exact_def labels_subsume_def)
  with selector_subsumes_exact [OF v(2,1)] v show ?thesis by blast
qed

text \<open>
  What the builders of \<open>hazmat.rs\<close> produce passes structural validation: for a counter at
  most the ceiling, a valid handle, a valid permission, a selector with sorted labels, distinct
  recipients and a deleted user other than the root, each of the thirteen payload builders
  yields a body that the validator accepts, in an envelope under the root's key for the root
  record and in any envelope for the others.
\<close>

lemma hazmat_payloads_structurally_valid:
  assumes "counter \<le> MAX_LWW_COUNTER" and "is_valid_handle handle"
    and "validate_permission permission = Inr ()"
    and "validate_secret_selector selector = Inr ()"
    and "distinct (map recipient_id (recipient_slots sealed))"
    and "user \<noteq> root_id root"
    and "Inr payload \<in> set [vault_root_record_payload crypto (rec_signing_public_key sr) hpk,
       Inr (entry_point_record_payload (root_id root) hpk counter),
       user_record_payload crypto spk hpk counter,
       user_handle_record_payload crypto handle user counter,
       vault_handle_record_payload crypto handle counter,
       grant_record_payload crypto subject permission seed counter,
       Inr (grant_deleted_record_payload gid permission counter),
       group_record_payload crypto seed handle counter,
       Inr (group_deleted_record_payload grid counter),
       group_member_record_payload crypto grid subject counter,
       group_member_deleted_record_payload crypto grid subject counter,
       Inr (user_deleted_record_payload user reason counter),
       secret_record_payload crypto selector sealed counter,
       secret_deleted_record_payload crypto selector counter]"
  shows "\<exists>body. known payload = Some body \<and> structurally_validate_record crypto sr body root = Inr ()"
  using assms(7)
  by (auto simp: payload_defs and_then_Inr_iff Inr_and_then_iff derive_grant_id_def derive_group_id_def
      structurally_valid_user_def recipient_slots_loop_iff
      simp del: known.simps intro!: accepted_Known assms(1-6))

end
