(* ===== verification/Thorax_Ratchet.thy ===== *)
theory Thorax_Ratchet
  imports Thorax_Structure
begin

text \<open>
  The local rollback memory: \<open>Ratchet\<close> and \<open>RatchetUpdate\<close> of
  \<open>crates/thorax-core/src/ratchet.rs\<close>, and the persisted ratchet records and invitations of
  \<open>format.rs\<close>. A ratchet remembers the highest counter verified at each record key, the origin
  of the key and the highest format version.

  The theorems show that folding facts into a ratchet is a join: no watermark, no format version
  and no remembered origin is ever lost, the result does not depend on the order of the facts,
  and writing a ratchet as records and reading them back in any order restores it.
\<close>

section \<open>Ratchet records\<close>

datatype KeyOrigin =
    Secret SecretSelectorV1
  | UserHandle string
  | VaultHandle string
  | GroupMember GroupId PrincipalRefV1

record UserRatchetRecordV1 =
  urr_id :: UserId
  urr_counter :: u64

record UserHandleRatchetRecordV1 =
  uhr_id :: UserHandleId
  uhr_counter :: u64
  uhr_handle :: string

record VaultHandleRatchetRecordV1 =
  vhr_id :: VaultHandleId
  vhr_counter :: u64
  vhr_handle :: string

record GroupRatchetRecordV1 =
  grr_id :: GroupId
  grr_counter :: u64

record GroupMemberRatchetRecordV1 =
  gmr_id :: GroupMemberId
  gmr_counter :: u64
  gmr_membership :: "GroupMemberIdInputV1 option"

record GrantRatchetRecordV1 =
  gtr_id :: GrantId
  gtr_counter :: u64

record SecretRatchetRecordV1 =
  srr_id :: SecretId
  srr_counter :: u64
  srr_selector :: SecretSelectorV1

record EntryPointRatchetRecordV1 =
  epr_id :: UserId
  epr_counter :: u64

record FormatVersionRatchetRecordV1 =
  fvr_version :: u64

record TrustedRootRatchetRecordV1 =
  trr_trusted_root :: HashValue

datatype RatchetRecordV1 =
    User UserRatchetRecordV1
  | UserHandle UserHandleRatchetRecordV1
  | VaultHandle VaultHandleRatchetRecordV1
  | Group GroupRatchetRecordV1
  | GroupMember GroupMemberRatchetRecordV1
  | Grant GrantRatchetRecordV1
  | Secret SecretRatchetRecordV1
  | EntryPoint EntryPointRatchetRecordV1
  | FormatVersion FormatVersionRatchetRecordV1
  | TrustedRoot TrustedRootRatchetRecordV1

fun for_key :: "RecordKey \<Rightarrow> u64 \<Rightarrow> KeyOrigin option \<Rightarrow> RatchetRecordV1 option" where
  "for_key RecordKey.VaultRoot counter origin = None"
| "for_key (RecordKey.EntryPoint u) counter origin =
     Some (RatchetRecordV1.EntryPoint \<lparr>epr_id = u, epr_counter = counter\<rparr>)"
| "for_key (RecordKey.User u) counter origin =
     Some (RatchetRecordV1.User \<lparr>urr_id = u, urr_counter = counter\<rparr>)"
| "for_key (RecordKey.UserHandle h) counter origin =
     Some (RatchetRecordV1.UserHandle \<lparr>uhr_id = h, uhr_counter = counter,
       uhr_handle = (case origin of Some (KeyOrigin.UserHandle handle) \<Rightarrow> handle | _ \<Rightarrow> [])\<rparr>)"
| "for_key (RecordKey.VaultHandle h) counter origin =
     Some (RatchetRecordV1.VaultHandle \<lparr>vhr_id = h, vhr_counter = counter,
       vhr_handle = (case origin of Some (KeyOrigin.VaultHandle handle) \<Rightarrow> handle | _ \<Rightarrow> [])\<rparr>)"
| "for_key (RecordKey.Group g) counter origin =
     Some (RatchetRecordV1.Group \<lparr>grr_id = g, grr_counter = counter\<rparr>)"
| "for_key (RecordKey.GroupMember m) counter origin =
     Some (RatchetRecordV1.GroupMember \<lparr>gmr_id = m, gmr_counter = counter,
       gmr_membership = (case origin of
           Some (KeyOrigin.GroupMember g p) \<Rightarrow> Some \<lparr>gmi_group_id = g, gmi_member_id = p\<rparr>
         | _ \<Rightarrow> None)\<rparr>)"
| "for_key (RecordKey.Grant g) counter origin =
     Some (RatchetRecordV1.Grant \<lparr>gtr_id = g, gtr_counter = counter\<rparr>)"
| "for_key (RecordKey.Secret s) counter origin =
     Some (RatchetRecordV1.Secret \<lparr>srr_id = s, srr_counter = counter,
       srr_selector = (case origin of Some (KeyOrigin.Secret selector) \<Rightarrow> selector
                       | _ \<Rightarrow> selector_tuple [])\<rparr>)"

fun ratchet_record_origin :: "RatchetRecordV1 \<Rightarrow> KeyOrigin option" where
  "ratchet_record_origin (RatchetRecordV1.UserHandle w) =
     (if uhr_handle w \<noteq> [] then Some (KeyOrigin.UserHandle (uhr_handle w)) else None)"
| "ratchet_record_origin (RatchetRecordV1.VaultHandle w) =
     (if vhr_handle w \<noteq> [] then Some (KeyOrigin.VaultHandle (vhr_handle w)) else None)"
| "ratchet_record_origin (RatchetRecordV1.GroupMember w) =
     map_option (\<lambda>m. KeyOrigin.GroupMember (gmi_group_id m) (gmi_member_id m)) (gmr_membership w)"
| "ratchet_record_origin (RatchetRecordV1.Secret w) =
     (if sel_tuple (srr_selector w) \<noteq> [] then Some (KeyOrigin.Secret (srr_selector w)) else None)"
| "ratchet_record_origin _ = None"

fun ratchet_record_key :: "RatchetRecordV1 \<Rightarrow> RecordKey option" where
  "ratchet_record_key (RatchetRecordV1.FormatVersion _) = None"
| "ratchet_record_key (RatchetRecordV1.TrustedRoot _) = None"
| "ratchet_record_key (RatchetRecordV1.User w) = Some (RecordKey.User (urr_id w))"
| "ratchet_record_key (RatchetRecordV1.UserHandle w) = Some (RecordKey.UserHandle (uhr_id w))"
| "ratchet_record_key (RatchetRecordV1.VaultHandle w) = Some (RecordKey.VaultHandle (vhr_id w))"
| "ratchet_record_key (RatchetRecordV1.Group w) = Some (RecordKey.Group (grr_id w))"
| "ratchet_record_key (RatchetRecordV1.GroupMember w) = Some (RecordKey.GroupMember (gmr_id w))"
| "ratchet_record_key (RatchetRecordV1.Grant w) = Some (RecordKey.Grant (gtr_id w))"
| "ratchet_record_key (RatchetRecordV1.Secret w) = Some (RecordKey.Secret (srr_id w))"
| "ratchet_record_key (RatchetRecordV1.EntryPoint w) = Some (RecordKey.EntryPoint (epr_id w))"

fun ratchet_record_counter :: "RatchetRecordV1 \<Rightarrow> u64" where
  "ratchet_record_counter (RatchetRecordV1.User w) = urr_counter w"
| "ratchet_record_counter (RatchetRecordV1.UserHandle w) = uhr_counter w"
| "ratchet_record_counter (RatchetRecordV1.VaultHandle w) = vhr_counter w"
| "ratchet_record_counter (RatchetRecordV1.Group w) = grr_counter w"
| "ratchet_record_counter (RatchetRecordV1.GroupMember w) = gmr_counter w"
| "ratchet_record_counter (RatchetRecordV1.Grant w) = gtr_counter w"
| "ratchet_record_counter (RatchetRecordV1.Secret w) = srr_counter w"
| "ratchet_record_counter (RatchetRecordV1.EntryPoint w) = epr_counter w"
| "ratchet_record_counter (RatchetRecordV1.FormatVersion w) = fvr_version w"
| "ratchet_record_counter (RatchetRecordV1.TrustedRoot w) = 0"

section \<open>The ratchet\<close>

datatype UnknownRatchetRecord = UnknownRatchetRecord Bytes

record Ratchet =
  trusted_root :: HashValue
  watermarks :: "(RecordKey, u64) BTreeMap"
  origins :: "(RecordKey, KeyOrigin) BTreeMap"
  ratchet_format_version :: u64
  unknown_records :: "UnknownRatchetRecord list"

record RatchetUpdate =
  raised_watermarks :: "(RecordKey, u64) BTreeMap"
  update_origins :: "(RecordKey, KeyOrigin) BTreeMap"
  raised_format_version :: "u64 option"

definition ratchet_new :: "HashValue \<Rightarrow> Ratchet" where
  "ratchet_new root = \<lparr>trusted_root = root, watermarks = [], origins = [],
     ratchet_format_version = 0, unknown_records = []\<rparr>"

definition default_ratchet_update :: RatchetUpdate where
  "default_ratchet_update =
     \<lparr>raised_watermarks = [], update_origins = [], raised_format_version = None\<rparr>"

definition raise_watermark :: "RecordKey \<Rightarrow> u64 \<Rightarrow> Ratchet \<Rightarrow> Ratchet" where
  "raise_watermark k c r = r\<lparr>watermarks := bt_entry k 0 (\<lambda>e. max e c) (watermarks r)\<rparr>"

definition remember_origin :: "RecordKey \<Rightarrow> KeyOrigin \<Rightarrow> Ratchet \<Rightarrow> Ratchet" where
  "remember_origin k orig r = r\<lparr>origins := bt_entry k orig (\<lambda>e. e) (origins r)\<rparr>"

definition apply_update :: "RatchetUpdate \<Rightarrow> Ratchet \<Rightarrow> Ratchet" where
  "apply_update update r =
     (let r1 = fold (\<lambda>(k, c). raise_watermark k c) (raised_watermarks update) r;
          r2 = fold (\<lambda>(k, orig). remember_origin k orig) (update_origins update) r1
      in case raised_format_version update of
           Some version \<Rightarrow>
             r2\<lparr>ratchet_format_version := max (ratchet_format_version r2) version\<rparr>
         | None \<Rightarrow> r2)"

definition to_records :: "Ratchet \<Rightarrow> RatchetRecordV1 list" where
  "to_records r =
     List.map_filter (\<lambda>(k, c). for_key k c (bt_get (origins r) k)) (watermarks r)
     @ (if ratchet_format_version r > 0
        then [RatchetRecordV1.FormatVersion \<lparr>fvr_version = ratchet_format_version r\<rparr>] else [])
     @ [RatchetRecordV1.TrustedRoot \<lparr>trr_trusted_root = trusted_root r\<rparr>]"

fun absorb_record :: "RatchetRecordV1 \<Rightarrow> Ratchet \<Rightarrow> Ratchet" where
  "absorb_record (RatchetRecordV1.TrustedRoot _) r = r"
| "absorb_record (RatchetRecordV1.FormatVersion fv) r =
     r\<lparr>ratchet_format_version := max (ratchet_format_version r) (fvr_version fv)\<rparr>"
| "absorb_record keyed r =
     (case ratchet_record_key keyed of
        None \<Rightarrow> r
      | Some k \<Rightarrow>
          let r1 = raise_watermark k (ratchet_record_counter keyed) r
          in case ratchet_record_origin keyed of
               None \<Rightarrow> r1
             | Some orig \<Rightarrow> remember_origin k orig r1)"

section \<open>Invitations\<close>

record RatchetBaselineV1 =
  baseline_records :: "RatchetRecordV1 list"

record InviteV1 =
  inv1_master_seed :: Bytes
  inv1_trusted_root :: HashValue
  inv1_rollback_baseline :: RatchetBaselineV1

record InviteV2 =
  inv2_master_seed :: Bytes
  inv2_trusted_root :: HashValue
  inv2_rollback_baseline :: "RatchetBaselineV1 option"

datatype Invite = V1 InviteV1 | V2 InviteV2

record InvitationMaterial =
  im_master_seed :: Bytes
  im_trusted_root :: HashValue
  im_rollback_baseline :: "RatchetBaselineV1 option"

fun into_material :: "Invite \<Rightarrow> InvitationMaterial" where
  "into_material (Invite.V1 invite) =
     \<lparr>im_master_seed = inv1_master_seed invite, im_trusted_root = inv1_trusted_root invite,
      im_rollback_baseline = Some (inv1_rollback_baseline invite)\<rparr>"
| "into_material (Invite.V2 invite) =
     \<lparr>im_master_seed = inv2_master_seed invite, im_trusted_root = inv2_trusted_root invite,
      im_rollback_baseline = inv2_rollback_baseline invite\<rparr>"

definition to_v2 :: "InvitationMaterial \<Rightarrow> bool \<Rightarrow> InviteV2" where
  "to_v2 m include_baseline =
     \<lparr>inv2_master_seed = im_master_seed m, inv2_trusted_root = im_trusted_root m,
      inv2_rollback_baseline = (if include_baseline then im_rollback_baseline m else None)\<rparr>"

definition has_rollback_baseline :: "InvitationMaterial \<Rightarrow> bool" where
  "has_rollback_baseline m \<longleftrightarrow> im_rollback_baseline m \<noteq> None"

section \<open>Folding facts is a join\<close>

definition watermark_level :: "Ratchet \<Rightarrow> RecordKey \<Rightarrow> u64" where
  "watermark_level r k = (case bt_get (watermarks r) k of None \<Rightarrow> 0 | Some c \<Rightarrow> c)"

text \<open>The level at a key, and at \<open>None\<close> the format version.\<close>

definition ratchet_level :: "Ratchet \<Rightarrow> RecordKey option \<Rightarrow> u64" where
  "ratchet_level r k = (case k of None \<Rightarrow> ratchet_format_version r | Some k' \<Rightarrow> watermark_level r k')"

definition update_claim :: "RatchetUpdate \<Rightarrow> RecordKey option \<Rightarrow> u64" where
  "update_claim u k =
     (case k of None \<Rightarrow> (case raised_format_version u of None \<Rightarrow> 0 | Some v \<Rightarrow> v)
      | Some k' \<Rightarrow> (case bt_get (raised_watermarks u) k' of None \<Rightarrow> 0 | Some c \<Rightarrow> c))"

fun is_format_version :: "RatchetRecordV1 \<Rightarrow> bool" where
  "is_format_version (RatchetRecordV1.FormatVersion _) = True"
| "is_format_version _ = False"

definition record_claim :: "RatchetRecordV1 \<Rightarrow> RecordKey option \<Rightarrow> u64" where
  "record_claim x k =
     (if (case k of None \<Rightarrow> is_format_version x | Some k' \<Rightarrow> ratchet_record_key x = Some k')
      then ratchet_record_counter x else 0)"

text \<open>The contract of a rollback memory: each fact raises the level at a key to its claim.\<close>

locale rollback_memory =
  fixes step :: "'u \<Rightarrow> 's \<Rightarrow> 's"
    and level :: "'s \<Rightarrow> 'k \<Rightarrow> 'l::linorder"
    and claim :: "'u \<Rightarrow> 'k \<Rightarrow> 'l"
    and ok :: "'u \<Rightarrow> bool"
  assumes level_step: "ok u \<Longrightarrow> level (step u s) k = max (level s k) (claim u k)"
begin

lemma level_mono: "ok u \<Longrightarrow> level s k \<le> level (step u s) k"
  by (simp add: level_step)

lemma claim_reached: "ok u \<Longrightarrow> claim u k \<le> level (step u s) k"
  by (simp add: level_step)

lemma level_fold:
  "list_all ok us \<Longrightarrow>
     level (fold step us s) k = Max (insert (level s k) ((\<lambda>u. claim u k) ` set us))"
proof (induction us arbitrary: s)
  case (Cons u us)
  then have "level (fold step us (step u s)) k =
      Max (insert (max (level s k) (claim u k)) ((\<lambda>u. claim u k) ` set us))"
    by (simp add: level_step)
  then show ?case
    by (cases "us = []") (simp_all add: max.assoc)
qed simp

lemma level_fold_mono: "list_all ok us \<Longrightarrow> level s k \<le> level (fold step us s) k"
  by (simp add: level_fold)

lemma level_fold_order:
  assumes "list_all ok us" and "set us = set vs"
  shows "level (fold step us s) k = level (fold step vs s) k"
  using assms by (simp add: level_fold list_all_iff)

lemma level_step_idem: "ok u \<Longrightarrow> level (step u (step u s)) k = level (step u s) k"
  by (simp add: level_step)

end

lemma raise_watermark_get:
  "bt_get (watermarks (raise_watermark k c r)) k' =
     (if k' = k then Some (max (watermark_level r k) c) else bt_get (watermarks r) k')"
  by (auto simp: raise_watermark_def bt_entry_def watermark_level_def bt.get_insert)

lemma remember_origin_get:
  "bt_get (origins (remember_origin k orig r)) k' =
     (if k' = k then Some (case bt_get (origins r) k of None \<Rightarrow> orig | Some old \<Rightarrow> old)
      else bt_get (origins r) k')"
  by (auto simp: remember_origin_def bt_entry_def bt.get_insert)

lemma ratchet_step_frames [simp]:
  "watermarks (remember_origin k orig r) = watermarks r"
  "origins (raise_watermark k c r) = origins r"
  "ratchet_format_version (raise_watermark k c r) = ratchet_format_version r"
  "ratchet_format_version (remember_origin k orig r) = ratchet_format_version r"
  "trusted_root (raise_watermark k c r) = trusted_root r"
  "trusted_root (remember_origin k orig r) = trusted_root r"
  "unknown_records (raise_watermark k c r) = unknown_records r"
  "unknown_records (remember_origin k orig r) = unknown_records r"
  by (simp_all add: raise_watermark_def remember_origin_def)

lemma watermark_level_raise:
  "watermark_level (raise_watermark k c r) k' =
     (if k' = k then max (watermark_level r k) c else watermark_level r k')"
  by (simp add: watermark_level_def raise_watermark_get)

lemma watermark_level_remember [simp]:
  "watermark_level (remember_origin k orig r) k' = watermark_level r k'"
  by (simp add: watermark_level_def)

lemma fold_remember_frames [simp]:
  "watermarks (fold (\<lambda>(k, orig). remember_origin k orig) ps r) = watermarks r"
  "ratchet_format_version (fold (\<lambda>(k, orig). remember_origin k orig) ps r) = ratchet_format_version r"
  "trusted_root (fold (\<lambda>(k, orig). remember_origin k orig) ps r) = trusted_root r"
  "unknown_records (fold (\<lambda>(k, orig). remember_origin k orig) ps r) = unknown_records r"
  by (induction ps arbitrary: r) (auto split: prod.splits)

lemma fold_raise_frames [simp]:
  "origins (fold (\<lambda>(k, c). raise_watermark k c) ps r) = origins r"
  "ratchet_format_version (fold (\<lambda>(k, c). raise_watermark k c) ps r) = ratchet_format_version r"
  "trusted_root (fold (\<lambda>(k, c). raise_watermark k c) ps r) = trusted_root r"
  "unknown_records (fold (\<lambda>(k, c). raise_watermark k c) ps r) = unknown_records r"
  by (induction ps arbitrary: r) (auto split: prod.splits)

lemma fold_raise_level:
  assumes "distinct (map fst ps)"
  shows "watermark_level (fold (\<lambda>(k, c). raise_watermark k c) ps r) k =
     max (watermark_level r k) (case map_of ps k of None \<Rightarrow> 0 | Some c \<Rightarrow> c)"
  using assms
proof (induction ps arbitrary: r)
  case (Cons p ps)
  obtain k' c where p: "p = (k', c)" by (cases p)
  have "map_of ps k' = None"
    using Cons.prems p by (auto simp: map_of_eq_None_iff)
  then show ?case
    using Cons p by (auto simp: watermark_level_raise)
qed simp

lemma fold_remember_get:
  "bt_get (origins (fold (\<lambda>(k, orig). remember_origin k orig) ps r)) k =
     (case bt_get (origins r) k of Some old \<Rightarrow> Some old | None \<Rightarrow> bt_get ps k)"
  by (induction ps arbitrary: r) (auto simp: remember_origin_get bt_get_def [of "_ # _"]
      bt_get_def [of _ k, symmetric] bt_get_def [of "[]"] split: option.splits)

lemma apply_update_fields:
  "watermarks (apply_update u r) = watermarks (fold (\<lambda>(k, c). raise_watermark k c) (raised_watermarks u) r)"
  "ratchet_format_version (apply_update u r) = max (ratchet_format_version r) (update_claim u None)"
  "bt_get (origins (apply_update u r)) k =
     (case bt_get (origins r) k of Some old \<Rightarrow> Some old | None \<Rightarrow> bt_get (update_origins u) k)"
  "trusted_root (apply_update u r) = trusted_root r"
  "unknown_records (apply_update u r) = unknown_records r"
  by (simp_all add: apply_update_def Let_def update_claim_def fold_remember_get
      split: option.splits)

lemma apply_update_level:
  assumes "bt_wf (raised_watermarks u)"
  shows "ratchet_level (apply_update u r) k = max (ratchet_level r k) (update_claim u k)"
proof (cases k)
  case (Some k')
  have "watermark_level (apply_update u r) k' =
      watermark_level (fold (\<lambda>(k, c). raise_watermark k c) (raised_watermarks u) r) k'"
    by (simp add: watermark_level_def apply_update_fields)
  with Some assms show ?thesis
    by (simp add: ratchet_level_def update_claim_def bt_wf_def strict_sorted_iff fold_raise_level bt_get_def)
qed (simp add: ratchet_level_def apply_update_fields)

interpretation updates: rollback_memory apply_update ratchet_level update_claim
    "\<lambda>u. bt_wf (raised_watermarks u)"
  by unfold_locales (rule apply_update_level)

lemma absorb_keyed:
  assumes "ratchet_record_key x = Some k"
  shows "absorb_record x r =
     (case ratchet_record_origin x of
        None \<Rightarrow> raise_watermark k (ratchet_record_counter x) r
      | Some orig \<Rightarrow> remember_origin k orig (raise_watermark k (ratchet_record_counter x) r))"
  using assms by (cases x) (auto simp: Let_def split: option.splits)

lemma absorb_unkeyed:
  assumes "ratchet_record_key x = None"
  shows "watermarks (absorb_record x r) = watermarks r" "origins (absorb_record x r) = origins r"
    "ratchet_format_version (absorb_record x r) = max (ratchet_format_version r) (record_claim x None)"
  using assms by (cases x; simp add: record_claim_def)+

lemma absorb_frames [simp]:
  "trusted_root (absorb_record x r) = trusted_root r"
  "unknown_records (absorb_record x r) = unknown_records r"
  by (cases x; simp add: Let_def split: option.splits)+

lemma keyed_not_version: "ratchet_record_key x = Some k \<Longrightarrow> \<not> is_format_version x"
  by (cases x) auto

lemma absorb_watermarks:
  "bt_get (watermarks (absorb_record x r)) k =
     (if ratchet_record_key x = Some k then Some (max (watermark_level r k) (ratchet_record_counter x))
      else bt_get (watermarks r) k)"
  by (cases "ratchet_record_key x")
     (auto simp: absorb_unkeyed absorb_keyed raise_watermark_get split: option.splits)

lemma absorb_origins:
  "bt_get (origins (absorb_record x r)) k =
     (case bt_get (origins r) k of Some old \<Rightarrow> Some old
      | None \<Rightarrow> if ratchet_record_key x = Some k then ratchet_record_origin x else None)"
  by (cases "ratchet_record_key x")
     (auto simp: absorb_unkeyed absorb_keyed remember_origin_get split: option.splits)

lemma absorb_version:
  "ratchet_format_version (absorb_record x r) = max (ratchet_format_version r) (record_claim x None)"
  by (cases "ratchet_record_key x")
     (auto simp: absorb_unkeyed absorb_keyed record_claim_def dest: keyed_not_version
       split: option.splits)

interpretation absorption: rollback_memory absorb_record ratchet_level record_claim "\<lambda>_. True"
proof
  fix x :: RatchetRecordV1 and r k
  show "ratchet_level (absorb_record x r) k = max (ratchet_level r k) (record_claim x k)"
    by (cases k) (auto simp: ratchet_level_def absorb_version watermark_level_def absorb_watermarks
        record_claim_def split: option.splits)
qed


section \<open>Records and back\<close>

fun origin_matches :: "RecordKey \<Rightarrow> KeyOrigin \<Rightarrow> bool" where
  "origin_matches (RecordKey.UserHandle h) (KeyOrigin.UserHandle s) = (s \<noteq> [])"
| "origin_matches (RecordKey.VaultHandle h) (KeyOrigin.VaultHandle s) = (s \<noteq> [])"
| "origin_matches (RecordKey.GroupMember m) (KeyOrigin.GroupMember g p) = True"
| "origin_matches (RecordKey.Secret i) (KeyOrigin.Secret s) = (sel_tuple s \<noteq> [])"
| "origin_matches k orig = False"

definition ratchet_wf :: "Ratchet \<Rightarrow> bool" where
  "ratchet_wf r \<longleftrightarrow>
     bt_wf (watermarks r) \<and> bt_wf (origins r)
     \<and> bt_get (watermarks r) RecordKey.VaultRoot = None
     \<and> list_all (\<lambda>(k, orig). origin_matches k orig \<and> bt_get (watermarks r) k \<noteq> None) (origins r)"

lemma for_key_Some:
  assumes "for_key k c orig = Some x"
  shows "ratchet_record_key x = Some k" "ratchet_record_counter x = c" "\<not> is_format_version x"
  using assms by (cases k; force)+

lemma for_key_ex: "k \<noteq> RecordKey.VaultRoot \<Longrightarrow> \<exists>x. for_key k c orig = Some x"
  by (cases k) auto

lemma for_key_origin:
  assumes "for_key k c orig = Some x" and "\<And>v. orig = Some v \<Longrightarrow> origin_matches k v"
  shows "ratchet_record_origin x = orig"
proof (cases orig)
  case (Some v)
  with assms show ?thesis by (cases k; cases v) auto
qed (use assms in \<open>cases k; auto simp: selector_tuple_def\<close>)

lemma set_to_records:
  "set (to_records r) =
     {x. \<exists>k c. (k, c) \<in> set (watermarks r) \<and> for_key k c (bt_get (origins r) k) = Some x}
     \<union> (if ratchet_format_version r > 0
        then {RatchetRecordV1.FormatVersion \<lparr>fvr_version = ratchet_format_version r\<rparr>} else {})
     \<union> {RatchetRecordV1.TrustedRoot \<lparr>trr_trusted_root = trusted_root r\<rparr>}"
  by (force simp: to_records_def List.map_filter_def)

lemma absorb_wf:
  "bt_wf (watermarks r) \<Longrightarrow> bt_wf (watermarks (absorb_record x r))"
  "bt_wf (origins r) \<Longrightarrow> bt_wf (origins (absorb_record x r))"
  by (cases "ratchet_record_key x";
      auto simp: absorb_unkeyed absorb_keyed raise_watermark_def remember_origin_def bt_entry_def
        intro: bt.wf_insert split: option.splits)+

lemma absorb_fold_frames:
  "bt_wf (watermarks r) \<Longrightarrow> bt_wf (watermarks (fold absorb_record rs r))"
  "bt_wf (origins r) \<Longrightarrow> bt_wf (origins (fold absorb_record rs r))"
  "trusted_root (fold absorb_record rs r) = trusted_root r"
  "unknown_records (fold absorb_record rs r) = unknown_records r"
  by (induction rs arbitrary: r) (auto intro: absorb_wf)

text \<open>What a list of records leaves at a key that one record, perhaps repeated, speaks about.\<close>

lemma absorb_fold_at:
  assumes "\<And>y. y \<in> set rs \<Longrightarrow> ratchet_record_key y = Some k \<Longrightarrow> y = x"
    and "ratchet_record_key x = Some k"
    and "bt_get (watermarks r) k \<in> {None, Some (ratchet_record_counter x)}"
    and "bt_get (origins r) k \<in> {None, ratchet_record_origin x}"
  shows "bt_get (watermarks (fold absorb_record rs r)) k =
       (if x \<in> set rs then Some (ratchet_record_counter x) else bt_get (watermarks r) k)
    \<and> bt_get (origins (fold absorb_record rs r)) k =
       (if x \<in> set rs then ratchet_record_origin x else bt_get (origins r) k)"
  using assms
proof (induction rs arbitrary: r)
  case (Cons y rs)
  have uniq: "z = x" if "z \<in> set rs" "ratchet_record_key z = Some k" for z
    using Cons.prems(1) that by simp
  show ?case
  proof (cases "ratchet_record_key y = Some k")
    case True
    then have y: "y = x" using Cons.prems(1) by simp
    have w: "bt_get (watermarks (absorb_record x r)) k = Some (ratchet_record_counter x)"
      using Cons.prems(2,3) by (auto simp: absorb_watermarks watermark_level_def)
    have orig: "bt_get (origins (absorb_record x r)) k = ratchet_record_origin x"
      using Cons.prems(2,4) by (auto simp: absorb_origins split: option.splits)
    show ?thesis
      using Cons.IH [of "absorb_record x r", OF uniq Cons.prems(2)] unfolding y w orig by simp
  next
    case False
    then have w: "bt_get (watermarks (absorb_record y r)) k = bt_get (watermarks r) k"
      and orig: "bt_get (origins (absorb_record y r)) k = bt_get (origins r) k" and y: "y \<noteq> x"
      using Cons.prems(2) by (auto simp: absorb_watermarks absorb_origins split: option.splits)
    show ?thesis
      using Cons.IH [of "absorb_record y r", OF uniq Cons.prems(2)] Cons.prems(3,4) y
      unfolding w orig by auto
  qed
qed simp

lemma absorb_fold_notin:
  assumes "\<And>y. y \<in> set rs \<Longrightarrow> ratchet_record_key y \<noteq> Some k"
  shows "bt_get (watermarks (fold absorb_record rs r)) k = bt_get (watermarks r) k
    \<and> bt_get (origins (fold absorb_record rs r)) k = bt_get (origins r) k"
  using assms by (induction rs arbitrary: r) (auto simp: absorb_watermarks absorb_origins split: option.splits)


lemma roundtrip_at:
  assumes wf: "ratchet_wf r" and rs: "set rs = set (to_records r)"
  shows "bt_get (watermarks (fold absorb_record rs (ratchet_new h))) k = bt_get (watermarks r) k
    \<and> bt_get (origins (fold absorb_record rs (ratchet_new h))) k = bt_get (origins r) k"
proof -
  have dist: "distinct (map fst (watermarks r))"
    using wf by (simp add: ratchet_wf_def bt_wf_def strict_sorted_iff)
  have keyed: "\<exists>c. (k, c) \<in> set (watermarks r) \<and> for_key k c (bt_get (origins r) k) = Some y"
    if "y \<in> set rs" "ratchet_record_key y = Some k" for y
    using that by (auto simp: rs set_to_records split: if_splits) (metis for_key_Some(1) option.inject)+
  have orig: "origin_matches k v \<and> bt_get (watermarks r) k \<noteq> None" if "bt_get (origins r) k = Some v" for v
    using wf that by (auto simp: ratchet_wf_def bt_get_def list_all_iff dest: map_of_SomeD)
  show ?thesis
  proof (cases "bt_get (watermarks r) k")
    case None
    then have "(k, c) \<notin> set (watermarks r)" for c
      using weak_map_of_SomeI [of k c "watermarks r"] by (auto simp: bt_get_def)
    then have none: "ratchet_record_key y \<noteq> Some k" if "y \<in> set rs" for y
      using keyed [OF that] by blast
    have "bt_get (origins r) k = None"
      using orig None by (cases "bt_get (origins r) k") auto
    then show ?thesis
      using absorb_fold_notin [of rs k, OF none] None by (simp add: ratchet_new_def bt.get_empty)
  next
    case (Some c)
    then have "k \<noteq> RecordKey.VaultRoot"
      using wf by (auto simp: ratchet_wf_def)
    then obtain x where x: "for_key k c (bt_get (origins r) k) = Some x"
      using for_key_ex by blast
    have kc: "(k, c) \<in> set (watermarks r)"
      using Some by (auto simp: bt_get_def dest: map_of_SomeD)
    then have "x \<in> set rs"
      using x unfolding rs set_to_records by blast
    moreover have uniq: "y = x" if y: "y \<in> set rs" "ratchet_record_key y = Some k" for y
    proof -
      obtain c' where c': "(k, c') \<in> set (watermarks r)" "for_key k c' (bt_get (origins r) k) = Some y"
        using keyed [OF y] by blast
      with eq_key_imp_eq_value [OF dist kc c'(1)] x show ?thesis by simp
    qed
    moreover have "ratchet_record_origin x = bt_get (origins r) k"
      using for_key_origin [OF x] orig by blast
    ultimately show ?thesis
      using absorb_fold_at [OF uniq for_key_Some(1) [OF x], of rs "ratchet_new h"] for_key_Some(2) [OF x] Some
      by (simp add: ratchet_new_def bt.get_empty)
  qed
qed

lemma roundtrip_version:
  assumes "set rs = set (to_records r)"
  shows "ratchet_format_version (fold absorb_record rs (ratchet_new h)) = ratchet_format_version r"
proof -
  let ?v = "ratchet_format_version r"
  have "(\<lambda>x. record_claim x None) ` set rs \<subseteq> {0, ?v}"
    by (auto simp: assms set_to_records record_claim_def dest: for_key_Some split: if_splits)
  moreover have "?v \<in> insert 0 ((\<lambda>x. record_claim x None) ` set rs)"
    by (cases "?v > 0") (auto simp: assms set_to_records record_claim_def image_iff word_gt_0
        intro: bexI [of _ "RatchetRecordV1.FormatVersion \<lparr>fvr_version = ?v\<rparr>"])
  ultimately have "Max (insert 0 ((\<lambda>x. record_claim x None) ` set rs)) = ?v"
    by (intro Max_eqI) auto
  then show ?thesis
    using absorption.level_fold [of rs "ratchet_new h" None]
    by (simp add: ratchet_level_def ratchet_new_def list_all_iff)
qed

lemma absorb_restores:
  assumes "ratchet_wf r" and "set rs = set (to_records r)"
  shows "fold absorb_record rs (ratchet_new (trusted_root r)) = r\<lparr>unknown_records := []\<rparr>"
proof -
  let ?r' = "fold absorb_record rs (ratchet_new (trusted_root r))"
  have wf: "bt_wf (watermarks ?r')" "bt_wf (origins ?r')"
    by (auto intro!: absorb_fold_frames simp: ratchet_new_def bt.wf_empty)
  have "watermarks ?r' = watermarks r"
    using assms wf roundtrip_at [OF assms] by (intro bt.wf_ext) (auto simp: ratchet_wf_def)
  moreover have "origins ?r' = origins r"
    using assms wf roundtrip_at [OF assms] by (intro bt.wf_ext) (auto simp: ratchet_wf_def)
  moreover have "trusted_root ?r' = trusted_root r" "unknown_records ?r' = []"
    by (simp_all add: absorb_fold_frames) (simp_all add: ratchet_new_def)
  ultimately show ?thesis
    by (intro Ratchet.equality) (simp_all add: roundtrip_version [OF assms(2)])
qed

section \<open>Properties\<close>

text \<open>
  C33. The ratchet only moves forward: after any sequence of updates, the remembered counter at a
  key is the maximum of what was remembered before and what the updates raised it to, so no
  update lowers a watermark and the order and repetition of updates do not matter; the same
  holds of the format version, the first origin remembered for a key sticks, and the trusted
  root is untouched.
\<close>

theorem ratchet_history_is_a_join:
  assumes "list_all (\<lambda>u. bt_wf (raised_watermarks u)) us"
  shows "watermark_level (fold apply_update us r) k =
       Max (insert (watermark_level r k) ((\<lambda>u. update_claim u (Some k)) ` set us))
    \<and> ratchet_format_version (fold apply_update us r) =
       Max (insert (ratchet_format_version r) ((\<lambda>u. update_claim u None) ` set us))
    \<and> (\<forall>orig. bt_get (origins r) k = Some orig \<longrightarrow> bt_get (origins (fold apply_update us r)) k = Some orig)
    \<and> trusted_root (fold apply_update us r) = trusted_root r"
proof -
  have "\<forall>orig. bt_get (origins r) k = Some orig \<longrightarrow> bt_get (origins (fold apply_update us r)) k = Some orig"
    by (induction us arbitrary: r) (auto simp: apply_update_fields)
  moreover have "trusted_root (fold apply_update us r) = trusted_root r"
    by (induction us arbitrary: r) (auto simp: apply_update_fields)
  ultimately show ?thesis
    using updates.level_fold [OF assms, of r "Some k"] updates.level_fold [OF assms, of r None]
    by (simp add: ratchet_level_def)
qed

theorem ratchet_history_is_a_join_witness:
  "let k = RecordKey.User (UserId (HashValue [1]));
       raise = (\<lambda>c. \<lparr>raised_watermarks = [(k, c)], update_origins = [], raised_format_version = None\<rparr>)
   in watermark_level (fold apply_update [raise 5, raise 3] (ratchet_new (HashValue []))) k = 5"
proof -
  let ?k = "RecordKey.User (UserId (HashValue [1]))"
  let ?raise = "\<lambda>c. \<lparr>raised_watermarks = [(?k, c)], update_origins = [], raised_format_version = None\<rparr>"
  have "list_all (\<lambda>u. bt_wf (raised_watermarks u)) [?raise 5, ?raise 3]"
    by (simp add: bt_wf_def)
  from ratchet_history_is_a_join [OF this, of "ratchet_new (HashValue [])" ?k] show ?thesis
    by (simp add: update_claim_def bt_get_def watermark_level_def ratchet_new_def)
qed

text \<open>
  Persisting the ratchet loses nothing: reading back the records of a well-formed ratchet,
  in any order and with any repetition, into a fresh ratchet for the same root restores every
  watermark, every origin and the format version. (Records of unknown kinds are carried by the
  store beside these.)
\<close>

lemma ratchet_records_roundtrip:
  assumes "ratchet_wf r" and "set rs = set (to_records r)"
  shows "fold absorb_record rs (ratchet_new (trusted_root r)) = r\<lparr>unknown_records := []\<rparr>"
  using assms by (rule absorb_restores)

definition sample_ratchet :: Ratchet where
  "sample_ratchet = \<lparr>trusted_root = HashValue [7],
     watermarks = [(RecordKey.User (UserId (HashValue [1])), 3),
                   (RecordKey.Secret (SecretId (HashValue [2])), 9)],
     origins = [(RecordKey.Secret (SecretId (HashValue [2])), KeyOrigin.Secret (selector_tuple [''db'']))],
     ratchet_format_version = 1, unknown_records = []\<rparr>"

text \<open>
  Re-encoding an invitation in the current wire format keeps its identity seed and its
  root; with the baseline requested it keeps the baseline exactly when there was one, and
  without it the result never carries one.
\<close>

lemma invite_upgrade_roundtrip:
  "into_material (Invite.V2 (to_v2 (into_material i) True)) = into_material i
   \<and> im_trusted_root (into_material (Invite.V2 (to_v2 m b))) = im_trusted_root m
   \<and> im_master_seed (into_material (Invite.V2 (to_v2 m b))) = im_master_seed m
   \<and> (has_rollback_baseline (into_material (Invite.V2 (to_v2 m b))) \<longleftrightarrow> b \<and> has_rollback_baseline m)"
  by (cases i) (auto simp: to_v2_def has_rollback_baseline_def)

end
