(* ===== verification/Thorax_Lww.thy ===== *)
theory Thorax_Lww
  imports Thorax_Ratchet
begin

text \<open>
  Last-writer-wins resolution, from \<open>crates/thorax-core/src/validate/effective.rs\<close>: verified
  records (\<open>validate/mod.rs\<close>), the logical key of a body, the resolution of all records that a
  call site admits into one winner per key or a conflict, and the conflict reports of
  \<open>merge.rs\<close>.

  The theorems characterise the resolution against its specification: the winner at a key
  carries the maximal admitted counter; it exists exactly when all records at that counter have
  the same body; otherwise the key is conflicted and the report lists exactly the records at
  that counter; nothing at a rollback-suspected key takes part; and the outcome does not depend
  on the order in which the record set is iterated.
\<close>

section \<open>Verified records\<close>

record VerifiedRecord =
  vr_signed :: VaultRecordV1
  vr_body :: RecordBodyV1
  vr_key :: RecordKey
  vr_record_hash :: HashValue
  vr_signer :: UserId

primrec record_key_for :: "RecordBodyV1 \<Rightarrow> UserId \<Rightarrow> CoreError + RecordKey" where
  "record_key_for (RecordBodyV1.VaultRoot r) signer = Inr RecordKey.VaultRoot"
| "record_key_for (RecordBodyV1.EntryPoint r) signer = Inr (RecordKey.EntryPoint signer)"
| "record_key_for (RecordBodyV1.User r) signer = Inr (RecordKey.User (user_id r))"
| "record_key_for (RecordBodyV1.UserDeleted r) signer = Inr (RecordKey.User (ud_id r))"
| "record_key_for (RecordBodyV1.UserHandle r) signer = Inr (RecordKey.UserHandle (uh_id r))"
| "record_key_for (RecordBodyV1.VaultHandle r) signer = Inr (RecordKey.VaultHandle (vh_id r))"
| "record_key_for (RecordBodyV1.Group r) signer = Inr (RecordKey.Group (group_id r))"
| "record_key_for (RecordBodyV1.GroupDeleted r) signer = Inr (RecordKey.Group (gd_id r))"
| "record_key_for (RecordBodyV1.GroupMember r) signer = Inr (RecordKey.GroupMember (gm_id r))"
| "record_key_for (RecordBodyV1.GroupMemberDeleted r) signer = Inr (RecordKey.GroupMember (gmd_id r))"
| "record_key_for (RecordBodyV1.Grant r) signer = Inr (RecordKey.Grant (grant_id r))"
| "record_key_for (RecordBodyV1.GrantDeleted r) signer = Inr (RecordKey.Grant (grd_id r))"
| "record_key_for (RecordBodyV1.Secret r) signer = Inr (RecordKey.Secret (secret_id r))"
| "record_key_for (RecordBodyV1.SecretDeleted r) signer = Inr (RecordKey.Secret (sd_id r))"

text \<open>\<open>record.body.lww_counter().unwrap_or(0)\<close>\<close>

definition counter_of :: "VerifiedRecord \<Rightarrow> u64" where
  "counter_of r = (case lww_counter (vr_body r) of None \<Rightarrow> 0 | Some c \<Rightarrow> c)"

section \<open>Conflicts\<close>

datatype ConflictKind = Tie | Rollback u64

record ConflictReport =
  cr_key :: RecordKey
  cr_counter :: u64
  cr_kind :: ConflictKind
  cr_candidates :: "VaultRecordV1 list"
  cr_origin :: "KeyOrigin option"

record ConflictSlot =
  slot_counter :: u64
  candidate_hashes :: "HashValue list"

section \<open>Resolution\<close>

record 'k LwwResolution =
  winners :: "('k, VerifiedRecord) BTreeMap"
  lww_conflicted :: "(RecordKey, ConflictSlot) BTreeMap"

text \<open>The candidates of a slot: a higher counter replaces them, an equal one joins them.\<close>

fun slot_push :: "VerifiedRecord \<Rightarrow> VerifiedRecord list \<Rightarrow> VerifiedRecord list" where
  "slot_push r [] = [r]"
| "slot_push r (leader # rest) =
     (if counter_of r > counter_of leader then [r]
      else if counter_of r = counter_of leader then (leader # rest) @ [r]
      else leader # rest)"

definition lww_step ::
  "(RecordKey, u64) BTreeMap \<Rightarrow> (VerifiedRecord \<Rightarrow> 'k::linorder option) \<Rightarrow> VerifiedRecord
     \<Rightarrow> ('k, VerifiedRecord list) BTreeMap \<Rightarrow> ('k, VerifiedRecord list) BTreeMap" where
  "lww_step rollback_keys classify r slots =
     (if bt_contains_key rollback_keys (vr_key r) then slots
      else case classify r of
             None \<Rightarrow> slots
           | Some key \<Rightarrow> bt_entry key [] (slot_push r) slots)"

definition lww_slots ::
  "VerifiedRecord list \<Rightarrow> (RecordKey, u64) BTreeMap \<Rightarrow> (VerifiedRecord \<Rightarrow> 'k::linorder option)
     \<Rightarrow> ('k, VerifiedRecord list) BTreeMap" where
  "lww_slots records rollback_keys classify = fold (lww_step rollback_keys classify) records []"

text \<open>\<open>Iterator::min_by\<close> on the record hash: the first of the minimal elements.\<close>

fun min_by_hash :: "VerifiedRecord list \<Rightarrow> VerifiedRecord option" where
  "min_by_hash [] = None"
| "min_by_hash (r # rs) =
     (case min_by_hash rs of
        None \<Rightarrow> Some r
      | Some m \<Rightarrow> if vr_record_hash r \<le> vr_record_hash m then Some r else Some m)"

definition diverging :: "VerifiedRecord list \<Rightarrow> bool" where
  "diverging candidates \<longleftrightarrow> list_ex (\<lambda>r. vr_body r \<noteq> vr_body (hd candidates)) candidates"

definition conflict_slot :: "VerifiedRecord list \<Rightarrow> ConflictSlot" where
  "conflict_slot candidates =
     \<lparr>slot_counter = counter_of (hd candidates),
      candidate_hashes = remdups_adj (sort (map vr_record_hash candidates))\<rparr>"

fun lww_settle ::
  "('k::linorder \<times> VerifiedRecord list) list \<Rightarrow> 'k LwwResolution \<Rightarrow> 'k LwwResolution" where
  "lww_settle [] res = res"
| "lww_settle ((key, candidates) # slots) res =
     lww_settle slots
       (if diverging candidates
        then res\<lparr>lww_conflicted :=
               bt_insert (vr_key (hd candidates)) (conflict_slot candidates) (lww_conflicted res)\<rparr>
        else case min_by_hash candidates of
               Some winner \<Rightarrow> res\<lparr>winners := bt_insert key winner (winners res)\<rparr>
             | None \<Rightarrow> res)"

definition lww_resolution ::
  "VerifiedRecord list \<Rightarrow> (RecordKey, u64) BTreeMap \<Rightarrow> (VerifiedRecord \<Rightarrow> 'k::linorder option)
     \<Rightarrow> 'k LwwResolution" where
  "lww_resolution records rollback_keys classify =
     lww_settle (lww_slots records rollback_keys classify) \<lparr>winners = [], lww_conflicted = []\<rparr>"

text \<open>
  \<open>partition_lww\<close>: live values and tombstoned keys. The second component is a \<open>BTreeSet\<close> that the
  program only tests for membership.
\<close>

fun partition_loop ::
  "('k::linorder \<times> VerifiedRecord) list \<Rightarrow> (RecordBodyV1 \<Rightarrow> 'v option)
     \<Rightarrow> ('k, 'v) BTreeMap \<times> 'k set \<Rightarrow> ('k, 'v) BTreeMap \<times> 'k set" where
  "partition_loop [] value acc = acc"
| "partition_loop ((key, r) # ws) value (live, deleted) =
     partition_loop ws value
       (case value (vr_body r) of
          Some body \<Rightarrow> (bt_insert key body live, deleted)
        | None \<Rightarrow> (live, insert key deleted))"

definition partition_lww ::
  "('k::linorder, VerifiedRecord) BTreeMap \<Rightarrow> (RecordBodyV1 \<Rightarrow> 'v option)
     \<Rightarrow> ('k, 'v) BTreeMap \<times> 'k set" where
  "partition_lww ws value = partition_loop ws value ([], {})"

text \<open>The order of \<open>compare_lww\<close>, as a sort key.\<close>

definition compare_lww :: "VerifiedRecord \<Rightarrow> u64 \<times> UserId \<times> HashValue" where
  "compare_lww r = (counter_of r, vr_signer r, vr_record_hash r)"

text \<open>
  \<open>sort_by_key(|signed| cord::serialize(signed).unwrap_or_default())\<close> and \<open>dedup\<close>.
\<close>

definition serialized_or_empty :: "CryptoProvider \<Rightarrow> VaultRecordV1 \<Rightarrow> Bytes" where
  "serialized_or_empty crypto sr =
     (case cord_serialize crypto (CvRecord sr) of Inl _ \<Rightarrow> [] | Inr b \<Rightarrow> b)"

definition canonical_candidates :: "CryptoProvider \<Rightarrow> VaultRecordV1 list \<Rightarrow> VaultRecordV1 list" where
  "canonical_candidates crypto srs = remdups_adj (sort_key (serialized_or_empty crypto) srs)"

definition materialize_conflicts ::
  "CryptoProvider \<Rightarrow> VerifiedRecord list \<Rightarrow> (RecordKey, ConflictSlot) BTreeMap
     \<Rightarrow> (RecordKey, ConflictReport) BTreeMap" where
  "materialize_conflicts crypto records conflicted =
     map (\<lambda>(key, slot). (key,
       \<lparr>cr_key = key, cr_counter = slot_counter slot, cr_kind = Tie,
        cr_candidates = canonical_candidates crypto
          (map vr_signed (filter (\<lambda>r. vr_record_hash r \<in> set (candidate_hashes slot)) records)),
        cr_origin = None\<rparr>)) conflicted"

section \<open>Slots\<close>

abbreviation admitted_list ::
  "VerifiedRecord list \<Rightarrow> (RecordKey, u64) BTreeMap \<Rightarrow> (VerifiedRecord \<Rightarrow> 'k::linorder option) \<Rightarrow> 'k
     \<Rightarrow> VerifiedRecord list" where
  "admitted_list records rollback_keys classify k \<equiv>
     filter (\<lambda>r. \<not> bt_contains_key rollback_keys (vr_key r) \<and> classify r = Some k) records"

definition leaders :: "VerifiedRecord list \<Rightarrow> VerifiedRecord list" where
  "leaders rs = filter (\<lambda>r. \<forall>r' \<in> set rs. counter_of r' \<le> counter_of r) rs"

lemma leaders_nonempty:
  assumes "rs \<noteq> []"
  shows "leaders rs \<noteq> []"
proof -
  have "Max (counter_of ` set rs) \<in> counter_of ` set rs"
    using assms by (intro Max_in) auto
  then obtain x where "x \<in> set rs" "counter_of x = Max (counter_of ` set rs)"
    by (metis imageE)
  then show ?thesis
    by (auto simp: leaders_def filter_empty_conv intro!: bexI [of _ x])
qed

lemma leaders_eq:
  assumes "l \<in> set rs" and "\<And>x. x \<in> set rs \<Longrightarrow> counter_of x \<le> counter_of l"
  shows "leaders rs = filter (\<lambda>x. counter_of x = counter_of l) rs"
  using assms unfolding leaders_def by (intro filter_cong) (auto intro: antisym)

lemma leaders_snoc:
  assumes "l \<in> set rs" and "\<And>x. x \<in> set rs \<Longrightarrow> counter_of x \<le> counter_of l"
  shows "leaders (rs @ [r]) =
    (if counter_of l < counter_of r then [r]
     else if counter_of r = counter_of l then leaders rs @ [r] else leaders rs)"
proof (cases "counter_of l < counter_of r")
  case True
  then have "leaders (rs @ [r]) = filter (\<lambda>x. counter_of x = counter_of r) (rs @ [r])"
    using assms by (intro leaders_eq) (auto intro: order.trans less_imp_le)
  moreover have "filter (\<lambda>x. counter_of x = counter_of r) rs = []"
    using assms(2) True by (force simp: filter_empty_conv)
  ultimately show ?thesis using True by simp
next
  case False
  then have "leaders (rs @ [r]) = filter (\<lambda>x. counter_of x = counter_of l) (rs @ [r])"
    using assms by (intro leaders_eq) auto
  then show ?thesis
    using False leaders_eq [OF assms] by simp
qed

lemma leadersD: "l \<in> set (leaders rs) \<Longrightarrow> l \<in> set rs \<and> (\<forall>x \<in> set rs. counter_of x \<le> counter_of l)"
  by (simp add: leaders_def)

lemma fold_slot_push: "fold slot_push rs [] = leaders rs"
proof (induction rs rule: rev_induct)
  case (snoc r rs)
  show ?case
  proof (cases "leaders rs")
    case Nil
    then have "rs = []" using leaders_nonempty by blast
    then show ?thesis by (simp add: leaders_def)
  next
    case (Cons l ls)
    with leadersD [of l rs] leaders_snoc [of l rs r] snoc show ?thesis by simp
  qed
qed (simp add: leaders_def)

lemma lww_step_get:
  "bt_get (lww_step rb classify r slots) k =
     (if \<not> bt_contains_key rb (vr_key r) \<and> classify r = Some k
      then Some (slot_push r (case bt_get slots k of None \<Rightarrow> [] | Some cs \<Rightarrow> cs))
      else bt_get slots k)"
  by (auto simp: lww_step_def bt_entry_def bt.get_insert split: option.splits)

lemma lww_fold_get:
  "bt_get (fold (lww_step rb classify) rs slots) k =
     (if admitted_list rs rb classify k = [] then bt_get slots k
      else Some (fold slot_push (admitted_list rs rb classify k)
             (case bt_get slots k of None \<Rightarrow> [] | Some cs \<Rightarrow> cs)))"
  by (induction rs arbitrary: slots) (auto simp: lww_step_get)

lemma lww_slots_get:
  "bt_get (lww_slots rs rb classify) k =
     (if admitted_list rs rb classify k = [] then None
      else Some (leaders (admitted_list rs rb classify k)))"
  by (simp add: lww_slots_def lww_fold_get bt.get_empty fold_slot_push)

lemma lww_slots_wf: "bt_wf (lww_slots rs rb classify)"
proof -
  have "bt_wf slots \<Longrightarrow> bt_wf (fold (lww_step rb classify) rs slots)" for slots
    by (induction rs arbitrary: slots)
       (auto simp: lww_step_def bt_entry_def intro: bt.wf_insert split: option.splits)
  then show ?thesis by (simp add: lww_slots_def bt.wf_empty)
qed

section \<open>Settling\<close>

lemma min_by_hash_None [simp]: "min_by_hash rs = None \<longleftrightarrow> rs = []"
  by (cases rs) (auto split: option.splits)

lemma min_by_hash_Some:
  "min_by_hash rs = Some w \<Longrightarrow> w \<in> set rs \<and> (\<forall>r \<in> set rs. vr_record_hash w \<le> vr_record_hash r)"
  by (induction rs arbitrary: w) (auto split: option.splits if_splits intro: order.trans)

lemma lww_settle_winners:
  assumes "distinct (map fst slots)"
  shows "bt_get (winners (lww_settle slots res)) k =
    (case map_of slots k of
       None \<Rightarrow> bt_get (winners res) k
     | Some cs \<Rightarrow> if diverging cs \<or> cs = [] then bt_get (winners res) k else min_by_hash cs)"
  using assms
proof (induction slots res rule: lww_settle.induct)
  case (2 key candidates slots res)
  then have "map_of slots key = None" by (auto simp: map_of_eq_None_iff)
  with 2 show ?case
    by (cases "k = key") (auto simp: bt.get_insert split: option.splits)
qed simp

lemma lww_settle_wf:
  "bt_wf (winners res) \<Longrightarrow> bt_wf (winners (lww_settle slots res))"
  "bt_wf (lww_conflicted res) \<Longrightarrow> bt_wf (lww_conflicted (lww_settle slots res))"
  by (induction slots res rule: lww_settle.induct)
     (simp_all add: bt.wf_insert split: option.splits)

lemma lww_settle_conflict_none:
  assumes "\<And>k cs. (k, cs) \<in> set slots \<Longrightarrow> diverging cs \<Longrightarrow> vr_key (hd cs) \<noteq> rk"
  shows "bt_get (lww_conflicted (lww_settle slots res)) rk = bt_get (lww_conflicted res) rk"
  using assms
proof (induction slots res rule: lww_settle.induct)
  case (2 key candidates slots res)
  have head: "diverging candidates \<Longrightarrow> vr_key (hd candidates) \<noteq> rk"
    using 2(2) [of key candidates] by simp
  have tail: "vr_key (hd cs) \<noteq> rk" if "(k, cs) \<in> set slots" "diverging cs" for k cs
    using 2(2) [of k cs] that by simp
  show ?case
    using 2(1) [OF tail] head by (auto simp: bt.get_insert split: option.splits)
qed simp

lemma lww_settle_conflict_at:
  assumes "(k, cs) \<in> set slots" and "diverging cs" and "distinct (map fst slots)"
    and "\<And>k' cs'. (k', cs') \<in> set slots \<Longrightarrow> diverging cs' \<Longrightarrow> vr_key (hd cs') = vr_key (hd cs) \<Longrightarrow> k' = k"
  shows "bt_get (lww_conflicted (lww_settle slots res)) (vr_key (hd cs)) = Some (conflict_slot cs)"
  using assms
proof (induction slots res rule: lww_settle.induct)
  case (2 key candidates slots res)
  have tail: "k' = k" if "(k', cs') \<in> set slots" "diverging cs'" "vr_key (hd cs') = vr_key (hd cs)" for k' cs'
    using 2(5) [of k' cs'] that by simp
  show ?case
  proof (cases "(k, cs) \<in> set slots")
    case True
    with 2(1) [OF True 2(3) _ tail] 2(4) show ?thesis by simp
  next
    case False
    with 2(2) have here: "key = k" "candidates = cs" by auto
    have "vr_key (hd cs') \<noteq> vr_key (hd cs)" if "(k', cs') \<in> set slots" "diverging cs'" for k' cs'
      using tail [OF that] 2(4) here(1) that(1) by force
    then have "bt_get (lww_conflicted (lww_settle slots r)) (vr_key (hd cs)) =
        bt_get (lww_conflicted r) (vr_key (hd cs))" for r
      by (intro lww_settle_conflict_none) blast
    with here 2(3) show ?thesis
      by (simp add: bt.get_insert)
  qed
qed simp


section \<open>Resolution against its specification\<close>

text \<open>
  The records that compete at a key: admitted by the call site and not at a rollback-suspected
  key; and those of them at the maximal counter.
\<close>

definition competing ::
  "VerifiedRecord set \<Rightarrow> (RecordKey, u64) BTreeMap \<Rightarrow> (VerifiedRecord \<Rightarrow> 'k option) \<Rightarrow> 'k
     \<Rightarrow> VerifiedRecord set" where
  "competing R rb classify k =
     {r \<in> R. \<not> bt_contains_key rb (vr_key r) \<and> classify r = Some k}"

definition highest :: "VerifiedRecord set \<Rightarrow> VerifiedRecord set" where
  "highest R = {r \<in> R. \<forall>r' \<in> R. counter_of r' \<le> counter_of r}"

definition agreed :: "VerifiedRecord set \<Rightarrow> bool" where
  "agreed R \<longleftrightarrow> (\<forall>r \<in> R. \<forall>r' \<in> R. vr_body r = vr_body r')"

lemma set_admitted_list: "set (admitted_list rs rb classify k) = competing (set rs) rb classify k"
  by (auto simp: competing_def)

lemma set_leaders: "set (leaders rs) = highest (set rs)"
  by (auto simp: leaders_def highest_def)

lemma diverging_iff: "rs \<noteq> [] \<Longrightarrow> diverging rs \<longleftrightarrow> \<not> agreed (set rs)"
  by (cases rs) (simp_all add: diverging_def agreed_def list_ex_iff, metis)

lemma highest_nonempty: "finite R \<Longrightarrow> R \<noteq> {} \<Longrightarrow> highest R \<noteq> {}"
  using leaders_nonempty set_leaders by (metis finite_list set_empty2)

lemma highest_same_counter: "r \<in> highest R \<Longrightarrow> r' \<in> highest R \<Longrightarrow> counter_of r = counter_of r'"
  by (auto simp: highest_def intro: antisym)

lemma lww_winner_get:
  "bt_get (winners (lww_resolution rs rb classify)) k =
     (let top = leaders (admitted_list rs rb classify k)
      in if top = [] \<or> diverging top then None else min_by_hash top)"
proof -
  have "distinct (map fst (lww_slots rs rb classify))"
    using lww_slots_wf [of rs rb classify] by (simp add: bt_wf_def strict_sorted_iff)
  then show ?thesis
    using lww_slots_get [of rs rb classify k] leaders_nonempty [of "admitted_list rs rb classify k"]
    by (auto simp: lww_resolution_def lww_settle_winners bt.get_empty Let_def bt_get_def [of "lww_slots _ _ _"]
        leaders_def [of "[]"] split: option.splits if_splits)
qed

lemma lww_resolution_wf:
  "bt_wf (winners (lww_resolution rs rb classify))"
  "bt_wf (lww_conflicted (lww_resolution rs rb classify))"
  by (simp_all add: lww_resolution_def lww_settle_wf bt.wf_empty)

lemma lww_winner_iff:
  assumes "inj_on vr_record_hash (set rs)"
  shows "bt_get (winners (lww_resolution rs rb classify)) k = Some w \<longleftrightarrow>
    (let top = highest (competing (set rs) rb classify k)
     in w \<in> top \<and> agreed top \<and> (\<forall>r \<in> top. vr_record_hash w \<le> vr_record_hash r))"
proof -
  let ?top = "leaders (admitted_list rs rb classify k)"
  have top: "set ?top = highest (competing (set rs) rb classify k)"
    by (simp only: set_leaders set_admitted_list)
  have sub: "set ?top \<subseteq> set rs"
    by (auto simp: leaders_def)
  have "min_by_hash ?top = Some w \<longleftrightarrow> w \<in> set ?top \<and> (\<forall>r \<in> set ?top. vr_record_hash w \<le> vr_record_hash r)"
  proof
    assume "min_by_hash ?top = Some w"
    then show "w \<in> set ?top \<and> (\<forall>r \<in> set ?top. vr_record_hash w \<le> vr_record_hash r)"
      by (rule min_by_hash_Some)
  next
    assume w: "w \<in> set ?top \<and> (\<forall>r \<in> set ?top. vr_record_hash w \<le> vr_record_hash r)"
    then obtain m where m: "min_by_hash ?top = Some m"
      by (cases "min_by_hash ?top") auto
    with w min_by_hash_Some [OF m] have "vr_record_hash m = vr_record_hash w"
      by (auto intro: antisym)
    with w min_by_hash_Some [OF m] sub assms have "m = w"
      by (meson inj_onD subsetD)
    with m show "min_by_hash ?top = Some w" by simp
  qed
  then show ?thesis
    unfolding lww_winner_get Let_def top [symmetric]
    by (cases "?top = []") (auto simp: diverging_iff)
qed

text \<open>
  A call site of the resolution: its classification names keys of one kind, so that the slot key
  and the record key determine each other.
\<close>

definition keyed :: "VerifiedRecord \<Rightarrow> bool" where
  "keyed r \<longleftrightarrow> record_key_for (vr_body r) (vr_signer r) = Inr (vr_key r)"

locale lww_site =
  fixes classify :: "VerifiedRecord \<Rightarrow> 'k::linorder option"
    and key_of :: "'k \<Rightarrow> RecordKey"
  assumes key_of_inject: "key_of a = key_of b \<Longrightarrow> a = b"
    and classify_key: "keyed r \<Longrightarrow> classify r = Some k \<Longrightarrow> vr_key r = key_of k"
begin

lemma slot_key:
  assumes "list_all keyed rs" and "(k, cs) \<in> set (lww_slots rs rb classify)"
  shows "cs = leaders (admitted_list rs rb classify k)" and "cs \<noteq> []" and "vr_key (hd cs) = key_of k"
proof -
  have "bt_get (lww_slots rs rb classify) k = Some cs"
    using assms(2) lww_slots_wf [of rs rb classify] by (simp add: bt_get_def bt_wf_def strict_sorted_iff)
  then show cs: "cs = leaders (admitted_list rs rb classify k)" and ne: "cs \<noteq> []"
    using leaders_nonempty [of "admitted_list rs rb classify k"]
    by (auto simp: lww_slots_get split: if_splits)
  have "hd cs \<in> set rs \<and> classify (hd cs) = Some k"
    using hd_in_set [OF ne] unfolding cs by (auto simp: leaders_def)
  with assms(1) show "vr_key (hd cs) = key_of k"
    by (intro classify_key) (auto simp: list_all_iff)
qed

lemma conflict_at:
  assumes "list_all keyed rs" and "competing (set rs) rb classify k \<noteq> {}"
    and "\<not> agreed (highest (competing (set rs) rb classify k))"
  shows "bt_get (lww_conflicted (lww_resolution rs rb classify)) (key_of k) =
    Some (conflict_slot (leaders (admitted_list rs rb classify k)))"
proof -
  let ?cs = "leaders (admitted_list rs rb classify k)"
  have ne: "admitted_list rs rb classify k \<noteq> []"
    using assms(2) by (auto simp: competing_def filter_empty_conv)
  then have slot: "(k, ?cs) \<in> set (lww_slots rs rb classify)"
    using lww_slots_get [of rs rb classify k] by (auto simp: bt_get_def dest: map_of_SomeD)
  have div: "diverging ?cs"
    using assms(3) leaders_nonempty [OF ne] by (simp add: diverging_iff set_leaders set_admitted_list [symmetric])
  have "k' = k" if "(k', cs') \<in> set (lww_slots rs rb classify)" "vr_key (hd cs') = vr_key (hd ?cs)" for k' cs'
    using slot_key(3) [OF assms(1) that(1)] slot_key(3) [OF assms(1) slot] that(2) key_of_inject by simp
  moreover have "distinct (map fst (lww_slots rs rb classify))"
    using lww_slots_wf [of rs rb classify] by (simp add: bt_wf_def strict_sorted_iff)
  ultimately show ?thesis
    using lww_settle_conflict_at [OF slot div] slot_key(3) [OF assms(1) slot]
    by (simp add: lww_resolution_def)
qed

lemma conflict_key:
  assumes "list_all keyed rs" and "bt_get (lww_conflicted (lww_resolution rs rb classify)) rk = Some sl"
  shows "\<exists>k. rk = key_of k \<and> competing (set rs) rb classify k \<noteq> {}
    \<and> \<not> agreed (highest (competing (set rs) rb classify k))"
proof (rule ccontr)
  assume no: "\<not> ?thesis"
  have "vr_key (hd cs) \<noteq> rk" if slot: "(k, cs) \<in> set (lww_slots rs rb classify)" "diverging cs" for k cs
  proof
    assume "vr_key (hd cs) = rk"
    then have "rk = key_of k" using slot_key(3) [OF assms(1) slot(1)] by simp
    moreover have "\<not> agreed (highest (competing (set rs) rb classify k))"
      using slot(2) slot_key(1,2) [OF assms(1) slot(1)]
      by (simp add: diverging_iff set_leaders set_admitted_list [symmetric])
    moreover have "competing (set rs) rb classify k \<noteq> {}"
      using calculation(2) by (auto simp: agreed_def highest_def)
    ultimately show False using no by blast
  qed
  then have "bt_get (lww_conflicted (lww_resolution rs rb classify)) rk = None"
    unfolding lww_resolution_def
    by (subst lww_settle_conflict_none) (auto simp: bt.get_empty)
  with assms(2) show False by simp
qed

end


section \<open>Properties\<close>

lemma strict_remdups_adj: "sorted xs \<Longrightarrow> sorted_wrt (<) (remdups_adj xs)"
  by (induction xs rule: remdups_adj.induct) (auto simp: order.strict_iff_order)

lemma remdups_adj_sort: "remdups_adj (sort xs) = sorted_list_of_set (set xs)"
proof -
  have "sorted_wrt (<) (remdups_adj (sort xs))"
    by (rule strict_remdups_adj) simp
  moreover have "sorted_wrt (<) (sorted_list_of_set (set xs))"
    by (simp add: strict_sorted_iff)
  ultimately show ?thesis
    by (intro strict_sorted_equal) auto
qed

lemma conflict_slot_leaders:
  assumes "rs \<noteq> []"
  shows "conflict_slot (leaders rs) =
    \<lparr>slot_counter = Max (counter_of ` highest (set rs)),
     candidate_hashes = sorted_list_of_set (vr_record_hash ` highest (set rs))\<rparr>"
proof -
  have hd: "hd (leaders rs) \<in> highest (set rs)"
    using hd_in_set [OF leaders_nonempty [OF assms]] by (simp add: set_leaders)
  have "finite (highest (set rs))"
    by (simp add: highest_def)
  then have "Max (counter_of ` highest (set rs)) = counter_of (hd (leaders rs))"
    using hd by (intro Max_eqI) (auto dest: highest_same_counter [OF hd])
  then show ?thesis
    by (simp add: conflict_slot_def remdups_adj_sort set_leaders)
qed

lemma lww_resolution_spec:
  fixes rb :: "(RecordKey, u64) BTreeMap" and k :: "'k::linorder"
  assumes site: "lww_site classify key_of" and keyed: "list_all keyed rs"
    and hashes: "inj_on vr_record_hash (set rs)"
  defines "tops \<equiv> highest (competing (set rs) rb classify k)"
  defines "res \<equiv> lww_resolution rs rb classify"
  shows "(bt_get (winners res) k = Some w \<longleftrightarrow>
            w \<in> tops \<and> agreed tops \<and> (\<forall>r \<in> tops. vr_record_hash w \<le> vr_record_hash r))
    \<and> (bt_get (winners res) k = None \<longleftrightarrow> tops = {} \<or> \<not> agreed tops)
    \<and> (bt_get (lww_conflicted res) (key_of k) =
         (if agreed tops then None
          else Some \<lparr>slot_counter = Max (counter_of ` tops),
                     candidate_hashes = sorted_list_of_set (vr_record_hash ` tops)\<rparr>))"
proof -
  let ?adm = "admitted_list rs rb classify k"
  have tops: "set (leaders ?adm) = tops"
    by (simp add: tops_def set_leaders set_admitted_list [symmetric])
  have none: "bt_get (winners res) k = None \<longleftrightarrow> tops = {} \<or> \<not> agreed tops"
    unfolding res_def lww_winner_get Let_def tops [symmetric]
    by (cases "leaders ?adm = []") (auto simp: diverging_iff)
  have conf: "bt_get (lww_conflicted res) (key_of k) = Some (conflict_slot (leaders ?adm))"
    if "\<not> agreed tops"
  proof -
    have "competing (set rs) rb classify k \<noteq> {}"
      using that by (auto simp: tops_def highest_def agreed_def)
    with that show ?thesis
      unfolding res_def tops_def by (intro lww_site.conflict_at [OF site keyed])
  qed
  have no_conf: "bt_get (lww_conflicted res) (key_of k) = None" if "agreed tops"
  proof (cases "bt_get (lww_conflicted res) (key_of k)")
    case (Some sl)
    then obtain k' where k': "key_of k = key_of k'"
        "\<not> agreed (highest (competing (set rs) rb classify k'))"
      using lww_site.conflict_key [OF site keyed, of rb "key_of k" sl] unfolding res_def by blast
    from lww_site.key_of_inject [OF site k'(1)] k'(2) that show ?thesis
      by (simp add: tops_def)
  qed
  have slot: "conflict_slot (leaders ?adm) = \<lparr>slot_counter = Max (counter_of ` tops),
      candidate_hashes = sorted_list_of_set (vr_record_hash ` tops)\<rparr>" if "\<not> agreed tops"
  proof -
    have "?adm \<noteq> []"
    proof
      assume "?adm = []"
      then have "tops = {}" unfolding tops [symmetric] by (simp only: leaders_def filter.simps list.set)
      with that show False by (simp add: agreed_def)
    qed
    from conflict_slot_leaders [OF this] show ?thesis
      by (simp add: tops [symmetric] set_leaders)
  qed
  have win: "bt_get (winners res) k = Some w \<longleftrightarrow>
      w \<in> tops \<and> agreed tops \<and> (\<forall>r \<in> tops. vr_record_hash w \<le> vr_record_hash r)"
    unfolding res_def tops_def using lww_winner_iff [OF hashes, of rb classify k w] by (simp add: Let_def)
  show ?thesis
    using win none conf no_conf slot by (intro conjI) simp_all
qed

lemma lww_order:
  assumes site: "lww_site classify key_of" and keyed: "list_all keyed rs"
    and hashes: "inj_on vr_record_hash (set rs)" and same: "set rs = set rs'"
  shows "lww_resolution rs rb classify = lww_resolution rs' rb classify"
proof -
  let ?a = "lww_resolution rs rb classify" and ?b = "lww_resolution rs' rb classify"
  have keyed': "list_all keyed rs'" and hashes': "inj_on vr_record_hash (set rs')"
    using keyed hashes same by (simp_all add: list_all_iff)
  have "bt_get (winners ?a) k = bt_get (winners ?b) k" for k
    using lww_winner_iff [OF hashes, of rb classify k] lww_winner_iff [OF hashes', of rb classify k]
    unfolding same by (metis not_Some_eq)
  then have "winners ?a = winners ?b"
    by (intro bt.wf_ext lww_resolution_wf)
  moreover have "bt_get (lww_conflicted ?a) rk = bt_get (lww_conflicted ?b) rk" for rk
  proof (cases "\<exists>k. rk = key_of k")
    case True
    then obtain k where "rk = key_of k" by blast
    then show ?thesis
      using lww_resolution_spec [OF site keyed hashes, of rb k]
        lww_resolution_spec [OF site keyed' hashes', of rb k] unfolding same by metis
  next
    case False
    then show ?thesis
      using lww_site.conflict_key [OF site keyed, of rb rk] lww_site.conflict_key [OF site keyed', of rb rk]
      by (metis not_Some_eq)
  qed
  then have "lww_conflicted ?a = lww_conflicted ?b"
    by (intro bt.wf_ext lww_resolution_wf)
  ultimately show ?thesis by simp
qed

text \<open>
  C3. Last-writer-wins resolution meets its specification at every call site: the winner at a
  key is the record with the lowest hash among the admitted records at the maximal counter, and
  there is one exactly when those records agree on their body; the key is reported as
  conflicted exactly when they do not, with the disputed counter and exactly the hashes of those
  records; and no key is ever both won and conflicted.
\<close>

theorem lww_resolution_correct:
  fixes rb :: "(RecordKey, u64) BTreeMap" and k :: "'k::linorder"
  assumes site: "lww_site classify key_of" and keyed: "list_all keyed rs"
    and hashes: "inj_on vr_record_hash (set rs)"
  defines "tops \<equiv> highest (competing (set rs) rb classify k)"
  defines "res \<equiv> lww_resolution rs rb classify"
  shows "(bt_get (winners res) k = Some w \<longleftrightarrow>
            w \<in> tops \<and> agreed tops \<and> (\<forall>r \<in> tops. vr_record_hash w \<le> vr_record_hash r))
    \<and> (bt_get (winners res) k = None \<longleftrightarrow> tops = {} \<or> \<not> agreed tops)
    \<and> (bt_get (lww_conflicted res) (key_of k) =
         (if agreed tops then None
          else Some \<lparr>slot_counter = Max (counter_of ` tops),
                     candidate_hashes = sorted_list_of_set (vr_record_hash ` tops)\<rparr>))"
  unfolding tops_def res_def by (rule lww_resolution_spec [OF site keyed hashes])

definition sample_deletion :: "u8 \<Rightarrow> u64 \<Rightarrow> VerifiedRecord" where
  "sample_deletion h c =
     (let body = RecordBodyV1.GroupDeleted \<lparr>gd_id = GroupId (HashValue [1]), gd_counter = c\<rparr>
      in \<lparr>vr_signed = \<lparr>rec_body = Known body, rec_signing_public_key = [], rec_signature = [h]\<rparr>,
          vr_body = body, vr_key = RecordKey.Group (GroupId (HashValue [1])),
          vr_record_hash = HashValue [h], vr_signer = UserId (HashValue [9])\<rparr>)"

definition sample_site :: "VerifiedRecord \<Rightarrow> GroupId option" where
  "sample_site r = (case vr_body r of RecordBodyV1.GroupDeleted g \<Rightarrow> Some (gd_id g) | _ \<Rightarrow> None)"

lemma sample_site: "lww_site sample_site RecordKey.Group"
  by unfold_locales (auto simp: sample_site_def keyed_def split: RecordBodyV1.splits)

lemma sample_deletions_ok:
  "list_all keyed [sample_deletion 5 3, sample_deletion 4 7]"
  "inj_on vr_record_hash (set [sample_deletion 5 3, sample_deletion 4 7])"
  by (simp_all add: keyed_def sample_deletion_def Let_def)

theorem lww_resolution_correct_witness:
  "bt_get (winners (lww_resolution [sample_deletion 5 3, sample_deletion 4 7] [] sample_site))
       (GroupId (HashValue [1])) = Some (sample_deletion 4 7)
   \<and> sample_deletion 4 7 \<in> highest (competing (set [sample_deletion 5 3, sample_deletion 4 7]) []
       sample_site (GroupId (HashValue [1])))"
proof -
  have "bt_get (winners (lww_resolution [sample_deletion 5 3, sample_deletion 4 7] [] sample_site))
       (GroupId (HashValue [1])) = Some (sample_deletion 4 7)"
    by (simp add: lww_resolution_def lww_slots_def lww_step_def sample_site_def sample_deletion_def
        bt_contains_key_def bt_get_def bt_entry_def counter_of_def diverging_def Let_def)
  with lww_resolution_correct [OF sample_site sample_deletions_ok, of "[]" "GroupId (HashValue [1])"]
  show ?thesis by blast
qed

end
