(* ===== verification/Thorax_Effective.thy ===== *)
theory Thorax_Effective
  imports Thorax_Lww
begin

text \<open>
  The effective state, from \<open>crates/thorax-core/src/validate/effective.rs\<close>: which users, groups,
  memberships and grants the verified records establish under a given authority map, the
  authorities that follow from them through group membership, and the bounded iteration of the
  two until they agree.

  The theorems show that the membership closure terminates and computes exactly the union of
  what is granted to every group a principal reaches; that in a state whose iteration converged,
  every effective grant, group, membership, user and handle comes from a record whose signer
  holds the authority for it in that same state; and that a conflicted or rollback-suspected key
  contributes nothing.
\<close>

section \<open>State\<close>

record SecretSlot =
  slot_winner :: nat
  slot_first_seen :: nat

record EffectiveState =
  es_root_user_id :: "UserId option"
  es_root_signing_public_key_hash :: "HashValue option"
  es_users :: "(UserId, UserRecordV1) BTreeMap"
  es_handles :: "(UserHandleId, UserHandleRecordV1) BTreeMap"
  es_vault_handles :: "(VaultHandleId, VaultHandleRecordV1) BTreeMap"
  es_groups :: "(GroupId, GroupRecordV1) BTreeMap"
  es_memberships :: "(GroupMemberId, GroupMemberRecordV1) BTreeMap"
  es_grants :: "(GrantId, GrantRecordV1) BTreeMap"
  es_entry_points :: "(UserId, EntryPointRecordV1) BTreeMap"
  es_deleted_users :: "UserId set"
  es_deleted_groups :: "GroupId set"
  es_deleted_grants :: "GrantId set"
  es_authorities :: "(PrincipalRefV1, AuthoritySet) BTreeMap"
  es_authority_unresolved :: bool
  es_conflicted :: "(RecordKey, ConflictReport) BTreeMap"
  es_admitted_counter_max :: "u64 option"
  es_verified_records :: "VerifiedRecord list"
  es_secret_index :: "(SecretId, SecretSlot) BTreeMap"

definition default_effective_state :: EffectiveState where
  "default_effective_state =
     \<lparr>es_root_user_id = None, es_root_signing_public_key_hash = None, es_users = [], es_handles = [],
      es_vault_handles = [], es_groups = [], es_memberships = [], es_grants = [],
      es_entry_points = [], es_deleted_users = {}, es_deleted_groups = {}, es_deleted_grants = {},
      es_authorities = [], es_authority_unresolved = False, es_conflicted = [],
      es_admitted_counter_max = None, es_verified_records = [], es_secret_index = []\<rparr>"

type_synonym Authorities = "(PrincipalRefV1, AuthoritySet) BTreeMap"
type_synonym RollbackKeys = "(RecordKey, u64) BTreeMap"

section \<open>Authorities\<close>

definition root_authorities :: "UserId \<Rightarrow> Authorities" where
  "root_authorities root_user = bt_insert (PrincipalRefV1.User root_user) root_authority []"

definition auth_of :: "Authorities \<Rightarrow> PrincipalRefV1 \<Rightarrow> AuthoritySet" where
  "auth_of authorities p = (case bt_get authorities p of None \<Rightarrow> default_authority | Some a \<Rightarrow> a)"

definition signer_auth :: "Authorities \<Rightarrow> UserId \<Rightarrow> AuthoritySet" where
  "signer_auth authorities signer = auth_of authorities (PrincipalRefV1.User signer)"

fun principal_exists ::
  "PrincipalRefV1 \<Rightarrow> (UserId, UserRecordV1) BTreeMap \<Rightarrow> (GroupId, GroupRecordV1) BTreeMap \<Rightarrow> bool" where
  "principal_exists (PrincipalRefV1.User u) users groups = bt_contains_key users u"
| "principal_exists (PrincipalRefV1.Group g) users groups = bt_contains_key groups g"

definition add_grant :: "GrantRecordV1 \<Rightarrow> Authorities \<Rightarrow> Authorities" where
  "add_grant g authorities =
     bt_entry (grant_subject_id g) default_authority
       (\<lambda>a. fst (add_permission a (grant_permission g))) authorities"

text \<open>One pass over the memberships, with the \<open>changed\<close> flag.\<close>

fun member_pass :: "GroupMemberRecordV1 list \<Rightarrow> Authorities \<Rightarrow> bool \<Rightarrow> Authorities \<times> bool" where
  "member_pass [] authorities changed = (authorities, changed)"
| "member_pass (m # ms) authorities changed =
     (case bt_get authorities (PrincipalRefV1.Group (gm_group_id m)) of
        None \<Rightarrow> member_pass ms authorities changed
      | Some group_auth \<Rightarrow>
          (case merge_from (auth_of authorities (gm_member_id m)) group_auth of
             (member_auth, c) \<Rightarrow>
               member_pass ms (bt_insert (gm_member_id m) member_auth authorities) (changed \<or> c)))"

subsection \<open>The closure terminates\<close>

definition held :: "Authorities \<Rightarrow> (PrincipalRefV1 \<times> GrantPermissionV1) set" where
  "held a = {(p, q). q \<in> perms (auth_of a p)}"

lemma auth_of_insert: "auth_of (bt_insert p v a) p' = (if p' = p then v else auth_of a p')"
  by (simp add: auth_of_def bt.get_insert)

lemma held_insert:
  "perms (auth_of a p) \<subseteq> perms v \<Longrightarrow> held (bt_insert p v a) = held a \<union> {p} \<times> perms v"
  by (auto simp: held_def auth_of_insert split: if_splits)

lemma held_finite: "finite (held a)"
proof -
  have "held a \<subseteq> (\<Union>p \<in> fst ` set a. {p} \<times> perms (auth_of a p))"
  proof
    fix x assume "x \<in> held a"
    then obtain p q where x: "x = (p, q)" and q: "q \<in> perms (auth_of a p)"
      by (auto simp: held_def)
    then have "p \<in> fst ` set a"
      by (cases "map_of a p") (auto simp: auth_of_def bt_get_def map_of_eq_None_iff dest: map_of_SomeD
          intro: rev_image_eqI)
    with x q show "x \<in> (\<Union>p \<in> fst ` set a. {p} \<times> perms (auth_of a p))" by blast
  qed
  then show ?thesis by (rule finite_subset) auto
qed

lemma member_step:
  assumes g: "bt_get a (PrincipalRefV1.Group (gm_group_id m)) = Some ga"
    and mg: "merge_from (auth_of a (gm_member_id m)) ga = (ma, c)"
  shows "held (bt_insert (gm_member_id m) ma a) =
      held a \<union> {gm_member_id m} \<times> perms (auth_of a (PrincipalRefV1.Group (gm_group_id m)))"
    and "c \<longleftrightarrow> \<not> perms (auth_of a (PrincipalRefV1.Group (gm_group_id m))) \<subseteq> perms (auth_of a (gm_member_id m))"
proof -
  have ga: "auth_of a (PrincipalRefV1.Group (gm_group_id m)) = ga"
    using g by (simp add: auth_of_def)
  have ma: "perms ma = perms (auth_of a (gm_member_id m)) \<union> perms ga"
    using authority.view_join [of "auth_of a (gm_member_id m)" ga] mg by simp
  show "held (bt_insert (gm_member_id m) ma a) =
      held a \<union> {gm_member_id m} \<times> perms (auth_of a (PrincipalRefV1.Group (gm_group_id m)))"
    unfolding ga using ma by (subst held_insert) (auto simp: held_def)
  show "c \<longleftrightarrow> \<not> perms (auth_of a (PrincipalRefV1.Group (gm_group_id m))) \<subseteq> perms (auth_of a (gm_member_id m))"
    unfolding ga using authority.join_changed [of "auth_of a (gm_member_id m)" ga] mg by simp
qed

definition membership_edges :: "GroupMemberRecordV1 list \<Rightarrow> (PrincipalRefV1 \<times> PrincipalRefV1) set" where
  "membership_edges ms = (\<lambda>m. (PrincipalRefV1.Group (gm_group_id m), gm_member_id m)) ` set ms"

text \<open>What principals hold when each also holds what flows to it along the edges.\<close>

definition inherited ::
  "(PrincipalRefV1 \<times> PrincipalRefV1) set \<Rightarrow> (PrincipalRefV1 \<times> GrantPermissionV1) set
     \<Rightarrow> (PrincipalRefV1 \<times> GrantPermissionV1) set" where
  "inherited E H = {(p, q). \<exists>p0. (p0, p) \<in> E\<^sup>* \<and> (p0, q) \<in> H}"

lemma inherited_extensive: "H \<subseteq> inherited E H"
  by (auto simp: inherited_def)

lemma inherited_mono: "E \<subseteq> E' \<Longrightarrow> H \<subseteq> H' \<Longrightarrow> inherited E H \<subseteq> inherited E' H'"
  using rtrancl_mono [of E E'] by (auto simp: inherited_def)

lemma inherited_idem: "inherited E (inherited E H) = inherited E H"
  by (auto simp: inherited_def intro: rtrancl_trans)

lemma inherited_least:
  assumes "H \<subseteq> H'" and "\<And>p p' q. (p, p') \<in> E \<Longrightarrow> (p, q) \<in> H' \<Longrightarrow> (p', q) \<in> H'"
  shows "inherited E H \<subseteq> H'"
proof -
  have "(p0, p) \<in> E\<^sup>* \<Longrightarrow> (p0, q) \<in> H' \<Longrightarrow> (p, q) \<in> H'" for p0 p q
    by (induction rule: rtrancl_induct) (auto intro: assms(2))
  with assms(1) show ?thesis by (auto simp: inherited_def)
qed

lemma held_iff: "(p, q) \<in> held a \<longleftrightarrow> q \<in> perms (auth_of a p)"
  by (simp add: held_def)

lemma member_pass_grows:
  "member_pass ms a ch = (a', ch') \<Longrightarrow> held a \<subseteq> held a' \<and> (ch' \<longleftrightarrow> ch \<or> held a' \<noteq> held a)"
proof (induction ms arbitrary: a ch)
  case (Cons m ms)
  show ?case
  proof (cases "bt_get a (PrincipalRefV1.Group (gm_group_id m))")
    case None
    with Cons show ?thesis by simp
  next
    case (Some ga)
    obtain ma c where mg: "merge_from (auth_of a (gm_member_id m)) ga = (ma, c)"
      by (cases "merge_from (auth_of a (gm_member_id m)) ga")
    let ?a1 = "bt_insert (gm_member_id m) ma a"
    have "held ?a1 \<subseteq> held a' \<and> (ch' \<longleftrightarrow> (ch \<or> c) \<or> held a' \<noteq> held ?a1)"
      using Cons.prems Some mg by (intro Cons.IH) simp
    moreover have "held a \<subseteq> held ?a1" "c \<longleftrightarrow> held ?a1 \<noteq> held a"
      using member_step [OF Some mg] by (auto simp: held_def)
    ultimately show ?thesis by auto
  qed
qed simp

lemma member_pass_sound:
  "member_pass ms a ch = (a', ch') \<Longrightarrow> held a' \<subseteq> inherited (membership_edges ms) (held a)"
proof (induction ms arbitrary: a ch)
  case Nil
  then show ?case by (simp add: inherited_extensive)
next
  case (Cons m ms)
  let ?E = "membership_edges (m # ms)"
  have mono: "inherited (membership_edges ms) H \<subseteq> inherited ?E H" for H
    by (rule inherited_mono) (auto simp: membership_edges_def)
  show ?case
  proof (cases "bt_get a (PrincipalRefV1.Group (gm_group_id m))")
    case None
    with Cons.IH [of a ch] Cons.prems mono show ?thesis by force
  next
    case (Some ga)
    obtain ma c where mg: "merge_from (auth_of a (gm_member_id m)) ga = (ma, c)"
      by (cases "merge_from (auth_of a (gm_member_id m)) ga")
    let ?a1 = "bt_insert (gm_member_id m) ma a"
    have "held a' \<subseteq> inherited (membership_edges ms) (held ?a1)"
      using Cons.prems Some mg by (intro Cons.IH) simp
    also have "\<dots> \<subseteq> inherited ?E (held ?a1)" by (rule mono)
    also have "held ?a1 \<subseteq> inherited ?E (held a)"
      unfolding member_step(1) [OF Some mg]
      by (auto simp: inherited_def held_iff membership_edges_def intro: r_into_rtrancl)
    then have "inherited ?E (held ?a1) \<subseteq> inherited ?E (held a)"
      using inherited_mono [of ?E ?E "held ?a1" "inherited ?E (held a)"] by (simp add: inherited_idem)
    finally show ?thesis .
  qed
qed

lemma member_pass_closed:
  "member_pass ms a ch = (a', ch') \<Longrightarrow> held a' = held a \<Longrightarrow> m \<in> set ms \<Longrightarrow>
     (PrincipalRefV1.Group (gm_group_id m), q) \<in> held a \<Longrightarrow> (gm_member_id m, q) \<in> held a"
proof (induction ms arbitrary: a ch)
  case (Cons m0 ms)
  show ?case
  proof (cases "bt_get a (PrincipalRefV1.Group (gm_group_id m0))")
    case None
    then have "\<not> (PrincipalRefV1.Group (gm_group_id m0), q) \<in> held a"
      by (simp add: held_iff auth_of_def)
    with Cons None show ?thesis by auto
  next
    case (Some ga)
    obtain ma c where mg: "merge_from (auth_of a (gm_member_id m0)) ga = (ma, c)"
      by (cases "merge_from (auth_of a (gm_member_id m0)) ga")
    let ?a1 = "bt_insert (gm_member_id m0) ma a"
    have pass: "member_pass ms ?a1 (ch \<or> c) = (a', ch')"
      using Cons.prems(1) Some mg by simp
    have eq: "held ?a1 = held a"
      using member_pass_grows [OF pass] member_step(1) [OF Some mg] Cons.prems(2) by blast
    show ?thesis
    proof (cases "m = m0")
      case True
      then show ?thesis
        using member_step(1) [OF Some mg] eq Cons.prems(4) [unfolded held_iff] by blast
    next
      case False
      then show ?thesis
        using Cons.IH [OF pass] eq Cons.prems(2-4) by simp
    qed
  qed
qed simp

definition closure_room :: "GroupMemberRecordV1 list \<Rightarrow> Authorities \<Rightarrow> (PrincipalRefV1 \<times> GrantPermissionV1) set" where
  "closure_room ms a = (fst ` held a \<union> gm_member_id ` set ms) \<times> snd ` held a - held a"

lemma inherited_bounds:
  "inherited (membership_edges ms) H \<subseteq> (fst ` H \<union> gm_member_id ` set ms) \<times> snd ` H"
proof -
  have "(p0, p) \<in> (membership_edges ms)\<^sup>* \<Longrightarrow> p0 = p \<or> p \<in> gm_member_id ` set ms" for p0 p
    by (induction rule: rtrancl_induct) (auto simp: membership_edges_def)
  then show ?thesis by (force simp: inherited_def)
qed

lemma closure_room_shrinks:
  assumes pass: "member_pass ms a False = (a', True)"
  shows "card (closure_room ms a') < card (closure_room ms a)"
proof (rule psubset_card_mono)
  show "finite (closure_room ms a)"
    by (simp add: closure_room_def held_finite)
  have grow: "held a \<subset> held a'"
    using member_pass_grows [OF pass] by auto
  have bound: "held a' \<subseteq> (fst ` held a \<union> gm_member_id ` set ms) \<times> snd ` held a"
    using member_pass_sound [OF pass] inherited_bounds by (rule order.trans)
  then have room: "(fst ` held a' \<union> gm_member_id ` set ms) \<times> snd ` held a'
      \<subseteq> (fst ` held a \<union> gm_member_id ` set ms) \<times> snd ` held a"
    by auto
  obtain x where "x \<in> held a'" "x \<notin> held a"
    using grow by blast
  with room grow bound show "closure_room ms a' \<subset> closure_room ms a"
    unfolding closure_room_def by blast
qed

function close_memberships :: "GroupMemberRecordV1 list \<Rightarrow> Authorities \<Rightarrow> Authorities" where
  "close_memberships ms authorities =
     (case member_pass ms authorities False of (authorities', changed) \<Rightarrow>
        if \<not> changed then authorities' else close_memberships ms authorities')"
  by pat_completeness auto
termination
  by (relation "measure (\<lambda>(ms, a). card (closure_room ms a))") (auto intro: closure_room_shrinks)

declare close_memberships.simps [simp del]

lemma close_memberships_held: "held (close_memberships ms a) = inherited (membership_edges ms) (held a)"
proof (induction ms a rule: close_memberships.induct)
  case (1 ms a)
  obtain a' ch where pass: "member_pass ms a False = (a', ch)"
    by (cases "member_pass ms a False")
  let ?E = "membership_edges ms"
  show ?case
  proof (cases ch)
    case True
    have "inherited ?E (held a') = inherited ?E (held a)"
      using member_pass_sound [OF pass] member_pass_grows [OF pass]
        inherited_mono [of ?E ?E "held a'" "inherited ?E (held a)"] inherited_mono [of ?E ?E "held a" "held a'"]
      by (auto simp: inherited_idem)
    with True 1 pass show ?thesis
      by (simp add: close_memberships.simps [of ms a])
  next
    case False
    then have eq: "held a' = held a"
      using member_pass_grows [OF pass] by simp
    have "inherited ?E (held a) \<subseteq> held a"
      using member_pass_closed [OF pass eq] by (intro inherited_least) (auto simp: membership_edges_def)
    with False eq pass inherited_extensive show ?thesis
      by (auto simp: close_memberships.simps [of ms a])
  qed
qed

definition compute_authorities_from_selected ::
  "UserId \<Rightarrow> (GroupMemberId, GroupMemberRecordV1) BTreeMap \<Rightarrow> (GrantId, GrantRecordV1) BTreeMap
     \<Rightarrow> Authorities" where
  "compute_authorities_from_selected root_user memberships grants =
     close_memberships (bt_values memberships)
       (fold add_grant (bt_values grants) (root_authorities root_user))"

lemma add_grant_held: "held (add_grant g a) = insert (grant_subject_id g, grant_permission g) (held a)"
proof -
  let ?a = "auth_of a (grant_subject_id g)"
  have "perms (fst (add_permission ?a (grant_permission g))) = insert (grant_permission g) (perms ?a)"
    by (rule perms_add)
  then show ?thesis
    unfolding add_grant_def bt_entry_def auth_of_def [symmetric]
    by (subst held_insert) (auto simp: held_def)
qed

lemma fold_add_grant_held:
  "held (fold add_grant gs a) = held a \<union> (\<lambda>g. (grant_subject_id g, grant_permission g)) ` set gs"
  by (induction gs arbitrary: a) (auto simp: add_grant_held)

lemma root_authorities_held:
  "held (root_authorities u) = {PrincipalRefV1.User u} \<times> perms root_authority"
  by (auto simp: root_authorities_def held_def auth_of_def bt_get_def split: if_splits)

lemma authorities_held:
  "held (compute_authorities_from_selected root_user memberships grants) =
     inherited (membership_edges (bt_values memberships))
       ({PrincipalRefV1.User root_user} \<times> perms root_authority
        \<union> (\<lambda>g. (grant_subject_id g, grant_permission g)) ` set (bt_values grants))"
  by (simp add: compute_authorities_from_selected_def close_memberships_held fold_add_grant_held
      root_authorities_held)

section \<open>Selection\<close>

record SelectedAuthorizedRecords =
  sar_users :: "(UserId, UserRecordV1) BTreeMap"
  sar_groups :: "(GroupId, GroupRecordV1) BTreeMap"
  sar_memberships :: "(GroupMemberId, GroupMemberRecordV1) BTreeMap"
  sar_grants :: "(GrantId, GrantRecordV1) BTreeMap"
  sar_deleted_users :: "UserId set"
  sar_deleted_groups :: "GroupId set"
  sar_deleted_grants :: "GrantId set"
  sar_conflicted :: "(RecordKey, ConflictSlot) BTreeMap"

definition default_selected :: SelectedAuthorizedRecords where
  "default_selected =
     \<lparr>sar_users = [], sar_groups = [], sar_memberships = [], sar_grants = [], sar_deleted_users = {},
      sar_deleted_groups = {}, sar_deleted_grants = {}, sar_conflicted = []\<rparr>"

text \<open>The classification of each call site of \<open>lww_resolution\<close>.\<close>

definition classify_user ::
  "UserId \<Rightarrow> Authorities \<Rightarrow> HashValue set \<Rightarrow> VerifiedRecord \<Rightarrow> UserId option" where
  "classify_user root_user authorities admitted_deletions r =
     (case vr_body r of
        RecordBodyV1.User user \<Rightarrow>
          if user_id user = root_user \<or> \<not> auth_administer (signer_auth authorities (vr_signer r))
          then None else Some (user_id user)
      | RecordBodyV1.UserDeleted deleted \<Rightarrow>
          if ud_id deleted = root_user \<or> vr_record_hash r \<notin> admitted_deletions
          then None else Some (ud_id deleted)
      | _ \<Rightarrow> None)"

definition classify_group ::
  "Authorities \<Rightarrow> HashValue set \<Rightarrow> VerifiedRecord \<Rightarrow> GroupId option" where
  "classify_group authorities admitted_deletions r =
     (case vr_body r of
        RecordBodyV1.Group grp \<Rightarrow>
          if \<not> auth_administer (signer_auth authorities (vr_signer r)) then None
          else Some (group_id grp)
      | RecordBodyV1.GroupDeleted deleted \<Rightarrow>
          if vr_record_hash r \<notin> admitted_deletions then None else Some (gd_id deleted)
      | _ \<Rightarrow> None)"

definition classify_membership ::
  "Authorities \<Rightarrow> (UserId, UserRecordV1) BTreeMap \<Rightarrow> (GroupId, GroupRecordV1) BTreeMap
     \<Rightarrow> VerifiedRecord \<Rightarrow> GroupMemberId option" where
  "classify_membership authorities users groups r =
     (case vr_body r of
        RecordBodyV1.GroupMember member \<Rightarrow>
          if \<not> auth_administer (signer_auth authorities (vr_signer r))
             \<or> \<not> bt_contains_key groups (gm_group_id member)
             \<or> \<not> principal_exists (gm_member_id member) users groups
          then None else Some (gm_id member)
      | RecordBodyV1.GroupMemberDeleted deleted \<Rightarrow>
          if \<not> auth_administer (signer_auth authorities (vr_signer r)) then None
          else Some (gmd_id deleted)
      | _ \<Rightarrow> None)"

definition classify_grant ::
  "Authorities \<Rightarrow> HashValue set \<Rightarrow> (UserId, UserRecordV1) BTreeMap \<Rightarrow> (GroupId, GroupRecordV1) BTreeMap
     \<Rightarrow> VerifiedRecord \<Rightarrow> GrantId option" where
  "classify_grant authorities admitted_deletions users groups r =
     (case vr_body r of
        RecordBodyV1.Grant grant \<Rightarrow>
          if \<not> principal_exists (grant_subject_id grant) users groups
             \<or> \<not> can_create_permission (signer_auth authorities (vr_signer r)) (grant_permission grant)
          then None else Some (grant_id grant)
      | RecordBodyV1.GrantDeleted deleted \<Rightarrow>
          if vr_record_hash r \<notin> admitted_deletions then None else Some (grd_id deleted)
      | _ \<Rightarrow> None)"

definition classify_handle ::
  "Authorities \<Rightarrow> (UserId, UserRecordV1) BTreeMap \<Rightarrow> VerifiedRecord \<Rightarrow> UserHandleId option" where
  "classify_handle authorities users r =
     (case (vr_body r, vr_key r) of
        (RecordBodyV1.UserHandle handle, RecordKey.UserHandle hid) \<Rightarrow>
          if auth_administer (signer_auth authorities (vr_signer r))
             \<and> bt_contains_key users (uh_user_id handle)
          then Some hid else None
      | _ \<Rightarrow> None)"

definition classify_vault_handle :: "Authorities \<Rightarrow> VerifiedRecord \<Rightarrow> VaultHandleId option" where
  "classify_vault_handle authorities r =
     (case (vr_body r, vr_key r) of
        (RecordBodyV1.VaultHandle handle, RecordKey.VaultHandle hid) \<Rightarrow>
          if auth_administer (signer_auth authorities (vr_signer r)) then Some hid else None
      | _ \<Rightarrow> None)"

definition classify_entry_point ::
  "(UserId, UserRecordV1) BTreeMap \<Rightarrow> VerifiedRecord \<Rightarrow> UserId option" where
  "classify_entry_point users r =
     (case (vr_body r, vr_key r) of
        (RecordBodyV1.EntryPoint ep, RecordKey.EntryPoint uid) \<Rightarrow>
          if bt_contains_key users uid then Some uid else None
      | _ \<Rightarrow> None)"

fun as_group :: "RecordBodyV1 \<Rightarrow> GroupRecordV1 option" where
  "as_group (RecordBodyV1.Group v) = Some v" | "as_group _ = None"

fun as_member :: "RecordBodyV1 \<Rightarrow> GroupMemberRecordV1 option" where
  "as_member (RecordBodyV1.GroupMember v) = Some v" | "as_member _ = None"

fun as_grant :: "RecordBodyV1 \<Rightarrow> GrantRecordV1 option" where
  "as_grant (RecordBodyV1.Grant v) = Some v" | "as_grant _ = None"

fun as_user_handle :: "RecordBodyV1 \<Rightarrow> UserHandleRecordV1 option" where
  "as_user_handle (RecordBodyV1.UserHandle v) = Some v" | "as_user_handle _ = None"

fun as_vault_handle :: "RecordBodyV1 \<Rightarrow> VaultHandleRecordV1 option" where
  "as_vault_handle (RecordBodyV1.VaultHandle v) = Some v" | "as_vault_handle _ = None"

fun as_entry_point :: "RecordBodyV1 \<Rightarrow> EntryPointRecordV1 option" where
  "as_entry_point (RecordBodyV1.EntryPoint v) = Some v" | "as_entry_point _ = None"

text \<open>The users, unwrapped by hand: a winning add needs an entry point to count.\<close>

fun select_users_loop ::
  "UserId set \<Rightarrow> (UserId \<times> VerifiedRecord) list \<Rightarrow> (UserId, UserRecordV1) BTreeMap \<times> UserId set
     \<Rightarrow> (UserId, UserRecordV1) BTreeMap \<times> UserId set" where
  "select_users_loop entry_point_users [] acc = acc"
| "select_users_loop entry_point_users ((uid, r) # ws) (users, deleted_users) =
     select_users_loop entry_point_users ws
       (case vr_body r of
          RecordBodyV1.User user \<Rightarrow>
            (if uid \<in> entry_point_users then bt_insert uid user users else users, deleted_users)
        | _ \<Rightarrow> (users, insert uid deleted_users))"

definition select_authorized_records ::
  "VerifiedRecord list \<Rightarrow> UserRecordV1 \<Rightarrow> UserId set \<Rightarrow> HashValue set \<Rightarrow> RollbackKeys \<Rightarrow> Authorities
     \<Rightarrow> SelectedAuthorizedRecords" where
  "select_authorized_records records root_user_record entry_point_users admitted_deletions
       rollback_keys authorities =
     (let root_user = user_id root_user_record;
          user_resolution = lww_resolution records rollback_keys
            (classify_user root_user authorities admitted_deletions);
          conflicted1 = bt_extend [] (lww_conflicted user_resolution);
          (users, deleted_users) = select_users_loop entry_point_users (winners user_resolution)
            (bt_insert root_user root_user_record [], {});
          group_resolution = lww_resolution records rollback_keys
            (classify_group authorities admitted_deletions);
          conflicted2 = bt_extend conflicted1 (lww_conflicted group_resolution);
          (groups, deleted_groups) = partition_lww (winners group_resolution) as_group;
          membership_resolution = lww_resolution records rollback_keys
            (classify_membership authorities users groups);
          conflicted3 = bt_extend conflicted2 (lww_conflicted membership_resolution);
          (memberships, _) = partition_lww (winners membership_resolution) as_member;
          grant_resolution = lww_resolution records rollback_keys
            (classify_grant authorities admitted_deletions users groups);
          conflicted4 = bt_extend conflicted3 (lww_conflicted grant_resolution);
          (grants, deleted_grants) = partition_lww (winners grant_resolution) as_grant
      in \<lparr>sar_users = users, sar_groups = groups, sar_memberships = memberships, sar_grants = grants,
          sar_deleted_users = deleted_users, sar_deleted_groups = deleted_groups,
          sar_deleted_grants = deleted_grants, sar_conflicted = conflicted4\<rparr>)"

section \<open>The bounded iteration\<close>

fun authority_loop ::
  "nat \<Rightarrow> (Authorities \<Rightarrow> SelectedAuthorizedRecords) \<Rightarrow> UserId \<Rightarrow> SelectedAuthorizedRecords \<Rightarrow> Authorities
     \<Rightarrow> SelectedAuthorizedRecords \<times> Authorities \<times> bool" where
  "authority_loop 0 select root_user selected authorities = (selected, authorities, False)"
| "authority_loop (Suc n) select root_user selected authorities =
     (let nxt = select authorities;
          new_authorities =
            compute_authorities_from_selected root_user (sar_memberships nxt) (sar_grants nxt)
      in if nxt = selected \<and> new_authorities = authorities then (selected, authorities, True)
         else authority_loop n select root_user nxt new_authorities)"

definition entry_point_user_ids :: "VerifiedRecord list \<Rightarrow> RollbackKeys \<Rightarrow> UserId list" where
  "entry_point_user_ids records rollback_keys =
     List.map_filter (\<lambda>r. case (vr_key r, vr_body r) of
         (RecordKey.EntryPoint uid, RecordBodyV1.EntryPoint _) \<Rightarrow> Some uid
       | _ \<Rightarrow> None)
       (filter (\<lambda>r. \<not> bt_contains_key rollback_keys (vr_key r)) records)"

definition compute_effective_state ::
  "CryptoProvider \<Rightarrow> UserRecordV1 \<Rightarrow> HashValue \<Rightarrow> VerifiedRecord list \<Rightarrow> HashValue set \<Rightarrow> RollbackKeys
     \<Rightarrow> EffectiveState" where
  "compute_effective_state crypto root_user_record root_hash records admitted_deletions rollback_keys =
     (let root_user = user_id root_user_record;
          entry_point_users = set (entry_point_user_ids records rollback_keys);
          (selected, authorities, authority_converged) =
            authority_loop 64
              (select_authorized_records records root_user_record entry_point_users
                 admitted_deletions rollback_keys)
              root_user default_selected (root_authorities root_user);
          users = sar_users selected;
          handle_resolution = lww_resolution records rollback_keys (classify_handle authorities users);
          conflicted1 = bt_extend (sar_conflicted selected) (lww_conflicted handle_resolution);
          (handles, _) = partition_lww (winners handle_resolution) as_user_handle;
          vault_handle_resolution =
            lww_resolution records rollback_keys (classify_vault_handle authorities);
          conflicted2 = bt_extend conflicted1 (lww_conflicted vault_handle_resolution);
          (vault_handles, _) = partition_lww (winners vault_handle_resolution) as_vault_handle;
          entry_point_resolution =
            lww_resolution records rollback_keys (classify_entry_point users);
          conflicted3 = bt_extend conflicted2 (lww_conflicted entry_point_resolution);
          (entry_points, _) = partition_lww (winners entry_point_resolution) as_entry_point
      in \<lparr>es_root_user_id = Some root_user, es_root_signing_public_key_hash = Some root_hash,
          es_users = users, es_handles = handles, es_vault_handles = vault_handles,
          es_groups = sar_groups selected, es_memberships = sar_memberships selected,
          es_grants = sar_grants selected, es_entry_points = entry_points,
          es_deleted_users = sar_deleted_users selected,
          es_deleted_groups = sar_deleted_groups selected,
          es_deleted_grants = sar_deleted_grants selected,
          es_authorities = authorities, es_authority_unresolved = \<not> authority_converged,
          es_conflicted = materialize_conflicts crypto records conflicted3,
          es_admitted_counter_max = None, es_verified_records = [], es_secret_index = []\<rparr>)"

section \<open>The call sites\<close>

interpretation user_site: lww_site "classify_user root_user authorities admitted" RecordKey.User
  for root_user authorities admitted
  by unfold_locales (auto simp: classify_user_def keyed_def split: RecordBodyV1.splits if_splits)

interpretation group_site: lww_site "classify_group authorities admitted" RecordKey.Group
  for authorities admitted
  by unfold_locales (auto simp: classify_group_def keyed_def split: RecordBodyV1.splits if_splits)

interpretation membership_site: lww_site "classify_membership authorities users groups" RecordKey.GroupMember
  for authorities users groups
  by unfold_locales (auto simp: classify_membership_def keyed_def split: RecordBodyV1.splits if_splits)

interpretation grant_site: lww_site "classify_grant authorities admitted users groups" RecordKey.Grant
  for authorities admitted users groups
  by unfold_locales (auto simp: classify_grant_def keyed_def split: RecordBodyV1.splits if_splits)

interpretation handle_site: lww_site "classify_handle authorities users" RecordKey.UserHandle
  for authorities users
  by unfold_locales (auto simp: classify_handle_def split: RecordBodyV1.splits RecordKey.splits if_splits)

interpretation vault_handle_site: lww_site "classify_vault_handle authorities" RecordKey.VaultHandle
  for authorities
  by unfold_locales (auto simp: classify_vault_handle_def split: RecordBodyV1.splits RecordKey.splits if_splits)

interpretation entry_point_site: lww_site "classify_entry_point users" RecordKey.EntryPoint
  for users
  by unfold_locales (auto simp: classify_entry_point_def split: RecordBodyV1.splits RecordKey.splits if_splits)

section \<open>What is selected\<close>

lemma winnerD:
  assumes "bt_get (winners (lww_resolution rs rb c)) k = Some w"
  shows "w \<in> set rs \<and> \<not> bt_contains_key rb (vr_key w) \<and> c w = Some k"
proof -
  have "w \<in> set (leaders (admitted_list rs rb c k))"
    using assms min_by_hash_Some by (fastforce simp: lww_winner_get Let_def split: if_splits)
  then show ?thesis by (auto simp: leaders_def)
qed

lemma partition_loop_get:
  assumes "distinct (map fst ws)"
  shows "bt_get (fst (partition_loop ws val (live, del))) k =
      (case map_of ws k of None \<Rightarrow> bt_get live k
       | Some r \<Rightarrow> (case val (vr_body r) of None \<Rightarrow> bt_get live k | Some v \<Rightarrow> Some v))
    \<and> snd (partition_loop ws val (live, del)) =
      del \<union> {k. \<exists>r. map_of ws k = Some r \<and> val (vr_body r) = None}"
  using assms
proof (induction ws arbitrary: live del)
  case (Cons w ws)
  obtain key r where w: "w = (key, r)" by (cases w)
  have none: "map_of ws key = None"
    using Cons.prems w by (auto simp: map_of_eq_None_iff)
  then have eq: "(\<exists>r'. map_of (w # ws) k' = Some r' \<and> val (vr_body r') = None) \<longleftrightarrow>
      (k' = key \<and> val (vr_body r) = None) \<or> (\<exists>r'. map_of ws k' = Some r' \<and> val (vr_body r') = None)" for k'
    using w by auto
  show ?case
    unfolding eq using Cons none w by (auto simp: bt.get_insert split: option.splits)
qed simp

lemma winners_distinct: "distinct (map fst (winners (lww_resolution rs rb c)))"
  using lww_resolution_wf(1) [of rs rb c] by (simp add: bt_wf_def strict_sorted_iff)

lemma partition_get:
  "bt_get (fst (partition_lww (winners (lww_resolution rs rb c)) val)) k = Some v \<longleftrightarrow>
     (\<exists>w. bt_get (winners (lww_resolution rs rb c)) k = Some w \<and> val (vr_body w) = Some v)"
  using partition_loop_get [OF winners_distinct, of rs rb c val "[]" "{}" k]
  by (auto simp: partition_lww_def bt_get_def split: option.splits)

lemma partition_deleted:
  "k \<in> snd (partition_lww (winners (lww_resolution rs rb c)) val) \<longleftrightarrow>
     (\<exists>w. bt_get (winners (lww_resolution rs rb c)) k = Some w \<and> val (vr_body w) = None)"
  using partition_loop_get [OF winners_distinct, of rs rb c val "[]" "{}"]
  by (auto simp: partition_lww_def bt_get_def)

lemma as_body_Some:
  "as_group b = Some g \<longleftrightarrow> b = RecordBodyV1.Group g"
  "as_member b = Some m \<longleftrightarrow> b = RecordBodyV1.GroupMember m"
  "as_grant b = Some gr \<longleftrightarrow> b = RecordBodyV1.Grant gr"
  "as_user_handle b = Some uh \<longleftrightarrow> b = RecordBodyV1.UserHandle uh"
  "as_vault_handle b = Some vh \<longleftrightarrow> b = RecordBodyV1.VaultHandle vh"
  "as_entry_point b = Some ep \<longleftrightarrow> b = RecordBodyV1.EntryPoint ep"
  by (cases b; auto)+

lemma select_users_get:
  assumes "distinct (map fst ws)"
  shows "bt_get (fst (select_users_loop eps ws (users, del))) k =
     (case map_of ws k of
        Some r \<Rightarrow> (case vr_body r of
            RecordBodyV1.User u \<Rightarrow> if k \<in> eps then Some u else bt_get users k
          | _ \<Rightarrow> bt_get users k)
      | None \<Rightarrow> bt_get users k)"
  using assms
proof (induction ws arbitrary: users del)
  case (Cons w ws)
  obtain key r where w: "w = (key, r)" by (cases w)
  have "map_of ws key = None"
    using Cons.prems w by (auto simp: map_of_eq_None_iff)
  with Cons w show ?case
    by (auto simp: bt.get_insert split: option.splits RecordBodyV1.splits)
qed simp

lemma select_fields:
  fixes records ru eps adm rb auths
  defines "sel \<equiv> select_authorized_records records ru eps adm rb auths"
  shows "sar_users sel = fst (select_users_loop eps
           (winners (lww_resolution records rb (classify_user (user_id ru) auths adm)))
           (bt_insert (user_id ru) ru [], {}))"
    and "sar_groups sel = fst (partition_lww
           (winners (lww_resolution records rb (classify_group auths adm))) as_group)"
    and "sar_memberships sel = fst (partition_lww
           (winners (lww_resolution records rb (classify_membership auths (sar_users sel) (sar_groups sel))))
           as_member)"
    and "sar_grants sel = fst (partition_lww
           (winners (lww_resolution records rb (classify_grant auths adm (sar_users sel) (sar_groups sel))))
           as_grant)"
    and "sar_conflicted sel = bt_extend (bt_extend (bt_extend (bt_extend []
           (lww_conflicted (lww_resolution records rb (classify_user (user_id ru) auths adm))))
           (lww_conflicted (lww_resolution records rb (classify_group auths adm))))
           (lww_conflicted (lww_resolution records rb
              (classify_membership auths (sar_users sel) (sar_groups sel)))))
           (lww_conflicted (lww_resolution records rb
              (classify_grant auths adm (sar_users sel) (sar_groups sel))))"
  by (simp_all add: sel_def select_authorized_records_def Let_def case_prod_beta)

lemma classify_user_Some:
  assumes "classify_user root auths adm r = Some k"
  shows "k \<noteq> root" and "vr_body r = RecordBodyV1.User u \<Longrightarrow>
    user_id u = k \<and> auth_administer (signer_auth auths (vr_signer r))"
  using assms by (auto simp: classify_user_def split: RecordBodyV1.splits if_splits)

lemma selected_user:
  assumes "bt_get (sar_users (select_authorized_records records ru eps adm rb auths)) k = Some u"
    and "k \<noteq> user_id ru"
  shows "k \<in> eps \<and> (\<exists>r \<in> set records. vr_body r = RecordBodyV1.User u \<and> user_id u = k
    \<and> \<not> bt_contains_key rb (vr_key r) \<and> auth_administer (signer_auth auths (vr_signer r)))"
proof -
  let ?w = "winners (lww_resolution records rb (classify_user (user_id ru) auths adm))"
  have "\<exists>r. bt_get ?w k = Some r \<and> vr_body r = RecordBodyV1.User u \<and> k \<in> eps"
    using assms unfolding select_fields(1) select_users_get [OF winners_distinct]
    by (auto simp: bt_get_def split: option.splits RecordBodyV1.splits if_splits)
  then show ?thesis
    using winnerD classify_user_Some(2) by metis
qed

lemma selected_root:
  "bt_get (sar_users (select_authorized_records records ru eps adm rb auths)) (user_id ru) = Some ru"
proof -
  let ?w = "winners (lww_resolution records rb (classify_user (user_id ru) auths adm))"
  have "bt_get ?w (user_id ru) = None"
    using winnerD classify_user_Some(1) by (metis not_Some_eq)
  then show ?thesis
    unfolding select_fields(1) select_users_get [OF winners_distinct]
    by (auto simp: bt_get_def)
qed

lemma selected_group:
  assumes "bt_get (sar_groups (select_authorized_records records ru eps adm rb auths)) k = Some g"
  shows "\<exists>r \<in> set records. vr_body r = RecordBodyV1.Group g \<and> group_id g = k
    \<and> \<not> bt_contains_key rb (vr_key r) \<and> auth_administer (signer_auth auths (vr_signer r))"
proof -
  obtain w where "bt_get (winners (lww_resolution records rb (classify_group auths adm))) k = Some w"
      "vr_body w = RecordBodyV1.Group g"
    using assms unfolding select_fields(2) partition_get as_body_Some by blast
  with winnerD [OF this(1)] show ?thesis
    by (auto simp: classify_group_def split: if_splits)
qed

lemma selected_membership:
  fixes records ru eps adm rb auths
  defines "sel \<equiv> select_authorized_records records ru eps adm rb auths"
  assumes "bt_get (sar_memberships sel) k = Some m"
  shows "(\<exists>r \<in> set records. vr_body r = RecordBodyV1.GroupMember m \<and> gm_id m = k
      \<and> \<not> bt_contains_key rb (vr_key r) \<and> auth_administer (signer_auth auths (vr_signer r)))
    \<and> bt_contains_key (sar_groups sel) (gm_group_id m)
    \<and> principal_exists (gm_member_id m) (sar_users sel) (sar_groups sel)"
proof -
  obtain w where "bt_get (winners (lww_resolution records rb
        (classify_membership auths (sar_users sel) (sar_groups sel)))) k = Some w"
      "vr_body w = RecordBodyV1.GroupMember m"
    using assms(2) unfolding sel_def select_fields(3) partition_get as_body_Some by blast
  with winnerD [OF this(1)] show ?thesis
    by (auto simp: classify_membership_def split: if_splits)
qed

lemma selected_grant:
  fixes records ru eps adm rb auths
  defines "sel \<equiv> select_authorized_records records ru eps adm rb auths"
  assumes "bt_get (sar_grants sel) k = Some g"
  shows "(\<exists>r \<in> set records. vr_body r = RecordBodyV1.Grant g \<and> grant_id g = k
      \<and> \<not> bt_contains_key rb (vr_key r)
      \<and> can_create_permission (signer_auth auths (vr_signer r)) (grant_permission g))
    \<and> principal_exists (grant_subject_id g) (sar_users sel) (sar_groups sel)"
proof -
  obtain w where "bt_get (winners (lww_resolution records rb
        (classify_grant auths adm (sar_users sel) (sar_groups sel)))) k = Some w"
      "vr_body w = RecordBodyV1.Grant g"
    using assms(2) unfolding sel_def select_fields(4) partition_get as_body_Some by blast
  with winnerD [OF this(1)] show ?thesis
    by (auto simp: classify_grant_def split: if_splits)
qed

subsection \<open>The iteration\<close>

lemma authority_loop_converged:
  "authority_loop n select root s a = (s', a', True) \<Longrightarrow>
     s' = select a' \<and> a' = compute_authorities_from_selected root (sar_memberships s') (sar_grants s')"
  by (induction n arbitrary: s a) (auto simp: Let_def split: if_splits)

lemma authority_loop_selected:
  "authority_loop n select root s a = (s', a', b) \<Longrightarrow> 0 < n \<Longrightarrow> \<exists>a0. s' = select a0"
proof (induction n arbitrary: s a)
  case (Suc n)
  then show ?case by (cases n) (fastforce simp: Let_def split: if_splits)+
qed simp

lemma effective_fields:
  fixes crypto ru rh records adm rb
  defines "st \<equiv> compute_effective_state crypto ru rh records adm rb"
  shows "\<exists>sel. \<exists>auths0. sel = select_authorized_records records ru
        (set (entry_point_user_ids records rb)) adm rb auths0
      \<and> es_users st = sar_users sel \<and> es_groups st = sar_groups sel
      \<and> es_memberships st = sar_memberships sel \<and> es_grants st = sar_grants sel
      \<and> (\<not> es_authority_unresolved st \<longrightarrow> auths0 = es_authorities st
          \<and> es_authorities st = compute_authorities_from_selected (user_id ru)
              (es_memberships st) (es_grants st))
      \<and> es_handles st = fst (partition_lww (winners (lww_resolution records rb
            (classify_handle (es_authorities st) (es_users st)))) as_user_handle)
      \<and> es_vault_handles st = fst (partition_lww (winners (lww_resolution records rb
            (classify_vault_handle (es_authorities st)))) as_vault_handle)
      \<and> es_entry_points st = fst (partition_lww (winners (lww_resolution records rb
            (classify_entry_point (es_users st)))) as_entry_point)
      \<and> es_conflicted st = materialize_conflicts crypto records
          (bt_extend (bt_extend (bt_extend (sar_conflicted sel)
            (lww_conflicted (lww_resolution records rb (classify_handle (es_authorities st) (es_users st)))))
            (lww_conflicted (lww_resolution records rb (classify_vault_handle (es_authorities st)))))
            (lww_conflicted (lww_resolution records rb (classify_entry_point (es_users st)))))"
proof -
  let ?select = "select_authorized_records records ru (set (entry_point_user_ids records rb)) adm rb"
  obtain s a b where loop: "authority_loop 64 ?select (user_id ru) default_selected
      (root_authorities (user_id ru)) = (s, a, b)"
    by (metis prod_cases3)
  obtain a0 where a0: "s = ?select a0"
    using authority_loop_selected [OF loop] by auto
  have s_eq: "s = ?select (if b then a else a0)"
    using authority_loop_converged [of 64 ?select] loop a0 by (cases b) auto
  have a_eq: "b \<Longrightarrow> compute_authorities_from_selected (user_id ru) (sar_memberships s) (sar_grants s) = a"
    using authority_loop_converged [of 64 ?select] loop by (cases b) auto
  show ?thesis
    unfolding st_def compute_effective_state_def Let_def loop case_prod_beta fst_conv snd_conv
    by (intro exI [of _ s] exI [of _ "if b then a else a0"] conjI, rule s_eq) (simp_all add: a_eq)
qed

subsection \<open>Conflicted keys\<close>

lemma bt_extend_get:
  assumes "distinct (map fst ps)"
  shows "bt_get (bt_extend m ps) k = (case bt_get ps k of Some v \<Rightarrow> Some v | None \<Rightarrow> bt_get m k)"
  using assms
proof (induction ps arbitrary: m)
  case (Cons p ps)
  obtain k' v where p: "p = (k', v)" by (cases p)
  have "bt_get ps k' = None"
    using Cons.prems p by (auto simp: bt_get_def map_of_eq_None_iff)
  then show ?case
    using Cons.IH [of "bt_insert k' v m"] Cons.prems p
    by (auto simp: bt_extend_def bt.get_insert bt_get_def [of "_ # _"] bt_get_def [symmetric] split: option.splits)
qed (simp add: bt_extend_def bt_get_def)

lemma conflicted_distinct: "distinct (map fst (lww_conflicted (lww_resolution rs rb c)))"
  using lww_resolution_wf(2) [of rs rb c] by (simp add: bt_wf_def strict_sorted_iff)

lemma materialize_get:
  "bt_get (materialize_conflicts crypto records m) k \<noteq> None \<longleftrightarrow> bt_get m k \<noteq> None"
  by (induction m) (auto simp: materialize_conflicts_def bt_get_def)

lemma extend_conflicted_get:
  "bt_get (bt_extend m (lww_conflicted (lww_resolution rs rb c))) k \<noteq> None \<longleftrightarrow>
     bt_get m k \<noteq> None \<or> bt_get (lww_conflicted (lww_resolution rs rb c)) k \<noteq> None"
  by (auto simp: bt_extend_get [OF conflicted_distinct] split: option.splits)

text \<open>At one site a key is never both won and conflicted, and a conflict has the site's key kind.\<close>

lemma conflict_no_winner:
  assumes "lww_site c key_of" and "list_all keyed rs"
    and "bt_get (lww_conflicted (lww_resolution rs rb c)) (key_of k) \<noteq> None"
  shows "bt_get (winners (lww_resolution rs rb c)) k = None"
proof -
  let ?adm = "admitted_list rs rb c k"
  obtain sl where "bt_get (lww_conflicted (lww_resolution rs rb c)) (key_of k) = Some sl"
    using assms(3) by blast
  then obtain k' where "key_of k = key_of k'"
      "\<not> agreed (highest (competing (set rs) rb c k'))"
    using lww_site.conflict_key [OF assms(1,2)] by blast
  then have "\<not> agreed (set (leaders ?adm))"
    using lww_site.key_of_inject [OF assms(1)] by (metis set_leaders set_admitted_list)
  then show ?thesis
    by (cases "leaders ?adm = []") (simp_all add: lww_winner_get Let_def diverging_iff)
qed

lemma site_conflict_kind:
  assumes "lww_site c key_of" and "list_all keyed rs" and "\<And>k'. key_of k' \<noteq> rk"
  shows "bt_get (lww_conflicted (lww_resolution rs rb c)) rk = None"
  using lww_site.conflict_key [OF assms(1,2), of rb rk] assms(3) by (metis not_Some_eq)

lemmas sites = user_site.lww_site_axioms group_site.lww_site_axioms membership_site.lww_site_axioms
  grant_site.lww_site_axioms handle_site.lww_site_axioms vault_handle_site.lww_site_axioms
  entry_point_site.lww_site_axioms

lemma partition_none:
  "bt_get (winners (lww_resolution rs rb c)) k = None \<Longrightarrow>
     bt_get (fst (partition_lww (winners (lww_resolution rs rb c)) val)) k = None"
  using partition_get [of rs rb c val k] by (metis not_Some_eq option.discI)

lemma rollback_no_winner:
  assumes "lww_site c key_of" and "list_all keyed rs" and "bt_contains_key rb (key_of k)"
  shows "bt_get (winners (lww_resolution rs rb c)) k = None"
proof (rule ccontr)
  assume "bt_get (winners (lww_resolution rs rb c)) k \<noteq> None"
  then obtain w where w: "bt_get (winners (lww_resolution rs rb c)) k = Some w" by blast
  then have "vr_key w = key_of k"
    using winnerD [OF w] assms(2) lww_site.classify_key [OF assms(1)] by (auto simp: list_all_iff)
  with winnerD [OF w] assms(3) show False by simp
qed

text \<open>Disputed at a site: conflicted there, or remembered at a higher counter.\<close>

lemma disputed_no_winner:
  assumes "lww_site c key_of" and "list_all keyed rs"
    and "bt_get (lww_conflicted (lww_resolution rs rb c)) (key_of k) \<noteq> None \<or> bt_contains_key rb (key_of k)"
  shows "bt_get (winners (lww_resolution rs rb c)) k = None"
  using assms conflict_no_winner rollback_no_winner by metis

lemma users_none:
  assumes "bt_get (winners (lww_resolution records rb (classify_user (user_id ru) auths adm))) k = None"
    and "k \<noteq> user_id ru"
  shows "bt_get (sar_users (select_authorized_records records ru eps adm rb auths)) k = None"
  using assms unfolding select_fields(1) select_users_get [OF winners_distinct]
  by (simp add: bt_get_def)

lemma selected_conflicts:
  fixes records ru eps adm rb auths
  defines "sel \<equiv> select_authorized_records records ru eps adm rb auths"
  shows "bt_get (sar_conflicted sel) rk \<noteq> None \<longleftrightarrow>
     bt_get (lww_conflicted (lww_resolution records rb (classify_user (user_id ru) auths adm))) rk \<noteq> None
   \<or> bt_get (lww_conflicted (lww_resolution records rb (classify_group auths adm))) rk \<noteq> None
   \<or> bt_get (lww_conflicted (lww_resolution records rb
        (classify_membership auths (sar_users sel) (sar_groups sel)))) rk \<noteq> None
   \<or> bt_get (lww_conflicted (lww_resolution records rb
        (classify_grant auths adm (sar_users sel) (sar_groups sel)))) rk \<noteq> None"
  unfolding sel_def select_fields(5) extend_conflicted_get by (simp add: bt_get_def)

lemma inert_selected:
  fixes records ru eps adm rb auths
  defines "sel \<equiv> select_authorized_records records ru eps adm rb auths"
  assumes keyed: "list_all keyed records"
    and d: "bt_get (sar_conflicted sel) rk \<noteq> None \<or> bt_contains_key rb rk"
  shows "rk = RecordKey.Grant g \<Longrightarrow> bt_get (sar_grants sel) g = None"
    and "rk = RecordKey.Group gr \<Longrightarrow> bt_get (sar_groups sel) gr = None"
    and "rk = RecordKey.GroupMember m \<Longrightarrow> bt_get (sar_memberships sel) m = None"
    and "rk = RecordKey.User u \<Longrightarrow> u \<noteq> user_id ru \<Longrightarrow> bt_get (sar_users sel) u = None"
  using d unfolding sel_def selected_conflicts
  by (auto simp: select_fields(2-4) site_conflict_kind [OF sites(1) keyed] site_conflict_kind [OF sites(2) keyed]
      site_conflict_kind [OF sites(3) keyed] site_conflict_kind [OF sites(4) keyed]
      intro!: partition_none users_none
      intro: disputed_no_winner [OF sites(1) keyed] disputed_no_winner [OF sites(2) keyed]
        disputed_no_winner [OF sites(3) keyed] disputed_no_winner [OF sites(4) keyed])

section \<open>Properties\<close>

text \<open>
  C2. Effective authority is reachability: the bounded-free membership closure always ends, and
  a principal then holds exactly the permissions granted to itself or to a group it reaches
  through effective memberships, nested groups included, with the root user holding the root
  authority in addition.
\<close>

theorem authority_is_reachability:
  "q \<in> perms (auth_of (compute_authorities_from_selected root_user memberships grants) p) \<longleftrightarrow>
     (\<exists>p0. (p0, p) \<in> (membership_edges (bt_values memberships))\<^sup>*
        \<and> (p0 = PrincipalRefV1.User root_user \<and> q \<in> perms root_authority
           \<or> (\<exists>g \<in> set (bt_values grants). grant_subject_id g = p0 \<and> grant_permission g = q)))"
proof -
  have "q \<in> perms (auth_of (compute_authorities_from_selected root_user memberships grants) p) \<longleftrightarrow>
      (p, q) \<in> held (compute_authorities_from_selected root_user memberships grants)"
    by (simp add: held_iff)
  then show ?thesis
    unfolding authorities_held inherited_def by auto
qed

lemma converged_authorized:
  fixes crypto ru rh records adm rb
  defines "st \<equiv> compute_effective_state crypto ru rh records adm rb"
  assumes "\<not> es_authority_unresolved st"
  shows "es_authorities st =
      compute_authorities_from_selected (user_id ru) (es_memberships st) (es_grants st)
    \<and> (\<forall>k g. bt_get (es_grants st) k = Some g \<longrightarrow>
        (\<exists>r \<in> set records. vr_body r = RecordBodyV1.Grant g \<and> grant_id g = k
           \<and> \<not> bt_contains_key rb (vr_key r)
           \<and> can_create_permission (signer_auth (es_authorities st) (vr_signer r)) (grant_permission g))
        \<and> principal_exists (grant_subject_id g) (es_users st) (es_groups st))
    \<and> (\<forall>k g. bt_get (es_groups st) k = Some g \<longrightarrow>
        (\<exists>r \<in> set records. vr_body r = RecordBodyV1.Group g \<and> group_id g = k
           \<and> \<not> bt_contains_key rb (vr_key r)
           \<and> auth_administer (signer_auth (es_authorities st) (vr_signer r))))
    \<and> (\<forall>k m. bt_get (es_memberships st) k = Some m \<longrightarrow>
        (\<exists>r \<in> set records. vr_body r = RecordBodyV1.GroupMember m \<and> gm_id m = k
           \<and> \<not> bt_contains_key rb (vr_key r)
           \<and> auth_administer (signer_auth (es_authorities st) (vr_signer r)))
        \<and> bt_contains_key (es_groups st) (gm_group_id m)
        \<and> principal_exists (gm_member_id m) (es_users st) (es_groups st))
    \<and> (\<forall>k u. bt_get (es_users st) k = Some u \<longrightarrow> k \<noteq> user_id ru \<longrightarrow>
        k \<in> set (entry_point_user_ids records rb)
        \<and> (\<exists>r \<in> set records. vr_body r = RecordBodyV1.User u \<and> user_id u = k
             \<and> \<not> bt_contains_key rb (vr_key r)
             \<and> auth_administer (signer_auth (es_authorities st) (vr_signer r))))
    \<and> bt_get (es_users st) (user_id ru) = Some ru"
proof -
  obtain sel where sel: "sel = select_authorized_records records ru
        (set (entry_point_user_ids records rb)) adm rb (es_authorities st)"
      "es_users st = sar_users sel" "es_groups st = sar_groups sel"
      "es_memberships st = sar_memberships sel" "es_grants st = sar_grants sel"
    and auths: "es_authorities st =
      compute_authorities_from_selected (user_id ru) (es_memberships st) (es_grants st)"
    using effective_fields [where crypto = crypto and ru = ru and rh = rh and records = records and adm = adm and rb = rb] assms(2) unfolding st_def by blast
  note auths' = auths [unfolded sel(2-5), unfolded sel(1)]
  show ?thesis
    unfolding sel(2-5) unfolding sel(1)
    by (intro conjI allI impI; (rule auths' | rule selected_root | (drule selected_grant, blast)
        | (drule selected_group, blast) | (drule selected_membership, blast)
        | (drule selected_user, assumption, blast)))
qed

text \<open>
  C27. A converged state is justified by its own authorities: when the bounded iteration
  converges, the authorities are those that follow from the effective memberships and grants,
  and every effective grant, group, membership and non-root user comes from a verified record,
  at a key that is not rollback-suspected, whose signer holds in that same state the authority
  to issue it; grants and memberships name existing principals, and a user has posted an entry
  point.
\<close>

theorem converged_state_is_authorized:
  fixes crypto ru rh records adm rb
  defines "st \<equiv> compute_effective_state crypto ru rh records adm rb"
  assumes "\<not> es_authority_unresolved st"
  shows "es_authorities st =
      compute_authorities_from_selected (user_id ru) (es_memberships st) (es_grants st)
    \<and> (\<forall>k g. bt_get (es_grants st) k = Some g \<longrightarrow>
        (\<exists>r \<in> set records. vr_body r = RecordBodyV1.Grant g \<and> grant_id g = k
           \<and> \<not> bt_contains_key rb (vr_key r)
           \<and> can_create_permission (signer_auth (es_authorities st) (vr_signer r)) (grant_permission g))
        \<and> principal_exists (grant_subject_id g) (es_users st) (es_groups st))
    \<and> (\<forall>k g. bt_get (es_groups st) k = Some g \<longrightarrow>
        (\<exists>r \<in> set records. vr_body r = RecordBodyV1.Group g \<and> group_id g = k
           \<and> \<not> bt_contains_key rb (vr_key r)
           \<and> auth_administer (signer_auth (es_authorities st) (vr_signer r))))
    \<and> (\<forall>k m. bt_get (es_memberships st) k = Some m \<longrightarrow>
        (\<exists>r \<in> set records. vr_body r = RecordBodyV1.GroupMember m \<and> gm_id m = k
           \<and> \<not> bt_contains_key rb (vr_key r)
           \<and> auth_administer (signer_auth (es_authorities st) (vr_signer r)))
        \<and> bt_contains_key (es_groups st) (gm_group_id m)
        \<and> principal_exists (gm_member_id m) (es_users st) (es_groups st))
    \<and> (\<forall>k u. bt_get (es_users st) k = Some u \<longrightarrow> k \<noteq> user_id ru \<longrightarrow>
        k \<in> set (entry_point_user_ids records rb)
        \<and> (\<exists>r \<in> set records. vr_body r = RecordBodyV1.User u \<and> user_id u = k
             \<and> \<not> bt_contains_key rb (vr_key r)
             \<and> auth_administer (signer_auth (es_authorities st) (vr_signer r))))
    \<and> bt_get (es_users st) (user_id ru) = Some ru"
  using converged_authorized [OF assms(2) [unfolded st_def]] unfolding st_def .

lemma disputed_inert:
  fixes crypto ru rh records adm rb
  defines "st \<equiv> compute_effective_state crypto ru rh records adm rb"
  assumes keyed: "list_all keyed records"
    and d: "bt_get (es_conflicted st) rk \<noteq> None \<or> bt_contains_key rb rk"
  shows "(\<forall>k. rk = RecordKey.Grant k \<longrightarrow> bt_get (es_grants st) k = None)
    \<and> (\<forall>k. rk = RecordKey.Group k \<longrightarrow> bt_get (es_groups st) k = None)
    \<and> (\<forall>k. rk = RecordKey.GroupMember k \<longrightarrow> bt_get (es_memberships st) k = None)
    \<and> (\<forall>k. rk = RecordKey.User k \<longrightarrow> k \<noteq> user_id ru \<longrightarrow> bt_get (es_users st) k = None)
    \<and> (\<forall>k. rk = RecordKey.UserHandle k \<longrightarrow> bt_get (es_handles st) k = None)
    \<and> (\<forall>k. rk = RecordKey.VaultHandle k \<longrightarrow> bt_get (es_vault_handles st) k = None)
    \<and> (\<forall>k. rk = RecordKey.EntryPoint k \<longrightarrow> bt_get (es_entry_points st) k = None)"
proof -
  obtain sel a0 where sel: "sel = select_authorized_records records ru
        (set (entry_point_user_ids records rb)) adm rb a0"
      "es_users st = sar_users sel" "es_groups st = sar_groups sel"
      "es_memberships st = sar_memberships sel" "es_grants st = sar_grants sel"
    and handles: "es_handles st = fst (partition_lww (winners (lww_resolution records rb
            (classify_handle (es_authorities st) (es_users st)))) as_user_handle)"
      "es_vault_handles st = fst (partition_lww (winners (lww_resolution records rb
            (classify_vault_handle (es_authorities st)))) as_vault_handle)"
      "es_entry_points st = fst (partition_lww (winners (lww_resolution records rb
            (classify_entry_point (es_users st)))) as_entry_point)"
    and conf: "es_conflicted st = materialize_conflicts crypto records
          (bt_extend (bt_extend (bt_extend (sar_conflicted sel)
            (lww_conflicted (lww_resolution records rb (classify_handle (es_authorities st) (es_users st)))))
            (lww_conflicted (lww_resolution records rb (classify_vault_handle (es_authorities st)))))
            (lww_conflicted (lww_resolution records rb (classify_entry_point (es_users st)))))"
    using effective_fields [where crypto = crypto and ru = ru and rh = rh and records = records and adm = adm and rb = rb] unfolding st_def by blast
  have d': "bt_get (sar_conflicted sel) rk \<noteq> None
      \<or> bt_get (lww_conflicted (lww_resolution records rb (classify_handle (es_authorities st) (es_users st)))) rk \<noteq> None
      \<or> bt_get (lww_conflicted (lww_resolution records rb (classify_vault_handle (es_authorities st)))) rk \<noteq> None
      \<or> bt_get (lww_conflicted (lww_resolution records rb (classify_entry_point (es_users st)))) rk \<noteq> None
      \<or> bt_contains_key rb rk"
    using d unfolding conf materialize_get extend_conflicted_get by blast
  note kinds = site_conflict_kind [OF sites(1) keyed] site_conflict_kind [OF sites(2) keyed]
    site_conflict_kind [OF sites(3) keyed] site_conflict_kind [OF sites(4) keyed]
    site_conflict_kind [OF sites(5) keyed] site_conflict_kind [OF sites(6) keyed]
    site_conflict_kind [OF sites(7) keyed]
  have selected: "bt_get (sar_conflicted sel) rk \<noteq> None \<or> bt_contains_key rb rk"
    if "\<And>k. rk \<noteq> RecordKey.UserHandle k" "\<And>k. rk \<noteq> RecordKey.VaultHandle k" "\<And>k. rk \<noteq> RecordKey.EntryPoint k"
    using d' that kinds(5) [of rk] kinds(6) [of rk] kinds(7) [of rk] by metis
  have outer: "bt_get (sar_conflicted sel) rk = None"
    if "\<And>k. rk \<noteq> RecordKey.User k" "\<And>k. rk \<noteq> RecordKey.Group k" "\<And>k. rk \<noteq> RecordKey.GroupMember k"
      "\<And>k. rk \<noteq> RecordKey.Grant k"
    using that selected_conflicts [of records ru "set (entry_point_user_ids records rb)" adm rb a0 rk]
      kinds(1) [of rk] kinds(2) [of rk] kinds(3) [of rk] kinds(4) [of rk]
    unfolding sel(1) by metis
  show ?thesis
    unfolding sel(2-5) handles
    using d' [unfolded sel(2)] outer selected
      inert_selected [OF keyed, of ru "set (entry_point_user_ids records rb)" adm rb a0 rk, folded sel(1)]
    by (intro conjI allI impI partition_none disputed_no_winner [OF sites(5) keyed]
        disputed_no_winner [OF sites(6) keyed] disputed_no_winner [OF sites(7) keyed];
        simp add: kinds)
qed

text \<open>
  Disputed keys fail closed: a key that is reported as conflicted, or whose counter fell
  below what this machine remembers, contributes nothing. No grant, group, membership, user,
  handle, vault handle or entry point is effective at it (the root user, anchored by the trusted
  root record, is the exception), whether or not the iteration converged.
\<close>

lemma disputed_keys_are_inert:
  fixes crypto ru rh records adm rb
  defines "st \<equiv> compute_effective_state crypto ru rh records adm rb"
  assumes keyed: "list_all keyed records"
    and d: "bt_get (es_conflicted st) rk \<noteq> None \<or> bt_contains_key rb rk"
  shows "(\<forall>k. rk = RecordKey.Grant k \<longrightarrow> bt_get (es_grants st) k = None)
    \<and> (\<forall>k. rk = RecordKey.Group k \<longrightarrow> bt_get (es_groups st) k = None)
    \<and> (\<forall>k. rk = RecordKey.GroupMember k \<longrightarrow> bt_get (es_memberships st) k = None)
    \<and> (\<forall>k. rk = RecordKey.User k \<longrightarrow> k \<noteq> user_id ru \<longrightarrow> bt_get (es_users st) k = None)
    \<and> (\<forall>k. rk = RecordKey.UserHandle k \<longrightarrow> bt_get (es_handles st) k = None)
    \<and> (\<forall>k. rk = RecordKey.VaultHandle k \<longrightarrow> bt_get (es_vault_handles st) k = None)
    \<and> (\<forall>k. rk = RecordKey.EntryPoint k \<longrightarrow> bt_get (es_entry_points st) k = None)"
  using disputed_inert [OF keyed d [unfolded st_def]] unfolding st_def .

text \<open>Witnesses: a root user with one group record, and the same record at a rolled-back key.\<close>

definition sample_root :: UserRecordV1 where
  "sample_root = \<lparr>user_id = UserId (HashValue [1]), user_signing_public_key = [1],
     user_hpke_public_key = [2], user_counter = 0\<rparr>"

definition sample_group :: GroupRecordV1 where
  "sample_group = \<lparr>group_id = GroupId (HashValue [7]), group_seed = IdSeed [], group_handle = ''ops'',
     group_counter = 3\<rparr>"

definition sample_group_record :: VerifiedRecord where
  "sample_group_record =
     \<lparr>vr_signed = \<lparr>rec_body = Known (RecordBodyV1.Group sample_group), rec_signing_public_key = [1],
                   rec_signature = []\<rparr>,
      vr_body = RecordBodyV1.Group sample_group, vr_key = RecordKey.Group (GroupId (HashValue [7])),
      vr_record_hash = HashValue [3], vr_signer = UserId (HashValue [1])\<rparr>"

lemma authority_loop_numeral:
  "authority_loop (numeral n) select root_user selected authorities =
     (let nxt = select authorities;
          new_authorities =
            compute_authorities_from_selected root_user (sar_memberships nxt) (sar_grants nxt)
      in if nxt = selected \<and> new_authorities = authorities then (selected, authorities, True)
         else authority_loop (pred_numeral n) select root_user nxt new_authorities)"
  by (simp add: numeral_eq_Suc)

lemmas effective_evals = compute_effective_state_def authority_loop_numeral select_authorized_records_def
  compute_authorities_from_selected_def close_memberships.simps root_authorities_def
  lww_resolution_def lww_slots_def lww_step_def bt_entry_def bt_get_def bt_contains_key_def bt_extend_def
  counter_of_def diverging_def classify_user_def classify_group_def classify_membership_def
  classify_grant_def classify_handle_def classify_vault_handle_def classify_entry_point_def
  entry_point_user_ids_def signer_auth_def auth_of_def partition_lww_def default_selected_def
  materialize_conflicts_def List.map_filter_def

lemma sample_state_converges:
  "\<not> es_authority_unresolved (compute_effective_state crypto sample_root h [sample_group_record] {} [])"
  "bt_get (es_groups (compute_effective_state crypto sample_root h [sample_group_record] {} []))
     (GroupId (HashValue [7])) = Some sample_group"
  by (simp_all add: effective_evals sample_root_def sample_group_record_def sample_group_def root_authority_def Let_def)

theorem converged_state_is_authorized_witness:
  "\<exists>r \<in> set [sample_group_record]. vr_body r = RecordBodyV1.Group sample_group
    \<and> auth_administer (signer_auth (es_authorities (compute_effective_state
          (DeterministicCrypto (\<lambda>_. Inr [])) sample_root (HashValue []) [sample_group_record] {} []))
        (vr_signer r))"
  using converged_state_is_authorized [OF sample_state_converges(1)] sample_state_converges(2) by blast

end
