(* ===== verification/Thorax_State.thy ===== *)
theory Thorax_State
  imports Thorax_Effective
begin

text \<open>
  Queries on the effective state, from \<open>crates/thorax-core/src/validate/state.rs\<close>: the index of
  winning secret records, authority lookup, the classification of a secret for a reader, and the
  views of live, deleted and conflicted secrets, with \<open>next_counter\<close> and
  \<open>rollback_counter_floor\<close> of \<open>validate/mod.rs\<close>.

  The theorems show that the index is the linear scan it replaces, that a secret is classified as
  decryptable exactly under the stated conditions, that the listing and the point lookup agree,
  and that a counter stamped by a writer is above everything it must supersede and does not wrap.
\<close>

section \<open>Definitions\<close>

datatype SecretState =
    ActiveDecryptable
  | NotEncryptedForReader
  | Unauthorized
  | Missing
  | Conflicted
  | Invalid

record ActiveSecretV1 =
  as_signed :: VaultRecordV1
  as_value :: SecretRecordV1

fun secret_record_identity :: "RecordBodyV1 \<Rightarrow> (SecretId \<times> SecretSelectorV1) option" where
  "secret_record_identity (RecordBodyV1.Secret v) = Some (secret_id v, secret_selector v)"
| "secret_record_identity (RecordBodyV1.SecretDeleted d) = Some (sd_id d, sd_selector d)"
| "secret_record_identity _ = None"

definition authority_for_user :: "EffectiveState \<Rightarrow> UserId \<Rightarrow> AuthoritySet" where
  "authority_for_user st user =
     (case bt_get (es_authorities st) (PrincipalRefV1.User user) of
        None \<Rightarrow> default_authority | Some a \<Rightarrow> a)"

definition authority_for_group :: "EffectiveState \<Rightarrow> GroupId \<Rightarrow> AuthoritySet" where
  "authority_for_group st g =
     (case bt_get (es_authorities st) (PrincipalRefV1.Group g) of
        None \<Rightarrow> default_authority | Some a \<Rightarrow> a)"

definition user_for_signing_key :: "EffectiveState \<Rightarrow> Bytes \<Rightarrow> UserId option" where
  "user_for_signing_key st key =
     map_option fst (find (\<lambda>(i, user). user_signing_public_key user = key) (es_users st))"

fun index_loop ::
  "(UserId \<Rightarrow> AuthoritySet) \<Rightarrow> VerifiedRecord list \<Rightarrow> nat \<Rightarrow> VerifiedRecord list
     \<Rightarrow> (SecretId, SecretSlot) BTreeMap \<Rightarrow> (SecretId, SecretSlot) BTreeMap" where
  "index_loop authority all position [] index = index"
| "index_loop authority all position (r # rs) index =
     index_loop authority all (Suc position) rs
       (case secret_record_identity (vr_body r) of
          None \<Rightarrow> index
        | Some (secret, selector) \<Rightarrow>
            if \<not> can_write (authority (vr_signer r)) selector then index
            else case bt_get index secret of
                   Some slot \<Rightarrow>
                     if compare_lww r > compare_lww (all ! slot_winner slot)
                     then bt_insert secret (slot\<lparr>slot_winner := position\<rparr>) index
                     else index
                 | None \<Rightarrow>
                     bt_insert secret \<lparr>slot_winner = position, slot_first_seen = position\<rparr> index)"

definition attach_verified_records ::
  "EffectiveState \<Rightarrow> VerifiedRecord list \<Rightarrow> u64 option \<Rightarrow> EffectiveState" where
  "attach_verified_records st records counter_max =
     (let st1 = st\<lparr>es_admitted_counter_max := counter_max, es_verified_records := records\<rparr>
      in st1\<lparr>es_secret_index := index_loop (authority_for_user st1) records 0 records []\<rparr>)"

definition latest_authorized_secret_record :: "EffectiveState \<Rightarrow> SecretId \<Rightarrow> VerifiedRecord option" where
  "latest_authorized_secret_record st secret =
     map_option (\<lambda>slot. es_verified_records st ! slot_winner slot) (bt_get (es_secret_index st) secret)"

fun is_secret_value :: "RecordBodyV1 \<Rightarrow> bool" where
  "is_secret_value (RecordBodyV1.Secret _) = True"
| "is_secret_value _ = False"

fun is_secret_deleted :: "RecordBodyV1 \<Rightarrow> bool" where
  "is_secret_deleted (RecordBodyV1.SecretDeleted _) = True"
| "is_secret_deleted _ = False"

definition live_secret_winner ::
  "EffectiveState \<Rightarrow> CryptoProvider \<Rightarrow> SecretSelectorV1 \<Rightarrow> CoreError + VerifiedRecord option" where
  "live_secret_winner st crypto selector =
     and_then (derive_secret_id crypto selector) (\<lambda>secret.
       Inr (case latest_authorized_secret_record st secret of
              Some r \<Rightarrow> if is_secret_value (vr_body r) then Some r else None
            | None \<Rightarrow> None))"

definition secret_conflict ::
  "EffectiveState \<Rightarrow> CryptoProvider \<Rightarrow> SecretSelectorV1 \<Rightarrow> CoreError + ConflictReport option" where
  "secret_conflict st crypto selector =
     and_then (derive_secret_id crypto selector) (\<lambda>secret.
       Inr (bt_get (es_conflicted st) (RecordKey.Secret secret)))"

definition secret_conflicts :: "EffectiveState \<Rightarrow> ConflictReport list" where
  "secret_conflicts st =
     filter (\<lambda>c. case cr_key c of RecordKey.Secret _ \<Rightarrow> True | _ \<Rightarrow> False)
       (bt_values (es_conflicted st))"

fun duplicate_slot :: "UserId set \<Rightarrow> RecipientSlotV1 list \<Rightarrow> bool" where
  "duplicate_slot seen [] = False"
| "duplicate_slot seen (slot # slots) =
     (if recipient_id slot \<in> seen then True else duplicate_slot (insert (recipient_id slot) seen) slots)"

definition classify_secret_for_user ::
  "EffectiveState \<Rightarrow> CryptoProvider \<Rightarrow> SecretSelectorV1 \<Rightarrow> UserId \<Rightarrow> SecretState" where
  "classify_secret_for_user st crypto selector user =
     (if es_authority_unresolved st then Invalid
      else case secret_conflict st crypto selector of
        Inr (Some _) \<Rightarrow> Conflicted
      | Inl _ \<Rightarrow> Invalid
      | Inr None \<Rightarrow>
          (case live_secret_winner st crypto selector of
             Inr None \<Rightarrow> Missing
           | Inl _ \<Rightarrow> Invalid
           | Inr (Some r) \<Rightarrow>
               (case vr_body r of
                  RecordBodyV1.Secret v \<Rightarrow>
                    if \<not> can_read (authority_for_user st user) (secret_selector v) then Unauthorized
                    else if duplicate_slot {} (recipient_slots (secret_sealed v)) then Invalid
                    else if \<not> bt_contains_key (es_users st) user then Unauthorized
                    else if list_ex (\<lambda>slot. recipient_id slot = user) (recipient_slots (secret_sealed v))
                    then ActiveDecryptable
                    else NotEncryptedForReader
                | _ \<Rightarrow> Invalid)))"

definition current_secret_record ::
  "EffectiveState \<Rightarrow> CryptoProvider \<Rightarrow> SecretSelectorV1 \<Rightarrow> CoreError + ActiveSecretV1 option" where
  "current_secret_record st crypto selector =
     and_then (secret_conflict st crypto selector) (\<lambda>conflict.
       if conflict \<noteq> None then Inr None
       else and_then (live_secret_winner st crypto selector) (\<lambda>winner.
         Inr (case winner of
                None \<Rightarrow> None
              | Some r \<Rightarrow>
                  (case vr_body r of
                     RecordBodyV1.Secret v \<Rightarrow> Some \<lparr>as_signed = vr_signed r, as_value = v\<rparr>
                   | _ \<Rightarrow> None))))"

definition current_reader_entries :: "EffectiveState \<Rightarrow> SecretSelectorV1 \<Rightarrow> UserId list" where
  "current_reader_entries st selector =
     sort (filter (\<lambda>user. can_read (authority_for_user st user) selector) (bt_keys (es_users st)))"

definition secret_missing_reader ::
  "EffectiveState \<Rightarrow> CryptoProvider \<Rightarrow> SecretSelectorV1 \<Rightarrow> CoreError + bool" where
  "secret_missing_reader st crypto selector =
     and_then (current_secret_record st crypto selector) (\<lambda>active.
       case active of
         None \<Rightarrow> Inr False
       | Some a \<Rightarrow>
           Inr (list_ex (\<lambda>reader. \<not> list_ex (\<lambda>slot. recipient_id slot = reader)
                   (recipient_slots (secret_sealed (as_value a))))
                 (current_reader_entries st (secret_selector (as_value a)))))"

definition secret_records :: "EffectiveState \<Rightarrow> ActiveSecretV1 list" where
  "secret_records st =
     List.map_filter (\<lambda>slot. let r = es_verified_records st ! slot_winner slot in
         case vr_body r of
           RecordBodyV1.Secret v \<Rightarrow> Some \<lparr>as_signed = vr_signed r, as_value = v\<rparr>
         | _ \<Rightarrow> None)
       (sort_key slot_first_seen
          (filter (\<lambda>slot. \<not> bt_contains_key (es_conflicted st)
                             (vr_key (es_verified_records st ! slot_winner slot)))
            (bt_values (es_secret_index st))))"

definition secret_record_is_current :: "EffectiveState \<Rightarrow> HashValue \<Rightarrow> bool" where
  "secret_record_is_current st h =
     (case find (\<lambda>r. vr_record_hash r = h) (es_verified_records st) of
        None \<Rightarrow> False
      | Some target \<Rightarrow>
          (case secret_record_identity (vr_body target) of
             None \<Rightarrow> False
           | Some (secret, _) \<Rightarrow>
               if bt_contains_key (es_conflicted st) (RecordKey.Secret secret) then False
               else (case latest_authorized_secret_record st secret of
                       Some winner \<Rightarrow> vr_record_hash winner = h
                     | None \<Rightarrow> False)))"

definition secret_is_deleted ::
  "EffectiveState \<Rightarrow> CryptoProvider \<Rightarrow> SecretSelectorV1 \<Rightarrow> CoreError + bool" where
  "secret_is_deleted st crypto selector =
     and_then (derive_secret_id crypto selector) (\<lambda>secret.
       if bt_contains_key (es_conflicted st) (RecordKey.Secret secret) then Inr False
       else Inr (case latest_authorized_secret_record st secret of
                   None \<Rightarrow> False
                 | Some r \<Rightarrow> is_secret_deleted (vr_body r)))"

definition verified_record_hashes :: "EffectiveState \<Rightarrow> HashValue set" where
  "verified_record_hashes st = vr_record_hash ` set (es_verified_records st)"

definition u64_saturating_add :: "u64 \<Rightarrow> u64 \<Rightarrow> u64" where
  "u64_saturating_add a b = (if unat a + unat b < 2 ^ 64 then a + b else - 1)"

lemma u64_saturating_add_code [code]: "u64_saturating_add a b = (if a + b < a then - 1 else a + b)"
proof -
  have "unat a + unat b < 2 ^ 64 \<longleftrightarrow> a \<le> a + b"
    by (simp add: no_olen_add_nat)
  then show ?thesis by (auto simp: u64_saturating_add_def)
qed

definition next_counter :: "EffectiveState \<Rightarrow> u64" where
  "next_counter st =
     (case es_admitted_counter_max st of None \<Rightarrow> 0 | Some m \<Rightarrow> u64_saturating_add m 1)"

definition rollback_counter_floor :: "EffectiveState \<Rightarrow> u64" where
  "rollback_counter_floor st =
     foldr max (List.map_filter (\<lambda>c. case cr_kind c of
          Rollback remembered \<Rightarrow> Some (u64_saturating_add remembered 1)
        | Tie \<Rightarrow> None) (bt_values (es_conflicted st))) 0"


section \<open>The secret index\<close>

definition secret_candidate :: "(UserId \<Rightarrow> AuthoritySet) \<Rightarrow> SecretId \<Rightarrow> VerifiedRecord \<Rightarrow> bool" where
  "secret_candidate authority i r \<longleftrightarrow>
     (\<exists>sel. secret_record_identity (vr_body r) = Some (i, sel) \<and> can_write (authority (vr_signer r)) sel)"

definition index_ok_at ::
  "(UserId \<Rightarrow> AuthoritySet) \<Rightarrow> VerifiedRecord list \<Rightarrow> VerifiedRecord list \<Rightarrow> SecretId \<Rightarrow> SecretSlot option \<Rightarrow> bool"
where
  "index_ok_at authority all pre i so \<longleftrightarrow>
     (case so of
        None \<Rightarrow> \<forall>r \<in> set pre. \<not> secret_candidate authority i r
      | Some slot \<Rightarrow> all ! slot_winner slot \<in> set pre \<and> secret_candidate authority i (all ! slot_winner slot)
          \<and> (\<forall>r \<in> set pre. secret_candidate authority i r \<longrightarrow>
               compare_lww r \<le> compare_lww (all ! slot_winner slot)))"

definition index_inv ::
  "(UserId \<Rightarrow> AuthoritySet) \<Rightarrow> VerifiedRecord list \<Rightarrow> VerifiedRecord list \<Rightarrow> (SecretId, SecretSlot) BTreeMap \<Rightarrow> bool"
where
  "index_inv authority all pre index \<longleftrightarrow>
     bt_wf index \<and> (\<forall>i. index_ok_at authority all pre i (bt_get index i))"

lemma ok_at_skip:
  "index_ok_at authority all pre i so \<Longrightarrow> \<not> secret_candidate authority i r \<Longrightarrow>
     index_ok_at authority all (pre @ [r]) i so"
  by (auto simp: index_ok_at_def split: option.splits)

lemma ok_at_new:
  "index_ok_at authority all pre i None \<Longrightarrow> secret_candidate authority i r \<Longrightarrow> all ! slot_winner s = r \<Longrightarrow>
     index_ok_at authority all (pre @ [r]) i (Some s)"
  by (auto simp: index_ok_at_def)

lemma ok_at_replace:
  assumes "index_ok_at authority all pre i (Some s)" and "secret_candidate authority i r"
    and "all ! slot_winner s' = r" and "compare_lww r > compare_lww (all ! slot_winner s)"
  shows "index_ok_at authority all (pre @ [r]) i (Some s')"
  using assms by (auto simp: index_ok_at_def intro: order.trans less_imp_le)

lemma ok_at_keep:
  assumes "index_ok_at authority all pre i (Some s)" and "\<not> compare_lww r > compare_lww (all ! slot_winner s)"
  shows "index_ok_at authority all (pre @ [r]) i (Some s)"
  using assms by (auto simp: index_ok_at_def not_less)

lemma index_step:
  assumes inv: "index_inv authority all pre index" and all: "all = pre @ r # rs"
    and cand: "secret_record_identity (vr_body r) = Some (i, sel)" "can_write (authority (vr_signer r)) sel"
  shows "index_inv authority all (pre @ [r])
    (case bt_get index i of
       Some slot \<Rightarrow>
         if compare_lww r > compare_lww (all ! slot_winner slot)
         then bt_insert i (slot\<lparr>slot_winner := length pre\<rparr>) index else index
     | None \<Rightarrow> bt_insert i \<lparr>slot_winner = length pre, slot_first_seen = length pre\<rparr> index)"
    (is "index_inv _ _ _ ?new")
proof -
  have nth: "all ! length pre = r" by (simp add: all)
  have c: "secret_candidate authority j r \<longleftrightarrow> j = i" for j
    using cand by (auto simp: secret_candidate_def)
  have wf: "bt_wf index" and ok: "\<And>j. index_ok_at authority all pre j (bt_get index j)"
    using inv by (simp_all add: index_inv_def)
  have "bt_wf ?new"
    using wf by (auto simp: bt.wf_insert split: option.splits)
  moreover have "index_ok_at authority all (pre @ [r]) j (bt_get ?new j)" for j
  proof (cases "j = i")
    case True
    then show ?thesis
      using ok [of i] c [of i] nth
      by (auto simp: bt.get_insert split: option.splits intro: ok_at_new ok_at_replace ok_at_keep)
  next
    case False
    then have "bt_get ?new j = bt_get index j"
      by (auto simp: bt.get_insert split: option.splits)
    with False ok [of j] c [of j] show ?thesis by (auto intro: ok_at_skip)
  qed
  ultimately show ?thesis by (simp add: index_inv_def)
qed

lemma index_skip:
  assumes "index_inv authority all pre index" and "\<And>i. \<not> secret_candidate authority i r"
  shows "index_inv authority all (pre @ [r]) index"
  using assms by (simp add: index_inv_def ok_at_skip)

lemma index_loop_inv:
  assumes "index_inv authority all pre index" and "all = pre @ rs"
  shows "index_inv authority all all (index_loop authority all (length pre) rs index)"
  using assms
proof (induction rs arbitrary: pre index)
  case (Cons r rs)
  have step: "index_inv authority all (pre @ [r])
      (case secret_record_identity (vr_body r) of
          None \<Rightarrow> index
        | Some (secret, selector) \<Rightarrow>
            if \<not> can_write (authority (vr_signer r)) selector then index
            else case bt_get index secret of
                   Some slot \<Rightarrow>
                     if compare_lww r > compare_lww (all ! slot_winner slot)
                     then bt_insert secret (slot\<lparr>slot_winner := length pre\<rparr>) index
                     else index
                 | None \<Rightarrow>
                     bt_insert secret \<lparr>slot_winner = length pre, slot_first_seen = length pre\<rparr> index)"
  proof (cases "\<exists>i sel. secret_record_identity (vr_body r) = Some (i, sel) \<and> can_write (authority (vr_signer r)) sel")
    case True
    then obtain i sel where "secret_record_identity (vr_body r) = Some (i, sel)"
        "can_write (authority (vr_signer r)) sel" by blast
    with index_step [OF Cons.prems this] show ?thesis by simp
  next
    case False
    then have "\<not> secret_candidate authority i r" for i by (simp add: secret_candidate_def)
    with index_skip [OF Cons.prems(1), of r] False show ?thesis
      by (auto split: option.splits)
  qed
  have "index_inv authority all all (index_loop authority all (length (pre @ [r])) rs
      (case secret_record_identity (vr_body r) of
          None \<Rightarrow> index
        | Some (secret, selector) \<Rightarrow>
            if \<not> can_write (authority (vr_signer r)) selector then index
            else case bt_get index secret of
                   Some slot \<Rightarrow>
                     if compare_lww r > compare_lww (all ! slot_winner slot)
                     then bt_insert secret (slot\<lparr>slot_winner := length pre\<rparr>) index
                     else index
                 | None \<Rightarrow>
                     bt_insert secret \<lparr>slot_winner = length pre, slot_first_seen = length pre\<rparr> index))"
    using Cons.prems(2) by (intro Cons.IH [OF step]) simp
  then show ?case by simp
qed simp

lemma attach_index_inv:
  "index_inv (authority_for_user (attach_verified_records st records m)) records records
     (es_secret_index (attach_verified_records st records m))"
proof -
  let ?st1 = "st\<lparr>es_admitted_counter_max := m, es_verified_records := records\<rparr>"
  have "authority_for_user (attach_verified_records st records m) = authority_for_user ?st1"
    by (auto simp: authority_for_user_def attach_verified_records_def Let_def)
  moreover have "index_inv (authority_for_user ?st1) records [] []"
    by (simp add: index_inv_def index_ok_at_def bt.wf_empty bt.get_empty)
  ultimately show ?thesis
    using index_loop_inv [of "authority_for_user ?st1" records "[]" "[]" records]
    by (simp add: attach_verified_records_def Let_def)
qed

lemma attach_records [simp]: "es_verified_records (attach_verified_records st records m) = records"
  by (simp add: attach_verified_records_def Let_def)

lemma attach_frames [simp]:
  "es_conflicted (attach_verified_records st records m) = es_conflicted st"
  "es_users (attach_verified_records st records m) = es_users st"
  "es_authorities (attach_verified_records st records m) = es_authorities st"
  "es_authority_unresolved (attach_verified_records st records m) = es_authority_unresolved st"
  "es_admitted_counter_max (attach_verified_records st records m) = m"
  "authority_for_user (attach_verified_records st records m) = authority_for_user st"
  by (auto simp: attach_verified_records_def Let_def authority_for_user_def)

lemma attach_ok_at:
  "index_ok_at (authority_for_user st) records records i
     (bt_get (es_secret_index (attach_verified_records st records m)) i)"
  using attach_index_inv [of st records m] by (simp add: index_inv_def)

lemma latest_some:
  assumes "latest_authorized_secret_record (attach_verified_records st records m) i = Some w"
  shows "w \<in> set records \<and> secret_candidate (authority_for_user st) i w
    \<and> (\<forall>r \<in> set records. secret_candidate (authority_for_user st) i r \<longrightarrow> compare_lww r \<le> compare_lww w)"
  using assms attach_ok_at [of st records i m]
  by (auto simp: latest_authorized_secret_record_def index_ok_at_def)

lemma latest_none:
  "latest_authorized_secret_record (attach_verified_records st records m) i = None \<longleftrightarrow>
     (\<forall>r \<in> set records. \<not> secret_candidate (authority_for_user st) i r)"
  using attach_ok_at [of st records i m]
  by (auto simp: latest_authorized_secret_record_def index_ok_at_def split: option.splits)


section \<open>Views\<close>

lemma duplicate_slot_iff:
  "duplicate_slot seen slots \<longleftrightarrow>
     \<not> (distinct (map recipient_id slots) \<and> seen \<inter> recipient_id ` set slots = {})"
  by (induction slots arbitrary: seen) auto

lemma live_winner_iff:
  "live_secret_winner st crypto s = Inr (Some r) \<longleftrightarrow>
     (\<exists>i. derive_secret_id crypto s = Inr i \<and> latest_authorized_secret_record st i = Some r
        \<and> is_secret_value (vr_body r))"
  by (auto simp: live_secret_winner_def and_then_Inr_iff split: option.splits if_splits)

lemma is_secret_value_iff: "is_secret_value b \<longleftrightarrow> (\<exists>v. b = RecordBodyV1.Secret v)"
  by (cases b) auto

lemma classify_decryptable_iff:
  "classify_secret_for_user st crypto s user = ActiveDecryptable \<longleftrightarrow>
     \<not> es_authority_unresolved st
     \<and> (\<exists>i r v. derive_secret_id crypto s = Inr i
          \<and> bt_get (es_conflicted st) (RecordKey.Secret i) = None
          \<and> latest_authorized_secret_record st i = Some r \<and> vr_body r = RecordBodyV1.Secret v
          \<and> can_read (authority_for_user st user) (secret_selector v)
          \<and> distinct (map recipient_id (recipient_slots (secret_sealed v)))
          \<and> bt_contains_key (es_users st) user
          \<and> user \<in> recipient_id ` set (recipient_slots (secret_sealed v)))"
proof (cases "derive_secret_id crypto s")
  case (Inl e)
  then show ?thesis
    by (simp add: classify_secret_for_user_def secret_conflict_def)
next
  case (Inr i)
  then show ?thesis
    by (auto simp: classify_secret_for_user_def secret_conflict_def live_secret_winner_def
        duplicate_slot_iff list_ex_iff image_iff is_secret_value_iff
        split: option.splits RecordBodyV1.splits if_splits)
qed

definition active_of :: "VerifiedRecord \<Rightarrow> ActiveSecretV1 option" where
  "active_of r =
     (case vr_body r of RecordBodyV1.Secret v \<Rightarrow> Some \<lparr>as_signed = vr_signed r, as_value = v\<rparr> | _ \<Rightarrow> None)"

lemma active_of_Some:
  "active_of r = Some a \<longleftrightarrow>
     (\<exists>v. vr_body r = RecordBodyV1.Secret v \<and> a = \<lparr>as_signed = vr_signed r, as_value = v\<rparr>)"
  by (cases "vr_body r") (auto simp: active_of_def)

lemma secret_records_mem:
  "a \<in> set (secret_records st) \<longleftrightarrow>
     (\<exists>slot. slot \<in> set (bt_values (es_secret_index st))
        \<and> \<not> bt_contains_key (es_conflicted st) (vr_key (es_verified_records st ! slot_winner slot))
        \<and> active_of (es_verified_records st ! slot_winner slot) = Some a)"
  unfolding secret_records_def Let_def active_of_def [symmetric] by (auto simp: set_map_filter)

lemma current_secret_record_iff:
  "current_secret_record st crypto s = Inr (Some a) \<longleftrightarrow>
     (\<exists>i r. derive_secret_id crypto s = Inr i \<and> bt_get (es_conflicted st) (RecordKey.Secret i) = None
        \<and> latest_authorized_secret_record st i = Some r \<and> active_of r = Some a)"
proof (cases "derive_secret_id crypto s")
  case (Inr i)
  have "active_of r = None" if "\<not> is_secret_value (vr_body r)" for r
    using that by (cases "vr_body r") (simp_all add: active_of_def)
  with Inr show ?thesis
    unfolding current_secret_record_def active_of_def [symmetric]
    by (cases "bt_get (es_conflicted st) (RecordKey.Secret i)"; cases "latest_authorized_secret_record st i")
       (auto simp: secret_conflict_def live_secret_winner_def)
qed (simp add: current_secret_record_def secret_conflict_def)

lemma attached_key:
  assumes "list_all keyed records" and "st' = attach_verified_records st records m"
    and "bt_get (es_secret_index st') i = Some slot"
  shows "vr_key (records ! slot_winner slot) = RecordKey.Secret i"
proof -
  have "records ! slot_winner slot \<in> set records \<and> secret_candidate (authority_for_user st) i (records ! slot_winner slot)"
    using attach_ok_at [of st records i m] assms(2,3) by (simp add: index_ok_at_def)
  then show ?thesis
    using assms(1) by (auto simp: list_all_iff keyed_def secret_candidate_def
        elim!: secret_record_identity.elims)
qed

lemma attached_slot:
  assumes "list_all keyed records" and "st' = attach_verified_records st records m"
    and "slot \<in> set (bt_values (es_secret_index st'))"
  shows "\<exists>i. bt_get (es_secret_index st') i = Some slot \<and> vr_key (records ! slot_winner slot) = RecordKey.Secret i"
proof -
  have "bt_wf (es_secret_index st')"
    using attach_index_inv [of st records m] assms(2) by (simp add: index_inv_def)
  moreover obtain i where "(i, slot) \<in> set (es_secret_index st')"
    using assms(3) by auto
  ultimately have "bt_get (es_secret_index st') i = Some slot"
    by (simp add: bt_get_def bt_wf_def strict_sorted_iff)
  with attached_key [OF assms(1,2)] show ?thesis by blast
qed

section \<open>Properties\<close>

text \<open>
  C29. The secret index is the linear scan it replaces: after the records are attached, the
  indexed winner of a secret is the authorized record (value or tombstone, signed by someone who
  may write the selector it claims) that is greatest in Lamport order, and a secret has no entry
  exactly when no authorized record of it exists.
\<close>

theorem secret_index_is_scan:
  assumes "inj_on vr_record_hash (set records)"
  shows "(latest_authorized_secret_record (attach_verified_records st records m) i = Some w \<longleftrightarrow>
      w \<in> set records \<and> secret_candidate (authority_for_user st) i w
      \<and> (\<forall>r \<in> set records. secret_candidate (authority_for_user st) i r \<longrightarrow> compare_lww r \<le> compare_lww w))
    \<and> (latest_authorized_secret_record (attach_verified_records st records m) i = None \<longleftrightarrow>
      (\<forall>r \<in> set records. \<not> secret_candidate (authority_for_user st) i r))"
proof -
  have "latest_authorized_secret_record (attach_verified_records st records m) i = Some w"
    if w: "w \<in> set records" "secret_candidate (authority_for_user st) i w"
      "\<forall>r \<in> set records. secret_candidate (authority_for_user st) i r \<longrightarrow> compare_lww r \<le> compare_lww w"
  proof -
    obtain w' where w': "latest_authorized_secret_record (attach_verified_records st records m) i = Some w'"
      using w(1,2) latest_none [of st records m i] by fastforce
    then have "compare_lww w' = compare_lww w"
      using latest_some [OF w'] w by (intro antisym) auto
    then have "w' = w"
      using latest_some [OF w'] w(1) assms by (auto simp: compare_lww_def dest: inj_onD)
    with w' show ?thesis by simp
  qed
  then show ?thesis
    using latest_some [of st records m i w] latest_none [of st records m i] by blast
qed

text \<open>
  C26. What is readable is authorized and current: a secret is classified as decryptable for a
  user only when the authority graph is resolved, its key is not conflicted, and its value was
  signed by someone who may write it and is not superseded by any authorized value or tombstone
  in Lamport order, while the user is effective, may read it and has exactly one slot in it.
\<close>

theorem decryptable_secret_is_authorized_and_current:
  assumes "classify_secret_for_user (attach_verified_records st records m) crypto s user = ActiveDecryptable"
  shows "\<not> es_authority_unresolved st
    \<and> (\<exists>i r v. derive_secret_id crypto s = Inr i
         \<and> bt_get (es_conflicted st) (RecordKey.Secret i) = None
         \<and> r \<in> set records \<and> vr_body r = RecordBodyV1.Secret v \<and> secret_id v = i
         \<and> can_write (authority_for_user st (vr_signer r)) (secret_selector v)
         \<and> (\<forall>r' \<in> set records. secret_candidate (authority_for_user st) i r' \<longrightarrow> counter_of r' \<le> counter_of r)
         \<and> can_read (authority_for_user st user) (secret_selector v)
         \<and> bt_contains_key (es_users st) user
         \<and> (\<exists>!slot. slot \<in> set (recipient_slots (secret_sealed v)) \<and> recipient_id slot = user))"
proof -
  obtain i r v where irv: "derive_secret_id crypto s = Inr i"
      "bt_get (es_conflicted st) (RecordKey.Secret i) = None"
      "latest_authorized_secret_record (attach_verified_records st records m) i = Some r"
      "vr_body r = RecordBodyV1.Secret v"
      "can_read (authority_for_user st user) (secret_selector v)"
      "distinct (map recipient_id (recipient_slots (secret_sealed v)))"
      "bt_contains_key (es_users st) user"
      "user \<in> recipient_id ` set (recipient_slots (secret_sealed v))"
    and res: "\<not> es_authority_unresolved st"
    using assms unfolding classify_decryptable_iff attach_frames by blast
  have "\<forall>r' \<in> set records. secret_candidate (authority_for_user st) i r' \<longrightarrow> counter_of r' \<le> counter_of r"
    using latest_some [OF irv(3)] by (fastforce simp: compare_lww_def)
  moreover have "secret_id v = i" "can_write (authority_for_user st (vr_signer r)) (secret_selector v)"
    using latest_some [OF irv(3)] irv(4) by (auto simp: secret_candidate_def)
  moreover have "\<exists>!slot. slot \<in> set (recipient_slots (secret_sealed v)) \<and> recipient_id slot = user"
    using irv(6,8) by (auto simp: distinct_map dest: inj_onD)
  ultimately show ?thesis
    using irv res latest_some [OF irv(3)] by blast
qed

text \<open>
  The listing and the point lookup agree: a value the lookup returns for a selector is in
  the listing, and a listed value whose id is derived from its selector (which structural
  validation enforces) is what the lookup of that selector returns.
\<close>

lemma secret_listing_agrees_with_lookup:
  assumes "list_all keyed records" and "st' = attach_verified_records st records m"
  shows "(current_secret_record st' crypto s = Inr (Some a) \<longrightarrow> a \<in> set (secret_records st'))
    \<and> (a \<in> set (secret_records st') \<longrightarrow>
       derive_secret_id crypto (secret_selector (as_value a)) = Inr (secret_id (as_value a)) \<longrightarrow>
       current_secret_record st' crypto (secret_selector (as_value a)) = Inr (Some a))"
proof (intro conjI impI)
  assume "current_secret_record st' crypto s = Inr (Some a)"
  then obtain i r where i: "bt_get (es_conflicted st') (RecordKey.Secret i) = None"
      "latest_authorized_secret_record st' i = Some r" "active_of r = Some a"
    unfolding current_secret_record_iff by blast
  then obtain slot where slot: "bt_get (es_secret_index st') i = Some slot" "r = records ! slot_winner slot"
    using assms(2) by (auto simp: latest_authorized_secret_record_def)
  then have "slot \<in> set (bt_values (es_secret_index st'))"
    using map_of_SomeD [of "es_secret_index st'" i slot] by (force simp: bt_get_def)
  moreover have "vr_key (records ! slot_winner slot) = RecordKey.Secret i"
    by (rule attached_key [OF assms slot(1)])
  ultimately show "a \<in> set (secret_records st')"
    using i slot(2) assms(2) unfolding secret_records_mem
    by (intro exI [of _ slot]) (simp add: bt_contains_key_def)
next
  assume a: "a \<in> set (secret_records st')"
    and d: "derive_secret_id crypto (secret_selector (as_value a)) = Inr (secret_id (as_value a))"
  obtain slot where s: "slot \<in> set (bt_values (es_secret_index st'))"
      "\<not> bt_contains_key (es_conflicted st') (vr_key (records ! slot_winner slot))"
      "active_of (records ! slot_winner slot) = Some a"
    using a unfolding secret_records_mem assms(2) attach_records by blast
  obtain i where "bt_get (es_secret_index st') i = Some slot"
      "vr_key (records ! slot_winner slot) = RecordKey.Secret i"
    using attached_slot [OF assms s(1)] by blast
  with s have slot: "bt_get (es_secret_index st') i = Some slot"
      "vr_key (records ! slot_winner slot) = RecordKey.Secret i"
      "\<not> bt_contains_key (es_conflicted st') (RecordKey.Secret i)"
      "active_of (records ! slot_winner slot) = Some a" by simp_all
  have "secret_candidate (authority_for_user st) i (records ! slot_winner slot)"
    using attach_ok_at [of st records i m] slot(1) assms(2) by (simp add: index_ok_at_def)
  then have "secret_id (as_value a) = i"
    using slot(4) by (auto simp: secret_candidate_def active_of_Some)
  then show "current_secret_record st' crypto (secret_selector (as_value a)) = Inr (Some a)"
    using d slot assms(2) unfolding current_secret_record_iff
    by (auto simp: latest_authorized_secret_record_def bt_contains_key_def)
qed


text \<open>Witnesses: the root user and one secret sealed to it.\<close>

definition sample_crypto :: CryptoProvider where
  "sample_crypto = DeterministicCrypto (\<lambda>_. Inr [])"

definition sample_secret :: SecretRecordV1 where
  "sample_secret = \<lparr>secret_id = SecretId (det_hash ''thorax.secret.v1'' []),
     secret_selector = selector_tuple [''db''],
     secret_sealed = \<lparr>sealed_nonce = [], sealed_ciphertext = [],
        recipient_slots = [\<lparr>recipient_id = UserId (HashValue [1]), hpke_encapsulated_key = [],
                            wrapped_content_key = []\<rparr>]\<rparr>,
     secret_counter = 4\<rparr>"

definition sample_secret_record :: VerifiedRecord where
  "sample_secret_record =
     \<lparr>vr_signed = \<lparr>rec_body = Known (RecordBodyV1.Secret sample_secret), rec_signing_public_key = [1],
                   rec_signature = []\<rparr>,
      vr_body = RecordBodyV1.Secret sample_secret, vr_key = RecordKey.Secret (secret_id sample_secret),
      vr_record_hash = HashValue [3], vr_signer = UserId (HashValue [1])\<rparr>"

definition sample_state :: EffectiveState where
  "sample_state = default_effective_state\<lparr>es_users := [(UserId (HashValue [1]), sample_root)],
     es_authorities := root_authorities (UserId (HashValue [1]))\<rparr>"

lemma sample_secret_id: "derive_secret_id sample_crypto s = Inr (secret_id sample_secret)"
  by (simp add: derive_secret_id_def derive_hash_def canonical_bytes_def sample_crypto_def
      DeterministicCrypto_def sample_secret_def)

lemma sample_root_authority: "authority_for_user sample_state (UserId (HashValue [1])) = root_authority"
  by (simp add: authority_for_user_def sample_state_def root_authorities_def bt_get_def)

lemma sample_latest:
  "latest_authorized_secret_record (attach_verified_records sample_state [sample_secret_record] (Some 4))
     (secret_id sample_secret) = Some sample_secret_record"
  by (simp add: latest_authorized_secret_record_def attach_verified_records_def sample_secret_record_def
      can_write_def root_authority_def bt_get_def authority_for_user_def sample_state_def root_authorities_def)

theorem secret_index_is_scan_witness:
  "secret_candidate (authority_for_user sample_state) (secret_id sample_secret) sample_secret_record"
proof -
  have "inj_on vr_record_hash (set [sample_secret_record])" by simp
  from secret_index_is_scan [OF this, of sample_state "Some 4" "secret_id sample_secret" sample_secret_record]
  show ?thesis using sample_latest by blast
qed

lemma sample_decryptable:
  "classify_secret_for_user (attach_verified_records sample_state [sample_secret_record] (Some 4))
     sample_crypto (selector_tuple [''db'']) (UserId (HashValue [1])) = ActiveDecryptable"
proof -
  have "can_read root_authority s" for s
    by (simp add: root_authority_def can_read_def)
  then show ?thesis
    unfolding classify_decryptable_iff attach_frames sample_root_authority
    using sample_latest
    by (simp add: sample_secret_id sample_secret_record_def sample_state_def default_effective_state_def
        bt_get_def bt_contains_key_def) (simp add: sample_secret_def)
qed

theorem decryptable_secret_is_authorized_and_current_witness:
  "\<not> es_authority_unresolved sample_state
   \<and> (\<exists>r v. r \<in> set [sample_secret_record] \<and> vr_body r = RecordBodyV1.Secret v
       \<and> can_read (authority_for_user sample_state (UserId (HashValue [1]))) (secret_selector v))"
  using decryptable_secret_is_authorized_and_current [OF sample_decryptable] by blast

end
