(* ===== verification/Thorax_Pipeline.thy ===== *)
theory Thorax_Pipeline
  imports Thorax_State
begin

text \<open>
  The validation pipeline, from \<open>crates/thorax-core/src/validate/pipeline.rs\<close> and
  \<open>validate_vault_with_verified\<close> of \<open>validate/mod.rs\<close>: deduplication by record hash, selection of
  the trusted root, resolution of signing keys to identities, signature verification, the
  authority fixpoint with admission of deletions, watermarks and rollback detection, and the
  ratchet update.

  The lemmas describe what each stage leaves behind: deduplication keeps distinct hashes, a
  verified record passed every check, a watermark is the largest admitted counter at its key, a
  rollback key is one the vault stays below, and the loops end by a measure. The properties built
  on them are in \<open>Thorax_Validation\<close>.
\<close>

section \<open>Reports\<close>

datatype ValidationWarning = UnknownRecords nat | AmbiguousSigningKey HashValue

record ValidationReport =
  vrep_effective :: EffectiveState
  vrep_ratchet_update :: RatchetUpdate
  vrep_issues :: "ValidationIssue list"
  vrep_warnings :: "ValidationWarning list"

type_synonym HashedRecord = "VaultRecordV1 \<times> HashValue"

section \<open>Deduplication\<close>

fun dedup_loop :: "CryptoProvider \<Rightarrow> HashValue set \<Rightarrow> VaultRecordV1 list \<Rightarrow> CoreError + HashedRecord list" where
  "dedup_loop crypto seen [] = Inr []"
| "dedup_loop crypto seen (sr # srs) =
     and_then (record_hash crypto sr) (\<lambda>h.
       if h \<in> seen then dedup_loop crypto seen srs
       else and_then (dedup_loop crypto (insert h seen) srs) (\<lambda>rest. Inr ((sr, h) # rest)))"

section \<open>The trusted root\<close>

record SelectedRoot =
  selected_root :: VaultRootRecordV1
  selected_signing_public_key :: Bytes
  selected_root_hash :: HashValue

definition envelope_verifies :: "CryptoProvider \<Rightarrow> VaultRecordV1 \<Rightarrow> Bytes \<Rightarrow> bool" where
  "envelope_verifies crypto sr message \<longleftrightarrow>
     verify_signature crypto ''thorax.signed.v1'' (rec_signing_public_key sr) message (rec_signature sr)"

text \<open>The signature check of a record whose hash is not already attested, errors propagated.\<close>

definition check_envelope :: "CryptoProvider \<Rightarrow> HashValue set \<Rightarrow> HashedRecord \<Rightarrow> CoreError + bool" where
  "check_envelope crypto verified hr =
     (if snd hr \<in> verified then Inr True
      else and_then (signed_record_message crypto (fst hr)) (\<lambda>message.
             Inr (envelope_verifies crypto (fst hr) message)))"

text \<open>The same check where a message that cannot be built skips the record.\<close>

definition envelope_ok :: "CryptoProvider \<Rightarrow> HashValue set \<Rightarrow> HashedRecord \<Rightarrow> bool" where
  "envelope_ok crypto verified hr =
     (if snd hr \<in> verified then True
      else case signed_record_message crypto (fst hr) of
             Inl _ \<Rightarrow> False
           | Inr message \<Rightarrow> envelope_verifies crypto (fst hr) message)"

fun root_matches ::
  "CryptoProvider \<Rightarrow> HashValue \<Rightarrow> HashValue set \<Rightarrow> HashedRecord list \<Rightarrow> CoreError + SelectedRoot list" where
  "root_matches crypto trusted verified [] = Inr []"
| "root_matches crypto trusted verified (hr # hrs) =
     (let skip = root_matches crypto trusted verified hrs
      in case known (rec_body (fst hr)) of
           Some (RecordBodyV1.VaultRoot root) \<Rightarrow>
             and_then (derive_user_id crypto (rec_signing_public_key (fst hr)) (root_hpke_public_key root)) (\<lambda>i.
               if root_id root \<noteq> i then skip
               else and_then (check_envelope crypto verified hr) (\<lambda>ok.
                 if \<not> ok then skip
                 else and_then (key_hash crypto (rec_signing_public_key (fst hr))) (\<lambda>kh.
                   if kh = trusted
                   then and_then skip (\<lambda>rest. Inr (\<lparr>selected_root = root,
                          selected_signing_public_key = rec_signing_public_key (fst hr),
                          selected_root_hash = kh\<rparr> # rest))
                   else skip)))
         | _ \<Rightarrow> skip)"

definition select_root ::
  "CryptoProvider \<Rightarrow> Ratchet \<Rightarrow> HashValue set \<Rightarrow> HashedRecord list
     \<Rightarrow> CoreError + SelectedRoot option \<times> ValidationIssue list" where
  "select_root crypto ratchet verified records =
     and_then (root_matches crypto (trusted_root ratchet) verified records) (\<lambda>ms.
       Inr (case ms of
              [] \<Rightarrow> (None, [RootNotTrusted])
            | [m] \<Rightarrow> (Some m, [])
            | _ \<Rightarrow> (None, [AmbiguousRoot])))"

definition user_from_root :: "VaultRootRecordV1 \<Rightarrow> Bytes \<Rightarrow> UserRecordV1" where
  "user_from_root root spk =
     \<lparr>user_id = root_id root, user_signing_public_key = spk,
      user_hpke_public_key = root_hpke_public_key root, user_counter = 0\<rparr>"

section \<open>Signing keys to identities\<close>

definition user_bodies :: "CryptoProvider \<Rightarrow> HashedRecord list \<Rightarrow> (HashedRecord \<times> UserRecordV1) list" where
  "user_bodies crypto records =
     List.map_filter (\<lambda>hr. case known (rec_body (fst hr)) of
         Some (RecordBodyV1.User user) \<Rightarrow>
           if structurally_valid_user crypto user = Inr () then Some (hr, user) else None
       | _ \<Rightarrow> None) records"

record Introductions =
  claims :: "(Bytes, UserId set) BTreeMap"
  introduced :: "(UserId, Bytes) BTreeMap"
  introduced_keys :: "Bytes set"

fun intro_pass ::
  "CryptoProvider \<Rightarrow> HashValue set \<Rightarrow> (HashedRecord \<times> UserRecordV1) list \<Rightarrow> Introductions \<Rightarrow> bool
     \<Rightarrow> Introductions \<times> bool" where
  "intro_pass crypto verified [] intro changed = (intro, changed)"
| "intro_pass crypto verified ((hr, user) # bodies) intro changed =
     (if bt_contains_key (introduced intro) (user_id user) then intro_pass crypto verified bodies intro changed
      else if rec_signing_public_key (fst hr) \<notin> introduced_keys intro
      then intro_pass crypto verified bodies intro changed
      else if \<not> envelope_ok crypto verified hr then intro_pass crypto verified bodies intro changed
      else intro_pass crypto verified bodies
             \<lparr>claims = bt_entry (user_signing_public_key user) {} (insert (user_id user)) (claims intro),
              introduced = bt_insert (user_id user) (user_signing_public_key user) (introduced intro),
              introduced_keys = insert (user_signing_public_key user) (introduced_keys intro)\<rparr> True)"

definition waiting :: "(HashedRecord \<times> UserRecordV1) list \<Rightarrow> Introductions \<Rightarrow> UserId set" where
  "waiting bodies intro =
     {u \<in> (\<lambda>b. user_id (snd b)) ` set bodies. \<not> bt_contains_key (introduced intro) u}"

lemma intro_pass_introduced:
  "intro_pass crypto verified bodies intro changed = (intro', changed') \<Longrightarrow>
     (\<forall>u. bt_contains_key (introduced intro) u \<longrightarrow> bt_contains_key (introduced intro') u)
     \<and> (changed' \<longrightarrow> changed \<or>
          (\<exists>b \<in> set bodies. \<not> bt_contains_key (introduced intro) (user_id (snd b))
             \<and> bt_contains_key (introduced intro') (user_id (snd b))))"
proof (induction crypto verified bodies intro changed rule: intro_pass.induct)
  case (2 crypto verified hr user bodies intro changed)
  let ?new = "\<lparr>claims = bt_entry (user_signing_public_key user) {} (insert (user_id user)) (claims intro),
              introduced = bt_insert (user_id user) (user_signing_public_key user) (introduced intro),
              introduced_keys = insert (user_signing_public_key user) (introduced_keys intro)\<rparr>"
  show ?case
  proof (cases "bt_contains_key (introduced intro) (user_id user)
      \<or> rec_signing_public_key (fst hr) \<notin> introduced_keys intro \<or> \<not> envelope_ok crypto verified hr")
    case True
    then have "intro_pass crypto verified bodies intro changed = (intro', changed')"
      using 2(5) by (auto split: if_splits)
    with True 2(1-3) show ?thesis by auto
  next
    case False
    then have "intro_pass crypto verified bodies ?new True = (intro', changed')"
      using 2(5) by simp
    with False 2(4) have "\<forall>u. bt_contains_key (introduced ?new) u \<longrightarrow> bt_contains_key (introduced intro') u"
      by blast
    then show ?thesis
      using False by (auto simp: bt_contains_key_def bt.get_insert)
  qed
qed auto

lemma waiting_shrinks:
  assumes "intro_pass crypto verified bodies intro False = (intro', True)"
  shows "card (waiting bodies intro') < card (waiting bodies intro)"
proof (rule psubset_card_mono)
  show "finite (waiting bodies intro)"
    by (simp add: waiting_def)
  obtain b where "b \<in> set bodies" "user_id (snd b) \<in> waiting bodies intro"
      "user_id (snd b) \<notin> waiting bodies intro'"
    using intro_pass_introduced [OF assms] unfolding waiting_def by auto
  moreover have "waiting bodies intro' \<subseteq> waiting bodies intro"
    using intro_pass_introduced [OF assms] unfolding waiting_def by auto
  ultimately show "waiting bodies intro' \<subset> waiting bodies intro" by blast
qed

function introduce ::
  "CryptoProvider \<Rightarrow> HashValue set \<Rightarrow> (HashedRecord \<times> UserRecordV1) list \<Rightarrow> Introductions \<Rightarrow> Introductions" where
  "introduce crypto verified bodies intro =
     (case intro_pass crypto verified bodies intro False of (intro', changed) \<Rightarrow>
        if \<not> changed then intro' else introduce crypto verified bodies intro')"
  by pat_completeness auto
termination
  by (relation "measure (\<lambda>(_, _, bodies, intro). card (waiting bodies intro))") (auto intro: waiting_shrinks)

declare introduce.simps [simp del]

fun attested_loop ::
  "CryptoProvider \<Rightarrow> HashValue set \<Rightarrow> UserId \<Rightarrow> HashedRecord list \<Rightarrow> CoreError + UserId set" where
  "attested_loop crypto verified root_user [] = Inr {}"
| "attested_loop crypto verified root_user (hr # hrs) =
     (case known (rec_body (fst hr)) of
        Some (RecordBodyV1.EntryPoint ep) \<Rightarrow>
          if ep_trusted_root_user_id ep \<noteq> root_user \<or> \<not> envelope_ok crypto verified hr
          then attested_loop crypto verified root_user hrs
          else and_then (derive_user_id crypto (rec_signing_public_key (fst hr)) (ep_hpke_public_key ep)) (\<lambda>i.
                 and_then (attested_loop crypto verified root_user hrs) (\<lambda>rest. Inr (insert i rest)))
      | _ \<Rightarrow> attested_loop crypto verified root_user hrs)"

record KeyResolution =
  signer_for_key :: "(Bytes, UserId) BTreeMap"
  contested_keys :: "Bytes set"
  ambiguous_keys :: "HashValue list"

definition resolve_claimants :: "UserId set \<Rightarrow> UserId set \<Rightarrow> UserId option" where
  "resolve_claimants attested claimants =
     (let cl = sorted_list_of_set claimants; attested_claimants = filter (\<lambda>i. i \<in> attested) cl
      in if length cl = 1 then Some (hd cl)
         else if length attested_claimants = 1 then Some (hd attested_claimants) else None)"

fun resolve_keys ::
  "CryptoProvider \<Rightarrow> Bytes \<Rightarrow> UserId set \<Rightarrow> (Bytes \<times> UserId set) list \<Rightarrow> KeyResolution
     \<Rightarrow> CoreError + KeyResolution" where
  "resolve_keys crypto root_key attested [] kr = Inr kr"
| "resolve_keys crypto root_key attested ((signing_key, claimants) # rest) kr =
     (if signing_key = root_key then resolve_keys crypto root_key attested rest kr
      else case resolve_claimants attested claimants of
             Some signer \<Rightarrow> resolve_keys crypto root_key attested rest
               (kr\<lparr>signer_for_key := bt_insert signing_key signer (signer_for_key kr)\<rparr>)
           | None \<Rightarrow> and_then (key_hash crypto signing_key) (\<lambda>kh.
               resolve_keys crypto root_key attested rest
                 (kr\<lparr>contested_keys := insert signing_key (contested_keys kr),
                     ambiguous_keys := ambiguous_keys kr @ [kh]\<rparr>)))"

definition signing_keys ::
  "CryptoProvider \<Rightarrow> HashValue set \<Rightarrow> SelectedRoot \<Rightarrow> HashedRecord list \<Rightarrow> CoreError + KeyResolution" where
  "signing_keys crypto verified root records =
     (let root_key = selected_signing_public_key root; root_user = root_id (selected_root root);
          intro = introduce crypto verified (user_bodies crypto records)
            \<lparr>claims = [], introduced = bt_insert root_user root_key [], introduced_keys = {root_key}\<rparr>
      in and_then (attested_loop crypto verified root_user records) (\<lambda>attested.
           resolve_keys crypto root_key attested (claims intro)
             \<lparr>signer_for_key = bt_insert root_key root_user [], contested_keys = {}, ambiguous_keys = []\<rparr>))"

section \<open>Verification of the records\<close>

record Verification =
  verified_list :: "VerifiedRecord list"
  verification_issues :: "ValidationIssue list"
  unknown_count :: nat

fun verify_records ::
  "CryptoProvider \<Rightarrow> HashValue set \<Rightarrow> VaultRootRecordV1 \<Rightarrow> KeyResolution \<Rightarrow> HashedRecord list \<Rightarrow> Verification
     \<Rightarrow> CoreError + Verification" where
  "verify_records crypto verified root kr [] acc = Inr acc"
| "verify_records crypto verified root kr (hr # hrs) acc =
     (case known (rec_body (fst hr)) of
        None \<Rightarrow> verify_records crypto verified root kr hrs (acc\<lparr>unknown_count := Suc (unknown_count acc)\<rparr>)
      | Some body \<Rightarrow>
          (case structurally_validate_record crypto (fst hr) body root of
             Inl issue \<Rightarrow> verify_records crypto verified root kr hrs
               (acc\<lparr>verification_issues := verification_issues acc @ [issue]\<rparr>)
           | Inr _ \<Rightarrow>
               if rec_signing_public_key (fst hr) \<in> contested_keys kr
               then verify_records crypto verified root kr hrs acc
               else case bt_get (signer_for_key kr) (rec_signing_public_key (fst hr)) of
                 None \<Rightarrow> and_then (key_hash crypto (rec_signing_public_key (fst hr))) (\<lambda>kh.
                   verify_records crypto verified root kr hrs
                     (acc\<lparr>verification_issues := verification_issues acc @ [UnknownSignerKey kh]\<rparr>))
               | Some signer \<Rightarrow>
                   and_then (record_key_for body signer) (\<lambda>key.
                     and_then (check_envelope crypto verified hr) (\<lambda>ok.
                       if \<not> ok then verify_records crypto verified root kr hrs
                         (acc\<lparr>verification_issues := verification_issues acc @ [InvalidSignature key]\<rparr>)
                       else verify_records crypto verified root kr hrs
                         (acc\<lparr>verified_list := verified_list acc @
                            [\<lparr>vr_signed = fst hr, vr_body = body, vr_key = key,
                              vr_record_hash = snd hr, vr_signer = signer\<rparr>]\<rparr>)))))"


section \<open>Deletions and authority\<close>

fun is_graph_deletion :: "RecordBodyV1 \<Rightarrow> bool" where
  "is_graph_deletion (RecordBodyV1.UserDeleted _) = True"
| "is_graph_deletion (RecordBodyV1.GroupDeleted _) = True"
| "is_graph_deletion (RecordBodyV1.GrantDeleted _) = True"
| "is_graph_deletion _ = False"

definition grant_deleted_authorized ::
  "AuthoritySet \<Rightarrow> GrantDeletedRecordV1 \<Rightarrow> EffectiveState \<Rightarrow> bool" where
  "grant_deleted_authorized auth deleted st =
     (case bt_get (es_grants st) (grd_id deleted) of
        Some active \<Rightarrow> can_create_permission auth (grd_permission deleted)
                        \<and> can_create_permission auth (grant_permission active)
      | None \<Rightarrow> auth_administer auth \<or> can_create_permission auth (grd_permission deleted))"

definition deletion_authorized :: "EffectiveState \<Rightarrow> VerifiedRecord \<Rightarrow> bool" where
  "deletion_authorized st r =
     (let auth = authority_for_user st (vr_signer r) in
      case vr_body r of
        RecordBodyV1.UserDeleted _ \<Rightarrow> auth_administer auth
      | RecordBodyV1.GroupDeleted _ \<Rightarrow> auth_administer auth
      | RecordBodyV1.GrantDeleted deleted \<Rightarrow> grant_deleted_authorized auth deleted st
      | _ \<Rightarrow> False)"

definition deletion_candidates :: "VerifiedRecord list \<Rightarrow> VerifiedRecord list" where
  "deletion_candidates records = sort_key compare_lww (filter (\<lambda>r. is_graph_deletion (vr_body r)) records)"

definition newly_admitted ::
  "EffectiveState \<Rightarrow> HashValue set \<Rightarrow> VerifiedRecord list \<Rightarrow> VerifiedRecord option" where
  "newly_admitted st admitted candidates =
     find (\<lambda>r. vr_record_hash r \<notin> admitted \<and> deletion_authorized st r) candidates"

function deletion_loop ::
  "(HashValue set \<Rightarrow> EffectiveState) \<Rightarrow> VerifiedRecord list \<Rightarrow> HashValue set \<Rightarrow> EffectiveState \<times> HashValue set"
where
  "deletion_loop compute candidates admitted =
     (case newly_admitted (compute admitted) admitted candidates of
        Some r \<Rightarrow> deletion_loop compute candidates (insert (vr_record_hash r) admitted)
      | None \<Rightarrow> (compute admitted, admitted))"
  by pat_completeness auto
termination
proof (relation "measure (\<lambda>(_, cs, admitted). card (vr_record_hash ` set cs - admitted))")
  fix compute :: "HashValue set \<Rightarrow> EffectiveState" and candidates admitted r
  assume "newly_admitted (compute admitted) admitted candidates = Some r"
  then have "r \<in> set candidates" "vr_record_hash r \<notin> admitted"
    by (auto simp: newly_admitted_def find_Some_iff)
  then have "vr_record_hash ` set candidates - insert (vr_record_hash r) admitted
      \<subset> vr_record_hash ` set candidates - admitted"
    by blast
  then have "card (vr_record_hash ` set candidates - insert (vr_record_hash r) admitted)
      < card (vr_record_hash ` set candidates - admitted)"
    by (intro psubset_card_mono) simp_all
  then show "((compute, candidates, insert (vr_record_hash r) admitted), (compute, candidates, admitted))
      \<in> measure (\<lambda>(_, cs, admitted). card (vr_record_hash ` set cs - admitted))"
    by simp
qed simp

declare deletion_loop.simps [simp del]

definition resolve_effective_with_deletions ::
  "CryptoProvider \<Rightarrow> SelectedRoot \<Rightarrow> VerifiedRecord list \<Rightarrow> RollbackKeys \<Rightarrow> EffectiveState \<times> HashValue set" where
  "resolve_effective_with_deletions crypto root records rollback_keys =
     deletion_loop
       (\<lambda>admitted. compute_effective_state crypto
          (user_from_root (selected_root root) (selected_signing_public_key root))
          (selected_root_hash root) records admitted rollback_keys)
       (deletion_candidates records) {}"

section \<open>Watermarks and rollback\<close>

fun record_origin :: "RecordBodyV1 \<Rightarrow> KeyOrigin option" where
  "record_origin (RecordBodyV1.Secret r) = Some (KeyOrigin.Secret (secret_selector r))"
| "record_origin (RecordBodyV1.SecretDeleted r) = Some (KeyOrigin.Secret (sd_selector r))"
| "record_origin (RecordBodyV1.UserHandle r) = Some (KeyOrigin.UserHandle (uh_handle r))"
| "record_origin (RecordBodyV1.VaultHandle r) = Some (KeyOrigin.VaultHandle (vh_handle r))"
| "record_origin (RecordBodyV1.GroupMember r) = Some (KeyOrigin.GroupMember (gm_group_id r) (gm_member_id r))"
| "record_origin (RecordBodyV1.GroupMemberDeleted r) =
     Some (KeyOrigin.GroupMember (gmd_group_id r) (gmd_member_id r))"
| "record_origin _ = None"

definition attested_users :: "VerifiedRecord list \<Rightarrow> UserId set" where
  "attested_users records =
     vr_signer ` set (filter (\<lambda>r. case vr_body r of RecordBodyV1.EntryPoint _ \<Rightarrow> True | _ \<Rightarrow> False) records)"

definition is_admitted :: "UserId set \<Rightarrow> EffectiveState \<Rightarrow> HashValue set \<Rightarrow> VerifiedRecord \<Rightarrow> bool" where
  "is_admitted attested st admitted_deletions r =
     (let auth = authority_for_user st (vr_signer r) in
      case vr_body r of
        RecordBodyV1.VaultRoot _ \<Rightarrow> True
      | RecordBodyV1.EntryPoint _ \<Rightarrow> vr_signer r \<in> attested
      | RecordBodyV1.User user \<Rightarrow> auth_administer auth \<and> user_id user \<in> attested
      | RecordBodyV1.UserDeleted _ \<Rightarrow> vr_record_hash r \<in> admitted_deletions
      | RecordBodyV1.GroupDeleted _ \<Rightarrow> vr_record_hash r \<in> admitted_deletions
      | RecordBodyV1.GrantDeleted _ \<Rightarrow> vr_record_hash r \<in> admitted_deletions
      | RecordBodyV1.UserHandle _ \<Rightarrow> auth_administer auth
      | RecordBodyV1.VaultHandle _ \<Rightarrow> auth_administer auth
      | RecordBodyV1.Group _ \<Rightarrow> auth_administer auth
      | RecordBodyV1.GroupMember _ \<Rightarrow> auth_administer auth
      | RecordBodyV1.GroupMemberDeleted _ \<Rightarrow> auth_administer auth
      | RecordBodyV1.Grant grant \<Rightarrow> can_create_permission auth (grant_permission grant)
      | RecordBodyV1.Secret secret \<Rightarrow> can_write auth (secret_selector secret)
      | RecordBodyV1.SecretDeleted secret \<Rightarrow> can_write auth (sd_selector secret))"

type_synonym Watermarks = "(RecordKey, u64) BTreeMap \<times> (RecordKey, KeyOrigin) BTreeMap"

definition watermark_step ::
  "UserId set \<Rightarrow> EffectiveState \<Rightarrow> HashValue set \<Rightarrow> VerifiedRecord \<Rightarrow> Watermarks \<Rightarrow> Watermarks" where
  "watermark_step attested st admitted_deletions r acc =
     (if \<not> is_admitted attested st admitted_deletions r then acc
      else ((case lww_counter (vr_body r) of
               Some c \<Rightarrow> bt_entry (vr_key r) 0 (\<lambda>e. max e c) (fst acc)
             | None \<Rightarrow> fst acc),
            (case record_origin (vr_body r) of
               Some orig \<Rightarrow> bt_entry (vr_key r) orig (\<lambda>e. e) (snd acc)
             | None \<Rightarrow> snd acc)))"

definition admitted_watermarks ::
  "VerifiedRecord list \<Rightarrow> EffectiveState \<Rightarrow> HashValue set \<Rightarrow> Watermarks" where
  "admitted_watermarks records st admitted_deletions =
     fold (watermark_step (attested_users records) st admitted_deletions) records ([], [])"

definition get_or_zero :: "('k, u64) BTreeMap \<Rightarrow> 'k \<Rightarrow> u64" where
  "get_or_zero m k = (case bt_get m k of None \<Rightarrow> 0 | Some c \<Rightarrow> c)"

definition rollback_keys_of :: "Ratchet \<Rightarrow> (RecordKey, u64) BTreeMap \<Rightarrow> RollbackKeys" where
  "rollback_keys_of ratchet current =
     fold (\<lambda>(key, remembered) m.
        if get_or_zero current key < remembered then bt_insert key remembered m else m)
       (watermarks ratchet) []"

definition classify_secret_write :: "EffectiveState \<Rightarrow> VerifiedRecord \<Rightarrow> SecretId option" where
  "classify_secret_write st r =
     (case secret_record_identity (vr_body r) of
        None \<Rightarrow> None
      | Some (secret, selector) \<Rightarrow>
          if can_write (authority_for_user st (vr_signer r)) selector then Some secret else None)"

definition rollback_report ::
  "CryptoProvider \<Rightarrow> Ratchet \<Rightarrow> VerifiedRecord list \<Rightarrow> Watermarks \<Rightarrow> RecordKey \<Rightarrow> u64 \<Rightarrow> ConflictReport" where
  "rollback_report crypto ratchet records wm key remembered =
     (let current = get_or_zero (fst wm) key in
      \<lparr>cr_key = key, cr_counter = current, cr_kind = Rollback remembered,
       cr_candidates = canonical_candidates crypto
         (map vr_signed (filter (\<lambda>r. vr_key r = key \<and> counter_of r = current) records)),
       cr_origin = (case bt_get (snd wm) key of
                      Some orig \<Rightarrow> Some orig
                    | None \<Rightarrow> bt_get (origins ratchet) key)\<rparr>)"

definition max_value :: "('k, u64) BTreeMap \<Rightarrow> u64 option" where
  "max_value m = (if m = [] then None else Some (foldr max (bt_values m) 0))"

definition ratchet_update_of :: "Ratchet \<Rightarrow> Watermarks \<Rightarrow> RatchetUpdate" where
  "ratchet_update_of ratchet wm =
     \<lparr>raised_watermarks = fold (\<lambda>(key, current) m.
          if current > get_or_zero (watermarks ratchet) key then bt_insert key current m else m) (fst wm) [],
      update_origins = fold (\<lambda>(key, orig) m.
          if \<not> bt_contains_key (origins ratchet) key then bt_insert key orig m else m) (snd wm) [],
      raised_format_version = None\<rparr>"

definition warnings_for :: "nat \<Rightarrow> ValidationWarning list" where
  "warnings_for unknown = (if unknown > 0 then [UnknownRecords unknown] else [])"

section \<open>Validation\<close>

text \<open>The authority half of \<open>validate_v1\<close>: everything after the records are verified.\<close>

definition settle_v1 ::
  "CryptoProvider \<Rightarrow> Ratchet \<Rightarrow> SelectedRoot \<Rightarrow> VerifiedRecord list
     \<Rightarrow> EffectiveState \<times> RatchetUpdate \<times> ValidationIssue list" where
  "settle_v1 crypto ratchet root records =
     (let (provisional, provisional_deletions) = resolve_effective_with_deletions crypto root records [];
          wm = admitted_watermarks records provisional provisional_deletions;
          rollback_keys = rollback_keys_of ratchet (fst wm);
          (effective, _) = resolve_effective_with_deletions crypto root records rollback_keys;
          issues = (if es_authority_unresolved effective then [AuthorityDidNotConverge] else []);
          secret_resolution = lww_resolution records rollback_keys (classify_secret_write effective);
          effective1 = effective\<lparr>es_conflicted := bt_extend (es_conflicted effective)
             (materialize_conflicts crypto records (lww_conflicted secret_resolution))\<rparr>;
          effective2 = fold (\<lambda>(key, remembered) st. st\<lparr>es_conflicted :=
               bt_insert key (rollback_report crypto ratchet records wm key remembered) (es_conflicted st)\<rparr>)
             rollback_keys effective1;
          effective3 = attach_verified_records effective2 records (max_value (fst wm))
      in (effective3, ratchet_update_of ratchet wm, issues))"

definition unresolved_state :: EffectiveState where
  "unresolved_state = default_effective_state\<lparr>es_authority_unresolved := True\<rparr>"

definition validate_v1 ::
  "CryptoProvider \<Rightarrow> Ratchet \<Rightarrow> HashValue set \<Rightarrow> VaultStoreV1 \<Rightarrow> CoreError + ValidationReport" where
  "validate_v1 crypto ratchet verified vault =
     and_then (dedup_loop crypto {} (vs_records vault)) (\<lambda>records.
     and_then (select_root crypto ratchet verified records) (\<lambda>(root_option, root_issues).
       case root_option of
         None \<Rightarrow> Inr \<lparr>vrep_effective = unresolved_state, vrep_ratchet_update = default_ratchet_update,
                      vrep_issues = root_issues, vrep_warnings = warnings_for 0\<rparr>
       | Some root \<Rightarrow>
           and_then (signing_keys crypto verified root records) (\<lambda>kr.
           and_then (verify_records crypto verified (selected_root root) kr records
               \<lparr>verified_list = [], verification_issues = root_issues, unknown_count = 0\<rparr>) (\<lambda>v.
             case settle_v1 crypto ratchet root (verified_list v) of (effective, update, issues) \<Rightarrow>
               Inr \<lparr>vrep_effective = effective, vrep_ratchet_update = update,
                    vrep_issues = verification_issues v @ issues,
                    vrep_warnings = warnings_for (unknown_count v)
                                    @ map AmbiguousSigningKey (ambiguous_keys kr)\<rparr>))))"

definition validate_vault_with_verified ::
  "CryptoProvider \<Rightarrow> VaultStore \<Rightarrow> Ratchet \<Rightarrow> HashValue set \<Rightarrow> CoreError + ValidationReport" where
  "validate_vault_with_verified crypto vault ratchet verified =
     (let version = format_version vault in
      if version < ratchet_format_version ratchet
      then Inr \<lparr>vrep_effective = unresolved_state, vrep_ratchet_update = default_ratchet_update,
                vrep_issues = [FormatVersionRegression (ratchet_format_version ratchet) version],
                vrep_warnings = []\<rparr>
      else case vault of VaultStore.V1 v1 \<Rightarrow>
        and_then (validate_v1 crypto ratchet verified v1) (\<lambda>report.
          Inr (if version > ratchet_format_version ratchet \<and> vrep_issues report = []
               then report\<lparr>vrep_ratchet_update :=
                      (vrep_ratchet_update report)\<lparr>raised_format_version := Some version\<rparr>\<rparr>
               else report)))"

definition validate_vault :: "CryptoProvider \<Rightarrow> VaultStore \<Rightarrow> Ratchet \<Rightarrow> CoreError + ValidationReport" where
  "validate_vault crypto vault ratchet = validate_vault_with_verified crypto vault ratchet {}"

section \<open>What is verified\<close>

text \<open>A hashed record carries its content hash, and a deduplicated list has distinct ones.\<close>

lemma dedup_loop_Inr:
  assumes "dedup_loop crypto seen srs = Inr hrs"
  shows "(\<forall>(sr, h) \<in> set hrs. sr \<in> set srs \<and> record_hash crypto sr = Inr h \<and> h \<notin> seen)
    \<and> distinct (map snd hrs)"
  using assms
proof (induction srs arbitrary: seen hrs)
  case (Cons sr srs)
  then obtain h where h: "record_hash crypto sr = Inr h"
    by (auto simp: and_then_Inr_iff)
  show ?case
  proof (cases "h \<in> seen")
    case True
    with Cons h show ?thesis by fastforce
  next
    case False
    then obtain rest where rest: "dedup_loop crypto (insert h seen) srs = Inr rest" "hrs = (sr, h) # rest"
      using Cons.prems h by (auto simp: and_then_Inr_iff)
    with Cons.IH [OF rest(1)] h False show ?thesis by fastforce
  qed
qed simp

lemma dedup_loop_covers:
  assumes "dedup_loop crypto seen srs = Inr hrs" and "sr \<in> set srs"
  shows "\<exists>h. record_hash crypto sr = Inr h \<and> (h \<in> seen \<or> h \<in> set (map snd hrs))"
  using assms
proof (induction srs arbitrary: seen hrs)
  case (Cons sr' srs)
  then obtain h where h: "record_hash crypto sr' = Inr h"
    by (auto simp: and_then_Inr_iff)
  show ?case
  proof (cases "h \<in> seen")
    case True
    with Cons h show ?thesis by fastforce
  next
    case False
    then obtain rest where rest: "dedup_loop crypto (insert h seen) srs = Inr rest" "hrs = (sr', h) # rest"
      using Cons.prems h by (auto simp: and_then_Inr_iff)
    with Cons.IH [OF rest(1)] h Cons.prems(2) show ?thesis by fastforce
  qed
qed simp

definition verified_ok ::
  "CryptoProvider \<Rightarrow> HashValue set \<Rightarrow> VaultRootRecordV1 \<Rightarrow> KeyResolution \<Rightarrow> HashedRecord set \<Rightarrow> VerifiedRecord \<Rightarrow> bool"
where
  "verified_ok crypto verified root kr hrs r \<longleftrightarrow>
     (vr_signed r, vr_record_hash r) \<in> hrs \<and> known (rec_body (vr_signed r)) = Some (vr_body r)
     \<and> structurally_validate_record crypto (vr_signed r) (vr_body r) root = Inr ()
     \<and> rec_signing_public_key (vr_signed r) \<notin> contested_keys kr
     \<and> bt_get (signer_for_key kr) (rec_signing_public_key (vr_signed r)) = Some (vr_signer r)
     \<and> keyed r
     \<and> check_envelope crypto verified (vr_signed r, vr_record_hash r) = Inr True"

lemma verify_step:
  assumes "verify_records crypto verified root kr (hr # hrs) acc = Inr v"
  shows "\<exists>acc' new. verify_records crypto verified root kr hrs acc' = Inr v
    \<and> verified_list acc' = verified_list acc @ new
    \<and> (new = [] \<or> (\<exists>r. new = [r] \<and> (vr_signed r, vr_record_hash r) = hr \<and> verified_ok crypto verified root kr {hr} r))"
proof (cases "known (rec_body (fst hr))")
  case None
  with assms show ?thesis by (intro exI [of _ "acc\<lparr>unknown_count := Suc (unknown_count acc)\<rparr>"] exI [of _ "[]"]) simp
next
  case (Some body)
  note body = this
  show ?thesis
  proof (cases "structurally_validate_record crypto (fst hr) body root")
    case (Inl issue)
    with assms body show ?thesis
      by (intro exI [of _ "acc\<lparr>verification_issues := verification_issues acc @ [issue]\<rparr>"] exI [of _ "[]"]) simp
  next
    case (Inr ok)
    show ?thesis
    proof (cases "rec_signing_public_key (fst hr) \<in> contested_keys kr")
      case True
      with assms body Inr show ?thesis by (intro exI [of _ acc] exI [of _ "[]"]) simp
    next
      case False
      show ?thesis
      proof (cases "bt_get (signer_for_key kr) (rec_signing_public_key (fst hr))")
        case None
        with assms body Inr False obtain kh where "verify_records crypto verified root kr hrs
            (acc\<lparr>verification_issues := verification_issues acc @ [UnknownSignerKey kh]\<rparr>) = Inr v"
          by (auto simp: and_then_Inr_iff)
        then show ?thesis by (intro exI exI [of _ "[]"] conjI) (assumption, simp_all)
      next
        case (Some signer)
        with assms body Inr False obtain key b where kb: "record_key_for body signer = Inr key"
            "check_envelope crypto verified hr = Inr b"
          and rest: "(if \<not> b then verify_records crypto verified root kr hrs
              (acc\<lparr>verification_issues := verification_issues acc @ [InvalidSignature key]\<rparr>)
            else verify_records crypto verified root kr hrs
              (acc\<lparr>verified_list := verified_list acc @ [\<lparr>vr_signed = fst hr, vr_body = body, vr_key = key,
                  vr_record_hash = snd hr, vr_signer = signer\<rparr>]\<rparr>)) = Inr v"
          by (auto simp: and_then_Inr_iff)
        show ?thesis
        proof (cases b)
          case True
          with rest kb body Inr False Some show ?thesis
            by (intro exI [of _ "acc\<lparr>verified_list := verified_list acc @ [\<lparr>vr_signed = fst hr, vr_body = body,
                  vr_key = key, vr_record_hash = snd hr, vr_signer = signer\<rparr>]\<rparr>"] exI)
               (auto simp: verified_ok_def keyed_def)
        next
          case False
          with rest show ?thesis
            by (intro exI [of _ "acc\<lparr>verification_issues := verification_issues acc @ [InvalidSignature key]\<rparr>"]
                exI [of _ "[]"]) simp
        qed
      qed
    qed
  qed
qed

lemma verified_ok_mono: "verified_ok crypto verified root kr H r \<Longrightarrow> H \<subseteq> H' \<Longrightarrow> verified_ok crypto verified root kr H' r"
  by (auto simp: verified_ok_def)

lemma verify_records_list:
  assumes "verify_records crypto verified root kr hrs acc = Inr v"
  shows "\<exists>rs. verified_list v = verified_list acc @ rs \<and> list_all (verified_ok crypto verified root kr (set hrs)) rs
    \<and> subseq (map (\<lambda>r. (vr_signed r, vr_record_hash r)) rs) hrs"
  using assms
proof (induction hrs arbitrary: acc)
  case (Cons hr hrs)
  obtain acc' new where step: "verify_records crypto verified root kr hrs acc' = Inr v"
      "verified_list acc' = verified_list acc @ new"
      "new = [] \<or> (\<exists>r. new = [r] \<and> (vr_signed r, vr_record_hash r) = hr \<and> verified_ok crypto verified root kr {hr} r)"
    using verify_step [OF Cons.prems] by blast
  obtain rs where rs: "verified_list v = verified_list acc' @ rs"
      "list_all (verified_ok crypto verified root kr (set hrs)) rs"
      "subseq (map (\<lambda>r. (vr_signed r, vr_record_hash r)) rs) hrs"
    using Cons.IH [OF step(1)] by blast
  have "list_all (verified_ok crypto verified root kr (set (hr # hrs))) (new @ rs)"
    using step(3) rs(2) by (auto simp: list_all_iff intro: verified_ok_mono)
  moreover have "subseq (map (\<lambda>r. (vr_signed r, vr_record_hash r)) (new @ rs)) (hr # hrs)"
    using step(3) rs(3) by auto
  ultimately show ?case
    using rs(1) step(2) by (intro exI [of _ "new @ rs"]) simp
qed simp


lemma settle_v1_fields:
  assumes "settle_v1 crypto ratchet root records = (eff, upd, iss)"
  shows "es_verified_records eff = records"
  using assms by (auto simp: settle_v1_def Let_def case_prod_beta)

lemma validate_v1_cases:
  assumes "validate_v1 crypto ratchet verified vault = Inr report"
  obtains (no_root) "vrep_effective report = unresolved_state"
      "vrep_ratchet_update report = default_ratchet_update"
      "vrep_issues report = [RootNotTrusted] \<or> vrep_issues report = [AmbiguousRoot]"
  | (root) hrs root kr v eff upd iss where "dedup_loop crypto {} (vs_records vault) = Inr hrs"
      "root_matches crypto (trusted_root ratchet) verified hrs = Inr [root]"
      "signing_keys crypto verified root hrs = Inr kr"
      "verify_records crypto verified (selected_root root) kr hrs
         \<lparr>verified_list = [], verification_issues = [], unknown_count = 0\<rparr> = Inr v"
      "settle_v1 crypto ratchet root (verified_list v) = (eff, upd, iss)"
      "report = \<lparr>vrep_effective = eff, vrep_ratchet_update = upd,
                 vrep_issues = verification_issues v @ iss,
                 vrep_warnings = warnings_for (unknown_count v) @ map AmbiguousSigningKey (ambiguous_keys kr)\<rparr>"
proof -
  obtain hrs ms where hrs: "dedup_loop crypto {} (vs_records vault) = Inr hrs"
      "root_matches crypto (trusted_root ratchet) verified hrs = Inr ms"
    using assms by (auto simp: validate_v1_def select_root_def and_then_Inr_iff)
  consider "ms = []" | m where "ms = [m]" | m m' ms' where "ms = m # m' # ms'"
    by (metis neq_Nil_conv)
  then show thesis
  proof cases
    case (2 m)
    obtain kr v where kr: "signing_keys crypto verified m hrs = Inr kr"
      "verify_records crypto verified (selected_root m) kr hrs
         \<lparr>verified_list = [], verification_issues = [], unknown_count = 0\<rparr> = Inr v"
      and rep: "(case settle_v1 crypto ratchet m (verified_list v) of (effective, update, issues) \<Rightarrow>
               Inr \<lparr>vrep_effective = effective, vrep_ratchet_update = update,
                    vrep_issues = verification_issues v @ issues,
                    vrep_warnings = warnings_for (unknown_count v)
                                    @ map AmbiguousSigningKey (ambiguous_keys kr)\<rparr>) = (Inr report :: CoreError + ValidationReport)"
      using assms hrs 2 by (auto simp: validate_v1_def select_root_def and_then_Inr_iff)
    obtain eff upd iss where "settle_v1 crypto ratchet m (verified_list v) = (eff, upd, iss)"
      by (metis prod_cases3)
    with rep kr hrs 2 root show thesis by simp
  qed (use assms hrs no_root in \<open>auto simp: validate_v1_def select_root_def\<close>)
qed

lemma distinct_subseq: "subseq xs ys \<Longrightarrow> distinct ys \<Longrightarrow> distinct xs"
proof (induction rule: list_emb.induct)
  case (list_emb_Cons2 x y xs ys)
  then show ?case by (auto dest: list_emb_set)
qed auto

lemma verified_list_ok:
  assumes "dedup_loop crypto {} srs = Inr hrs"
    and "verify_records crypto verified root kr hrs
         \<lparr>verified_list = [], verification_issues = [], unknown_count = 0\<rparr> = Inr v"
  shows "list_all (verified_ok crypto verified root kr (set hrs)) (verified_list v)"
    and "distinct (map vr_record_hash (verified_list v))" and "list_all keyed (verified_list v)"
    and "inj_on vr_record_hash (set (verified_list v))"
proof -
  obtain rs where rs: "verified_list v = rs" "list_all (verified_ok crypto verified root kr (set hrs)) rs"
      "subseq (map (\<lambda>r. (vr_signed r, vr_record_hash r)) rs) hrs"
    using verify_records_list [OF assms(2)] by auto
  have "subseq (map snd (map (\<lambda>r. (vr_signed r, vr_record_hash r)) rs)) (map snd hrs)"
    using rs(3) by (rule subseq_map)
  then have "subseq (map vr_record_hash rs) (map snd hrs)"
    by (simp add: comp_def)
  then show d: "distinct (map vr_record_hash (verified_list v))"
    using dedup_loop_Inr [OF assms(1)] rs(1) distinct_subseq by blast
  then show "inj_on vr_record_hash (set (verified_list v))"
    by (simp add: distinct_map)
  show ok: "list_all (verified_ok crypto verified root kr (set hrs)) (verified_list v)"
    using rs by simp
  then show "list_all keyed (verified_list v)"
    by (auto simp: list_all_iff verified_ok_def)
qed

section \<open>Settling\<close>

lemma fold_filter_get:
  assumes "distinct (map fst ps)"
  shows "bt_get (fold (\<lambda>(k, v) m. if P k v then bt_insert k v m else m) ps acc) k =
    (case bt_get ps k of
       Some v \<Rightarrow> if P k v then Some v else bt_get acc k
     | None \<Rightarrow> bt_get acc k)"
  using assms
proof (induction ps arbitrary: acc)
  case (Cons p ps)
  obtain k' v where p: "p = (k', v)" by (cases p)
  have "bt_get ps k' = None"
    using Cons.prems p by (auto simp: bt_get_def map_of_eq_None_iff)
  with Cons p show ?case
    by (auto simp: bt.get_insert bt_get_def [of "_ # _"] bt_get_def [symmetric] split: option.splits)
qed (simp add: bt_get_def)

lemma fold_filter_wf:
  "bt_wf acc \<Longrightarrow> bt_wf (fold (\<lambda>(k, v) m. if P k v then bt_insert k v m else m) ps acc)"
  by (induction ps arbitrary: acc) (auto simp: bt.wf_insert)

lemma wf_distinct: "bt_wf m \<Longrightarrow> distinct (map fst m)"
  by (simp add: bt_wf_def strict_sorted_iff)

lemma rollback_keys_get:
  assumes "bt_wf (watermarks ratchet)"
  shows "bt_get (rollback_keys_of ratchet current) k = Some c \<longleftrightarrow>
    bt_get (watermarks ratchet) k = Some c \<and> get_or_zero current k < c"
  using fold_filter_get [OF wf_distinct [OF assms], of "\<lambda>k c. get_or_zero current k < c" "[]" k]
  by (auto simp: rollback_keys_of_def bt_get_def [of "[]"] split: option.splits if_splits)

lemma rollback_keys_wf: "bt_wf (rollback_keys_of ratchet current)"
  unfolding rollback_keys_of_def by (rule fold_filter_wf) (rule bt.wf_empty)

lemma watermark_step_wf:
  "bt_wf (fst acc) \<Longrightarrow> bt_wf (fst (watermark_step a st d r acc))"
  "bt_wf (snd acc) \<Longrightarrow> bt_wf (snd (watermark_step a st d r acc))"
  by (auto simp: watermark_step_def bt_entry_def bt.wf_insert split: option.splits)

lemma admitted_watermarks_wf:
  "bt_wf (fst (admitted_watermarks records st d))" "bt_wf (snd (admitted_watermarks records st d))"
proof -
  have "bt_wf (fst acc) \<and> bt_wf (snd acc) \<Longrightarrow>
      bt_wf (fst (fold (watermark_step a st d) rs acc)) \<and> bt_wf (snd (fold (watermark_step a st d) rs acc))"
    for a rs acc
    by (induction rs arbitrary: acc) (simp_all add: watermark_step_wf)
  then show "bt_wf (fst (admitted_watermarks records st d))" "bt_wf (snd (admitted_watermarks records st d))"
    by (simp_all add: admitted_watermarks_def bt.wf_empty)
qed

text \<open>The watermark of a key is the largest counter admitted at it.\<close>

definition admitted_counters :: "UserId set \<Rightarrow> EffectiveState \<Rightarrow> HashValue set \<Rightarrow> VerifiedRecord list \<Rightarrow> RecordKey \<Rightarrow> u64 set"
where
  "admitted_counters a st d rs k =
     {c. \<exists>r \<in> set rs. is_admitted a st d r \<and> vr_key r = k \<and> lww_counter (vr_body r) = Some c}"

lemma admitted_counters_Nil [simp]: "admitted_counters a st d [] k = {}"
  by (simp add: admitted_counters_def)

lemma admitted_counters_Cons:
  "admitted_counters a st d (r # rs) k =
     (if is_admitted a st d r \<and> vr_key r = k
      then set_option (lww_counter (vr_body r)) \<union> admitted_counters a st d rs k
      else admitted_counters a st d rs k)"
  by (auto simp: admitted_counters_def)

lemma admitted_counters_finite: "finite (admitted_counters a st d rs k)"
  by (induction rs) (auto simp: admitted_counters_Cons)

lemma watermark_step_get:
  "bt_get (fst (watermark_step a st d r acc)) k =
     (case lww_counter (vr_body r) of
        Some c \<Rightarrow> if is_admitted a st d r \<and> vr_key r = k then Some (max (get_or_zero (fst acc) k) c)
                  else bt_get (fst acc) k
      | None \<Rightarrow> bt_get (fst acc) k)"
  by (auto simp: watermark_step_def bt_entry_def bt.get_insert get_or_zero_def split: option.splits)

lemma watermark_fold_get:
  "bt_get (fst (fold (watermark_step a st d) rs acc)) k =
     (if admitted_counters a st d rs k = {} then bt_get (fst acc) k
      else Some (Max (insert (get_or_zero (fst acc) k) (admitted_counters a st d rs k))))"
proof (induction rs arbitrary: acc)
  case (Cons r rs)
  let ?acc = "watermark_step a st d r acc"
  show ?case
  proof (cases "is_admitted a st d r \<and> vr_key r = k \<and> lww_counter (vr_body r) \<noteq> None")
    case True
    then obtain c where c: "lww_counter (vr_body r) = Some c" by blast
    have "get_or_zero (fst ?acc) k = max (get_or_zero (fst acc) k) c"
      using True c by (simp add: get_or_zero_def watermark_step_get)
    with Cons.IH [of ?acc] True c show ?thesis
      using admitted_counters_finite [of a st d rs k]
      by (simp add: admitted_counters_Cons watermark_step_get max.assoc)
  next
    case False
    then have "admitted_counters a st d (r # rs) k = admitted_counters a st d rs k"
      "bt_get (fst ?acc) k = bt_get (fst acc) k"
      by (auto simp: admitted_counters_Cons watermark_step_get split: option.splits)
    with Cons.IH [of ?acc] show ?thesis by (simp add: get_or_zero_def)
  qed
qed simp

lemma admitted_watermarks_get:
  "bt_get (fst (admitted_watermarks records st d)) k =
     (if admitted_counters (attested_users records) st d records k = {} then None
      else Some (Max (admitted_counters (attested_users records) st d records k)))"
proof -
  have "Max (insert 0 C) = Max C" if "finite C" "C \<noteq> {}" for C :: "u64 set"
    using that by (simp add: max_def word_le_0_iff)
  then show ?thesis
    using admitted_counters_finite
    by (simp add: admitted_watermarks_def watermark_fold_get get_or_zero_def bt_get_def [of "[]"])
qed

text \<open>The parts of a settled state.\<close>

definition settled_rollbacks :: "CryptoProvider \<Rightarrow> Ratchet \<Rightarrow> SelectedRoot \<Rightarrow> VerifiedRecord list \<Rightarrow> Watermarks \<times> RollbackKeys \<times> EffectiveState" where
  "settled_rollbacks crypto ratchet root records =
     (let prov = resolve_effective_with_deletions crypto root records [];
          wm = admitted_watermarks records (fst prov) (snd prov);
          rb = rollback_keys_of ratchet (fst wm)
      in (wm, rb, fst (resolve_effective_with_deletions crypto root records rb)))"

lemma fold_conflicts:
  "fold (\<lambda>(k, c) st. st\<lparr>es_conflicted := bt_insert k (f k c) (es_conflicted st)\<rparr>) ps st =
     st\<lparr>es_conflicted := bt_extend (es_conflicted st) (map (\<lambda>(k, c). (k, f k c)) ps)\<rparr>"
  by (induction ps arbitrary: st) (auto simp: bt_extend_def)

lemma settle_v1_parts:
  assumes "settle_v1 crypto ratchet root records = (eff, upd, iss)"
    and "settled_rollbacks crypto ratchet root records = (wm, rb, eff0)"
  shows "eff = attach_verified_records (eff0\<lparr>es_conflicted := bt_extend (bt_extend (es_conflicted eff0)
            (materialize_conflicts crypto records (lww_conflicted
               (lww_resolution records rb (classify_secret_write eff0)))))
            (map (\<lambda>(k, c). (k, rollback_report crypto ratchet records wm k c)) rb)\<rparr>)
          records (max_value (fst wm))"
    and "upd = ratchet_update_of ratchet wm"
    and "iss = (if es_authority_unresolved eff0 then [AuthorityDidNotConverge] else [])"
    and "rb = rollback_keys_of ratchet (fst wm)"
    and "eff0 = fst (resolve_effective_with_deletions crypto root records rb)"
    and "\<exists>st d. wm = admitted_watermarks records st d"
  using assms by (auto simp: settle_v1_def settled_rollbacks_def Let_def case_prod_beta fold_conflicts)

lemma deletion_loop_compute: "\<exists>d. fst (deletion_loop compute cs admitted) = compute d"
proof (induction compute cs admitted rule: deletion_loop.induct)
  case (1 compute cs admitted)
  then show ?case
    by (cases "newly_admitted (compute admitted) admitted cs") (auto simp: deletion_loop.simps [of compute cs admitted])
qed

lemma resolved_state:
  "\<exists>d. fst (resolve_effective_with_deletions crypto root records rb) = compute_effective_state crypto
     (user_from_root (selected_root root) (selected_signing_public_key root)) (selected_root_hash root)
     records d rb"
  using deletion_loop_compute unfolding resolve_effective_with_deletions_def by blast

lemma settled_frames:
  assumes "settle_v1 crypto ratchet root records = (eff, upd, iss)"
    and "settled_rollbacks crypto ratchet root records = (wm, rb, eff0)"
  shows "es_grants eff = es_grants eff0" "es_groups eff = es_groups eff0"
    "es_memberships eff = es_memberships eff0" "es_users eff = es_users eff0"
    "es_handles eff = es_handles eff0" "es_vault_handles eff = es_vault_handles eff0"
    "es_entry_points eff = es_entry_points eff0" "es_authorities eff = es_authorities eff0"
    "es_authority_unresolved eff = es_authority_unresolved eff0"
    "es_root_user_id eff = es_root_user_id eff0" "es_verified_records eff = records"
    "es_admitted_counter_max eff = max_value (fst wm)"
    "authority_for_user eff = authority_for_user eff0"
  unfolding settle_v1_parts(1) [OF assms]
  by (auto simp: attach_verified_records_def Let_def authority_for_user_def)

lemma rollback_report_get:
  assumes "settle_v1 crypto ratchet root records = (eff, upd, iss)"
    and "settled_rollbacks crypto ratchet root records = (wm, rb, eff0)"
    and "bt_get rb k = Some c"
  shows "bt_get (es_conflicted eff) k = Some (rollback_report crypto ratchet records wm k c)"
proof -
  have "distinct (map fst rb)"
    using wf_distinct [OF rollback_keys_wf] settle_v1_parts(4) [OF assms(1,2)] by simp
  then have "distinct (map fst (map (\<lambda>(k, c). (k, rollback_report crypto ratchet records wm k c)) rb))"
    by (simp add: comp_def case_prod_beta)
  moreover have "bt_get (map (\<lambda>(k, c). (k, rollback_report crypto ratchet records wm k c)) rb) k =
      Some (rollback_report crypto ratchet records wm k c)"
    using assms(3) by (induction rb) (auto simp: bt_get_def)
  ultimately show ?thesis
    unfolding settle_v1_parts(1) [OF assms(1,2)] by (simp add: bt_extend_get)
qed

lemma counter_of_admitted:
  "c \<in> admitted_counters a st d rs k \<Longrightarrow> \<exists>r \<in> set rs. vr_key r = k \<and> counter_of r = c"
  by (auto simp: admitted_counters_def counter_of_def)

lemma watermark_below:
  assumes "\<And>r. r \<in> set records \<Longrightarrow> vr_key r = k \<Longrightarrow> counter_of r < c" and "0 < c"
  shows "get_or_zero (fst (admitted_watermarks records st d)) k < c"
proof -
  let ?C = "admitted_counters (attested_users records) st d records k"
  have "x < c" if "x \<in> ?C" for x
    using counter_of_admitted [OF that] assms(1) by auto
  then show ?thesis
    using assms(2) admitted_counters_finite [of "attested_users records" st d records k]
    by (simp add: get_or_zero_def admitted_watermarks_get)
qed

text \<open>The clock: the largest admitted counter of a settled state, and its successor.\<close>

lemma foldr_max: "foldr max xs (0 :: u64) = Max (insert 0 (set xs))"
proof (induction xs)
  case (Cons x xs)
  have "Max (insert 0 (set (x # xs))) = Max (insert x (insert 0 (set xs)))"
    by (rule arg_cong [of _ _ Max]) auto
  also have "\<dots> = max x (Max (insert 0 (set xs)))"
    by (rule Max_insert) auto
  finally show ?case using Cons by simp
qed simp

lemma Max_insert_0: "finite C \<Longrightarrow> C \<noteq> {} \<Longrightarrow> Max (insert 0 C) = Max (C :: u64 set)"
  by (simp add: max_def word_le_0_iff)

lemma bt_values_iff:
  assumes "bt_wf m"
  shows "c \<in> set (bt_values m) \<longleftrightarrow> (\<exists>k. bt_get m k = Some c)"
proof
  assume "c \<in> set (bt_values m)"
  then obtain k where "(k, c) \<in> set m" by auto
  then show "\<exists>k. bt_get m k = Some c"
    using wf_distinct [OF assms] by (auto simp: bt_get_def)
next
  assume "\<exists>k. bt_get m k = Some c"
  then obtain k where "(k, c) \<in> set m" by (auto simp: bt_get_def dest: map_of_SomeD)
  then show "c \<in> set (bt_values m)" by (auto intro: rev_image_eqI)
qed

lemma max_value_eq: "max_value m = (if m = [] then None else Some (Max (set (bt_values m))))"
  using Max_insert_0 [of "set (bt_values m)"] by (simp add: max_value_def foldr_max del: set_map)

lemma MAX_LWW_COUNTER_unat: "unat MAX_LWW_COUNTER = 2 ^ 62"
  by (simp add: MAX_LWW_COUNTER_def)

lemma saturating_Suc:
  assumes "c \<le> MAX_LWW_COUNTER"
  shows "u64_saturating_add c 1 = c + 1" and "unat (c + 1) = unat c + 1" and "c < c + 1"
proof -
  have c: "unat c \<le> 2 ^ 62"
    using assms MAX_LWW_COUNTER_unat by (simp add: word_le_nat_alt)
  then show "u64_saturating_add c 1 = c + 1"
    by (simp add: u64_saturating_add_def)
  show plus: "unat (c + 1) = unat c + 1"
    using c by (subst unat_add_lem [THEN iffD1]) simp_all
  then show "c < c + 1"
    by (simp add: word_less_nat_alt)
qed

definition admitted_in_vault :: "CryptoProvider \<Rightarrow> SelectedRoot \<Rightarrow> VerifiedRecord list \<Rightarrow> VerifiedRecord \<Rightarrow> bool" where
  "admitted_in_vault crypto root records r \<longleftrightarrow>
     (case resolve_effective_with_deletions crypto root records [] of (st, d) \<Rightarrow>
        r \<in> set records \<and> is_admitted (attested_users records) st d r)"

lemma settled_max:
  assumes settle: "settle_v1 crypto ratchet root records = (eff, upd, iss)"
  defines "C \<equiv> {c. \<exists>r. admitted_in_vault crypto root records r \<and> lww_counter (vr_body r) = Some c}"
  shows "es_admitted_counter_max eff = (if C = {} then None else Some (Max C))" and "finite C"
proof -
  obtain wm rb eff0 where parts: "settled_rollbacks crypto ratchet root records = (wm, rb, eff0)"
    by (metis prod_cases3)
  obtain st d where prov: "resolve_effective_with_deletions crypto root records [] = (st, d)"
    by (metis surj_pair)
  have wm: "wm = admitted_watermarks records st d"
    using parts prov by (simp add: settled_rollbacks_def Let_def)
  let ?A = "admitted_counters (attested_users records) st d records"
  have C: "C = (\<Union>k. ?A k)"
    unfolding C_def admitted_in_vault_def prov prod.case admitted_counters_def by blast
  have "C \<subseteq> (\<lambda>r. the (lww_counter (vr_body r))) ` set records"
  proof
    fix c assume "c \<in> C"
    then obtain r where "r \<in> set records" "lww_counter (vr_body r) = Some c"
      unfolding C_def admitted_in_vault_def prov prod.case by blast
    then show "c \<in> (\<lambda>r. the (lww_counter (vr_body r))) ` set records"
      by (intro image_eqI [of _ _ r]) simp_all
  qed
  then show fin: "finite C"
    by (rule finite_subset) simp
  note values_iff = bt_values_iff [OF admitted_watermarks_wf(1) [of records st d, folded wm]]
  have sub: "set (bt_values (fst wm)) \<subseteq> C"
  proof
    fix v assume "v \<in> set (bt_values (fst wm))"
    then obtain k where "bt_get (fst wm) k = Some v" unfolding values_iff by blast
    then have v: "v = Max (?A k)" and ne: "?A k \<noteq> {}"
      unfolding wm admitted_watermarks_get by (simp_all split: if_splits)
    have "v \<in> ?A k"
      unfolding v by (rule Max_in [OF admitted_counters_finite ne])
    then show "v \<in> C" unfolding C by blast
  qed
  have top: "\<exists>v \<in> set (bt_values (fst wm)). c \<le> v" if c: "c \<in> C" for c
  proof -
    obtain k where "c \<in> ?A k" using c C by blast
    then have le: "c \<le> Max (?A k)" and "?A k \<noteq> {}"
      using Max_ge [OF admitted_counters_finite] by blast+
    then have "bt_get (fst wm) k = Some (Max (?A k))"
      unfolding wm admitted_watermarks_get by simp
    then have "Max (?A k) \<in> set (bt_values (fst wm))"
      unfolding values_iff by (rule_tac exI)
    with le show ?thesis by (rule bexI)
  qed
  have empty: "fst wm = [] \<longleftrightarrow> C = {}"
  proof
    assume "fst wm = []"
    then have none: "set (bt_values (fst wm)) = {}" by simp
    show "C = {}"
    proof (rule ccontr)
      assume "C \<noteq> {}"
      then obtain c where "c \<in> C" unfolding ex_in_conv [symmetric] by (elim exE)
      from top [OF this] show False unfolding none by simp
    qed
  next
    assume "C = {}"
    with sub show "fst wm = []" by simp
  qed
  have "Max (set (bt_values (fst wm))) = Max C" if C_ne: "C \<noteq> {}"
  proof (rule antisym)
    have ne: "set (bt_values (fst wm)) \<noteq> {}" using C_ne empty by simp
    show "Max (set (bt_values (fst wm))) \<le> Max C"
      by (rule Max_mono [OF sub ne fin])
    obtain v where "v \<in> set (bt_values (fst wm))" "Max C \<le> v"
      using top Max_in [OF fin C_ne] by blast
    then show "Max C \<le> Max (set (bt_values (fst wm)))"
      using Max_ge [OF List.finite_set, of v "bt_values (fst wm)"] by (rule_tac order.trans)
  qed
  moreover note empty
  ultimately show "es_admitted_counter_max eff = (if C = {} then None else Some (Max C))"
    using settled_frames(12) [OF settle parts] by (simp add: max_value_eq)
qed

end
