(* ===== verification/Thorax_Validation.thy ===== *)
theory Thorax_Validation
  imports Thorax_Pipeline
begin

text \<open>
  What validation as a whole guarantees, over \<open>validate_vault\<close> and its authority half
  \<open>settle_v1\<close> of \<open>Thorax_Pipeline\<close>: the accepted records are signed, the root is the trusted one,
  a rollback fails closed, the clock advances past every admitted record, an unresolved state is
  reported and inert, and the reported ratchet update settles in one step. The witnesses run the
  pipeline on a vault that holds its own root record.
\<close>

section \<open>The root\<close>

text \<open>A record that anchors a vault: a self-signed root whose key is the trusted one.\<close>

definition trusted_root_record :: "CryptoProvider \<Rightarrow> HashValue \<Rightarrow> HashValue set \<Rightarrow> HashedRecord \<Rightarrow> bool" where
  "trusted_root_record crypto trusted verified hr \<longleftrightarrow>
     (\<exists>root. known (rec_body (fst hr)) = Some (RecordBodyV1.VaultRoot root)
       \<and> derive_user_id crypto (rec_signing_public_key (fst hr)) (root_hpke_public_key root) = Inr (root_id root)
       \<and> check_envelope crypto verified hr = Inr True
       \<and> key_hash crypto (rec_signing_public_key (fst hr)) = Inr trusted)"

lemma root_matches_filter:
  assumes "root_matches crypto trusted verified hrs = Inr ms"
  shows "\<exists>hs. hs = filter (trusted_root_record crypto trusted verified) hrs
    \<and> map selected_signing_public_key ms = map (\<lambda>hr. rec_signing_public_key (fst hr)) hs
    \<and> map (\<lambda>m. Some (RecordBodyV1.VaultRoot (selected_root m))) ms = map (\<lambda>hr. known (rec_body (fst hr))) hs"
  using assms
proof (induction hrs arbitrary: ms)
  case (Cons hr hrs)
  show ?case
  proof (cases "trusted_root_record crypto trusted verified hr")
    case True
    then obtain root where root: "known (rec_body (fst hr)) = Some (RecordBodyV1.VaultRoot root)"
        "derive_user_id crypto (rec_signing_public_key (fst hr)) (root_hpke_public_key root) = Inr (root_id root)"
        "check_envelope crypto verified hr = Inr True" "key_hash crypto (rec_signing_public_key (fst hr)) = Inr trusted"
      unfolding trusted_root_record_def by blast
    then show ?thesis
      using Cons True by (auto simp: and_then_Inr_iff Let_def)
  next
    case False
    then have "root_matches crypto trusted verified hrs = Inr ms"
      using Cons.prems by (auto simp: trusted_root_record_def and_then_Inr_iff Let_def
          split: option.splits RecordBodyV1.splits if_splits)
    with Cons.IH False show ?thesis by simp
  qed
qed simp

lemma compute_root: "es_root_user_id (compute_effective_state crypto ru rh rs adm rb) = Some (user_id ru)"
  by (simp add: compute_effective_state_def Let_def case_prod_beta)

lemma settled_root:
  assumes settle: "settle_v1 crypto ratchet root records = (eff, upd, iss)"
  shows "es_root_user_id eff = Some (root_id (selected_root root))"
proof -
  obtain wm rb eff0 where parts: "settled_rollbacks crypto ratchet root records = (wm, rb, eff0)"
    by (metis prod_cases3)
  show ?thesis
    unfolding settled_frames(10) [OF settle parts] settle_v1_parts(5) [OF settle parts]
    using resolved_state [of crypto root records rb] by (auto simp: compute_root user_from_root_def)
qed

section \<open>Validating again\<close>

text \<open>A second validation, after the reported update is folded into the ratchet.\<close>

lemma fold_raise_get:
  assumes "distinct (map fst ps)"
  shows "bt_get (watermarks (fold (\<lambda>(k, c). raise_watermark k c) ps r)) k =
     (case bt_get ps k of None \<Rightarrow> bt_get (watermarks r) k | Some c \<Rightarrow> Some (max (watermark_level r k) c))"
  using assms
proof (induction ps arbitrary: r)
  case (Cons p ps)
  obtain k' c where p: "p = (k', c)" by (cases p)
  have "bt_get ps k' = None"
    using Cons.prems p by (auto simp: bt_get_def map_of_eq_None_iff)
  with Cons p show ?case
    by (auto simp: raise_watermark_get watermark_level_raise bt_get_def [of "_ # _"] bt_get_def [symmetric]
        split: option.splits)
qed (simp add: bt_get_def)

lemma fold_raise_wf: "bt_wf (watermarks r) \<Longrightarrow> bt_wf (watermarks (fold (\<lambda>(k, c). raise_watermark k c) ps r))"
  by (induction ps arbitrary: r) (auto simp: raise_watermark_def bt_entry_def bt.wf_insert)

lemma update_of_get:
  assumes "bt_wf (fst wm)" and "bt_wf (snd wm)"
  shows "bt_get (raised_watermarks (ratchet_update_of ratchet wm)) k =
      (case bt_get (fst wm) k of Some c \<Rightarrow> if get_or_zero (watermarks ratchet) k < c then Some c else None | None \<Rightarrow> None)"
    and "bt_wf (raised_watermarks (ratchet_update_of ratchet wm))"
    and "bt_get (update_origins (ratchet_update_of ratchet wm)) k =
      (if bt_contains_key (origins ratchet) k then None else bt_get (snd wm) k)"
    and "bt_wf (update_origins (ratchet_update_of ratchet wm))"
  using fold_filter_get [OF wf_distinct [OF assms(1)], of "\<lambda>k c. get_or_zero (watermarks ratchet) k < c" "[]" k]
    fold_filter_get [OF wf_distinct [OF assms(2)], of "\<lambda>k _. \<not> bt_contains_key (origins ratchet) k" "[]" k]
    fold_filter_wf [OF bt.wf_empty, of "\<lambda>k c. get_or_zero (watermarks ratchet) k < c" "fst wm"]
    fold_filter_wf [OF bt.wf_empty, of "\<lambda>k _. \<not> bt_contains_key (origins ratchet) k" "snd wm"]
  by (auto simp: ratchet_update_of_def bt_get_def [of "[]"] split: option.splits)

lemma updated_watermarks:
  assumes "bt_wf (fst wm)" and "bt_wf (snd wm)"
  shows "bt_get (watermarks (apply_update (ratchet_update_of ratchet wm) ratchet)) k =
    (case bt_get (fst wm) k of
       Some c \<Rightarrow> if get_or_zero (watermarks ratchet) k < c then Some c else bt_get (watermarks ratchet) k
     | None \<Rightarrow> bt_get (watermarks ratchet) k)"
proof -
  have level: "watermark_level ratchet k = get_or_zero (watermarks ratchet) k"
    by (simp add: watermark_level_def get_or_zero_def)
  show ?thesis
    unfolding apply_update_fields fold_raise_get [OF wf_distinct [OF update_of_get(2) [OF assms]]]
    by (auto simp: update_of_get(1) [OF assms] level max_def split: option.splits)
qed

lemma updated_rollbacks:
  assumes "bt_wf (watermarks ratchet)" and "bt_wf (fst wm)" and "bt_wf (snd wm)"
  shows "rollback_keys_of (apply_update (ratchet_update_of ratchet wm) ratchet) (fst wm) =
    rollback_keys_of ratchet (fst wm)"
proof (rule bt.wf_ext [OF rollback_keys_wf rollback_keys_wf])
  fix k
  let ?r = "apply_update (ratchet_update_of ratchet wm) ratchet"
  have wf: "bt_wf (watermarks ?r)"
    unfolding apply_update_fields by (rule fold_raise_wf [OF assms(1)])
  have "bt_get (rollback_keys_of ?r (fst wm)) k = Some c \<longleftrightarrow> bt_get (rollback_keys_of ratchet (fst wm)) k = Some c"
    for c
    unfolding rollback_keys_get [OF wf] rollback_keys_get [OF assms(1)] updated_watermarks [OF assms(2,3)]
    by (auto simp: get_or_zero_def split: option.splits if_splits)
  then show "bt_get (rollback_keys_of ?r (fst wm)) k = bt_get (rollback_keys_of ratchet (fst wm)) k"
    by (metis option.exhaust)
qed

lemma updated_report:
  assumes "bt_wf (fst wm)" and "bt_wf (snd wm)"
  shows "rollback_report crypto (apply_update (ratchet_update_of ratchet wm) ratchet) records wm k c =
    rollback_report crypto ratchet records wm k c"
  by (simp add: rollback_report_def Let_def apply_update_fields update_of_get(3) [OF assms]
      split: option.splits)

lemma updated_update:
  assumes "bt_wf (fst wm)" and "bt_wf (snd wm)"
  shows "ratchet_update_of (apply_update (ratchet_update_of ratchet wm) ratchet) wm = default_ratchet_update"
    (is "ratchet_update_of ?r wm = _")
proof -
  have "raised_watermarks (ratchet_update_of ?r wm) = []"
  proof (rule bt.wf_ext [OF update_of_get(2) [OF assms] bt.wf_empty])
    show "bt_get (raised_watermarks (ratchet_update_of ?r wm)) k = bt_get [] k" for k
      using updated_watermarks [OF assms, of ratchet k]
      by (auto simp: update_of_get(1) [OF assms, of ?r] get_or_zero_def bt_get_def [of "[]"] split: option.splits if_splits)
  qed
  moreover have "update_origins (ratchet_update_of ?r wm) = []"
  proof (rule bt.wf_ext [OF update_of_get(4) [OF assms] bt.wf_empty])
    show "bt_get (update_origins (ratchet_update_of ?r wm)) k = bt_get [] k" for k
      by (auto simp: update_of_get(3) [OF assms] bt_contains_key_def apply_update_fields bt_get_def [of "[]"]
          split: option.splits)
  qed
  moreover have "raised_format_version (ratchet_update_of ?r wm) = None"
    by (simp add: ratchet_update_of_def)
  ultimately show ?thesis
    by (simp add: default_ratchet_update_def)
qed

lemma update_version_irrelevant:
  "settle_v1 crypto (r\<lparr>ratchet_format_version := v\<rparr>) root records = settle_v1 crypto r root records"
  "validate_v1 crypto (r\<lparr>ratchet_format_version := v\<rparr>) verified vault = validate_v1 crypto r verified vault"
proof -
  have "ratchet_update_of (r\<lparr>ratchet_format_version := v\<rparr>) wm = ratchet_update_of r wm"
    "rollback_keys_of (r\<lparr>ratchet_format_version := v\<rparr>) m = rollback_keys_of r m"
    "rollback_report crypto (r\<lparr>ratchet_format_version := v\<rparr>) records wm k c = rollback_report crypto r records wm k c"
    for wm m k c records
    by (simp_all add: ratchet_update_of_def rollback_keys_of_def rollback_report_def Let_def
        cong: option.case_cong)
  then have settle: "settle_v1 crypto (r\<lparr>ratchet_format_version := v\<rparr>) = settle_v1 crypto r"
    by (intro ext) (simp add: settle_v1_def)
  then show "settle_v1 crypto (r\<lparr>ratchet_format_version := v\<rparr>) root records = settle_v1 crypto r root records"
    by simp
  show "validate_v1 crypto (r\<lparr>ratchet_format_version := v\<rparr>) verified vault = validate_v1 crypto r verified vault"
    unfolding validate_v1_def select_root_def settle by simp
qed

lemma settle_again:
  assumes settle: "settle_v1 crypto ratchet root records = (eff, upd, iss)" and wf: "bt_wf (watermarks ratchet)"
  shows "settle_v1 crypto (apply_update upd ratchet) root records = (eff, default_ratchet_update, iss)"
proof -
  obtain wm rb eff0 where parts: "settled_rollbacks crypto ratchet root records = (wm, rb, eff0)"
    by (metis prod_cases3)
  obtain st d where wm: "wm = admitted_watermarks records st d"
    using settle_v1_parts(6) [OF settle parts] by blast
  note wfs = admitted_watermarks_wf [of records st d, folded wm]
  have upd: "upd = ratchet_update_of ratchet wm"
    by (rule settle_v1_parts(2) [OF settle parts])
  have parts': "settled_rollbacks crypto (apply_update upd ratchet) root records = (wm, rb, eff0)"
    using parts updated_rollbacks [OF wf wfs]
    unfolding settled_rollbacks_def Let_def upd by (metis Pair_inject)
  obtain eff' upd' iss' where settle': "settle_v1 crypto (apply_update upd ratchet) root records = (eff', upd', iss')"
    by (metis prod_cases3)
  have "eff' = eff" "upd' = default_ratchet_update" "iss' = iss"
    using settle_v1_parts [OF settle' parts'] settle_v1_parts [OF settle parts]
    by (simp_all add: upd updated_report [OF wfs] updated_update [OF wfs])
  with settle' show ?thesis by simp
qed

lemma validate_v1_again:
  assumes valid: "validate_v1 crypto ratchet verified vault = Inr report" and wf: "bt_wf (watermarks ratchet)"
  shows "validate_v1 crypto (apply_update (vrep_ratchet_update report) ratchet) verified vault =
    Inr (report\<lparr>vrep_ratchet_update := default_ratchet_update\<rparr>)"
proof -
  note [simp] = apply_update_fields(4) select_root_def and_then_Inr_iff
  from valid show ?thesis
  proof (cases rule: validate_v1_cases)
    case no_root
    have "apply_update default_ratchet_update ratchet = ratchet"
      by (simp add: apply_update_def default_ratchet_update_def)
    with no_root valid show ?thesis by simp
  next
    case (root hrs root kr v eff upd iss)
    then show ?thesis
      using settle_again [OF root(5) wf] by (simp add: validate_v1_def)
  qed
qed

lemma validate_v1_raises_no_version:
  assumes "validate_v1 crypto ratchet verified vault = Inr report"
  shows "raised_format_version (vrep_ratchet_update report) = None"
  using assms
proof (cases rule: validate_v1_cases)
  case (root hrs root kr v eff upd iss)
  then show ?thesis
    by (auto simp: settle_v1_def Let_def ratchet_update_of_def case_prod_beta)
qed (simp add: default_ratchet_update_def)

lemma apply_raised_version:
  assumes "raised_format_version u = None"
  shows "apply_update (u\<lparr>raised_format_version := Some v\<rparr>) r =
    (apply_update u r)\<lparr>ratchet_format_version := max (ratchet_format_version r) v\<rparr>"
  using assms by (simp add: apply_update_def Let_def)

section \<open>A sample vault\<close>

text \<open>A vault that holds its self-signed root record, under the repository's deterministic provider.\<close>

definition sample_vault_root :: VaultRootRecordV1 where
  "sample_vault_root = \<lparr>root_id = UserId (det_hash ''thorax.user.v1'' []), root_hpke_public_key = [2]\<rparr>"

definition sample_root_record :: VaultRecordV1 where
  "sample_root_record = \<lparr>rec_body = Known (RecordBodyV1.VaultRoot sample_vault_root),
     rec_signing_public_key = [1], rec_signature = det_sign ''thorax.signed.v1'' [1] []\<rparr>"

definition sample_selected :: SelectedRoot where
  "sample_selected = \<lparr>selected_root = sample_vault_root, selected_signing_public_key = [1],
     selected_root_hash = det_hash ''thorax.key.v1'' []\<rparr>"

definition sample_anchor :: Ratchet where
  "sample_anchor = ratchet_new (det_hash ''thorax.key.v1'' [])"

definition sample_verified_root :: VerifiedRecord where
  "sample_verified_root = \<lparr>vr_signed = sample_root_record,
     vr_body = RecordBodyV1.VaultRoot sample_vault_root,
     vr_key = RecordKey.VaultRoot,
     vr_record_hash = det_hash ''thorax.record-hash.v1'' [], vr_signer = root_id sample_vault_root\<rparr>"

lemma sample_hash: "derive_hash sample_crypto d v = Inr (det_hash d [])"
  by (simp add: derive_hash_def canonical_bytes_def sample_crypto_def DeterministicCrypto_def)

lemmas sample_evals = sample_hash derive_user_id_def key_hash_def record_hash_def sample_root_record_def
  sample_vault_root_def sample_selected_def sample_verified_root_def signed_record_message_def

lemma sample_dedup:
  "dedup_loop sample_crypto {} [sample_root_record] =
     Inr [(sample_root_record, det_hash ''thorax.record-hash.v1'' [])]"
  by (simp add: sample_evals)

lemma sample_envelope: "check_envelope sample_crypto {} (sample_root_record, h) = Inr True"
  by (simp add: sample_evals check_envelope_def envelope_verifies_def sample_crypto_def DeterministicCrypto_def
      canonical_bytes_def det_verify_signature_def)

lemma sample_select:
  "select_root sample_crypto sample_anchor {} [(sample_root_record, h)] = Inr (Some sample_selected, [])"
proof -
  have "root_matches sample_crypto (trusted_root sample_anchor) {} [(sample_root_record, h)] = Inr [sample_selected]"
    using sample_envelope [of h] by (simp add: sample_evals sample_anchor_def ratchet_new_def)
  then show ?thesis
    by (simp add: select_root_def)
qed

lemma sample_keys:
  "signing_keys sample_crypto {} sample_selected [(sample_root_record, h)] =
     Inr \<lparr>signer_for_key = [([1], root_id sample_vault_root)], contested_keys = {}, ambiguous_keys = []\<rparr>"
  by (simp add: signing_keys_def introduce.simps user_bodies_def map_filter_simps sample_evals)

lemma sample_verified:
  "verify_records sample_crypto {} sample_vault_root
     \<lparr>signer_for_key = [([1], root_id sample_vault_root)], contested_keys = {}, ambiguous_keys = []\<rparr>
     [(sample_root_record, det_hash ''thorax.record-hash.v1'' [])]
     \<lparr>verified_list = [], verification_issues = [], unknown_count = 0\<rparr> =
   Inr \<lparr>verified_list = [sample_verified_root], verification_issues = [], unknown_count = 0\<rparr>"
  using sample_envelope
  by (simp add: sample_evals structurally_validate_record_def bt_get_def)

lemma sample_validate_v1:
  "validate_v1 sample_crypto sample_anchor {} \<lparr>vs_records = [sample_root_record]\<rparr> =
     (case settle_v1 sample_crypto sample_anchor sample_selected [sample_verified_root] of
        (effective, update, issues) \<Rightarrow> Inr \<lparr>vrep_effective = effective, vrep_ratchet_update = update,
           vrep_issues = issues, vrep_warnings = []\<rparr>)"
proof -
  have "selected_root sample_selected = sample_vault_root"
    by (simp add: sample_selected_def)
  then show ?thesis
    by (simp add: validate_v1_def sample_dedup sample_select sample_keys sample_verified warnings_for_def
        del: verify_records.simps dedup_loop.simps split: prod.splits)
qed

lemma sample_validates:
  obtains report where
    "validate_vault sample_crypto (VaultStore.V1 \<lparr>vs_records = [sample_root_record]\<rparr>) sample_anchor = Inr report"
    "sample_verified_root \<in> set (es_verified_records (vrep_effective report))"
    "es_root_user_id (vrep_effective report) = Some (root_id sample_vault_root)"
proof -
  obtain eff upd iss where settle:
      "settle_v1 sample_crypto sample_anchor sample_selected [sample_verified_root] = (eff, upd, iss)"
    by (metis prod_cases3)
  obtain wm rb eff0 where parts:
      "settled_rollbacks sample_crypto sample_anchor sample_selected [sample_verified_root] = (wm, rb, eff0)"
    by (metis prod_cases3)
  have "es_root_user_id eff = Some (root_id sample_vault_root)"
    using settled_root [OF settle] by (simp add: sample_selected_def)
  moreover have fresh: "ratchet_format_version sample_anchor = 0"
    by (simp add: sample_anchor_def ratchet_new_def)
  then obtain report where
      "validate_vault sample_crypto (VaultStore.V1 \<lparr>vs_records = [sample_root_record]\<rparr>) sample_anchor = Inr report"
      "vrep_effective report = eff"
    using fresh
    by (simp add: validate_vault_def validate_vault_with_verified_def Let_def sample_validate_v1 settle)
  ultimately show thesis
    using that settled_frames(11) [OF settle parts] by simp
qed

section \<open>Properties\<close>

text \<open>
  C6. Nothing unsigned takes part: when a vault validates, every record that validation accepts
  is a record of the vault with a readable, structurally valid body, its signature verifies
  under the signing key of its envelope over its canonical body, its hash is the content hash of
  the whole envelope, and its logical key is derived from its body and the identity the signing
  key resolved to.
\<close>

theorem verified_records_are_signed:
  assumes "validate_vault crypto (VaultStore.V1 vault) ratchet = Inr report"
    and "r \<in> set (es_verified_records (vrep_effective report))"
  shows "vr_signed r \<in> set (vs_records vault) \<and> known (rec_body (vr_signed r)) = Some (vr_body r)
    \<and> (\<exists>message. signed_record_message crypto (vr_signed r) = Inr message
         \<and> verify_signature crypto ''thorax.signed.v1'' (rec_signing_public_key (vr_signed r)) message
             (rec_signature (vr_signed r)))
    \<and> record_hash crypto (vr_signed r) = Inr (vr_record_hash r)
    \<and> record_key_for (vr_body r) (vr_signer r) = Inr (vr_key r)"
proof -
  have no: "es_verified_records unresolved_state = []"
    by (simp add: unresolved_state_def default_effective_state_def)
  obtain rep where rep: "validate_v1 crypto ratchet {} vault = Inr rep"
      "vrep_effective report = vrep_effective rep"
    using assms no by (auto simp: validate_vault_def validate_vault_with_verified_def Let_def and_then_Inr_iff
        split: if_splits)
  from rep(1) show ?thesis
  proof (cases rule: validate_v1_cases)
    case no_root
    with assms(2) rep(2) no show ?thesis by simp
  next
    case (root hrs root kr v eff upd iss)
    have "r \<in> set (verified_list v)"
      using assms(2) rep(2) root(6) settle_v1_fields [OF root(5)] by simp
    then have ok: "verified_ok crypto {} (selected_root root) kr (set hrs) r"
      using verified_list_ok(1) [OF root(1) root(4)] by (simp add: list_all_iff)
    then have "vr_signed r \<in> set (vs_records vault) \<and> record_hash crypto (vr_signed r) = Inr (vr_record_hash r)"
      using dedup_loop_Inr [OF root(1)] by (auto simp: verified_ok_def)
    with ok show ?thesis
      by (auto simp: verified_ok_def check_envelope_def and_then_Inr_iff envelope_verifies_def keyed_def)
  qed
qed

theorem verified_records_are_signed_witness:
  "\<exists>message. signed_record_message sample_crypto sample_root_record = Inr message
     \<and> verify_signature sample_crypto ''thorax.signed.v1'' [1] message (rec_signature sample_root_record)"
proof -
  obtain report where
      "validate_vault sample_crypto (VaultStore.V1 \<lparr>vs_records = [sample_root_record]\<rparr>) sample_anchor = Inr report"
      "sample_verified_root \<in> set (es_verified_records (vrep_effective report))"
    by (rule sample_validates)
  from verified_records_are_signed [OF this] show ?thesis
    by (simp add: sample_verified_root_def) (simp add: sample_root_record_def)
qed

text \<open>
  C1. A rollback is never silent and never takes effect: when this machine remembers a counter
  at a key and every verified record at that key stays below it, the key is reported as a
  rollback conflict with the remembered counter; no grant, group, membership, non-root user,
  handle, vault handle or entry point is effective there; and a secret at that key reads as
  conflicted (or as invalid, when the whole state is unresolved) for every user.
\<close>

theorem rollback_fails_closed:
  assumes settle: "settle_v1 crypto ratchet root records = (eff, upd, iss)"
    and wf: "bt_wf (watermarks ratchet)" and keyed: "list_all keyed records"
    and remembered: "bt_get (watermarks ratchet) k = Some c" and pos: "0 < c"
    and below: "\<And>r. r \<in> set records \<Longrightarrow> vr_key r = k \<Longrightarrow> counter_of r < c"
  shows "(\<exists>report. bt_get (es_conflicted eff) k = Some report \<and> cr_key report = k \<and> cr_kind report = Rollback c)
    \<and> (\<forall>i. k = RecordKey.Grant i \<longrightarrow> bt_get (es_grants eff) i = None)
    \<and> (\<forall>i. k = RecordKey.Group i \<longrightarrow> bt_get (es_groups eff) i = None)
    \<and> (\<forall>i. k = RecordKey.GroupMember i \<longrightarrow> bt_get (es_memberships eff) i = None)
    \<and> (\<forall>i. k = RecordKey.User i \<longrightarrow> i \<noteq> root_id (selected_root root) \<longrightarrow> bt_get (es_users eff) i = None)
    \<and> (\<forall>i. k = RecordKey.UserHandle i \<longrightarrow> bt_get (es_handles eff) i = None)
    \<and> (\<forall>i. k = RecordKey.VaultHandle i \<longrightarrow> bt_get (es_vault_handles eff) i = None)
    \<and> (\<forall>i. k = RecordKey.EntryPoint i \<longrightarrow> bt_get (es_entry_points eff) i = None)
    \<and> (\<forall>i s user. k = RecordKey.Secret i \<longrightarrow> derive_secret_id crypto s = Inr i \<longrightarrow>
         classify_secret_for_user eff crypto s user = (if es_authority_unresolved eff then Invalid else Conflicted))"
proof -
  obtain wm rb eff0 where parts: "settled_rollbacks crypto ratchet root records = (wm, rb, eff0)"
    by (metis prod_cases3)
  obtain st d where wm: "wm = admitted_watermarks records st d"
    using settle_v1_parts(6) [OF settle parts] by blast
  have rb: "bt_get rb k = Some c"
    using settle_v1_parts(4) [OF settle parts] rollback_keys_get [OF wf] remembered
      watermark_below [OF below pos] wm by simp
  have conf: "bt_get (es_conflicted eff) k = Some (rollback_report crypto ratchet records wm k c)"
    by (rule rollback_report_get [OF settle parts rb])
  obtain adm where eff0: "eff0 = compute_effective_state crypto
       (user_from_root (selected_root root) (selected_signing_public_key root)) (selected_root_hash root)
       records adm rb"
    using settle_v1_parts(5) [OF settle parts] resolved_state by metis
  have "bt_contains_key rb k"
    using rb by (simp add: bt_contains_key_def)
  note inert = disputed_inert [OF keyed disjI2 [OF this],
      where crypto = crypto and ru = "user_from_root (selected_root root) (selected_signing_public_key root)"
        and rh = "selected_root_hash root" and adm = adm, folded eff0]
  have "classify_secret_for_user eff crypto s user = (if es_authority_unresolved eff then Invalid else Conflicted)"
    if "k = RecordKey.Secret i" "derive_secret_id crypto s = Inr i" for i s user
    using conf that by (simp add: classify_secret_for_user_def secret_conflict_def)
  moreover have "cr_key (rollback_report crypto ratchet records wm k c) = k"
    "cr_kind (rollback_report crypto ratchet records wm k c) = Rollback c"
    by (simp_all add: rollback_report_def Let_def)
  ultimately show ?thesis
    using inert conf unfolding settled_frames [OF settle parts] by (simp add: user_from_root_def)
qed

theorem rollback_fails_closed_witness:
  "\<exists>report. bt_get (es_conflicted (fst (settle_v1 sample_crypto
        (sample_anchor\<lparr>watermarks := [(RecordKey.Group (GroupId (HashValue [1])), 9)]\<rparr>) sample_selected
        [sample_verified_root, sample_deletion 5 3]))) (RecordKey.Group (GroupId (HashValue [1]))) = Some report
     \<and> cr_kind report = Rollback 9"
proof -
  let ?k = "RecordKey.Group (GroupId (HashValue [1]))"
  let ?ratchet = "sample_anchor\<lparr>watermarks := [(?k, 9)]\<rparr>"
  let ?records = "[sample_verified_root, sample_deletion 5 3]"
  let ?s = "settle_v1 sample_crypto ?ratchet sample_selected ?records"
  have "?s = (fst ?s, fst (snd ?s), snd (snd ?s))" by simp
  moreover have "bt_wf (watermarks ?ratchet)" by (simp add: bt_wf_def)
  moreover have "list_all keyed ?records"
    by (simp add: keyed_def sample_verified_root_def sample_deletion_def Let_def)
  moreover have "bt_get (watermarks ?ratchet) ?k = Some 9" by (simp add: bt_get_def)
  moreover have "(0 :: u64) < 9" by simp
  moreover have "counter_of r < 9" if "r \<in> set ?records" "vr_key r = ?k" for r
    using that by (auto simp: counter_of_def sample_verified_root_def sample_deletion_def Let_def)
  ultimately show ?thesis
    using rollback_fails_closed [of sample_crypto ?ratchet sample_selected ?records "fst ?s" "fst (snd ?s)"
        "snd (snd ?s)" ?k 9] by blast
qed

text \<open>
  C28. Authorised writes advance the clock and nothing else does: the counter a writer stamps
  next is one above the largest counter of an admitted record (zero when there is none), so it
  is strictly above every admitted record, and it does not wrap, because structural validation
  caps the counters it builds on.
\<close>

theorem next_counter_above_admitted:
  assumes settle: "settle_v1 crypto ratchet root records = (eff, upd, iss)"
    and capped: "\<And>r c. r \<in> set records \<Longrightarrow> lww_counter (vr_body r) = Some c \<Longrightarrow> c \<le> MAX_LWW_COUNTER"
  shows "(\<forall>r c. admitted_in_vault crypto root records r \<longrightarrow> lww_counter (vr_body r) = Some c \<longrightarrow>
            c < next_counter eff)
    \<and> (next_counter eff = 0 \<or> (\<exists>r c. admitted_in_vault crypto root records r
            \<and> lww_counter (vr_body r) = Some c \<and> next_counter eff = c + 1 \<and> unat (next_counter eff) = unat c + 1))"
proof -
  let ?C = "{c. \<exists>r. admitted_in_vault crypto root records r \<and> lww_counter (vr_body r) = Some c}"
  have cap: "c \<le> MAX_LWW_COUNTER" if "c \<in> ?C" for c
    using that capped by (auto simp: admitted_in_vault_def case_prod_beta)
  show ?thesis
  proof (cases "?C = {}")
    case True
    then show ?thesis
      using settled_max(1) [OF settle] by (auto simp: next_counter_def)
  next
    case False
    have mem: "Max ?C \<in> ?C"
      by (rule Max_in [OF settled_max(2) [OF settle] False])
    have max: "es_admitted_counter_max eff = Some (Max ?C)"
      unfolding settled_max(1) [OF settle] by (rule if_not_P [OF False])
    have nxt: "next_counter eff = Max ?C + 1" "unat (next_counter eff) = unat (Max ?C) + 1" "Max ?C < next_counter eff"
      unfolding next_counter_def max option.case using saturating_Suc [OF cap [OF mem]] by simp_all
    have "c < next_counter eff" if "c \<in> ?C" for c
      using Max_ge [OF settled_max(2) [OF settle] that] nxt(3) by (rule le_less_trans)
    with mem nxt show ?thesis by blast
  qed
qed

definition sample_entry_point :: VerifiedRecord where
  "sample_entry_point =
     (let body = RecordBodyV1.EntryPoint \<lparr>ep_trusted_root_user_id = root_id sample_vault_root,
                   ep_hpke_public_key = [2], ep_counter = 7\<rparr>
      in \<lparr>vr_signed = \<lparr>rec_body = Known body, rec_signing_public_key = [1], rec_signature = []\<rparr>,
          vr_body = body, vr_key = RecordKey.EntryPoint (root_id sample_vault_root),
          vr_record_hash = HashValue [4], vr_signer = root_id sample_vault_root\<rparr>)"

theorem next_counter_above_admitted_witness:
  "7 < next_counter (fst (settle_v1 sample_crypto sample_anchor sample_selected
        [sample_verified_root, sample_entry_point]))"
proof -
  let ?records = "[sample_verified_root, sample_entry_point]"
  let ?s = "settle_v1 sample_crypto sample_anchor sample_selected ?records"
  have settle: "?s = (fst ?s, fst (snd ?s), snd (snd ?s))" by simp
  show ?thesis
  proof (rule next_counter_above_admitted [OF settle, THEN conjunct1, rule_format])
    show "c \<le> MAX_LWW_COUNTER" if "r \<in> set ?records" "lww_counter (vr_body r) = Some c" for r c
      using that by (auto simp: sample_verified_root_def sample_entry_point_def Let_def MAX_LWW_COUNTER_def)
    show "admitted_in_vault sample_crypto sample_selected ?records sample_entry_point"
      by (simp add: admitted_in_vault_def is_admitted_def attested_users_def case_prod_beta)
         (simp add: sample_entry_point_def Let_def)
    show "lww_counter (vr_body sample_entry_point) = Some 7"
      by (simp add: sample_entry_point_def Let_def)
  qed
qed

text \<open>
  C5. The vault is anchored: when validation reports a root user, the vault holds a root record
  for that user, derived from its keys, correctly signed by itself, whose signing key hashes to
  the root that this machine trusts; and it is the only record of the vault with these qualities
  when content hashes tell the records apart, so a vault with two such roots is never resolved.
\<close>

theorem effective_root_is_trusted:
  assumes valid: "validate_vault crypto (VaultStore.V1 vault) ratchet = Inr report"
    and user: "es_root_user_id (vrep_effective report) = Some u"
  shows "\<exists>sr h. sr \<in> set (vs_records vault) \<and> record_hash crypto sr = Inr h
    \<and> trusted_root_record crypto (trusted_root ratchet) {} (sr, h)
    \<and> (\<exists>root. known (rec_body sr) = Some (RecordBodyV1.VaultRoot root) \<and> root_id root = u)
    \<and> (inj_on (record_hash crypto) (set (vs_records vault)) \<longrightarrow>
         (\<forall>sr' h'. sr' \<in> set (vs_records vault) \<longrightarrow> record_hash crypto sr' = Inr h' \<longrightarrow>
            trusted_root_record crypto (trusted_root ratchet) {} (sr', h') \<longrightarrow> sr' = sr))"
proof -
  have no: "es_root_user_id unresolved_state = None"
    by (simp add: unresolved_state_def default_effective_state_def)
  obtain rep where rep: "validate_v1 crypto ratchet {} vault = Inr rep"
      "vrep_effective report = vrep_effective rep"
    using valid user no by (auto simp: validate_vault_def validate_vault_with_verified_def Let_def and_then_Inr_iff
        split: if_splits)
  from rep(1) show ?thesis
  proof (cases rule: validate_v1_cases)
    case no_root
    with user rep(2) no show ?thesis by simp
  next
    case (root hrs root kr v eff upd iss)
    obtain hr where one: "filter (trusted_root_record crypto (trusted_root ratchet) {}) hrs = [hr]"
      and body: "known (rec_body (fst hr)) = Some (RecordBodyV1.VaultRoot (selected_root root))"
      using root_matches_filter [OF root(2)] by (auto simp: map_eq_Cons_conv)
    have only: "x = hr \<longleftrightarrow> x \<in> set hrs \<and> trusted_root_record crypto (trusted_root ratchet) {} x" for x
      using arg_cong [OF one, of set] by auto
    have u: "root_id (selected_root root) = u"
      using user rep(2) root(6) settled_root [OF root(5)] by simp
    have hashed: "fst x \<in> set (vs_records vault)" "record_hash crypto (fst x) = Inr (snd x)" if "x \<in> set hrs" for x
      using dedup_loop_Inr [OF root(1)] that by (auto simp: case_prod_beta)
    have other: "sr' = fst hr"
      if inj: "inj_on (record_hash crypto) (set (vs_records vault))" and mem: "sr' \<in> set (vs_records vault)"
        and h': "record_hash crypto sr' = Inr h'" and tr: "trusted_root_record crypto (trusted_root ratchet) {} (sr', h')" for sr' h'
    proof -
      obtain x where x: "x \<in> set hrs" "snd x = h'"
        using dedup_loop_covers [OF root(1) mem] h' by auto
      then have "fst x = sr'"
        using inj_onD [OF inj, of "fst x" sr'] hashed [OF x(1)] mem h' by simp
      then show ?thesis
        using x only [of x] tr by (cases x) auto
    qed
    have "hr \<in> set hrs" "trusted_root_record crypto (trusted_root ratchet) {} hr"
      using only [of hr] by auto
    then show ?thesis
      using hashed body u other
      by (intro exI [of _ "fst hr"] exI [of _ "snd hr"]) auto
  qed
qed

theorem effective_root_is_trusted_witness:
  "\<exists>sr h. sr \<in> set [sample_root_record] \<and> trusted_root_record sample_crypto (trusted_root sample_anchor) {} (sr, h)"
proof -
  obtain report where
      "validate_vault sample_crypto (VaultStore.V1 \<lparr>vs_records = [sample_root_record]\<rparr>) sample_anchor = Inr report"
      "es_root_user_id (vrep_effective report) = Some (root_id sample_vault_root)"
    by (rule sample_validates)
  from effective_root_is_trusted [OF this] show ?thesis by auto
qed

text \<open>
  C30. A state that could not be resolved is never silent and never used: a report without issues
  carries a resolved authority and a root user; and when the authority is unresolved (no trusted
  root, two of them, a format downgrade, or a fixpoint that did not converge) every secret reads
  as invalid for every user, and the format version this machine remembers is not raised.
\<close>

theorem unresolved_is_reported_and_inert:
  assumes valid: "validate_vault crypto vault ratchet = Inr report"
  shows "(vrep_issues report = [] \<longrightarrow> \<not> es_authority_unresolved (vrep_effective report)
      \<and> (\<exists>u. es_root_user_id (vrep_effective report) = Some u))
    \<and> (es_authority_unresolved (vrep_effective report) \<longrightarrow>
        raised_format_version (vrep_ratchet_update report) = None
        \<and> (\<forall>s user. classify_secret_for_user (vrep_effective report) crypto s user = Invalid))"
proof -
  obtain v1 where v1: "vault = VaultStore.V1 v1" by (cases vault)
  have invalid: "classify_secret_for_user st crypto s user = Invalid" if "es_authority_unresolved st" for st s user
    using that by (simp add: classify_secret_for_user_def)
  consider (old) "vrep_issues report \<noteq> []" "raised_format_version (vrep_ratchet_update report) = None"
    | (checked) rep where "validate_v1 crypto ratchet {} v1 = Inr rep"
      "report = rep \<or> vrep_issues rep = [] \<and>
         report = rep\<lparr>vrep_ratchet_update := (vrep_ratchet_update rep)\<lparr>raised_format_version := Some 1\<rparr>\<rparr>"
    using valid
    by (auto simp: validate_vault_def validate_vault_with_verified_def Let_def v1 and_then_Inr_iff
        default_ratchet_update_def split: if_splits)
  then show ?thesis
  proof cases
    case old
    then show ?thesis using invalid by auto
  next
    case (checked rep)
    note none = validate_v1_raises_no_version [OF checked(1)]
    have clean: "\<not> es_authority_unresolved (vrep_effective rep) \<and> (\<exists>u. es_root_user_id (vrep_effective rep) = Some u)"
      if no_issues: "vrep_issues rep = []"
      using checked(1)
    proof (cases rule: validate_v1_cases)
      case (root hrs root kr v eff upd iss)
      obtain wm rb eff0 where parts: "settled_rollbacks crypto ratchet root (verified_list v) = (wm, rb, eff0)"
        by (metis prod_cases3)
      show ?thesis
        using root(6) no_issues settle_v1_parts(3) [OF root(5) parts] settled_frames(9) [OF root(5) parts]
          settled_root [OF root(5)] by (auto split: if_splits)
    qed (use no_issues in auto)
    show ?thesis
      using checked(2) clean none invalid by auto
  qed
qed

theorem unresolved_is_reported_and_inert_witness:
  "\<exists>report. validate_vault sample_crypto (VaultStore.V1 \<lparr>vs_records = []\<rparr>) sample_anchor = Inr report
     \<and> es_authority_unresolved (vrep_effective report) \<and> vrep_issues report = [RootNotTrusted]
     \<and> classify_secret_for_user (vrep_effective report) sample_crypto (selector_tuple [''db''])
         (UserId (HashValue [1])) = Invalid"
proof -
  let ?report = "\<lparr>vrep_effective = unresolved_state, vrep_ratchet_update = default_ratchet_update,
     vrep_issues = [RootNotTrusted], vrep_warnings = []\<rparr>"
  have "validate_vault sample_crypto (VaultStore.V1 \<lparr>vs_records = []\<rparr>) sample_anchor = Inr ?report"
    by (simp add: validate_vault_def validate_vault_with_verified_def Let_def validate_v1_def select_root_def
        sample_anchor_def ratchet_new_def warnings_for_def)
  moreover have "es_authority_unresolved (vrep_effective ?report)"
    by (simp add: unresolved_state_def)
  ultimately show ?thesis
    using unresolved_is_reported_and_inert by fastforce
qed

text \<open>
  C4. Validation is a fixed point of its own update: folding the update that a validation
  reports into the ratchet and validating the same vault again gives the same effective state,
  the same issues and the same warnings, and nothing further to remember. What a reader learns
  from a vault never makes that vault look rolled back.
\<close>

theorem validation_settles_in_one_update:
  assumes valid: "validate_vault crypto vault ratchet = Inr report" and wf: "bt_wf (watermarks ratchet)"
  shows "validate_vault crypto vault (apply_update (vrep_ratchet_update report) ratchet) =
    Inr (report\<lparr>vrep_ratchet_update := default_ratchet_update\<rparr>)"
proof -
  obtain v1 where v1: "vault = VaultStore.V1 v1" by (cases vault)
  show ?thesis
  proof (cases "(1 :: u64) < ratchet_format_version ratchet")
    case True
    have "apply_update default_ratchet_update ratchet = ratchet"
      by (simp add: apply_update_def default_ratchet_update_def)
    with True valid show ?thesis
      by (auto simp: validate_vault_def validate_vault_with_verified_def Let_def v1)
  next
    case False
    obtain rep where rep: "validate_v1 crypto ratchet {} v1 = Inr rep"
      and report: "report = (if 1 > ratchet_format_version ratchet \<and> vrep_issues rep = []
               then rep\<lparr>vrep_ratchet_update := (vrep_ratchet_update rep)\<lparr>raised_format_version := Some 1\<rparr>\<rparr>
               else rep)"
      using valid False by (auto simp: validate_vault_def validate_vault_with_verified_def Let_def v1 and_then_Inr_iff)
    note no_version = validate_v1_raises_no_version [OF rep]
    note again = validate_v1_again [OF rep wf]
    show ?thesis
    proof (cases "1 > ratchet_format_version ratchet \<and> vrep_issues rep = []")
      case True
      then show ?thesis
        using False report again
        by (simp add: validate_vault_def validate_vault_with_verified_def Let_def v1
            apply_raised_version [OF no_version] update_version_irrelevant)
    next
      case no_raise: False
      have "ratchet_format_version (apply_update (vrep_ratchet_update rep) ratchet) = ratchet_format_version ratchet"
        using no_version by (simp add: apply_update_fields update_claim_def)
      with no_raise show ?thesis
        using False report again by (auto simp: validate_vault_def validate_vault_with_verified_def Let_def v1)
    qed
  qed
qed

theorem validation_settles_in_one_update_witness:
  "\<exists>report. validate_vault sample_crypto (VaultStore.V1 \<lparr>vs_records = [sample_root_record]\<rparr>)
      (apply_update (vrep_ratchet_update report) sample_anchor) =
    Inr (report\<lparr>vrep_ratchet_update := default_ratchet_update\<rparr>)"
proof -
  obtain report where report:
      "validate_vault sample_crypto (VaultStore.V1 \<lparr>vs_records = [sample_root_record]\<rparr>) sample_anchor = Inr report"
    by (rule sample_validates)
  have "bt_wf (watermarks sample_anchor)"
    by (simp add: sample_anchor_def ratchet_new_def bt.wf_empty)
  from validation_settles_in_one_update [OF report this] show ?thesis by blast
qed

end
