(* ===== verification/Thorax_Codec.thy ===== *)
theory Thorax_Codec
  imports Thorax_Ratchet Thorax_Structure
begin

text \<open>
  The file and wire formats: \<open>encode_vault\<close> and \<open>decode_vault\<close> of
  \<open>crates/thorax-core/src/validate/mod.rs\<close>, and the join artifacts of \<open>join.rs\<close>.

  Each format is a magic prefix followed by a canonical payload. The payload's serialiser and
  deserialiser, of the package \<open>cord\<close>, are the fields of a \<open>CordCodec\<close> argument; the limits and the
  errors are the source's. A \<open>usize\<close> is a natural number below \<open>2 ^ 64\<close>.
\<close>

section \<open>Payloads\<close>

record 'a CordCodec =
  cord_ser :: "'a \<Rightarrow> CordError + Bytes"
  cord_de :: "Bytes \<Rightarrow> CordError + 'a"

text \<open>\<open>u64::to_string\<close>, as in the messages of the limits.\<close>

fun decimal :: "nat \<Rightarrow> string" where
  "decimal n = (if n < 10 then [char_of (48 + n)] else decimal (n div 10) @ [char_of (48 + n mod 10)])"

definition usize_saturating_add :: "nat \<Rightarrow> nat \<Rightarrow> nat" where
  "usize_saturating_add a b = min (a + b) (2 ^ 64 - 1)"

definition strip_prefix :: "Bytes \<Rightarrow> Bytes \<Rightarrow> Bytes option" where
  "strip_prefix p bytes = (if take (length p) bytes = p then Some (drop (length p) bytes) else None)"

section \<open>Vault files\<close>

definition VAULT_MAGIC :: Bytes where
  "VAULT_MAGIC = str_bytes ''thorax-vault'' @ [0]"

definition MAX_VAULT_BYTES :: nat where
  "MAX_VAULT_BYTES = 256 * 1024 * 1024"

definition MAX_VAULT_RECORDS :: nat where
  "MAX_VAULT_RECORDS = 2 ^ 18"

definition too_many_records :: "nat \<Rightarrow> nat \<Rightarrow> CoreError" where
  "too_many_records n limit =
     Validation (''vault carries '' @ decimal n @ '' records, above the supported maximum of '' @ decimal limit)"

definition too_many_bytes :: "nat \<Rightarrow> nat \<Rightarrow> CoreError" where
  "too_many_bytes n limit =
     Validation (''vault is '' @ decimal n @ '' bytes, above the supported maximum of '' @ decimal limit)"

definition encode_vault :: "VaultStore CordCodec \<Rightarrow> VaultStore \<Rightarrow> CoreError + Bytes" where
  "encode_vault codec vault =
     (case vault of VaultStore.V1 v1 \<Rightarrow>
        if length (vs_records v1) > MAX_VAULT_RECORDS
        then Inl (too_many_records (length (vs_records v1)) MAX_VAULT_RECORDS)
        else and_then (map_err Cord (cord_ser codec vault)) (\<lambda>payload.
          let encoded_len = usize_saturating_add (length VAULT_MAGIC) (length payload) in
          if encoded_len > MAX_VAULT_BYTES then Inl (too_many_bytes encoded_len MAX_VAULT_BYTES)
          else Inr (VAULT_MAGIC @ payload)))"

definition decode_vault_with_limits ::
  "VaultStore CordCodec \<Rightarrow> Bytes \<Rightarrow> nat \<Rightarrow> nat \<Rightarrow> CoreError + VaultStore" where
  "decode_vault_with_limits codec bytes max_bytes max_records =
     (case strip_prefix VAULT_MAGIC bytes of
        None \<Rightarrow> Inl (Validation ''not a thorax vault file (missing magic prefix)'')
      | Some payload \<Rightarrow>
          if length bytes > max_bytes then Inl (too_many_bytes (length bytes) max_bytes)
          else and_then (map_err Cord (cord_de codec payload)) (\<lambda>vault.
            case vault of VaultStore.V1 v1 \<Rightarrow>
              if length (vs_records v1) > max_records
              then Inl (too_many_records (length (vs_records v1)) max_records)
              else Inr vault))"

definition decode_vault :: "VaultStore CordCodec \<Rightarrow> Bytes \<Rightarrow> CoreError + VaultStore" where
  "decode_vault codec bytes = decode_vault_with_limits codec bytes MAX_VAULT_BYTES MAX_VAULT_RECORDS"

section \<open>Join artifacts\<close>

datatype JoinPurposeV1 = Enroll | RestoreTrust

record DeploymentContextV1 =
  deploy_namespace :: string
  deploy_vault_name :: string
  deploy_vault_uid :: string

record EncryptedBaselineV1 =
  eb_encapsulated_key :: Bytes
  eb_ciphertext :: Bytes

record JoinCandidateMessageV1 =
  jc_purpose :: JoinPurposeV1
  jc_request_id :: Bytes
  jc_trusted_root :: HashValue
  jc_trusted_root_user_id :: UserId
  jc_deployment :: DeploymentContextV1
  jc_user_id :: UserId
  jc_signing_public_key :: Bytes
  jc_hpke_public_key :: Bytes
  jc_suggested_selectors :: "SecretSelectorV1 list"
  jc_entry_point :: "VaultRecordV1 option"

text \<open>The candidate is its message and a proof, the approval its message and a signature.\<close>

record JoinCandidateV1 = JoinCandidateMessageV1 +
  jc_proof :: Bytes

record JoinApprovalMessageV1 =
  ja_purpose :: JoinPurposeV1
  ja_request_id :: Bytes
  ja_trusted_root :: HashValue
  ja_deployment :: DeploymentContextV1
  ja_user_id :: UserId
  ja_approved_grants :: "GrantPermissionV1 list"
  ja_encrypted_baseline :: EncryptedBaselineV1
  ja_replaces_user_id :: "UserId option"
  ja_approving_admin :: UserId
  ja_approving_signing_public_key :: Bytes

record JoinApprovalV1 = JoinApprovalMessageV1 +
  ja_signature :: Bytes

datatype JoinCandidateStore = V1 JoinCandidateV1

datatype JoinApprovalStore = V1 JoinApprovalV1

definition candidate_message :: "JoinCandidateV1 \<Rightarrow> JoinCandidateMessageV1" where
  "candidate_message c =
     \<lparr>jc_purpose = jc_purpose c, jc_request_id = jc_request_id c, jc_trusted_root = jc_trusted_root c,
      jc_trusted_root_user_id = jc_trusted_root_user_id c, jc_deployment = jc_deployment c,
      jc_user_id = jc_user_id c, jc_signing_public_key = jc_signing_public_key c,
      jc_hpke_public_key = jc_hpke_public_key c, jc_suggested_selectors = jc_suggested_selectors c,
      jc_entry_point = jc_entry_point c\<rparr>"

definition approval_message :: "JoinApprovalV1 \<Rightarrow> JoinApprovalMessageV1" where
  "approval_message a =
     \<lparr>ja_purpose = ja_purpose a, ja_request_id = ja_request_id a, ja_trusted_root = ja_trusted_root a,
      ja_deployment = ja_deployment a, ja_user_id = ja_user_id a,
      ja_approved_grants = ja_approved_grants a, ja_encrypted_baseline = ja_encrypted_baseline a,
      ja_replaces_user_id = ja_replaces_user_id a, ja_approving_admin = ja_approving_admin a,
      ja_approving_signing_public_key = ja_approving_signing_public_key a\<rparr>"

definition JOIN_CANDIDATE_PROOF_DOMAIN :: string where
  "JOIN_CANDIDATE_PROOF_DOMAIN = ''thorax.join-candidate-proof.v1''"

definition JOIN_APPROVAL_SIGNATURE_DOMAIN :: string where
  "JOIN_APPROVAL_SIGNATURE_DOMAIN = ''thorax.join-approval.v1''"

definition JOIN_CANDIDATE_MAGIC :: Bytes where
  "JOIN_CANDIDATE_MAGIC = str_bytes ''thorax-join-candidate'' @ [0]"

definition JOIN_APPROVAL_MAGIC :: Bytes where
  "JOIN_APPROVAL_MAGIC = str_bytes ''thorax-join-approval'' @ [0]"

definition MAX_JOIN_ARTIFACT_BYTES :: nat where
  "MAX_JOIN_ARTIFACT_BYTES = 1024 * 1024"

definition encode_artifact :: "('a \<Rightarrow> CordError + Bytes) \<Rightarrow> Bytes \<Rightarrow> 'a \<Rightarrow> CoreError + Bytes" where
  "encode_artifact ser magic v =
     and_then (map_err Cord (ser v)) (\<lambda>payload.
       if length payload > MAX_JOIN_ARTIFACT_BYTES
       then Inl (Validation ''join artifact exceeds the 1 MiB limit'')
       else Inr (magic @ payload))"

definition artifact_payload :: "Bytes \<Rightarrow> Bytes \<Rightarrow> CoreError + Bytes" where
  "artifact_payload magic bytes =
     (if length bytes > MAX_JOIN_ARTIFACT_BYTES + length magic
      then Inl (Validation ''join artifact exceeds the 1 MiB limit'')
      else case strip_prefix magic bytes of
        None \<Rightarrow> Inl (Validation ''join artifact has an invalid magic prefix'')
      | Some payload \<Rightarrow> Inr payload)"

definition encode_join_candidate :: "JoinCandidateStore CordCodec \<Rightarrow> JoinCandidateV1 \<Rightarrow> CoreError + Bytes" where
  "encode_join_candidate codec candidate =
     encode_artifact (cord_ser codec) JOIN_CANDIDATE_MAGIC (JoinCandidateStore.V1 candidate)"

definition decode_join_candidate :: "JoinCandidateStore CordCodec \<Rightarrow> Bytes \<Rightarrow> CoreError + JoinCandidateV1" where
  "decode_join_candidate codec bytes =
     and_then (artifact_payload JOIN_CANDIDATE_MAGIC bytes) (\<lambda>payload.
     and_then (map_err Cord (cord_de codec payload)) (\<lambda>store.
       case store of JoinCandidateStore.V1 candidate \<Rightarrow> Inr candidate))"

definition encode_join_approval :: "JoinApprovalStore CordCodec \<Rightarrow> JoinApprovalV1 \<Rightarrow> CoreError + Bytes" where
  "encode_join_approval codec approval =
     encode_artifact (cord_ser codec) JOIN_APPROVAL_MAGIC (JoinApprovalStore.V1 approval)"

definition decode_join_approval :: "JoinApprovalStore CordCodec \<Rightarrow> Bytes \<Rightarrow> CoreError + JoinApprovalV1" where
  "decode_join_approval codec bytes =
     and_then (artifact_payload JOIN_APPROVAL_MAGIC bytes) (\<lambda>payload.
     and_then (map_err Cord (cord_de codec payload)) (\<lambda>store.
       case store of JoinApprovalStore.V1 approval \<Rightarrow> Inr approval))"

definition join_candidate_message ::
  "(JoinCandidateMessageV1 \<Rightarrow> CordError + Bytes) \<Rightarrow> JoinCandidateV1 \<Rightarrow> CoreError + Bytes" where
  "join_candidate_message ser candidate = map_err Cord (ser (candidate_message candidate))"

definition join_approval_message ::
  "(JoinApprovalMessageV1 \<Rightarrow> CordError + Bytes) \<Rightarrow> JoinApprovalV1 \<Rightarrow> CoreError + Bytes" where
  "join_approval_message ser approval = map_err Cord (ser (approval_message approval))"

definition baseline_bytes :: "RatchetBaselineV1 CordCodec \<Rightarrow> RatchetBaselineV1 \<Rightarrow> CoreError + Bytes" where
  "baseline_bytes codec baseline = map_err Cord (cord_ser codec baseline)"

definition baseline_from_bytes :: "RatchetBaselineV1 CordCodec \<Rightarrow> Bytes \<Rightarrow> CoreError + RatchetBaselineV1" where
  "baseline_from_bytes codec bytes = map_err Cord (cord_de codec bytes)"

section \<open>Framed formats\<close>

lemma strip_prefix_Some_iff: "strip_prefix p b = Some x \<longleftrightarrow> b = p @ x"
proof
  assume "strip_prefix p b = Some x"
  then show "b = p @ x"
    unfolding strip_prefix_def by (metis append_take_drop_id option.distinct(1) option.inject)
qed (simp add: strip_prefix_def)

text \<open>
  What the three formats have in common: what is written starts with the format's magic, and
  nothing is read that does not.
\<close>

locale framed_format =
  fixes magic :: Bytes
    and encode :: "'a \<Rightarrow> CoreError + Bytes"
    and decode :: "Bytes \<Rightarrow> CoreError + 'b"
  assumes encode_framed: "encode v = Inr b \<Longrightarrow> prefix magic b"
    and decode_framed: "decode b = Inr w \<Longrightarrow> prefix magic b"
begin

lemma foreign_rejected:
  assumes "prefix other b" and "\<not> prefix other magic" and "\<not> prefix magic other"
  shows "decode b \<noteq> Inr w"
  using assms decode_framed [of b w] prefix_same_cases by blast

end

lemma decode_vault_accepts:
  "decode_vault_with_limits codec bytes max_bytes max_records = Inr vault \<longleftrightarrow>
     (\<exists>payload. bytes = VAULT_MAGIC @ payload \<and> length bytes \<le> max_bytes \<and> cord_de codec payload = Inr vault
        \<and> (case vault of VaultStore.V1 v1 \<Rightarrow> length (vs_records v1) \<le> max_records))"
proof (cases "strip_prefix VAULT_MAGIC bytes")
  case None
  then have "bytes \<noteq> VAULT_MAGIC @ payload" for payload
    using strip_prefix_Some_iff [of VAULT_MAGIC bytes payload] by auto
  with None show ?thesis by (simp add: decode_vault_with_limits_def)
next
  case (Some payload)
  have bytes: "bytes = VAULT_MAGIC @ payload"
    using Some by (simp add: strip_prefix_Some_iff)
  show ?thesis
  proof (cases "cord_de codec payload")
    case (Inr v)
    then show ?thesis
      using Some bytes by (cases v) (auto simp: decode_vault_with_limits_def)
  qed (use Some bytes in \<open>auto simp: decode_vault_with_limits_def\<close>)
qed

lemma encode_vault_accepts:
  "encode_vault codec (VaultStore.V1 v1) = Inr bytes \<longleftrightarrow>
     (\<exists>payload. cord_ser codec (VaultStore.V1 v1) = Inr payload \<and> bytes = VAULT_MAGIC @ payload
        \<and> length bytes \<le> MAX_VAULT_BYTES \<and> length (vs_records v1) \<le> MAX_VAULT_RECORDS)"
  by (auto simp: encode_vault_def and_then_Inr_iff Let_def usize_saturating_add_def not_less MAX_VAULT_BYTES_def
      split: if_splits)

lemma artifact_payload_Inr_iff:
  "artifact_payload magic bytes = Inr payload \<longleftrightarrow>
     bytes = magic @ payload \<and> length payload \<le> MAX_JOIN_ARTIFACT_BYTES"
  by (auto simp: artifact_payload_def strip_prefix_Some_iff not_less split: option.splits if_splits)
     (metis option.distinct(1) strip_prefix_Some_iff)

interpretation vault_format: framed_format VAULT_MAGIC "encode_vault codec" "decode_vault codec" for codec
proof unfold_locales
  show "encode_vault codec v = Inr b \<Longrightarrow> prefix VAULT_MAGIC b" for v b
    by (cases v) (auto simp: encode_vault_accepts)
  show "decode_vault codec b = Inr w \<Longrightarrow> prefix VAULT_MAGIC b" for b w
    by (auto simp: decode_vault_def decode_vault_accepts)
qed

interpretation candidate_format:
  framed_format JOIN_CANDIDATE_MAGIC "encode_join_candidate codec" "decode_join_candidate codec" for codec
  by unfold_locales (auto simp: encode_join_candidate_def decode_join_candidate_def encode_artifact_def
      artifact_payload_Inr_iff and_then_Inr_iff split: if_splits)

interpretation approval_format:
  framed_format JOIN_APPROVAL_MAGIC "encode_join_approval codec" "decode_join_approval codec" for codec
  by unfold_locales (auto simp: encode_join_approval_def decode_join_approval_def encode_artifact_def
      artifact_payload_Inr_iff and_then_Inr_iff split: if_splits)

lemma magics_differ:
  "\<not> prefix VAULT_MAGIC JOIN_CANDIDATE_MAGIC" "\<not> prefix JOIN_CANDIDATE_MAGIC VAULT_MAGIC"
  "\<not> prefix VAULT_MAGIC JOIN_APPROVAL_MAGIC" "\<not> prefix JOIN_APPROVAL_MAGIC VAULT_MAGIC"
  "\<not> prefix JOIN_CANDIDATE_MAGIC JOIN_APPROVAL_MAGIC" "\<not> prefix JOIN_APPROVAL_MAGIC JOIN_CANDIDATE_MAGIC"
  by code_simp+

text \<open>A vault's records are a set: the order they are listed in carries no meaning.\<close>

fun same_vault :: "VaultStore \<Rightarrow> VaultStore \<Rightarrow> bool" where
  "same_vault (VaultStore.V1 a) (VaultStore.V1 b) \<longleftrightarrow>
     distinct (vs_records a) \<and> distinct (vs_records b) \<and> set (vs_records a) = set (vs_records b)"

section \<open>Properties\<close>

text \<open>
  A vault that was written can be read back: when the payload codec returns the same record
  set that it serialised, whatever \<open>encode_vault\<close> produces \<open>decode_vault\<close> accepts, as the same set
  of records. The ceilings the writer enforces are those the reader enforces.
\<close>

lemma vault_codec_roundtrip:
  assumes "encode_vault codec vault = Inr bytes"
    and "\<And>payload. cord_ser codec vault = Inr payload \<Longrightarrow> \<exists>vault'. cord_de codec payload = Inr vault' \<and> same_vault vault vault'"
  shows "\<exists>vault'. decode_vault codec bytes = Inr vault' \<and> same_vault vault vault'"
proof -
  obtain v1 where vault: "vault = VaultStore.V1 v1" by (cases vault)
  obtain payload where payload: "cord_ser codec vault = Inr payload" "bytes = VAULT_MAGIC @ payload"
      "length bytes \<le> MAX_VAULT_BYTES" "length (vs_records v1) \<le> MAX_VAULT_RECORDS"
    using assms(1) unfolding vault encode_vault_accepts by blast
  obtain vault' where vault': "cord_de codec payload = Inr vault'" "same_vault vault vault'"
    using assms(2) [OF payload(1)] by blast
  obtain v1' where v1': "vault' = VaultStore.V1 v1'" by (cases vault')
  have "length (vs_records v1') = length (vs_records v1)"
    using vault'(2) unfolding vault v1' by (metis distinct_card same_vault.simps)
  then show ?thesis
    using payload vault' by (auto simp: decode_vault_def decode_vault_accepts v1')
qed

definition sample_codec :: "VaultStore CordCodec" where
  "sample_codec = \<lparr>cord_ser = (\<lambda>_. Inr [7]), cord_de = (\<lambda>_. Inr (VaultStore.V1 \<lparr>vs_records = []\<rparr>))\<rparr>"

text \<open>
  C40. Reading fails closed and formats are never confused: \<open>decode_vault_with_limits\<close> accepts
  exactly the bytes that start with the vault magic, stay within the byte limit and carry a
  payload the codec reads as a vault within the record limit; and no bytes are accepted by two of
  the vault, join-candidate and join-approval readers, whatever their codecs.
\<close>

theorem readers_fail_closed:
  "(decode_vault_with_limits vc bytes max_bytes max_records = Inr vault \<longleftrightarrow>
      (\<exists>payload v1. bytes = VAULT_MAGIC @ payload \<and> length bytes \<le> max_bytes
         \<and> cord_de vc payload = Inr vault \<and> vault = VaultStore.V1 v1 \<and> length (vs_records v1) \<le> max_records))
   \<and> \<not> (decode_vault vc bytes = Inr vault \<and> decode_join_candidate cc bytes = Inr candidate)
   \<and> \<not> (decode_vault vc bytes = Inr vault \<and> decode_join_approval ac bytes = Inr approval)
   \<and> \<not> (decode_join_candidate cc bytes = Inr candidate \<and> decode_join_approval ac bytes = Inr approval)"
proof (intro conjI)
  show "\<not> (decode_vault vc bytes = Inr vault \<and> decode_join_candidate cc bytes = Inr candidate)"
    "\<not> (decode_vault vc bytes = Inr vault \<and> decode_join_approval ac bytes = Inr approval)"
    "\<not> (decode_join_candidate cc bytes = Inr candidate \<and> decode_join_approval ac bytes = Inr approval)"
    using vault_format.decode_framed candidate_format.decode_framed magics_differ
      candidate_format.foreign_rejected approval_format.foreign_rejected by blast+
qed (cases vault, simp add: decode_vault_accepts)

text \<open>
  Join artifacts round-trip and their signed messages commit to everything else: a written
  candidate or approval is read back unchanged when the codec inverts its own output; and two
  candidates (approvals) with the same message and the same proof (signature) are equal, while
  changing the proof (signature) leaves the message unchanged.
\<close>

lemma join_artifacts_roundtrip:
  assumes "\<And>v b. cord_ser cc v = Inr b \<Longrightarrow> cord_de cc b = Inr v"
    and "\<And>v b. cord_ser ac v = Inr b \<Longrightarrow> cord_de ac b = Inr v"
  shows "(encode_join_candidate cc candidate = Inr bytes \<longrightarrow> decode_join_candidate cc bytes = Inr candidate)
    \<and> (encode_join_approval ac approval = Inr bytes \<longrightarrow> decode_join_approval ac bytes = Inr approval)
    \<and> (candidate_message candidate = candidate_message candidate' \<and> jc_proof candidate = jc_proof candidate'
         \<longleftrightarrow> candidate = candidate')
    \<and> candidate_message (candidate\<lparr>jc_proof := p\<rparr>) = candidate_message candidate
    \<and> (approval_message approval = approval_message approval' \<and> ja_signature approval = ja_signature approval'
         \<longleftrightarrow> approval = approval')
    \<and> approval_message (approval\<lparr>ja_signature := p\<rparr>) = approval_message approval"
proof (intro conjI)
  show "encode_join_candidate cc candidate = Inr bytes \<longrightarrow> decode_join_candidate cc bytes = Inr candidate"
    using assms(1) by (auto simp: encode_join_candidate_def decode_join_candidate_def encode_artifact_def
        artifact_payload_Inr_iff and_then_Inr_iff split: if_splits)
  show "encode_join_approval ac approval = Inr bytes \<longrightarrow> decode_join_approval ac bytes = Inr approval"
    using assms(2) by (auto simp: encode_join_approval_def decode_join_approval_def encode_artifact_def
        artifact_payload_Inr_iff and_then_Inr_iff split: if_splits)
  show "candidate_message candidate = candidate_message candidate' \<and> jc_proof candidate = jc_proof candidate'
         \<longleftrightarrow> candidate = candidate'"
    by (cases candidate; cases candidate') (auto simp: candidate_message_def)
  show "approval_message approval = approval_message approval' \<and> ja_signature approval = ja_signature approval'
         \<longleftrightarrow> approval = approval'"
    by (cases approval; cases approval') (auto simp: approval_message_def)
qed (simp_all add: candidate_message_def approval_message_def)

definition single_codec :: "'a \<Rightarrow> 'a CordCodec" where
  "single_codec x = \<lparr>cord_ser = (\<lambda>v. if v = x then Inr [9] else Inl (CordError ''unsupported'')), cord_de = (\<lambda>_. Inr x)\<rparr>"

end
