(* ===== verification/Thorax_Merge.thy ===== *)
theory Thorax_Merge
  imports Thorax_Validation Thorax_Codec
begin

text \<open>
  Three-way merge of vaults, from \<open>crates/thorax-core/src/merge.rs\<close>: the union of the records
  of ours, theirs and the common ancestor, refused when the sides do not carry the same root
  records. The vault's records are a \<open>cord::Set\<close>: collecting into it drops repetitions.

  The theorems characterise every outcome, show that the two sides of a merge get the same
  result, and that merging is idempotent and absorbs what was merged before, so that repeated
  merges converge.
\<close>

datatype MergeRefusal = MissingRoot | RootMismatch

datatype MergeOutcome = Merged VaultStore | Refused MergeRefusal

definition is_root_record :: "VaultRecordV1 \<Rightarrow> bool" where
  "is_root_record sr \<longleftrightarrow> (case known (rec_body sr) of Some (RecordBodyV1.VaultRoot _) \<Rightarrow> True | _ \<Rightarrow> False)"

definition root_records :: "CryptoProvider \<Rightarrow> VaultRecordV1 list \<Rightarrow> CoreError + Bytes set" where
  "root_records crypto records =
     and_then (collect_results (\<lambda>sr. map_err Cord (cord_serialize crypto (CvRecord sr)))
         (filter is_root_record records)) (\<lambda>bs. Inr (set bs))"

fun vault_records :: "VaultStore \<Rightarrow> VaultRecordV1 list" where
  "vault_records (VaultStore.V1 v1) = vs_records v1"

definition union_vault :: "VaultStore option \<Rightarrow> VaultStore \<Rightarrow> VaultStore \<Rightarrow> VaultStore" where
  "union_vault base ours theirs =
     VaultStore.V1 \<lparr>vs_records = collect_set
       ((case base of None \<Rightarrow> [] | Some vault \<Rightarrow> vault_records vault) @ vault_records ours @ vault_records theirs)\<rparr>"

definition merge_vaults ::
  "CryptoProvider \<Rightarrow> VaultStore option \<Rightarrow> VaultStore \<Rightarrow> VaultStore \<Rightarrow> CoreError + MergeOutcome" where
  "merge_vaults crypto base ours theirs =
     and_then (root_records crypto (vault_records ours)) (\<lambda>ours_roots.
     and_then (root_records crypto (vault_records theirs)) (\<lambda>theirs_roots.
       if ours_roots = {} \<or> theirs_roots = {} then Inr (Refused MissingRoot)
       else if ours_roots \<noteq> theirs_roots then Inr (Refused RootMismatch)
       else case base of
         None \<Rightarrow> Inr (Merged (union_vault base ours theirs))
       | Some vault \<Rightarrow>
           and_then (root_records crypto (vault_records vault)) (\<lambda>base_roots.
             if base_roots \<noteq> {} \<and> base_roots \<noteq> ours_roots then Inr (Refused RootMismatch)
             else Inr (Merged (union_vault base ours theirs)))))"

section \<open>Sets of records\<close>

abbreviation base_records :: "VaultStore option \<Rightarrow> VaultRecordV1 set" where
  "base_records base \<equiv> (case base of None \<Rightarrow> {} | Some vault \<Rightarrow> set (vault_records vault))"

lemma set_union_vault:
  "set (vault_records (union_vault base ours theirs)) =
     base_records base \<union> set (vault_records ours) \<union> set (vault_records theirs)"
  "distinct (vault_records (union_vault base ours theirs))"
  by (auto simp: union_vault_def split: option.splits)

definition root_bytes :: "CryptoProvider \<Rightarrow> VaultRecordV1 set \<Rightarrow> Bytes set" where
  "root_bytes crypto R = {b. \<exists>sr \<in> R. is_root_record sr \<and> cord_serialize crypto (CvRecord sr) = Inr b}"

definition roots_serialize :: "CryptoProvider \<Rightarrow> VaultRecordV1 set \<Rightarrow> bool" where
  "roots_serialize crypto R \<longleftrightarrow> (\<forall>sr \<in> R. is_root_record sr \<longrightarrow> (\<exists>b. cord_serialize crypto (CvRecord sr) = Inr b))"

lemma root_records_Inr_iff:
  "root_records crypto xs = Inr roots \<longleftrightarrow> roots_serialize crypto (set xs) \<and> roots = root_bytes crypto (set xs)"
proof -
  let ?f = "\<lambda>sr. map_err Cord (cord_serialize crypto (CvRecord sr))"
  have "root_records crypto xs = Inr roots \<longleftrightarrow>
      (\<exists>bs. collect_results ?f (filter is_root_record xs) = Inr bs \<and> roots = set bs)"
    by (auto simp: root_records_def and_then_Inr_iff)
  also have "\<dots> \<longleftrightarrow> (\<exists>bs. collect_results ?f (filter is_root_record xs) = Inr bs) \<and> roots = root_bytes crypto (set xs)"
    using collect_results_set [of ?f "filter is_root_record xs"] by (auto simp: root_bytes_def)
  finally show ?thesis
    unfolding collect_results_ok by (auto simp: roots_serialize_def)
qed

text \<open>When the merge goes through, and with what roots.\<close>

lemma merged_iff:
  "merge_vaults crypto base ours theirs = Inr (Merged merged) \<longleftrightarrow>
     merged = union_vault base ours theirs
     \<and> roots_serialize crypto (base_records base \<union> set (vault_records ours) \<union> set (vault_records theirs))
     \<and> root_bytes crypto (set (vault_records ours)) \<noteq> {}
     \<and> root_bytes crypto (set (vault_records theirs)) = root_bytes crypto (set (vault_records ours))
     \<and> root_bytes crypto (base_records base) \<subseteq> root_bytes crypto (set (vault_records ours))
     \<and> (root_bytes crypto (base_records base) = {}
        \<or> root_bytes crypto (base_records base) = root_bytes crypto (set (vault_records ours)))"
  by (cases base)
     (auto simp: merge_vaults_def and_then_Inr_iff root_records_Inr_iff roots_serialize_def root_bytes_def [of _ "{}"]
       split: if_splits)

lemma root_bytes_Un: "root_bytes crypto (A \<union> B) = root_bytes crypto A \<union> root_bytes crypto B"
  by (auto simp: root_bytes_def)

section \<open>Properties\<close>

text \<open>
  C37. A merge is the union of the records on all sides, or a refusal: with root records that
  serialise, it is refused exactly when ours or theirs has no root record, or when the root
  records of ours, theirs and (if it has any) the ancestor are not the same bytes; otherwise the
  result holds every record of ancestor, ours and theirs, each once, and nothing else, so a
  deletion that one side dropped is restored.
\<close>

theorem merge_is_union_or_refused:
  assumes "roots_serialize crypto (base_records base \<union> set (vault_records ours) \<union> set (vault_records theirs))"
  shows "merge_vaults crypto base ours theirs = Inr
      (let B = root_bytes crypto (base_records base); Ours = root_bytes crypto (set (vault_records ours));
           Theirs = root_bytes crypto (set (vault_records theirs))
       in if Ours = {} \<or> Theirs = {} then Refused MissingRoot
          else if Ours \<noteq> Theirs \<or> B \<noteq> {} \<and> B \<noteq> Ours then Refused RootMismatch
          else Merged (union_vault base ours theirs))
    \<and> set (vault_records (union_vault base ours theirs)) =
        base_records base \<union> set (vault_records ours) \<union> set (vault_records theirs)
    \<and> distinct (vault_records (union_vault base ours theirs))"
proof -
  have "root_records crypto (vault_records ours) = Inr (root_bytes crypto (set (vault_records ours)))"
    "root_records crypto (vault_records theirs) = Inr (root_bytes crypto (set (vault_records theirs)))"
    "\<And>v. base = Some v \<Longrightarrow> root_records crypto (vault_records v) = Inr (root_bytes crypto (set (vault_records v)))"
    using assms by (auto simp: root_records_Inr_iff roots_serialize_def split: option.splits)
  then show ?thesis
    using set_union_vault [of base ours theirs]
    by (cases base) (auto simp: merge_vaults_def Let_def root_bytes_def [of _ "{}"])
qed

definition sample_vault :: VaultStore where
  "sample_vault = VaultStore.V1 \<lparr>vs_records = [sample_root_record]\<rparr>"

definition sample_branch :: VaultStore where
  "sample_branch = VaultStore.V1 \<lparr>vs_records = [vr_signed (sample_deletion 5 3), sample_root_record]\<rparr>"

lemma sample_serializes: "cord_serialize sample_crypto v = Inr []"
  by (simp add: sample_crypto_def DeterministicCrypto_def)

lemma sample_roots:
  "root_bytes sample_crypto (set (vault_records sample_vault)) = {[]}"
  "root_bytes sample_crypto (set (vault_records sample_branch)) = {[]}"
  by (auto simp: root_bytes_def sample_serializes sample_vault_def sample_branch_def is_root_record_def
      sample_root_record_def sample_deletion_def Let_def)

theorem merge_is_union_or_refused_witness:
  "merge_vaults sample_crypto None sample_vault sample_branch = Inr (Merged (union_vault None sample_vault sample_branch))"
proof -
  have "roots_serialize sample_crypto (base_records None \<union> set (vault_records sample_vault) \<union> set (vault_records sample_branch))"
    by (simp add: roots_serialize_def sample_serializes)
  from merge_is_union_or_refused [OF this] show ?thesis
    by (simp add: sample_roots root_bytes_def [of _ "{}"])
qed

text \<open>
  Merging converges: the two sides of a merge obtain the same set of records; merging a
  merge result with itself, or again with either side it was made from (against any ancestor it
  absorbed), changes nothing.
\<close>

lemma merge_converges:
  assumes "merge_vaults crypto base ours theirs = Inr (Merged merged)"
  shows "(\<exists>mirror. merge_vaults crypto base theirs ours = Inr (Merged mirror) \<and> same_vault merged mirror)
    \<and> (\<exists>again. merge_vaults crypto base merged merged = Inr (Merged again) \<and> same_vault merged again)
    \<and> (\<exists>again. merge_vaults crypto base merged ours = Inr (Merged again) \<and> same_vault merged again)
    \<and> (\<exists>again. merge_vaults crypto base theirs merged = Inr (Merged again) \<and> same_vault merged again)"
proof -
  let ?B = "base_records base" and ?O = "set (vault_records ours)" and ?T = "set (vault_records theirs)"
  have merged: "merged = union_vault base ours theirs" "roots_serialize crypto (?B \<union> ?O \<union> ?T)"
    and roots: "root_bytes crypto ?O \<noteq> {}" "root_bytes crypto ?T = root_bytes crypto ?O"
      "root_bytes crypto ?B \<subseteq> root_bytes crypto ?O"
      "root_bytes crypto ?B = {} \<or> root_bytes crypto ?B = root_bytes crypto ?O"
    using assms unfolding merged_iff by blast+
  have M: "set (vault_records merged) = ?B \<union> ?O \<union> ?T" "distinct (vault_records merged)"
    unfolding merged(1) by (rule set_union_vault)+
  have rootsM: "root_bytes crypto (?B \<union> ?O \<union> ?T) = root_bytes crypto ?O"
    using roots by (auto simp: root_bytes_Un)
  have same: "same_vault merged v" if "set (vault_records v) = ?B \<union> ?O \<union> ?T" "distinct (vault_records v)" for v
    using M that by (cases merged; cases v) auto
  have redo: "\<exists>again. merge_vaults crypto base x y = Inr (Merged again) \<and> same_vault merged again"
    if "?B \<union> set (vault_records x) \<union> set (vault_records y) = ?B \<union> ?O \<union> ?T"
      "root_bytes crypto (set (vault_records x)) = root_bytes crypto ?O"
      "root_bytes crypto (set (vault_records y)) = root_bytes crypto ?O" for x y
    using that merged(2) roots same [of "union_vault base x y"]
    by (intro exI [of _ "union_vault base x y"]) (simp add: merged_iff set_union_vault)
  show ?thesis
    using roots rootsM by (intro conjI redo) (auto simp: M(1))
qed

end
