(* ===== verification/Thorax_Selector.thy ===== *)
theory Thorax_Selector
  imports Thorax_Structure
begin

text \<open>
  The secret-selector grammar of \<open>crates/thorax-frontend/src/selector.rs\<close>: splitting and decoding
  of quoted fields, the parser of concrete selectors, the parser of selection queries, and the
  canonical printer.

  A string is the list of its UTF-8 bytes. Every character the grammar treats specially is
  ASCII, and no byte of a multi-byte character is, so walking bytes and walking characters
  split, escape and decode at the same places.

  The theorems show that printing a parsed selector and parsing it again gives it back, that
  what the parser accepts passes structural validation and has no empty field, that the printed
  name of a secret used as a query selects that secret, and that one spelling is an exception to
  the printer's claim to quote everything a query treats as structural.
\<close>

datatype FrontendError = InvalidSelector string string

definition dquote :: char where "dquote = CHR 0x22"

definition bslash :: char where "bslash = CHR 0x5C"

definition STRUCTURAL :: string where
  "STRUCTURAL = [CHR ''/'', CHR ''@'', CHR ''&'', CHR ''='', CHR ''!'', dquote, bslash]"

section \<open>Fields\<close>

text \<open>The scan of \<open>split_unquoted\<close>: quoting state, escape state and the field read so far.\<close>

fun split_loop :: "char \<Rightarrow> bool \<Rightarrow> bool \<Rightarrow> string \<Rightarrow> string \<Rightarrow> string list" where
  "split_loop delim in_quote escaped field [] = [field]"
| "split_loop delim in_quote escaped field (ch # rest) =
     (if escaped then split_loop delim in_quote False (field @ [ch]) rest
      else if ch = bslash then split_loop delim in_quote True (field @ [ch]) rest
      else if ch = dquote then split_loop delim (\<not> in_quote) False (field @ [ch]) rest
      else if ch = delim \<and> \<not> in_quote then field # split_loop delim in_quote False [] rest
      else split_loop delim in_quote False (field @ [ch]) rest)"

definition split_unquoted :: "string \<Rightarrow> char \<Rightarrow> string list" where
  "split_unquoted s delim = split_loop delim False False [] s"

fun split_once_loop :: "char \<Rightarrow> bool \<Rightarrow> bool \<Rightarrow> string \<Rightarrow> string \<Rightarrow> (string \<times> string) option" where
  "split_once_loop delim in_quote escaped field [] = None"
| "split_once_loop delim in_quote escaped field (ch # rest) =
     (if escaped then split_once_loop delim in_quote False (field @ [ch]) rest
      else if ch = bslash then split_once_loop delim in_quote True (field @ [ch]) rest
      else if ch = dquote then split_once_loop delim (\<not> in_quote) False (field @ [ch]) rest
      else if ch = delim \<and> \<not> in_quote then Some (field, rest)
      else split_once_loop delim in_quote False (field @ [ch]) rest)"

definition split_once_unquoted :: "string \<Rightarrow> char \<Rightarrow> (string \<times> string) option" where
  "split_once_unquoted s delim = split_once_loop delim False False [] s"

fun decode_loop :: "bool \<Rightarrow> bool \<Rightarrow> string \<Rightarrow> string \<Rightarrow> string \<times> bool \<times> bool" where
  "decode_loop in_quote escaped out [] = (out, in_quote, escaped)"
| "decode_loop in_quote escaped out (ch # rest) =
     (if escaped then decode_loop in_quote False (out @ [ch]) rest
      else if ch = bslash then decode_loop in_quote True out rest
      else if ch = dquote then decode_loop (\<not> in_quote) False out rest
      else decode_loop in_quote False (out @ [ch]) rest)"

definition decode_field :: "string \<Rightarrow> string \<Rightarrow> FrontendError + string" where
  "decode_field raw whole =
     (case decode_loop False False [] raw of (out, in_quote, escaped) \<Rightarrow>
        if escaped then Inl (InvalidSelector whole ''selector ends with a dangling backslash escape'')
        else if in_quote then Inl (InvalidSelector whole ''selector has an unterminated quote'')
        else Inr out)"

definition escape_char :: "char \<Rightarrow> string" where
  "escape_char ch = (if ch = dquote \<or> ch = bslash then [bslash, ch] else [ch])"

definition escape_segment :: "string \<Rightarrow> string" where
  "escape_segment v =
     (if v \<noteq> [] \<and> \<not> list_ex (\<lambda>ch. ch \<in> set STRUCTURAL) v then v
      else [dquote] @ concat (map escape_char v) @ [dquote])"

section \<open>Parsing and printing\<close>

definition split_label_section :: "string \<Rightarrow> string \<times> string list option" where
  "split_label_section v =
     (case split_once_unquoted v (CHR ''@'') of
        Some (path, labels) \<Rightarrow> (path, Some (split_unquoted labels (CHR ''&'')))
      | None \<Rightarrow> (v, None))"

fun tuple_segments :: "string \<Rightarrow> string list \<Rightarrow> FrontendError + string list" where
  "tuple_segments whole [] = Inr []"
| "tuple_segments whole (raw # raws) =
     and_then (decode_field raw whole) (\<lambda>segment.
       if segment = [] then Inl (InvalidSelector whole ''selector path must not contain empty segments'')
       else and_then (tuple_segments whole raws) (\<lambda>parts. Inr (segment # parts)))"

definition parse_tuple_path :: "string \<Rightarrow> string \<Rightarrow> FrontendError + string list" where
  "parse_tuple_path whole path =
     (if path = [] then Inl (InvalidSelector whole ''selector must not be empty'')
      else tuple_segments whole (split_unquoted path (CHR ''/'')))"

definition section_fields :: "string list option \<Rightarrow> string list" where
  "section_fields labels = (case labels of None \<Rightarrow> [] | Some fs \<Rightarrow> fs)"

fun parse_labels :: "string \<Rightarrow> string list \<Rightarrow> FrontendError + SecretLabelV1 list" where
  "parse_labels whole [] = Inr []"
| "parse_labels whole (label # rest) =
     (case split_once_unquoted label (CHR ''='') of
        None \<Rightarrow> Inl (InvalidSelector whole ''secret labels are @key=value pairs separated by &'')
      | Some (raw_key, raw_value) \<Rightarrow>
          and_then (decode_field raw_key whole) (\<lambda>k.
          and_then (decode_field raw_value whole) (\<lambda>v.
            if k = [] \<or> v = [] then Inl (InvalidSelector whole ''label keys and values must not be empty'')
            else and_then (parse_labels whole rest) (\<lambda>labels.
              Inr (\<lparr>label_key = k, label_value = v\<rparr> # labels)))))"

text \<open>\<open>labels.sort()\<close> by the derived order of the struct, then the scan of neighbours.\<close>

definition sort_labels :: "SecretLabelV1 list \<Rightarrow> SecretLabelV1 list" where
  "sort_labels labels = sort_key (\<lambda>l. (label_key l, label_value l)) labels"

fun repeated_key :: "SecretLabelV1 list \<Rightarrow> bool" where
  "repeated_key (a # b # rest) = (label_key a = label_key b \<or> repeated_key (b # rest))"
| "repeated_key _ = False"

definition parse_secret_selector :: "string \<Rightarrow> FrontendError + SecretSelectorV1" where
  "parse_secret_selector v =
     (case split_label_section v of (path, label_section) \<Rightarrow>
        and_then (parse_tuple_path v path) (\<lambda>tuple.
        and_then (parse_labels v (section_fields label_section)) (\<lambda>labels.
          if repeated_key (sort_labels labels)
          then Inl (InvalidSelector v ''a label key may appear only once'')
          else Inr \<lparr>sel_tuple = tuple, sel_labels = sort_labels labels\<rparr>)))"

definition parse_query_label :: "string \<Rightarrow> string \<Rightarrow> FrontendError + KeyspaceLabelMatcherV1" where
  "parse_query_label whole label =
     (if take 1 label = ''!''
      then and_then (decode_field (tl label) whole) (\<lambda>k. Inr \<lparr>klm_key = k, klm_matcher = Absent\<rparr>)
      else case split_once_unquoted label (CHR ''='') of
        Some (raw_key, raw_value) \<Rightarrow>
          and_then (decode_field raw_value whole) (\<lambda>v.
            if v = [] then Inl (InvalidSelector whole ''label values must not be empty'')
            else and_then (decode_field raw_key whole) (\<lambda>k.
              Inr \<lparr>klm_key = k, klm_matcher = Equals v\<rparr>))
      | None \<Rightarrow> and_then (decode_field label whole) (\<lambda>k.
              Inr \<lparr>klm_key = k, klm_matcher = LabelMatcherV1.Any\<rparr>))"

fun parse_query_labels ::
  "string \<Rightarrow> KeyspaceLabelMatcherV1 list \<Rightarrow> string list \<Rightarrow> FrontendError + KeyspaceLabelMatcherV1 list" where
  "parse_query_labels whole labels [] = Inr labels"
| "parse_query_labels whole labels (label # rest) =
     and_then (parse_query_label whole label) (\<lambda>m.
       if klm_key m = [] then Inl (InvalidSelector whole ''label keys must not be empty'')
       else if list_ex (\<lambda>existing. klm_key existing = klm_key m) labels
       then Inl (InvalidSelector whole ''a label key may appear only once'')
       else parse_query_labels whole (labels @ [m]) rest)"

definition parse_secret_query :: "string \<Rightarrow> FrontendError + KeyspaceSelectorV1" where
  "parse_secret_query v =
     (case split_label_section v of (path, label_section) \<Rightarrow>
        and_then (if path \<in> set [''*'', ''.'', ''/''] \<or> path = [] \<and> label_section \<noteq> None
                  then Inr TupleMatcherV1.Any
                  else and_then (parse_tuple_path v path) (\<lambda>t. Inr (Prefix t))) (\<lambda>tuple.
        and_then (parse_query_labels v [] (section_fields label_section)) (\<lambda>labels.
          Inr \<lparr>ks_tuple = tuple, ks_labels = labels\<rparr>)))"

fun join_with :: "char \<Rightarrow> string list \<Rightarrow> string" where
  "join_with delim [] = []"
| "join_with delim [w] = w"
| "join_with delim (w # ws) = w @ [delim] @ join_with delim ws"

definition escape_tuple :: "string list \<Rightarrow> string" where
  "escape_tuple parts = join_with (CHR ''/'') (map escape_segment parts)"

fun render_labels :: "nat \<Rightarrow> SecretLabelV1 list \<Rightarrow> string" where
  "render_labels index [] = []"
| "render_labels index (label # labels) =
     [if index = 0 then CHR ''@'' else CHR ''&''] @ escape_segment (label_key label) @ ''=''
     @ escape_segment (label_value label) @ render_labels (Suc index) labels"

definition selector_string :: "SecretSelectorV1 \<Rightarrow> string" where
  "selector_string selector = escape_tuple (sel_tuple selector) @ render_labels 0 (sel_labels selector)"

section \<open>Scanning printed fields\<close>

text \<open>
  A string is transparent for a delimiter when a scan that meets it outside quotes comes out
  outside quotes, without a split.
\<close>

definition transparent :: "char \<Rightarrow> string \<Rightarrow> bool" where
  "transparent delim w \<longleftrightarrow>
     (\<forall>field rest. split_loop delim False False field (w @ rest) = split_loop delim False False (field @ w) rest
        \<and> split_once_loop delim False False field (w @ rest) = split_once_loop delim False False (field @ w) rest)"

lemma transparentD:
  assumes "transparent delim w"
  shows "split_loop delim False False field (w @ rest) = split_loop delim False False (field @ w) rest"
    and "split_once_loop delim False False field (w @ rest) = split_once_loop delim False False (field @ w) rest"
  using assms by (auto simp: transparent_def)

lemma transparent_Nil [intro]: "transparent delim []"
  by (simp add: transparent_def)

lemma transparent_append [intro]: "transparent delim v \<Longrightarrow> transparent delim w \<Longrightarrow> transparent delim (v @ w)"
  by (simp add: transparent_def)

lemma transparent_char:
  "ch \<noteq> delim \<Longrightarrow> ch \<noteq> dquote \<Longrightarrow> ch \<noteq> bslash \<Longrightarrow> transparent delim [ch]"
  by (simp add: transparent_def)

lemma transparent_plain:
  "(\<And>ch. ch \<in> set w \<Longrightarrow> ch \<noteq> delim \<and> ch \<noteq> dquote \<and> ch \<noteq> bslash) \<Longrightarrow> transparent delim w"
proof (induction w)
  case (Cons ch w)
  then show ?case
    using transparent_append [of delim "[ch]" w] transparent_char [of ch delim] by simp
qed (rule transparent_Nil)

lemma dquote_not_bslash [simp]: "dquote \<noteq> bslash" "bslash \<noteq> dquote"
  by (simp_all add: dquote_def bslash_def)

lemma quoted_scan:
  "split_loop delim True False field (concat (map escape_char v) @ dquote # rest) =
     split_loop delim False False (field @ concat (map escape_char v) @ [dquote]) rest"
  "split_once_loop delim True False field (concat (map escape_char v) @ dquote # rest) =
     split_once_loop delim False False (field @ concat (map escape_char v) @ [dquote]) rest"
  "decode_loop True False out (concat (map escape_char v) @ dquote # rest) =
     decode_loop False False (out @ v) rest"
  by (induction v arbitrary: field out) (auto simp: escape_char_def)

lemma transparent_quoted: "transparent delim (dquote # concat (map escape_char v) @ [dquote])"
  by (simp add: transparent_def quoted_scan)

lemma transparent_escape: "delim \<in> set STRUCTURAL \<Longrightarrow> transparent delim (escape_segment v)"
  using transparent_plain [of v delim] transparent_quoted [of delim v]
  by (auto simp: escape_segment_def list_ex_iff STRUCTURAL_def)

lemma decode_plain:
  "(\<And>ch. ch \<in> set w \<Longrightarrow> ch \<noteq> dquote \<and> ch \<noteq> bslash) \<Longrightarrow> decode_loop q False out w = (out @ w, q, False)"
  by (induction w arbitrary: out) auto

lemma decode_escape: "decode_field (escape_segment v) whole = Inr v"
proof (cases "v \<noteq> [] \<and> \<not> list_ex (\<lambda>ch. ch \<in> set STRUCTURAL) v")
  case True
  then show ?thesis
    using decode_plain [of v False "[]"] by (auto simp: escape_segment_def decode_field_def list_ex_iff STRUCTURAL_def)
next
  case False
  then show ?thesis
    using quoted_scan(3) [of "[]" v "[]"] by (auto simp: escape_segment_def decode_field_def)
qed

lemma escape_nonempty [simp]: "escape_segment v \<noteq> []"
  by (simp add: escape_segment_def)

lemma split_once_transparent:
  assumes "transparent delim w"
  shows "split_once_unquoted w delim = None"
    and "delim \<noteq> dquote \<Longrightarrow> delim \<noteq> bslash \<Longrightarrow> split_once_unquoted (w @ delim # rest) delim = Some (w, rest)"
proof -
  from transparentD(2) [OF assms, of "[]" "[]"] transparentD(2) [OF assms, of "[]" "delim # rest"]
  show "split_once_unquoted w delim = None"
    "delim \<noteq> dquote \<Longrightarrow> delim \<noteq> bslash \<Longrightarrow> split_once_unquoted (w @ delim # rest) delim = Some (w, rest)"
    by (simp_all add: split_once_unquoted_def)
qed

lemma split_join:
  assumes "ws \<noteq> []" and "\<And>w. w \<in> set ws \<Longrightarrow> transparent delim w" and "delim \<noteq> dquote" "delim \<noteq> bslash"
  shows "split_unquoted (join_with delim ws) delim = ws"
  using assms
proof (induction delim ws rule: join_with.induct)
  case (2 delim w)
  then show ?case
    using transparentD(1) [of delim w "[]" "[]"] by (simp add: split_unquoted_def)
next
  case (3 delim w w' ws)
  then show ?case
    using transparentD(1) [of delim w "[]"] by (simp add: split_unquoted_def)
qed simp

section \<open>Selectors the grammar can spell\<close>

definition printable :: "SecretSelectorV1 \<Rightarrow> bool" where
  "printable s \<longleftrightarrow> sel_tuple s \<noteq> [] \<and> [] \<notin> set (sel_tuple s)
     \<and> (\<forall>l \<in> set (sel_labels s). label_key l \<noteq> [] \<and> label_value l \<noteq> [])
     \<and> sorted_wrt (<) (map label_key (sel_labels s))"

definition label_string :: "SecretLabelV1 \<Rightarrow> string" where
  "label_string l = escape_segment (label_key l) @ ''='' @ escape_segment (label_value l)"

lemma render_labels_Suc:
  "ls \<noteq> [] \<Longrightarrow> render_labels (Suc n) ls = CHR ''&'' # join_with (CHR ''&'') (map label_string ls)"
  by (induction ls arbitrary: n rule: induct_list012) (simp_all add: label_string_def)

lemma join_with_Cons: "ws \<noteq> [] \<Longrightarrow> join_with delim (w # ws) = w @ delim # join_with delim ws"
  by (cases ws) simp_all

lemma render_labels_0:
  assumes "ls \<noteq> []"
  shows "render_labels 0 ls = CHR ''@'' # join_with (CHR ''&'') (map label_string ls)"
proof (cases ls)
  case (Cons l rest)
  then show ?thesis
    by (cases "rest = []") (simp_all add: join_with_Cons label_string_def render_labels_Suc)
qed (use assms in simp)

lemma transparent_join:
  assumes "\<And>w. w \<in> set ws \<Longrightarrow> transparent delim w" and "transparent delim [sep]"
  shows "transparent delim (join_with sep ws)"
  using assms
proof (induction sep ws rule: join_with.induct)
  case (3 sep w w' ws)
  then show ?case
    using transparent_append [of delim w "[sep] @ join_with sep (w' # ws)"]
      transparent_append [of delim "[sep]" "join_with sep (w' # ws)"] by simp
qed auto

lemma not_structural [simp]:
  "CHR ''@'' \<in> set STRUCTURAL" "CHR ''&'' \<in> set STRUCTURAL" "CHR ''='' \<in> set STRUCTURAL"
  "CHR ''/'' \<in> set STRUCTURAL"
  "CHR ''@'' \<noteq> dquote" "CHR ''&'' \<noteq> dquote" "CHR ''='' \<noteq> dquote" "CHR ''/'' \<noteq> dquote"
  "CHR ''@'' \<noteq> bslash" "CHR ''&'' \<noteq> bslash" "CHR ''='' \<noteq> bslash" "CHR ''/'' \<noteq> bslash"
  by (simp_all add: STRUCTURAL_def dquote_def bslash_def)

lemma split_printed:
  "split_label_section (selector_string s) =
     (escape_tuple (sel_tuple s),
      if sel_labels s = [] then None else Some (map label_string (sel_labels s)))"
proof -
  have path: "transparent (CHR ''@'') (escape_tuple (sel_tuple s))"
    unfolding escape_tuple_def
    by (rule transparent_join) (auto intro: transparent_escape transparent_char)
  have "transparent (CHR ''&'') (label_string l)" for l
    unfolding label_string_def
    by (intro transparent_append transparent_escape transparent_char) simp_all
  then have "split_unquoted (join_with (CHR ''&'') (map label_string ls)) (CHR ''&'') = map label_string ls"
    if "ls \<noteq> []" for ls
    using that by (intro split_join) auto
  then show ?thesis
    using split_once_transparent [OF path]
    by (auto simp: split_label_section_def selector_string_def render_labels_0)
qed

lemma parse_printed_tuple:
  assumes "t \<noteq> []" and "[] \<notin> set t"
  shows "parse_tuple_path whole (escape_tuple t) = Inr t"
proof -
  have ne: "escape_tuple t \<noteq> []"
    using assms(1) by (cases t rule: remdups_adj.cases) (simp_all add: escape_tuple_def)
  have "split_unquoted (escape_tuple t) (CHR ''/'') = map escape_segment t"
    unfolding escape_tuple_def using assms(1) by (intro split_join) (auto intro: transparent_escape)
  moreover have "tuple_segments whole (map escape_segment t) = Inr t"
    using assms(2) by (induction t) (auto simp: decode_escape)
  ultimately show ?thesis
    using ne by (simp add: parse_tuple_path_def)
qed

lemma split_label_string:
  "split_once_unquoted (label_string l) (CHR ''='') = Some (escape_segment (label_key l), escape_segment (label_value l))"
  using split_once_transparent(2) [OF transparent_escape, of "CHR ''=''" "label_key l" "escape_segment (label_value l)"]
  by (simp add: label_string_def)

lemma parse_printed_labels:
  assumes "\<forall>l \<in> set ls. label_key l \<noteq> [] \<and> label_value l \<noteq> []"
  shows "parse_labels whole (map label_string ls) = Inr ls"
  using assms by (induction ls) (auto simp: split_label_string decode_escape)

lemma repeated_key_iff:
  "sorted (map label_key ls) \<Longrightarrow> repeated_key ls \<longleftrightarrow> \<not> sorted_wrt (<) (map label_key ls)"
proof (induction ls rule: repeated_key.induct)
  case (1 a b rest)
  have "label_key a \<le> label_key b" using 1(2) by simp
  then have "label_key a = label_key b \<longleftrightarrow> \<not> label_key a < label_key b" by auto
  with 1 show ?case by (simp add: sorted_wrt2 del: sorted_wrt.simps(2))
qed auto

lemma sorted_label_keys: "sorted (map label_key (sort_labels ls))"
proof -
  have "sorted (map (\<lambda>l. (label_key l, label_value l)) (sort_labels ls))"
    by (simp add: sort_labels_def)
  then have "sorted (map fst (map (\<lambda>l. (label_key l, label_value l)) (sort_labels ls)))"
    by (induction "sort_labels ls" arbitrary: ls) (auto simp: less_eq_prod_def sorted_wrt_map intro: sorted_wrt_mono_rel [rotated])
  then show ?thesis by (simp add: comp_def)
qed

lemma sort_labels_sorted:
  assumes "sorted_wrt (<) (map label_key ls)"
  shows "sort_labels ls = ls"
proof -
  have "sorted_wrt (\<lambda>a b. (label_key a, label_value a) \<le> (label_key b, label_value b)) ls"
    using assms unfolding sorted_wrt_map by (rule sorted_wrt_mono_rel [rotated]) (simp add: less_eq_prod_def)
  then show ?thesis
    unfolding sort_labels_def by (intro sort_key_id_if_sorted) (simp add: sorted_wrt_map)
qed

lemma parse_printed:
  assumes "printable s"
  shows "parse_secret_selector (selector_string s) = Inr s"
proof -
  have sorted: "sorted_wrt (<) (map label_key (sel_labels s))"
    using assms by (simp add: printable_def)
  then have "\<not> repeated_key (sel_labels s)"
    using repeated_key_iff [OF strict_sorted_imp_sorted [OF sorted]] by simp
  moreover have "parse_labels w (section_fields (if sel_labels s = [] then None else Some (map label_string (sel_labels s)))) =
      Inr (sel_labels s)" for w
    using parse_printed_labels [of "sel_labels s" w] assms by (auto simp: section_fields_def printable_def)
  ultimately show ?thesis
    using assms sort_labels_sorted [OF sorted]
    by (simp add: parse_secret_selector_def split_printed parse_printed_tuple printable_def del: if_split)
qed

lemma tuple_segments_nonempty: "tuple_segments whole raws = Inr t \<Longrightarrow> [] \<notin> set t \<and> length t = length raws"
  by (induction raws arbitrary: t) (auto simp: and_then_Inr_iff split: if_splits)

lemma split_nonempty: "split_loop d q e f s \<noteq> []"
  by (induction d q e f s rule: split_loop.induct) auto

lemma parse_labels_nonempty:
  "parse_labels whole raws = Inr ls \<Longrightarrow> \<forall>l \<in> set ls. label_key l \<noteq> [] \<and> label_value l \<noteq> []"
  by (induction raws arbitrary: ls) (auto simp: and_then_Inr_iff split: option.splits if_splits)

lemma parsed_printable:
  assumes "parse_secret_selector v = Inr s"
  shows "printable s"
proof -
  obtain path lsec t ls where parts: "split_label_section v = (path, lsec)"
      "parse_tuple_path v path = Inr t" "parse_labels v (section_fields lsec) = Inr ls"
      "\<not> repeated_key (sort_labels ls)" "s = \<lparr>sel_tuple = t, sel_labels = sort_labels ls\<rparr>"
    using assms by (auto simp: parse_secret_selector_def and_then_Inr_iff split: prod.splits if_splits)
  have "[] \<notin> set t" "t \<noteq> []"
    using parts(2) tuple_segments_nonempty split_nonempty
    by (auto simp: parse_tuple_path_def split_unquoted_def split: if_splits) fastforce+
  moreover have "\<forall>l \<in> set (sort_labels ls). label_key l \<noteq> [] \<and> label_value l \<noteq> []"
    using parse_labels_nonempty [OF parts(3)] by (simp add: sort_labels_def)
  ultimately show ?thesis
    using parts(4,5) repeated_key_iff [OF sorted_label_keys] by (simp add: printable_def)
qed

text \<open>Queries spelled like a secret.\<close>

lemma escape_first: "take 1 (escape_segment v @ w) \<noteq> ''!''"
  by (cases v) (auto simp: escape_segment_def STRUCTURAL_def dquote_def)

lemma parse_printed_query_label:
  assumes "label_value l \<noteq> []"
  shows "parse_query_label whole (label_string l) = Inr \<lparr>klm_key = label_key l, klm_matcher = Equals (label_value l)\<rparr>"
proof -
  have "take 1 (label_string l) \<noteq> ''!''"
    unfolding label_string_def by (rule escape_first)
  then show ?thesis
    using assms by (simp add: parse_query_label_def split_label_string decode_escape)
qed

definition label_query :: "SecretLabelV1 \<Rightarrow> KeyspaceLabelMatcherV1" where
  "label_query l = \<lparr>klm_key = label_key l, klm_matcher = Equals (label_value l)\<rparr>"

lemma parse_printed_query_labels:
  assumes "\<forall>l \<in> set ls. label_key l \<noteq> [] \<and> label_value l \<noteq> []"
    and "distinct (map label_key (ks @ ls))"
  shows "parse_query_labels whole (map label_query ks) (map label_string ls) = Inr (map label_query (ks @ ls))"
  using assms
proof (induction ls arbitrary: ks)
  case (Cons l ls)
  have "\<not> list_ex (\<lambda>e. klm_key e = label_key l) (map label_query ks)"
    using Cons.prems(2) by (auto simp: list_ex_iff label_query_def rev_image_eqI)
  then show ?case
    using Cons.prems Cons.IH [of "ks @ [l]"]
    by (simp add: parse_printed_query_label) (simp add: label_query_def)
qed simp

lemma escape_spells:
  assumes "t \<noteq> []" and "[] \<notin> set t"
  shows "escape_tuple t \<in> set [''*'', ''.'', ''/''] \<longleftrightarrow> t = [''*''] \<or> t = [''.'']"
proof (cases t rule: remdups_adj.cases)
  case (2 x)
  then show ?thesis
    by (auto simp: escape_tuple_def escape_segment_def STRUCTURAL_def dquote_def bslash_def)
next
  case (3 x y xs)
  have "length (escape_tuple t) \<ge> 2"
    using 3 escape_nonempty [of x] by (cases "escape_segment x") (auto simp: escape_tuple_def)
  then show ?thesis using 3 by auto
qed (use assms in simp)

lemma secret_label_found:
  assumes "sorted_wrt (<) (map label_key (sel_labels s))" and "l \<in> set (sel_labels s)"
  shows "secret_label_value s (label_key l) = Some (label_value l)"
proof -
  have inj: "inj_on label_key (set (sel_labels s))"
    using assms(1) by (simp add: strict_sorted_iff distinct_map)
  obtain l' where l': "find (\<lambda>x. label_key x = label_key l) (sel_labels s) = Some l'"
    using assms(2) by (cases "find (\<lambda>x. label_key x = label_key l) (sel_labels s)") (auto simp: find_None_iff)
  then have found: "l' \<in> set (sel_labels s)" "label_key l' = label_key l"
    by (auto simp: find_Some_iff)
  have "l' = l"
    by (rule inj_onD [OF inj found(2) found(1) assms(2)])
  with l' show ?thesis
    by (simp add: secret_label_value_def)
qed

section \<open>Properties\<close>

text \<open>
  C38. The grammar round-trips: whatever spelling a selector was parsed from, printing it and
  parsing the result gives the same selector; and a parsed selector passes structural
  validation, names at least one segment, and has no empty segment, label key or label value.
\<close>

theorem selector_print_parse:
  assumes "parse_secret_selector v = Inr s"
  shows "parse_secret_selector (selector_string s) = Inr s \<and> validate_secret_selector s = Inr ()
    \<and> sel_tuple s \<noteq> [] \<and> [] \<notin> set (sel_tuple s)
    \<and> list_all (\<lambda>l. label_key l \<noteq> [] \<and> label_value l \<noteq> []) (sel_labels s)"
  using parse_printed [OF parsed_printable [OF assms]] parsed_printable [OF assms]
  by (auto simp: printable_def validate_secret_selector_iff list_all_iff)

lemma sample_parse:
  "parse_secret_selector ''app/db@tier=web&env=prod'' =
     Inr \<lparr>sel_tuple = [''app'', ''db''], sel_labels = [\<lparr>label_key = ''env'', label_value = ''prod''\<rparr>,
       \<lparr>label_key = ''tier'', label_value = ''web''\<rparr>]\<rparr>"
  by code_simp

theorem selector_print_parse_witness:
  "parse_secret_selector (selector_string \<lparr>sel_tuple = [''app'', ''db''],
       sel_labels = [\<lparr>label_key = ''env'', label_value = ''prod''\<rparr>, \<lparr>label_key = ''tier'', label_value = ''web''\<rparr>]\<rparr>) =
     Inr \<lparr>sel_tuple = [''app'', ''db''], sel_labels = [\<lparr>label_key = ''env'', label_value = ''prod''\<rparr>,
       \<lparr>label_key = ''tier'', label_value = ''web''\<rparr>]\<rparr>"
  using selector_print_parse [OF sample_parse] by blast

text \<open>
  C39. The printed name of a secret, used as a selection query, asks for the secret's tuple and
  everything under it with exactly the secret's labels, and it selects the secret; except that a
  secret whose tuple is the one segment \<open>*\<close> or \<open>.\<close> is printed bare, and its name selects every
  tuple of the vault.
\<close>

theorem printed_name_as_query:
  assumes "parse_secret_selector v = Inr s"
  shows "\<exists>q. parse_secret_query (selector_string s) = Inr q \<and> selector_matches q s
    \<and> ks_tuple q = (if sel_tuple s = [''*''] \<or> sel_tuple s = [''.''] then TupleMatcherV1.Any else Prefix (sel_tuple s))
    \<and> ks_labels q = map label_query (sel_labels s)"
proof -
  have p: "printable s" by (rule parsed_printable [OF assms])
  have sorted: "sorted_wrt (<) (map label_key (sel_labels s))"
    using p by (simp add: printable_def)
  have tuple: "sel_tuple s \<noteq> []" "[] \<notin> set (sel_tuple s)"
    using p by (auto simp: printable_def)
  have ne: "escape_tuple (sel_tuple s) \<noteq> []"
    using parse_printed_tuple [OF tuple, of "[]"] by (auto simp: parse_tuple_path_def)
  have "distinct (map label_key (sel_labels s))"
    using sorted by (simp add: strict_sorted_iff)
  then have labels: "parse_query_labels w [] (section_fields (if sel_labels s = [] then None
      else Some (map label_string (sel_labels s)))) = Inr (map label_query (sel_labels s))" for w
    using parse_printed_query_labels [of "sel_labels s" "[]" w] p by (auto simp: section_fields_def printable_def)
  have matches: "list_all (\<lambda>l. label_matches (klm_matcher l) (secret_label_value s (klm_key l)))
      (map label_query (sel_labels s))"
    using secret_label_found [OF sorted] by (simp add: list_all_iff label_query_def)
  show ?thesis
    using labels matches escape_spells [OF tuple] parse_printed_tuple [OF tuple] ne
    by (auto simp: parse_secret_query_def split_printed selector_matches_def simp del: set_simps)
qed

theorem printed_name_as_query_witness:
  "\<exists>q. parse_secret_query (selector_string (selector_tuple [''*''])) = Inr q
     \<and> ks_tuple q = TupleMatcherV1.Any \<and> selector_matches q (selector_tuple [''*''])"
proof -
  have "parse_secret_selector ''*'' = Inr (selector_tuple [''*''])"
    by code_simp
  from printed_name_as_query [OF this] show ?thesis
    by (auto simp: selector_tuple_def)
qed

end
