(* ===== verification/Thorax_Store.thy ===== *)
theory Thorax_Store
  imports Thorax_Codec
begin

text \<open>
  Files: \<open>crates/thorax-store/src/lib.rs\<close> and \<open>transaction.rs\<close>. The vault file, the rollback ratchet
  of a root, the transaction journal and the verification cache, with their paths, magics, size
  ceilings and checks, and the compare-and-swap backend of the ratchet.

  The disk is a map from paths to contents. A read finds a regular file or nothing; an atomic
  write (temporary file, sync, rename) replaces the whole content or, when the process stops
  before it, leaves the old one; failures of the operating system other than a missing or an
  oversized file are not modelled, nor are symbolic links and permissions. Locks make the
  operations on one root run one at a time, so an operation here is a function of the disk. The
  Unix build is modelled; the serialiser, canonicalisation of paths and the hash and signature
  primitives are the fields of a \<open>StoreEnv\<close>.
\<close>

section \<open>Paths and errors\<close>

type_synonym Path = string
type_synonym Disk = "Path \<Rightarrow> Bytes option"

datatype IoErrorKind = NotFound | InvalidInput | InvalidData | Interrupted

datatype IoError = IoError IoErrorKind string

datatype StoreError =
    Io Path IoError
  | VaultMissing Path
  | InvalidVault Path CoreError
  | Cord CordError
  | Core CoreError
  | WorkspaceNotFound Path
  | AmbiguousWorkspace Path Path Path
  | MissingThoraxDir Path
  | LockAlreadyHeld Path
  | InvalidRatchet Path CordError
  | InvalidTransaction Path string
  | TransactionPending Path
  | TrustRootMismatch HashValue HashValue

record WorkspacePaths =
  paths_root :: Path
  thorax_dir :: Path
  vault_path :: Path
  lock_path :: Path
  state_dir :: Path

definition path_join :: "Path \<Rightarrow> string \<Rightarrow> Path" where
  "path_join dir name = dir @ ''/'' @ name"

definition hex_digit :: "nat \<Rightarrow> char" where
  "hex_digit n = ''0123456789abcdef'' ! n"

definition hex_bytes :: "Bytes \<Rightarrow> string" where
  "hex_bytes bytes = concat (map (\<lambda>b. [hex_digit (unat (drop_bit 4 b)), hex_digit (unat (and b 0x0f))]) bytes)"

definition hex_hash :: "HashValue \<Rightarrow> string" where
  "hex_hash h = hex_bytes (hash_bytes h)"

definition RATCHET_FILE :: string where "RATCHET_FILE = ''ratchet.cord''"

definition CACHE_FILE :: string where "CACHE_FILE = ''cache.cord''"

definition TRANSACTION_FILE :: string where "TRANSACTION_FILE = ''transaction.cord''"

definition ratchet_path :: "WorkspacePaths \<Rightarrow> HashValue \<Rightarrow> Path" where
  "ratchet_path paths root = path_join (path_join (state_dir paths) (hex_hash root)) RATCHET_FILE"

definition transaction_path :: "WorkspacePaths \<Rightarrow> HashValue \<Rightarrow> Path" where
  "transaction_path paths root = path_join (path_join (state_dir paths) (hex_hash root)) TRANSACTION_FILE"

fun user_hash :: "UserId \<Rightarrow> HashValue" where
  "user_hash (UserId h) = h"

definition verification_cache_path :: "WorkspacePaths \<Rightarrow> HashValue \<Rightarrow> UserId \<Rightarrow> Path" where
  "verification_cache_path paths root user =
     path_join (path_join (path_join (state_dir paths) (hex_hash root)) (hex_hash (user_hash user))) CACHE_FILE"

section \<open>What is stored\<close>

definition MAX_RATCHET_BYTES :: nat where
  "MAX_RATCHET_BYTES = MAX_VAULT_BYTES"

definition MAX_VERIFICATION_CACHE_BYTES :: nat where
  "MAX_VERIFICATION_CACHE_BYTES = 32 * 1024 * 1024"

definition MAX_TRANSACTION_BYTES :: nat where
  "MAX_TRANSACTION_BYTES = MAX_VAULT_BYTES + MAX_RATCHET_BYTES + 1024 * 1024"

definition MAX_TRANSACTION_OPERATION_BYTES :: nat where
  "MAX_TRANSACTION_OPERATION_BYTES = 128"

definition TRANSACTION_ID_BYTES :: nat where
  "TRANSACTION_ID_BYTES = 32"

record RatchetStoreV1 =
  rs_records :: "RatchetRecordV1 Evolving list"

datatype RatchetStore = V1 RatchetStoreV1

datatype FilePreconditionV1 = Missing | Hash HashValue

datatype NativePathV1 = Unix Bytes | WindowsUtf16Le Bytes

record TransactionV1 =
  transaction_id :: Bytes
  tx_trusted_root :: HashValue
  origin_vault_path :: NativePathV1
  tx_operation :: string
  vault_before :: FilePreconditionV1
  ratchet_before :: FilePreconditionV1
  next_vault_bytes :: Bytes
  next_ratchet_bytes :: Bytes

datatype TransactionStore = V1 TransactionV1

record VerificationCacheMessageV1 =
  cache_trusted_root :: HashValue
  cache_format_version :: u64
  verified_record_hashes :: "HashValue list"

record VerificationCacheV1 = VerificationCacheMessageV1 +
  cache_signing_public_key :: Bytes
  cache_signature :: Bytes

datatype VerificationCacheStore = V1 VerificationCacheV1

text \<open>What the store takes from outside the repository.\<close>

record StoreEnv =
  env_vault :: "VaultStore CordCodec"
  env_ratchet :: "RatchetStore CordCodec"
  env_transaction :: "TransactionStore CordCodec"
  env_cache :: "VerificationCacheStore CordCodec"
  env_cache_message :: "VerificationCacheMessageV1 \<Rightarrow> CordError + Bytes"
  env_canonicalize :: "Path \<Rightarrow> IoError + Path"
  env_crypto :: CryptoProvider

section \<open>Reading and writing files\<close>

definition read_file_bounded :: "Disk \<Rightarrow> Path \<Rightarrow> nat \<Rightarrow> IoError + Bytes" where
  "read_file_bounded d path max_bytes =
     (case d path of
        None \<Rightarrow> Inl (IoError NotFound ''No such file or directory'')
      | Some bytes \<Rightarrow>
          if length bytes > max_bytes
          then Inl (IoError InvalidData (''file is '' @ decimal (length bytes)
                 @ '' bytes, above the supported maximum of '' @ decimal max_bytes))
          else Inr bytes)"

text \<open>A read in which a missing file is not an error.\<close>

definition read_current_file :: "Disk \<Rightarrow> Path \<Rightarrow> nat \<Rightarrow> StoreError + Bytes option" where
  "read_current_file d path max_bytes =
     (case read_file_bounded d path max_bytes of
        Inr bytes \<Rightarrow> Inr (Some bytes)
      | Inl (IoError NotFound m) \<Rightarrow> Inr None
      | Inl e \<Rightarrow> Inl (Io path e))"

definition write_atomic :: "Path \<Rightarrow> Bytes \<Rightarrow> Disk \<Rightarrow> Disk" where
  "write_atomic path bytes d = d(path \<mapsto> bytes)"

definition remove_file_durable :: "Path \<Rightarrow> Disk \<Rightarrow> Disk" where
  "remove_file_durable path d = d(path := None)"

section \<open>The vault file\<close>

definition read_vault_bytes :: "Disk \<Rightarrow> WorkspacePaths \<Rightarrow> StoreError + Bytes" where
  "read_vault_bytes d paths =
     (case read_file_bounded d (vault_path paths) MAX_VAULT_BYTES of
        Inr bytes \<Rightarrow> Inr bytes
      | Inl (IoError NotFound m) \<Rightarrow> Inl (VaultMissing (vault_path paths))
      | Inl (IoError InvalidData m) \<Rightarrow> Inl (InvalidVault (vault_path paths) (Validation m))
      | Inl e \<Rightarrow> Inl (Io (vault_path paths) e))"

definition read_vault :: "StoreEnv \<Rightarrow> Disk \<Rightarrow> WorkspacePaths \<Rightarrow> StoreError + VaultStore" where
  "read_vault env d paths =
     and_then (read_vault_bytes d paths) (\<lambda>bytes.
       map_err (InvalidVault (vault_path paths)) (decode_vault (env_vault env) bytes))"

definition write_vault_bytes_atomic ::
  "StoreEnv \<Rightarrow> WorkspacePaths \<Rightarrow> Bytes \<Rightarrow> Disk \<Rightarrow> (StoreError + unit) \<times> Disk" where
  "write_vault_bytes_atomic env paths bytes d =
     (if length bytes > MAX_VAULT_BYTES
      then (Inl (InvalidVault (vault_path paths) (too_many_bytes (length bytes) MAX_VAULT_BYTES)), d)
      else let d1 = write_atomic (vault_path paths) bytes d in
        (and_then (read_vault_bytes d1 paths) (\<lambda>reopened.
           if reopened \<noteq> bytes
           then Inl (InvalidVault (vault_path paths)
                  (Validation ''vault bytes differed immediately after atomic write''))
           else and_then (map_err (InvalidVault (vault_path paths)) (decode_vault (env_vault env) reopened))
                  (\<lambda>_. Inr ())), d1))"

definition write_vault_atomic ::
  "StoreEnv \<Rightarrow> WorkspacePaths \<Rightarrow> VaultStore \<Rightarrow> Disk \<Rightarrow> (StoreError + unit) \<times> Disk" where
  "write_vault_atomic env paths vault d =
     (case encode_vault (env_vault env) vault of
        Inl e \<Rightarrow> (Inl (Core e), d)
      | Inr bytes \<Rightarrow> write_vault_bytes_atomic env paths bytes d)"

section \<open>The ratchet file\<close>

definition RATCHET_MAGIC :: Bytes where
  "RATCHET_MAGIC = str_bytes ''thorax-ratchet'' @ [0]"

fun unknown_bytes :: "UnknownRatchetRecord \<Rightarrow> Bytes" where
  "unknown_bytes (UnknownRatchetRecord bytes) = bytes"

definition ratchet_store_of :: "Ratchet \<Rightarrow> RatchetStore" where
  "ratchet_store_of ratchet =
     RatchetStore.V1 \<lparr>rs_records = collect_set
       (map Known (to_records ratchet) @ map (\<lambda>u. Unknown (unknown_bytes u)) (unknown_records ratchet))\<rparr>"

text \<open>The fold of \<open>into_ratchet\<close>: the last trusted root, the known records, the unknown ones.\<close>

fun split_records ::
  "RatchetRecordV1 Evolving list \<Rightarrow> HashValue option \<Rightarrow> RatchetRecordV1 list \<Rightarrow> UnknownRatchetRecord list
     \<Rightarrow> HashValue option \<times> RatchetRecordV1 list \<times> UnknownRatchetRecord list" where
  "split_records [] root knowns unknowns = (root, knowns, unknowns)"
| "split_records (Known (RatchetRecordV1.TrustedRoot r) # rs) root knowns unknowns =
     split_records rs (Some (trr_trusted_root r)) knowns unknowns"
| "split_records (Known r # rs) root knowns unknowns = split_records rs root (knowns @ [r]) unknowns"
| "split_records (Unknown bytes # rs) root knowns unknowns =
     split_records rs root knowns (unknowns @ [UnknownRatchetRecord bytes])"

fun into_ratchet :: "RatchetStore \<Rightarrow> Ratchet option" where
  "into_ratchet (RatchetStore.V1 store) =
     (case split_records (rs_records store) None [] [] of
        (None, _, _) \<Rightarrow> None
      | (Some root, knowns, unknowns) \<Rightarrow>
          Some ((fold absorb_record knowns (ratchet_new root))\<lparr>unknown_records := unknowns\<rparr>))"

definition encode_ratchet :: "StoreEnv \<Rightarrow> Ratchet \<Rightarrow> StoreError + Bytes" where
  "encode_ratchet env ratchet =
     and_then (map_err Cord (cord_ser (env_ratchet env) (ratchet_store_of ratchet))) (\<lambda>payload.
       Inr (RATCHET_MAGIC @ payload))"

definition decode_ratchet :: "StoreEnv \<Rightarrow> Path \<Rightarrow> Bytes \<Rightarrow> StoreError + Ratchet" where
  "decode_ratchet env path bytes =
     (case strip_prefix RATCHET_MAGIC bytes of
        None \<Rightarrow> Inl (InvalidRatchet path (CordError ''not a thorax state file (missing magic prefix)''))
      | Some payload \<Rightarrow>
          and_then (map_err (InvalidRatchet path) (cord_de (env_ratchet env) payload)) (\<lambda>store.
            case into_ratchet store of
              None \<Rightarrow> Inl (InvalidRatchet path (CordError ''ratchet file missing its trusted-root record''))
            | Some ratchet \<Rightarrow> Inr ratchet))"

definition read_ratchet_at :: "StoreEnv \<Rightarrow> Disk \<Rightarrow> Path \<Rightarrow> StoreError + Ratchet option" where
  "read_ratchet_at env d path =
     and_then (read_current_file d path MAX_RATCHET_BYTES) (\<lambda>file.
       case file of
         None \<Rightarrow> Inr None
       | Some bytes \<Rightarrow> and_then (decode_ratchet env path bytes) (\<lambda>r. Inr (Some r)))"

definition read_ratchet_for_root :: "StoreEnv \<Rightarrow> Disk \<Rightarrow> WorkspacePaths \<Rightarrow> HashValue \<Rightarrow> StoreError + Ratchet option" where
  "read_ratchet_for_root env d paths root =
     and_then (read_ratchet_at env d (ratchet_path paths root)) (\<lambda>found.
       case found of
         None \<Rightarrow> Inr None
       | Some ratchet \<Rightarrow> if trusted_root ratchet = root then Inr (Some ratchet)
                         else Inl (TrustRootMismatch (trusted_root ratchet) root))"

definition write_ratchet_bytes_atomic ::
  "StoreEnv \<Rightarrow> WorkspacePaths \<Rightarrow> HashValue \<Rightarrow> Bytes \<Rightarrow> Disk \<Rightarrow> (StoreError + unit) \<times> Disk" where
  "write_ratchet_bytes_atomic env paths root bytes d =
     (let path = ratchet_path paths root in
      if length bytes > MAX_RATCHET_BYTES
      then (Inl (Io path (IoError InvalidData (''ratchet is '' @ decimal (length bytes)
              @ '' bytes, above the supported maximum of '' @ decimal MAX_RATCHET_BYTES))), d)
      else case decode_ratchet env path bytes of
        Inl e \<Rightarrow> (Inl e, d)
      | Inr decoded \<Rightarrow>
          if trusted_root decoded \<noteq> root then (Inl (TrustRootMismatch (trusted_root decoded) root), d)
          else let d1 = write_atomic path bytes d in
            (and_then (map_err (Io path) (read_file_bounded d1 path MAX_RATCHET_BYTES)) (\<lambda>reopened.
               if reopened \<noteq> bytes
               then Inl (Io path (IoError InvalidData ''ratchet bytes differed immediately after atomic write''))
               else and_then (decode_ratchet env path reopened) (\<lambda>_. Inr ())), d1))"

definition write_ratchet_atomic ::
  "StoreEnv \<Rightarrow> WorkspacePaths \<Rightarrow> Ratchet \<Rightarrow> Disk \<Rightarrow> (StoreError + unit) \<times> Disk" where
  "write_ratchet_atomic env paths ratchet d =
     (case encode_ratchet env ratchet of
        Inl e \<Rightarrow> (Inl e, d)
      | Inr bytes \<Rightarrow> write_ratchet_bytes_atomic env paths (trusted_root ratchet) bytes d)"

definition read_ratchet_bytes_for_root ::
  "StoreEnv \<Rightarrow> Disk \<Rightarrow> WorkspacePaths \<Rightarrow> HashValue \<Rightarrow> StoreError + Bytes option" where
  "read_ratchet_bytes_for_root env d paths root =
     (let path = ratchet_path paths root in
      and_then (read_current_file d path MAX_RATCHET_BYTES) (\<lambda>file.
        case file of
          None \<Rightarrow> Inr None
        | Some bytes \<Rightarrow>
            and_then (decode_ratchet env path bytes) (\<lambda>ratchet.
              if trusted_root ratchet \<noteq> root then Inl (TrustRootMismatch (trusted_root ratchet) root)
              else Inr (Some bytes))))"

section \<open>The transaction journal\<close>

definition TRANSACTION_MAGIC :: Bytes where
  "TRANSACTION_MAGIC = str_bytes ''thorax-transaction'' @ [0]"

definition native_canonical :: "StoreEnv \<Rightarrow> Path \<Rightarrow> StoreError + NativePathV1" where
  "native_canonical env path =
     and_then (map_err (Io path) (env_canonicalize env path)) (\<lambda>p. Inr (Unix (str_bytes p)))"

fun to_path_buf :: "NativePathV1 \<Rightarrow> Path option" where
  "to_path_buf (Unix bytes) = Some (map (\<lambda>b. char_of (unat b)) bytes)"
| "to_path_buf (WindowsUtf16Le bytes) = None"

definition matches_canonical :: "StoreEnv \<Rightarrow> NativePathV1 \<Rightarrow> Path \<Rightarrow> StoreError + bool" where
  "matches_canonical env native path = and_then (native_canonical env path) (\<lambda>c. Inr (native = c))"

fun validate_hash :: "Path \<Rightarrow> FilePreconditionV1 \<Rightarrow> StoreError + unit" where
  "validate_hash path Missing = Inr ()"
| "validate_hash path (Hash h) =
     (if length (hash_bytes h) \<noteq> 32
      then Inl (InvalidTransaction path ''transaction file hash must be 32 bytes'') else Inr ())"

fun odd_windows_path :: "NativePathV1 \<Rightarrow> bool" where
  "odd_windows_path (WindowsUtf16Le bytes) = (length bytes mod 2 \<noteq> 0)"
| "odd_windows_path (Unix bytes) = False"

definition validate_shape :: "Path \<Rightarrow> TransactionV1 \<Rightarrow> StoreError + unit" where
  "validate_shape path tx =
     (if length (transaction_id tx) \<noteq> TRANSACTION_ID_BYTES
      then Inl (InvalidTransaction path ''transaction ID must be exactly 32 bytes'')
      else if tx_operation tx = [] \<or> length (tx_operation tx) > MAX_TRANSACTION_OPERATION_BYTES
      then Inl (InvalidTransaction path ''transaction operation label is empty or too long'')
      else and_then (validate_hash path (vault_before tx)) (\<lambda>_.
           and_then (validate_hash path (ratchet_before tx)) (\<lambda>_.
             if length (next_vault_bytes tx) > MAX_VAULT_BYTES
             then Inl (InvalidTransaction path ''transaction vault after-image is too large'')
             else if length (next_ratchet_bytes tx) > MAX_RATCHET_BYTES
             then Inl (InvalidTransaction path ''transaction ratchet after-image is too large'')
             else if odd_windows_path (origin_vault_path tx)
             then Inl (InvalidTransaction path ''transaction Windows path has odd byte length'')
             else Inr ())))"

definition transaction_too_large :: "Path \<Rightarrow> nat \<Rightarrow> StoreError" where
  "transaction_too_large path n = InvalidTransaction path (''transaction is '' @ decimal n
     @ '' bytes, above the supported maximum of '' @ decimal MAX_TRANSACTION_BYTES)"

definition encode_transaction :: "StoreEnv \<Rightarrow> TransactionV1 \<Rightarrow> StoreError + Bytes" where
  "encode_transaction env tx =
     and_then (validate_shape TRANSACTION_FILE tx) (\<lambda>_.
     and_then (map_err Cord (cord_ser (env_transaction env) (TransactionStore.V1 tx))) (\<lambda>payload.
       let bytes = TRANSACTION_MAGIC @ payload in
       if length bytes > MAX_TRANSACTION_BYTES
       then Inl (transaction_too_large TRANSACTION_FILE (length bytes)) else Inr bytes))"

fun cord_error_text :: "CordError \<Rightarrow> string" where
  "cord_error_text (CordError m) = m"

definition decode_transaction :: "StoreEnv \<Rightarrow> Path \<Rightarrow> Bytes \<Rightarrow> StoreError + TransactionV1" where
  "decode_transaction env path bytes =
     (if length bytes > MAX_TRANSACTION_BYTES then Inl (transaction_too_large path (length bytes))
      else case strip_prefix TRANSACTION_MAGIC bytes of
        None \<Rightarrow> Inl (InvalidTransaction path ''missing thorax transaction magic'')
      | Some payload \<Rightarrow>
          and_then (map_err (\<lambda>e. InvalidTransaction path (''transaction Cord payload is invalid: '' @ cord_error_text e))
              (cord_de (env_transaction env) payload)) (\<lambda>store.
            case store of TransactionStore.V1 tx \<Rightarrow>
              and_then (validate_shape path tx) (\<lambda>_. Inr tx)))"

definition read_transaction ::
  "StoreEnv \<Rightarrow> Disk \<Rightarrow> WorkspacePaths \<Rightarrow> HashValue \<Rightarrow> StoreError + TransactionV1 option" where
  "read_transaction env d paths root =
     (let path = transaction_path paths root in
      and_then (read_current_file d path MAX_TRANSACTION_BYTES) (\<lambda>file.
        case file of
          None \<Rightarrow> Inr None
        | Some bytes \<Rightarrow>
            and_then (decode_transaction env path bytes) (\<lambda>tx.
              if tx_trusted_root tx \<noteq> root
              then Inl (InvalidTransaction path ''transaction trusted root does not match its state directory'')
              else Inr (Some tx))))"

definition write_transaction_atomic ::
  "StoreEnv \<Rightarrow> WorkspacePaths \<Rightarrow> TransactionV1 \<Rightarrow> Disk \<Rightarrow> (StoreError + unit) \<times> Disk" where
  "write_transaction_atomic env paths tx d =
     (let path = transaction_path paths (tx_trusted_root tx) in
      case encode_transaction env tx of
        Inl e \<Rightarrow> (Inl e, d)
      | Inr bytes \<Rightarrow>
          let d1 = write_atomic path bytes d in
          (and_then (map_err (Io path) (read_file_bounded d1 path MAX_TRANSACTION_BYTES)) (\<lambda>reopened.
             if reopened \<noteq> bytes
             then Inl (InvalidTransaction path ''transaction bytes differed immediately after atomic write'')
             else and_then (decode_transaction env path reopened) (\<lambda>decoded.
               if decoded \<noteq> tx
               then Inl (InvalidTransaction path ''transaction value differed immediately after atomic write'')
               else Inr ())), d1))"

section \<open>Compare and swap\<close>

record RatchetSnapshot =
  snap_ratchet :: Ratchet
  snap_revision :: Bytes

datatype RatchetCasOutcome = Stored RatchetSnapshot | Conflict

definition backend_load :: "StoreEnv \<Rightarrow> Disk \<Rightarrow> WorkspacePaths \<Rightarrow> HashValue \<Rightarrow> StoreError + RatchetSnapshot option" where
  "backend_load env d paths root =
     and_then (read_ratchet_for_root env d paths root) (\<lambda>found.
       case found of
         None \<Rightarrow> Inr None
       | Some ratchet \<Rightarrow>
           and_then (encode_ratchet env ratchet) (\<lambda>revision.
             Inr (Some \<lparr>snap_ratchet = ratchet, snap_revision = revision\<rparr>)))"

definition current_revision :: "StoreEnv \<Rightarrow> Ratchet option \<Rightarrow> StoreError + Bytes option" where
  "current_revision env found =
     (case found of
        None \<Rightarrow> Inr None
      | Some ratchet \<Rightarrow> and_then (encode_ratchet env ratchet) (\<lambda>b. Inr (Some b)))"

definition compare_and_swap ::
  "StoreEnv \<Rightarrow> WorkspacePaths \<Rightarrow> HashValue \<Rightarrow> Bytes option \<Rightarrow> Ratchet \<Rightarrow> Disk
     \<Rightarrow> (StoreError + RatchetCasOutcome) \<times> Disk" where
  "compare_and_swap env paths root expected_revision ratchet d =
     (if trusted_root ratchet \<noteq> root then (Inl (TrustRootMismatch (trusted_root ratchet) root), d)
      else case and_then (read_transaction env d paths root) (\<lambda>pending.
             if pending \<noteq> None then Inl (TransactionPending (transaction_path paths root))
             else and_then (read_ratchet_for_root env d paths root) (current_revision env)) of
        Inl e \<Rightarrow> (Inl e, d)
      | Inr revision \<Rightarrow>
          if revision \<noteq> expected_revision then (Inr Conflict, d)
          else case write_ratchet_atomic env paths ratchet d of
            (Inl e, d1) \<Rightarrow> (Inl e, d1)
          | (Inr _, d1) \<Rightarrow>
              (and_then (encode_ratchet env ratchet) (\<lambda>b.
                 Inr (Stored \<lparr>snap_ratchet = ratchet, snap_revision = b\<rparr>)), d1))"

section \<open>The verification cache\<close>

definition CACHE_MAGIC :: Bytes where
  "CACHE_MAGIC = str_bytes ''thorax-cache'' @ [0]"

definition CACHE_SIGNATURE_DOMAIN :: string where
  "CACHE_SIGNATURE_DOMAIN = ''thorax.verification-cache.v1''"

definition verification_cache_message ::
  "StoreEnv \<Rightarrow> HashValue \<Rightarrow> u64 \<Rightarrow> HashValue list \<Rightarrow> StoreError + Bytes" where
  "verification_cache_message env root version hashes =
     map_err Cord (env_cache_message env
       \<lparr>cache_trusted_root = root, cache_format_version = version, verified_record_hashes = hashes\<rparr>)"

definition read_verification_cache ::
  "StoreEnv \<Rightarrow> Disk \<Rightarrow> WorkspacePaths \<Rightarrow> HashValue \<Rightarrow> UserId \<Rightarrow> VerificationCacheV1 option" where
  "read_verification_cache env d paths root user =
     (case read_file_bounded d (verification_cache_path paths root user) MAX_VERIFICATION_CACHE_BYTES of
        Inl _ \<Rightarrow> None
      | Inr bytes \<Rightarrow>
          (case strip_prefix CACHE_MAGIC bytes of
             None \<Rightarrow> None
           | Some payload \<Rightarrow>
               (case cord_de (env_cache env) payload of
                  Inl _ \<Rightarrow> None
                | Inr (VerificationCacheStore.V1 cache) \<Rightarrow> Some cache)))"

definition write_verification_cache_atomic ::
  "StoreEnv \<Rightarrow> WorkspacePaths \<Rightarrow> UserId \<Rightarrow> VerificationCacheV1 \<Rightarrow> Disk \<Rightarrow> (StoreError + unit) \<times> Disk" where
  "write_verification_cache_atomic env paths user cache d =
     (let path = verification_cache_path paths (cache_trusted_root cache) user in
      case map_err Cord (cord_ser (env_cache env) (VerificationCacheStore.V1 cache)) of
        Inl e \<Rightarrow> (Inl e, d)
      | Inr payload \<Rightarrow>
          let bytes = CACHE_MAGIC @ payload in
          if length bytes > MAX_VERIFICATION_CACHE_BYTES
          then (Inl (Io path (IoError InvalidData (''verification cache is '' @ decimal (length bytes)
                  @ '' bytes, above the supported maximum of '' @ decimal MAX_VERIFICATION_CACHE_BYTES))), d)
          else let d1 = write_atomic path bytes d in
            (and_then (map_err (Io path) (read_file_bounded d1 path MAX_VERIFICATION_CACHE_BYTES)) (\<lambda>reopened.
               if reopened \<noteq> bytes
               then Inl (Io path (IoError InvalidData ''verification cache bytes differed immediately after atomic write''))
               else case strip_prefix CACHE_MAGIC reopened of
                 None \<Rightarrow> Inl (Io path (IoError InvalidData ''verification cache lost its magic prefix''))
               | Some payload' \<Rightarrow> and_then (map_err Cord (cord_de (env_cache env) payload')) (\<lambda>_. Inr ())), d1))"

section \<open>Ratchet files\<close>

text \<open>
  What the store relies on of the canonical serialiser: a set comes back as the same set, and
  the bytes depend on the set only, not on the order it is iterated in.
\<close>

fun same_store :: "RatchetStore \<Rightarrow> RatchetStore \<Rightarrow> bool" where
  "same_store (RatchetStore.V1 a) (RatchetStore.V1 b) \<longleftrightarrow>
     distinct (rs_records a) \<and> distinct (rs_records b) \<and> set (rs_records a) = set (rs_records b)"

definition canonical_ratchet_codec :: "RatchetStore CordCodec \<Rightarrow> bool" where
  "canonical_ratchet_codec codec \<longleftrightarrow>
     (\<forall>s b. cord_ser codec s = Inr b \<longrightarrow> (\<exists>s'. cord_de codec b = Inr s' \<and> same_store s s'))
     \<and> (\<forall>s s'. same_store s s' \<longrightarrow> cord_ser codec s = cord_ser codec s')"

text \<open>Two ratchets that remember the same, records of unknown kinds in any order.\<close>

definition same_ratchet :: "Ratchet \<Rightarrow> Ratchet \<Rightarrow> bool" where
  "same_ratchet r r' \<longleftrightarrow> r\<lparr>unknown_records := []\<rparr> = r'\<lparr>unknown_records := []\<rparr>
     \<and> distinct (unknown_records r') \<and> set (unknown_records r') = set (unknown_records r)"

fun known_record :: "RatchetRecordV1 Evolving \<Rightarrow> RatchetRecordV1 option" where
  "known_record (Known (RatchetRecordV1.TrustedRoot _)) = None"
| "known_record (Known r) = Some r"
| "known_record (Unknown _) = None"

fun unknown_record :: "RatchetRecordV1 Evolving \<Rightarrow> UnknownRatchetRecord option" where
  "unknown_record (Known _) = None"
| "unknown_record (Unknown b) = Some (UnknownRatchetRecord b)"

fun root_record :: "RatchetRecordV1 Evolving \<Rightarrow> HashValue option" where
  "root_record (Known (RatchetRecordV1.TrustedRoot r)) = Some (trr_trusted_root r)"
| "root_record _ = None"

lemma split_records_eq:
  "split_records rs root knowns unknowns =
     ((case rev (List.map_filter root_record rs) of [] \<Rightarrow> root | h # _ \<Rightarrow> Some h),
      knowns @ List.map_filter known_record rs, unknowns @ List.map_filter unknown_record rs)"
  by (induction rs root knowns unknowns rule: split_records.induct)
     (auto simp: map_filter_simps split: list.splits)

lemma mem_known_iff:
  "r \<in> set (List.map_filter known_record rs) \<longleftrightarrow> Known r \<in> set rs \<and> (\<forall>f. r \<noteq> RatchetRecordV1.TrustedRoot f)"
proof -
  have "known_record e = Some r \<longleftrightarrow> e = Known r \<and> (\<forall>f. r \<noteq> RatchetRecordV1.TrustedRoot f)" for e
    by (cases e rule: known_record.cases) auto
  then show ?thesis
    by (auto simp: set_map_filter)
qed

lemma unknown_bytes_inj: "unknown_bytes u = unknown_bytes u' \<longleftrightarrow> u = u'"
  by (cases u; cases u') auto

lemma mem_unknown_iff: "u \<in> set (List.map_filter unknown_record rs) \<longleftrightarrow> Unknown (unknown_bytes u) \<in> set rs"
proof -
  have "unknown_record e = Some u \<longleftrightarrow> e = Unknown (unknown_bytes u)" for e
    by (cases e; cases u) auto
  then show ?thesis
    by (auto simp: set_map_filter)
qed

lemma distinct_unknown: "distinct rs \<Longrightarrow> distinct (List.map_filter unknown_record rs)"
proof (induction rs)
  case (Cons e rs)
  then show ?case
  proof (cases e)
    case (Unknown b)
    then have "UnknownRatchetRecord b \<notin> set (List.map_filter unknown_record rs)"
      using Cons.prems by (simp add: mem_unknown_iff)
    then show ?thesis
      using Cons Unknown by (simp add: map_filter_simps)
  qed (simp add: map_filter_simps)
qed (simp add: map_filter_simps)

lemma mem_root_iff:
  "h \<in> set (List.map_filter root_record rs) \<longleftrightarrow> Known (RatchetRecordV1.TrustedRoot \<lparr>trr_trusted_root = h\<rparr>) \<in> set rs"
proof -
  have "root_record e = Some h \<longleftrightarrow> e = Known (RatchetRecordV1.TrustedRoot \<lparr>trr_trusted_root = h\<rparr>)" for e
  proof (cases e rule: root_record.cases)
    case (1 f)
    then show ?thesis by (cases f) auto
  qed auto
  then show ?thesis
    by (auto simp: set_map_filter)
qed

lemma to_records_root:
  "RatchetRecordV1.TrustedRoot f \<in> set (to_records r) \<longleftrightarrow> f = \<lparr>trr_trusted_root = trusted_root r\<rparr>"
proof -
  have "RatchetRecordV1.TrustedRoot f \<notin> set (List.map_filter (\<lambda>(k, c). for_key k c (bt_get (origins r) k)) (watermarks r))"
    by (auto simp: set_map_filter dest: for_key_Some)
  then show ?thesis by (auto simp: to_records_def)
qed

lemma into_ratchet_absorbs:
  assumes rs: "set rs = set (rs_records (case ratchet_store_of r of RatchetStore.V1 s \<Rightarrow> s))"
  shows "\<exists>known. set (known @ [RatchetRecordV1.TrustedRoot \<lparr>trr_trusted_root = trusted_root r\<rparr>]) = set (to_records r)
    \<and> into_ratchet (RatchetStore.V1 \<lparr>rs_records = rs\<rparr>) =
        Some ((fold absorb_record known (ratchet_new (trusted_root r)))\<lparr>unknown_records := List.map_filter unknown_record rs\<rparr>)
    \<and> set (List.map_filter unknown_record rs) = set (unknown_records r)"
proof -
  have mem: "set rs = Known ` set (to_records r) \<union> (\<lambda>u. Unknown (unknown_bytes u)) ` set (unknown_records r)"
    using rs by (simp add: ratchet_store_of_def)
  have roots: "set (List.map_filter root_record rs) = {trusted_root r}"
    by (auto simp: mem_root_iff mem to_records_root)
  then have root: "(case rev (List.map_filter root_record rs) of [] \<Rightarrow> None | h # _ \<Rightarrow> Some h) = Some (trusted_root r)"
    using set_rev [of "List.map_filter root_record rs"]
    by (cases "rev (List.map_filter root_record rs)") simp_all
  let ?known = "List.map_filter known_record rs"
  let ?root = "RatchetRecordV1.TrustedRoot \<lparr>trr_trusted_root = trusted_root r\<rparr>"
  have "x \<in> set (?known @ [?root]) \<longleftrightarrow> x \<in> set (to_records r)" for x
  proof (cases "\<exists>f. x = RatchetRecordV1.TrustedRoot f")
    case True
    then show ?thesis
      using to_records_root by (simp add: mem_known_iff) blast
  next
    case False
    then have "x \<noteq> ?root" by blast
    moreover have "Known x \<in> set rs \<longleftrightarrow> x \<in> set (to_records r)"
      unfolding mem by (simp add: image_iff)
    ultimately show ?thesis
      using False by (simp add: mem_known_iff)
  qed
  moreover have "u \<in> set (List.map_filter unknown_record rs) \<longleftrightarrow> u \<in> set (unknown_records r)" for u
    unfolding mem_unknown_iff mem by (auto simp: unknown_bytes_inj)
  ultimately show ?thesis
    using root by (intro exI [of _ ?known] conjI set_eqI) (simp_all add: split_records_eq)
qed

lemma into_ratchet_restores:
  assumes wf: "ratchet_wf r" and rs: "set rs = set (rs_records (case ratchet_store_of r of RatchetStore.V1 s \<Rightarrow> s))"
    and "distinct rs"
  shows "\<exists>r'. into_ratchet (RatchetStore.V1 \<lparr>rs_records = rs\<rparr>) = Some r' \<and> same_ratchet r r'"
proof -
  obtain known where known:
      "set (known @ [RatchetRecordV1.TrustedRoot \<lparr>trr_trusted_root = trusted_root r\<rparr>]) = set (to_records r)"
      "into_ratchet (RatchetStore.V1 \<lparr>rs_records = rs\<rparr>) =
        Some ((fold absorb_record known (ratchet_new (trusted_root r)))\<lparr>unknown_records := List.map_filter unknown_record rs\<rparr>)"
      "set (List.map_filter unknown_record rs) = set (unknown_records r)"
    using into_ratchet_absorbs [OF rs] by blast
  have "fold absorb_record known (ratchet_new (trusted_root r)) = r\<lparr>unknown_records := []\<rparr>"
    using absorb_restores [OF wf known(1)] by simp
  then show ?thesis
    using known(2,3) distinct_unknown [OF assms(3)] by (simp add: same_ratchet_def)
qed

lemma decode_encode_ratchet:
  assumes codec: "canonical_ratchet_codec (env_ratchet env)" and wf: "ratchet_wf r"
    and enc: "encode_ratchet env r = Inr bytes"
  shows "\<exists>r'. decode_ratchet env path bytes = Inr r' \<and> same_ratchet r r'"
proof -
  obtain payload where payload: "cord_ser (env_ratchet env) (ratchet_store_of r) = Inr payload"
      "bytes = RATCHET_MAGIC @ payload"
    using enc by (auto simp: encode_ratchet_def and_then_Inr_iff)
  obtain s' where s': "cord_de (env_ratchet env) payload = Inr s'" "same_store (ratchet_store_of r) s'"
    using codec payload(1) unfolding canonical_ratchet_codec_def by blast
  obtain rs where rs: "s' = RatchetStore.V1 \<lparr>rs_records = rs\<rparr>"
    by (cases s') (metis RatchetStoreV1.cases)
  have "set rs = set (rs_records (case ratchet_store_of r of RatchetStore.V1 s \<Rightarrow> s))" "distinct rs"
    using s'(2) rs by (auto simp: ratchet_store_of_def)
  from into_ratchet_restores [OF wf this] obtain r' where
      "into_ratchet s' = Some r'" "same_ratchet r r'" unfolding rs by blast
  moreover have "strip_prefix RATCHET_MAGIC bytes = Some payload"
    using payload(2) by (simp add: strip_prefix_Some_iff)
  ultimately show ?thesis
    using s'(1) by (simp add: decode_ratchet_def)
qed

lemma same_ratchet_encode:
  assumes "canonical_ratchet_codec (env_ratchet env)" and "same_ratchet r r'"
  shows "encode_ratchet env r' = encode_ratchet env r"
proof -
  have "to_records r' = to_records (r'\<lparr>unknown_records := []\<rparr>)" "to_records r = to_records (r\<lparr>unknown_records := []\<rparr>)"
    by (simp_all add: to_records_def)
  then have "to_records r' = to_records r"
    using assms(2) by (simp add: same_ratchet_def)
  then have "same_store (ratchet_store_of r) (ratchet_store_of r')"
    using assms(2) by (auto simp: ratchet_store_of_def same_ratchet_def)
  then have "cord_ser (env_ratchet env) (ratchet_store_of r') = cord_ser (env_ratchet env) (ratchet_store_of r)"
    using assms(1) unfolding canonical_ratchet_codec_def by metis
  then show ?thesis
    by (simp add: encode_ratchet_def)
qed

lemma paths_differ [simp]:
  "transaction_path paths root \<noteq> ratchet_path paths root" "ratchet_path paths root \<noteq> transaction_path paths root"
  by (simp_all add: transaction_path_def ratchet_path_def path_join_def TRANSACTION_FILE_def RATCHET_FILE_def)

lemma read_bounded_iff: "read_file_bounded d path n = Inr b \<longleftrightarrow> d path = Some b \<and> length b \<le> n"
  by (auto simp: read_file_bounded_def not_less split: option.splits)

lemma read_current_iff:
  "read_current_file d path n = Inr f \<longleftrightarrow> d path = f \<and> (\<forall>b. f = Some b \<longrightarrow> length b \<le> n)"
  by (auto simp: read_current_file_def read_file_bounded_def not_less split: option.splits)

lemma read_transaction_cong:
  "d (transaction_path paths root) = d' (transaction_path paths root) \<Longrightarrow>
     read_transaction env d paths root = read_transaction env d' paths root"
  by (simp add: read_transaction_def read_current_file_def read_file_bounded_def Let_def)

lemma write_ratchet_bytes_ok:
  "write_ratchet_bytes_atomic env paths root bytes d = (Inr u, d1) \<longleftrightarrow>
     length bytes \<le> MAX_RATCHET_BYTES \<and> d1 = d(ratchet_path paths root \<mapsto> bytes)
     \<and> (\<exists>r. decode_ratchet env (ratchet_path paths root) bytes = Inr r \<and> trusted_root r = root)"
  by (auto simp: write_ratchet_bytes_atomic_def Let_def write_atomic_def read_file_bounded_def not_less and_then_Inr_iff
      split: sum.splits if_splits)

lemma write_ratchet_bytes_err:
  assumes "write_ratchet_bytes_atomic env paths root bytes d = (Inl e, d1)"
  shows "d1 = d"
  using assms by (auto simp: write_ratchet_bytes_atomic_def Let_def write_atomic_def read_file_bounded_def not_less
      split: sum.splits if_splits)

lemma compare_and_swap_cases:
  assumes "compare_and_swap env paths root expected r d = (out, d1)"
  shows "(\<exists>e. out = Inl e \<and> d1 = d) \<or> out = Inr Conflict \<and> d1 = d
    \<or> (\<exists>b found. out = Inr (Stored \<lparr>snap_ratchet = r, snap_revision = b\<rparr>) \<and> trusted_root r = root
         \<and> encode_ratchet env r = Inr b \<and> write_ratchet_bytes_atomic env paths root b d = (Inr (), d1)
         \<and> read_transaction env d paths root = Inr None
         \<and> read_ratchet_for_root env d paths root = Inr found \<and> current_revision env found = Inr expected)"
proof (cases "encode_ratchet env r")
  case (Inl e)
  then show ?thesis
    using assms by (auto simp: compare_and_swap_def write_ratchet_atomic_def split: sum.splits if_splits prod.splits)
next
  case (Inr b)
  show ?thesis
  proof (cases "write_ratchet_bytes_atomic env paths (trusted_root r) b d")
    case (Pair res d2)
    then show ?thesis
      using assms Inr write_ratchet_bytes_err [of env paths root b d]
      by (cases res) (auto simp: compare_and_swap_def write_ratchet_atomic_def and_then_Inr_iff
          split: sum.splits if_splits prod.splits)
  qed
qed

section \<open>Properties\<close>

text \<open>
  The ratchet file loses nothing: for a canonical serialiser and a well-formed ratchet,
  decoding the encoded file gives a ratchet with the same root, watermarks, origins and format
  version, and with every record of an unknown kind carried through; and it encodes to the same
  bytes again.
\<close>

lemma ratchet_file_roundtrip:
  assumes "canonical_ratchet_codec (env_ratchet env)" and "ratchet_wf r" and "encode_ratchet env r = Inr bytes"
  shows "\<exists>r'. decode_ratchet env path bytes = Inr r' \<and> trusted_root r' = trusted_root r
    \<and> watermarks r' = watermarks r \<and> origins r' = origins r
    \<and> ratchet_format_version r' = ratchet_format_version r
    \<and> set (unknown_records r') = set (unknown_records r) \<and> encode_ratchet env r' = Inr bytes"
proof -
  obtain r' where r': "decode_ratchet env path bytes = Inr r'" "same_ratchet r r'"
    using decode_encode_ratchet [OF assms] by blast
  have "trusted_root (r'\<lparr>unknown_records := []\<rparr>) = trusted_root (r\<lparr>unknown_records := []\<rparr>)"
    "watermarks (r'\<lparr>unknown_records := []\<rparr>) = watermarks (r\<lparr>unknown_records := []\<rparr>)"
    "origins (r'\<lparr>unknown_records := []\<rparr>) = origins (r\<lparr>unknown_records := []\<rparr>)"
    "ratchet_format_version (r'\<lparr>unknown_records := []\<rparr>) = ratchet_format_version (r\<lparr>unknown_records := []\<rparr>)"
    using r'(2) by (simp_all add: same_ratchet_def)
  then show ?thesis
    using r' assms(3) same_ratchet_encode [OF assms(1) r'(2)] by (auto simp: same_ratchet_def)
qed

text \<open>
  C36. Rollback state is never overwritten blindly: a compare-and-swap stores only when no
  transaction is pending and the stored ratchet still has the expected revision; then exactly the
  ratchet file changes, a later load returns the stored history under the new revision, and any
  other writer that still expects the old revision gets a conflict and changes nothing. Every
  other outcome leaves the disk as it was.
\<close>

theorem compare_and_swap_excludes_stale_writers:
  assumes codec: "canonical_ratchet_codec (env_ratchet env)" and wf: "ratchet_wf r"
    and cas: "compare_and_swap env paths root expected r d = (out, d1)"
  shows "(case out of
      Inr (Stored snap) \<Rightarrow>
        d1 = d(ratchet_path paths root \<mapsto> snap_revision snap)
        \<and> read_transaction env d paths root = Inr None
        \<and> (\<exists>found. read_ratchet_for_root env d paths root = Inr found \<and> current_revision env found = Inr expected)
        \<and> (\<exists>s. backend_load env d1 paths root = Inr (Some s) \<and> same_ratchet r (snap_ratchet s)
             \<and> snap_revision s = snap_revision snap)
        \<and> (\<forall>r2. expected \<noteq> Some (snap_revision snap) \<longrightarrow> trusted_root r2 = root \<longrightarrow>
             compare_and_swap env paths root expected r2 d1 = (Inr Conflict, d1))
    | _ \<Rightarrow> d1 = d)"
proof (cases "\<exists>snap. out = Inr (Stored snap)")
  case False
  then show ?thesis
    using compare_and_swap_cases [OF cas] by (auto split: sum.splits RatchetCasOutcome.splits)
next
  case True
  then obtain b found where st: "out = Inr (Stored \<lparr>snap_ratchet = r, snap_revision = b\<rparr>)" "trusted_root r = root"
      "encode_ratchet env r = Inr b" "write_ratchet_bytes_atomic env paths root b d = (Inr (), d1)"
      "read_transaction env d paths root = Inr None"
      "read_ratchet_for_root env d paths root = Inr found" "current_revision env found = Inr expected"
    using compare_and_swap_cases [OF cas] by auto
  have d1: "d1 = d(ratchet_path paths root \<mapsto> b)" and len: "length b \<le> MAX_RATCHET_BYTES"
    using st(4) by (simp_all add: write_ratchet_bytes_ok)
  obtain r' where r': "decode_ratchet env (ratchet_path paths root) b = Inr r'" "same_ratchet r r'"
    using decode_encode_ratchet [OF codec wf st(3)] by blast
  have root': "trusted_root r' = root"
    using st(4) r'(1) by (auto simp: write_ratchet_bytes_ok)
  have "read_current_file d1 (ratchet_path paths root) MAX_RATCHET_BYTES = Inr (Some b)"
    using len by (simp add: read_current_iff d1)
  then have reread: "read_ratchet_for_root env d1 paths root = Inr (Some r')"
    using r'(1) root' by (simp add: read_ratchet_for_root_def read_ratchet_at_def)
  have enc': "encode_ratchet env r' = Inr b"
    using same_ratchet_encode [OF codec r'(2)] st(3) by simp
  have "read_transaction env d1 paths root = Inr None"
    using st(5) read_transaction_cong [of d paths root d1 env] by (simp add: d1)
  then have stale: "compare_and_swap env paths root expected r2 d1 = (Inr Conflict, d1)"
    if "expected \<noteq> Some b" "trusted_root r2 = root" for r2
    using that reread enc' by (auto simp: compare_and_swap_def current_revision_def)
  show ?thesis
    using st reread enc' r'(2) stale d1 by (simp add: backend_load_def)
qed

text \<open>Witnesses: a codec that knows one set, and a store without files.\<close>

definition ratchet_codec_for :: "RatchetStore \<Rightarrow> RatchetStore CordCodec" where
  "ratchet_codec_for s0 = \<lparr>cord_ser = (\<lambda>s. if same_store s s0 then Inr [9] else Inl (CordError ''unsupported'')),
     cord_de = (\<lambda>_. Inr s0)\<rparr>"

lemma same_store_trans: "same_store a b \<Longrightarrow> same_store b c \<Longrightarrow> same_store a c"
  and same_store_sym: "same_store a b \<Longrightarrow> same_store b a"
  by (cases a; cases b; cases c; simp)+

lemma ratchet_codec_for_canonical: "canonical_ratchet_codec (ratchet_codec_for s0)"
  by (auto simp: canonical_ratchet_codec_def ratchet_codec_for_def dest: same_store_trans same_store_sym)

definition no_codec :: "'a CordCodec" where
  "no_codec = \<lparr>cord_ser = (\<lambda>_. Inl (CordError ''unsupported'')), cord_de = (\<lambda>_. Inl (CordError ''unsupported''))\<rparr>"

definition sample_env :: StoreEnv where
  "sample_env = \<lparr>env_vault = sample_codec, env_ratchet = ratchet_codec_for (ratchet_store_of sample_ratchet),
     env_transaction = no_codec, env_cache = no_codec, env_cache_message = (\<lambda>_. Inr []),
     env_canonicalize = Inr, env_crypto = DeterministicCrypto (\<lambda>_. Inr [])\<rparr>"

definition sample_paths :: WorkspacePaths where
  "sample_paths = \<lparr>paths_root = ''/w'', thorax_dir = ''/w/.thorax'', vault_path = ''/w/.thorax/vault.cord'',
     lock_path = ''/w/.thorax/vault.cord.lock'', state_dir = ''/s''\<rparr>"

lemma sample_ratchet_wf: "ratchet_wf sample_ratchet"
  by (simp add: ratchet_wf_def sample_ratchet_def bt_wf_def bt_get_def less_RecordKey_def selector_tuple_def)

lemma sample_encode: "encode_ratchet sample_env sample_ratchet = Inr (RATCHET_MAGIC @ [9])"
  by (simp add: encode_ratchet_def sample_env_def ratchet_codec_for_def ratchet_store_of_def)

theorem compare_and_swap_excludes_stale_writers_witness:
  "\<exists>d1. compare_and_swap sample_env sample_paths (HashValue [7]) None sample_ratchet Map.empty =
       (Inr (Stored \<lparr>snap_ratchet = sample_ratchet, snap_revision = RATCHET_MAGIC @ [9]\<rparr>), d1)
     \<and> compare_and_swap sample_env sample_paths (HashValue [7]) None sample_ratchet d1 = (Inr Conflict, d1)"
proof -
  have codec: "canonical_ratchet_codec (env_ratchet sample_env)"
    by (simp add: sample_env_def ratchet_codec_for_canonical)
  have root: "trusted_root sample_ratchet = HashValue [7]"
    by (simp add: sample_ratchet_def)
  obtain r' where r': "decode_ratchet sample_env (ratchet_path sample_paths (HashValue [7])) (RATCHET_MAGIC @ [9]) = Inr r'"
      "same_ratchet sample_ratchet r'"
    using decode_encode_ratchet [OF codec sample_ratchet_wf sample_encode] by blast
  have "trusted_root (r'\<lparr>unknown_records := []\<rparr>) = trusted_root (sample_ratchet\<lparr>unknown_records := []\<rparr>)"
    using r'(2) by (simp add: same_ratchet_def)
  then have "trusted_root r' = HashValue [7]" using root by simp
  moreover have "length (RATCHET_MAGIC @ [9]) \<le> MAX_RATCHET_BYTES"
    by (simp add: MAX_RATCHET_BYTES_def MAX_VAULT_BYTES_def RATCHET_MAGIC_def str_bytes_def)
  ultimately have "write_ratchet_bytes_atomic sample_env sample_paths (HashValue [7]) (RATCHET_MAGIC @ [9]) Map.empty =
      (Inr (), Map.empty(ratchet_path sample_paths (HashValue [7]) \<mapsto> RATCHET_MAGIC @ [9]))"
    using r'(1) by (simp add: write_ratchet_bytes_ok)
  then obtain d1 where cas: "compare_and_swap sample_env sample_paths (HashValue [7]) None sample_ratchet Map.empty =
      (Inr (Stored \<lparr>snap_ratchet = sample_ratchet, snap_revision = RATCHET_MAGIC @ [9]\<rparr>), d1)"
    using root sample_encode
    by (simp add: compare_and_swap_def write_ratchet_atomic_def read_transaction_def read_ratchet_for_root_def
        read_ratchet_at_def read_current_file_def read_file_bounded_def current_revision_def Let_def)
  from compare_and_swap_excludes_stale_writers [OF codec sample_ratchet_wf this]
  have "\<forall>r2. trusted_root r2 = HashValue [7] \<longrightarrow>
      compare_and_swap sample_env sample_paths (HashValue [7]) None r2 d1 = (Inr Conflict, d1)"
    unfolding sum.case RatchetCasOutcome.case by (elim conjE) simp
  with root have "compare_and_swap sample_env sample_paths (HashValue [7]) None sample_ratchet d1 = (Inr Conflict, d1)"
    by (elim allE impE)
  with cas show ?thesis by blast
qed

end
