(* ===== verification/Thorax_Provider.thy ===== *)
theory Thorax_Provider
  imports Thorax_Crypto
begin

unbundle bit_operations_syntax

text \<open>
  The production provider, from \<open>crates/thorax-crypto/src/lib.rs\<close>: domain-separated hashing and
  signing, identities derived from a master seed, the authentication code of a ratchet, content
  encryption and the wrapping of content keys.

  The algorithms themselves (SHA-256, HMAC, HKDF, Ed25519, HPKE, ChaCha20-Poly1305) come from other
  crates; they are the fields of \<open>Primitives\<close>. What the crate does around them is modelled: the
  length checks, the transcripts, the errors. Randomness is an argument.

  The theorem of this theory shows that the transcripts keep apart what they should: two different
  pairs of domain and message never reach a primitive as the same bytes.
\<close>

section \<open>Definitions\<close>

datatype CryptoError =
    Core CoreError
  | InvalidLength string nat nat
  | InvalidSigningPublicKey
  | InvalidSigningSecretKey
  | InvalidSignature
  | InvalidHpkePublicKey
  | InvalidHpkePrivateKey
  | InvalidHpkeEncapsulatedKey
  | Hpke string
  | Aead
  | InvalidRatchetMac

record Primitives =
  sha256 :: "Bytes \<Rightarrow> Bytes"
  hmac_sha256 :: "Bytes \<Rightarrow> Bytes \<Rightarrow> Bytes"
  hkdf_expand :: "Bytes \<Rightarrow> Bytes \<Rightarrow> Bytes \<Rightarrow> nat \<Rightarrow> Bytes option"
  ed25519_public :: "Bytes \<Rightarrow> Bytes"
  ed25519_sign :: "Bytes \<Rightarrow> Bytes \<Rightarrow> Bytes"
  ed25519_public_valid :: "Bytes \<Rightarrow> bool"
  ed25519_verify_strict :: "Bytes \<Rightarrow> Bytes \<Rightarrow> Bytes \<Rightarrow> bool"
  hpke_derive_keypair :: "Bytes \<Rightarrow> Bytes \<times> Bytes"
  hpke_public_valid :: "Bytes \<Rightarrow> bool"
  hpke_encapped_valid :: "Bytes \<Rightarrow> bool"
  hpke_single_shot_seal :: "Bytes \<Rightarrow> Bytes \<Rightarrow> Bytes \<Rightarrow> Bytes \<Rightarrow> Bytes \<Rightarrow> string + Bytes \<times> Bytes"
  hpke_single_shot_open :: "Bytes \<Rightarrow> Bytes \<Rightarrow> Bytes \<Rightarrow> Bytes \<Rightarrow> Bytes \<Rightarrow> string + Bytes"
  aead_encrypt :: "Bytes \<Rightarrow> Bytes \<Rightarrow> Bytes \<Rightarrow> Bytes \<Rightarrow> Bytes option"
  aead_decrypt :: "Bytes \<Rightarrow> Bytes \<Rightarrow> Bytes \<Rightarrow> Bytes \<Rightarrow> Bytes option"

definition SIGNATURE_DOMAIN :: string where
  "SIGNATURE_DOMAIN = ''thorax.signature.v1''"

definition SIGNED_RECORD_DOMAIN :: string where
  "SIGNED_RECORD_DOMAIN = ''thorax.signed.v1''"

definition HASH_DOMAIN :: string where
  "HASH_DOMAIN = ''thorax.hash.v1''"

definition HPKE_INFO_DOMAIN :: string where
  "HPKE_INFO_DOMAIN = ''thorax.hpke-info.v1''"

definition CONTENT_KEY_LEN :: nat where
  "CONTENT_KEY_LEN = 32"

definition CONTENT_NONCE_LEN :: nat where
  "CONTENT_NONCE_LEN = 12"

definition ED25519_SECRET_KEY_LEN :: nat where
  "ED25519_SECRET_KEY_LEN = 32"

definition ED25519_PUBLIC_KEY_LEN :: nat where
  "ED25519_PUBLIC_KEY_LEN = 32"

definition ED25519_SIGNATURE_LEN :: nat where
  "ED25519_SIGNATURE_LEN = 64"

definition MASTER_SEED_LEN :: nat where
  "MASTER_SEED_LEN = 32"

definition IDENTITY_KDF_SALT :: Bytes where
  "IDENTITY_KDF_SALT = str_bytes ''thorax.identity.v1''"

definition IDENTITY_KDF_INFO_ED25519 :: Bytes where
  "IDENTITY_KDF_INFO_ED25519 = str_bytes ''thorax.identity.v1.ed25519''"

definition IDENTITY_KDF_INFO_X25519 :: Bytes where
  "IDENTITY_KDF_INFO_X25519 = str_bytes ''thorax.identity.v1.x25519''"

definition HPKE_DERIVE_IKM_LEN :: nat where
  "HPKE_DERIVE_IKM_LEN = 32"

definition RATCHET_MAC_SALT :: Bytes where
  "RATCHET_MAC_SALT = str_bytes ''thorax.ratchet-mac.v1''"

definition RATCHET_MAC_INFO :: Bytes where
  "RATCHET_MAC_INFO = str_bytes ''thorax.ratchet-mac.v1.key''"

subsection \<open>Transcripts\<close>

text \<open>\<open>(value.len() as u64).to_be_bytes()\<close>, and a value behind its length.\<close>

definition to_be_bytes :: "u64 \<Rightarrow> Bytes" where
  "to_be_bytes w = map (\<lambda>i. ucast (drop_bit (8 * i) w)) [7, 6, 5, 4, 3, 2, 1, 0]"

definition framed :: "Bytes \<Rightarrow> Bytes" where
  "framed v = to_be_bytes (of_nat (length v)) @ v"

definition append_transcript :: "Bytes \<Rightarrow> Bytes \<Rightarrow> Bytes" where
  "append_transcript out v = out @ framed v"

definition update_transcript :: "Bytes \<Rightarrow> Bytes \<Rightarrow> Bytes" where
  "update_transcript fed v = fed @ framed v"

definition update_mac_transcript :: "Bytes \<Rightarrow> Bytes \<Rightarrow> Bytes" where
  "update_mac_transcript fed v = fed @ framed v"

definition signature_transcript :: "string \<Rightarrow> Bytes \<Rightarrow> Bytes" where
  "signature_transcript domain message =
     append_transcript (append_transcript (append_transcript [] (str_bytes SIGNATURE_DOMAIN)) (str_bytes domain)) message"

definition hpke_info :: "Bytes \<Rightarrow> Bytes" where
  "hpke_info info = append_transcript (append_transcript [] (str_bytes HPKE_INFO_DOMAIN)) info"

definition hash_transcript :: "string \<Rightarrow> Bytes \<Rightarrow> Bytes" where
  "hash_transcript domain bytes =
     update_transcript (update_transcript (update_transcript [] (str_bytes HASH_DOMAIN)) (str_bytes domain)) bytes"

subsection \<open>Hashing and signing\<close>

definition fixed_array :: "nat \<Rightarrow> Bytes \<Rightarrow> string \<Rightarrow> CryptoError + Bytes" where
  "fixed_array n bytes name =
     (if length bytes = n then Inr bytes else Inl (InvalidLength name n (length bytes)))"

definition verifying_key_from_bytes :: "Primitives \<Rightarrow> Bytes \<Rightarrow> CryptoError + Bytes" where
  "verifying_key_from_bytes prims bytes =
     and_then (fixed_array ED25519_PUBLIC_KEY_LEN bytes ''Ed25519 public key'') (\<lambda>bytes.
       if ed25519_public_valid prims bytes then Inr bytes else Inl InvalidSigningPublicKey)"

definition signature_from_bytes :: "Bytes \<Rightarrow> CryptoError + Bytes" where
  "signature_from_bytes bytes = fixed_array ED25519_SIGNATURE_LEN bytes ''Ed25519 signature''"

definition provider_hash :: "Primitives \<Rightarrow> string \<Rightarrow> Bytes \<Rightarrow> HashValue" where
  "provider_hash prims domain bytes = HashValue (sha256 prims (hash_transcript domain bytes))"

definition verify_with :: "Primitives \<Rightarrow> string \<Rightarrow> Bytes \<Rightarrow> Bytes \<Rightarrow> Bytes \<Rightarrow> bool" where
  "verify_with prims domain public_key message signature =
     (case verifying_key_from_bytes prims public_key of
        Inl _ \<Rightarrow> False
      | Inr key \<Rightarrow>
          (case signature_from_bytes signature of
             Inl _ \<Rightarrow> False
           | Inr sig \<Rightarrow> ed25519_verify_strict prims key (signature_transcript domain message) sig))"

definition production_provider :: "Primitives \<Rightarrow> (CordValue \<Rightarrow> CordError + Bytes) \<Rightarrow> CryptoProvider" where
  "production_provider prims serialize =
     \<lparr>cord_serialize = serialize, crypto_hash = provider_hash prims, verify_signature = verify_with prims\<rparr>"

record SigningKeypair =
  signing_secret :: Bytes

definition from_secret_bytes :: "Bytes \<Rightarrow> CryptoError + SigningKeypair" where
  "from_secret_bytes bytes =
     and_then (fixed_array ED25519_SECRET_KEY_LEN bytes ''Ed25519 secret key'') (\<lambda>secret.
       Inr \<lparr>signing_secret = secret\<rparr>)"

definition signing_public_key_bytes :: "Primitives \<Rightarrow> SigningKeypair \<Rightarrow> Bytes" where
  "signing_public_key_bytes prims keypair = ed25519_public prims (signing_secret keypair)"

definition keypair_sign :: "Primitives \<Rightarrow> SigningKeypair \<Rightarrow> string \<Rightarrow> Bytes \<Rightarrow> Bytes" where
  "keypair_sign prims keypair domain message =
     ed25519_sign prims (signing_secret keypair) (signature_transcript domain message)"

definition sign_record ::
  "Primitives \<Rightarrow> CryptoProvider \<Rightarrow> SigningKeypair \<Rightarrow> VaultRecordV1 \<Rightarrow> CryptoError + VaultRecordV1" where
  "sign_record prims crypto keypair sr =
     and_then (map_err Core (signed_record_message crypto sr)) (\<lambda>message.
       Inr (sr\<lparr>rec_signature := keypair_sign prims keypair SIGNED_RECORD_DOMAIN message\<rparr>))"

subsection \<open>Identities\<close>

record HpkeKeypair =
  hpke_private_key :: Bytes
  hpke_public_key_bytes :: Bytes

definition from_ikm :: "Primitives \<Rightarrow> Bytes \<Rightarrow> HpkeKeypair" where
  "from_ikm prims ikm =
     (case hpke_derive_keypair prims ikm of (private, public) \<Rightarrow>
        \<lparr>hpke_private_key = private, hpke_public_key_bytes = public\<rparr>)"

record IdentityKeys =
  keys_signing :: SigningKeypair
  keys_hpke :: HpkeKeypair

definition derive_identity_keys :: "Primitives \<Rightarrow> Bytes \<Rightarrow> CryptoError + IdentityKeys" where
  "derive_identity_keys prims master_seed =
     (if length master_seed \<noteq> MASTER_SEED_LEN
      then Inl (InvalidLength ''identity master seed'' MASTER_SEED_LEN (length master_seed))
      else case hkdf_expand prims IDENTITY_KDF_SALT master_seed IDENTITY_KDF_INFO_ED25519 ED25519_SECRET_KEY_LEN of
        None \<Rightarrow> Inl InvalidSigningSecretKey
      | Some sign_seed \<Rightarrow>
          (case hkdf_expand prims IDENTITY_KDF_SALT master_seed IDENTITY_KDF_INFO_X25519 HPKE_DERIVE_IKM_LEN of
             None \<Rightarrow> Inl InvalidHpkePrivateKey
           | Some hpke_ikm \<Rightarrow>
               and_then (from_secret_bytes sign_seed) (\<lambda>signing.
                 Inr \<lparr>keys_signing = signing, keys_hpke = from_ikm prims hpke_ikm\<rparr>)))"

record Identity =
  identity_user :: UserId
  identity_keys :: IdentityKeys
  identity_signing_public_key :: Bytes
  identity_hpke_public_key :: Bytes
  identity_master_seed :: Bytes

definition from_master_seed :: "Primitives \<Rightarrow> CryptoProvider \<Rightarrow> Bytes \<Rightarrow> CryptoError + Identity" where
  "from_master_seed prims crypto master_seed =
     and_then (derive_identity_keys prims master_seed) (\<lambda>keys.
     let signing_public_key = signing_public_key_bytes prims (keys_signing keys);
         hpke_public_key = hpke_public_key_bytes (keys_hpke keys)
     in and_then (map_err Core (derive_user_id crypto signing_public_key hpke_public_key)) (\<lambda>user.
       Inr \<lparr>identity_user = user, identity_keys = keys, identity_signing_public_key = signing_public_key,
            identity_hpke_public_key = hpke_public_key, identity_master_seed = master_seed\<rparr>))"

definition identity_signer :: "Primitives \<Rightarrow> Identity \<Rightarrow> RecordSigner" where
  "identity_signer prims identity =
     \<lparr>signer_user_id = identity_user identity, signer_signing_public_key = identity_signing_public_key identity,
      signer_hpke_public_key = identity_hpke_public_key identity,
      signer_sign = keypair_sign prims (keys_signing (identity_keys identity))\<rparr>"

subsection \<open>The authentication code of a ratchet\<close>

definition ratchet_mac_key :: "Primitives \<Rightarrow> Identity \<Rightarrow> CryptoError + Bytes" where
  "ratchet_mac_key prims identity =
     (case hkdf_expand prims RATCHET_MAC_SALT (identity_master_seed identity) RATCHET_MAC_INFO 32 of
        None \<Rightarrow> Inl InvalidRatchetMac | Some key \<Rightarrow> Inr key)"

definition ratchet_mac_transcript :: "HashValue \<Rightarrow> UserId \<Rightarrow> Bytes \<Rightarrow> Bytes" where
  "ratchet_mac_transcript trusted_root user ratchet_bytes =
     update_mac_transcript (update_mac_transcript (update_mac_transcript (update_mac_transcript []
       RATCHET_MAC_SALT) (hash_bytes trusted_root)) (case user of UserId h \<Rightarrow> hash_bytes h)) ratchet_bytes"

definition ratchet_mac :: "Primitives \<Rightarrow> Identity \<Rightarrow> HashValue \<Rightarrow> UserId \<Rightarrow> Bytes \<Rightarrow> CryptoError + Bytes" where
  "ratchet_mac prims identity trusted_root user ratchet_bytes =
     and_then (ratchet_mac_key prims identity) (\<lambda>key.
       Inr (hmac_sha256 prims key (ratchet_mac_transcript trusted_root user ratchet_bytes)))"

definition verify_ratchet_mac ::
  "Primitives \<Rightarrow> Identity \<Rightarrow> HashValue \<Rightarrow> UserId \<Rightarrow> Bytes \<Rightarrow> Bytes \<Rightarrow> CryptoError + unit" where
  "verify_ratchet_mac prims identity trusted_root user ratchet_bytes expected =
     and_then (ratchet_mac_key prims identity) (\<lambda>key.
       if hmac_sha256 prims key (ratchet_mac_transcript trusted_root user ratchet_bytes) = expected
       then Inr () else Inl InvalidRatchetMac)"

subsection \<open>Content and content keys\<close>

datatype ContentKey = ContentKey (content_key_bytes: Bytes)

datatype ContentNonce = ContentNonce (content_nonce_bytes: Bytes)

definition content_key_from_bytes :: "Bytes \<Rightarrow> CryptoError + ContentKey" where
  "content_key_from_bytes bytes =
     and_then (fixed_array CONTENT_KEY_LEN bytes ''content key'') (\<lambda>b. Inr (ContentKey b))"

definition content_nonce_from_bytes :: "Bytes \<Rightarrow> CryptoError + ContentNonce" where
  "content_nonce_from_bytes bytes =
     and_then (fixed_array CONTENT_NONCE_LEN bytes ''content nonce'') (\<lambda>b. Inr (ContentNonce b))"

record HpkeSealed =
  encapsulated_key :: Bytes
  hpke_ciphertext :: Bytes

definition seal_content :: "Primitives \<Rightarrow> ContentKey \<Rightarrow> ContentNonce \<Rightarrow> Bytes \<Rightarrow> Bytes \<Rightarrow> CryptoError + Bytes" where
  "seal_content prims key nonce aad plaintext =
     (case aead_encrypt prims (content_key_bytes key) (content_nonce_bytes nonce) plaintext aad of
        None \<Rightarrow> Inl Aead | Some ciphertext \<Rightarrow> Inr ciphertext)"

definition open_content :: "Primitives \<Rightarrow> ContentKey \<Rightarrow> ContentNonce \<Rightarrow> Bytes \<Rightarrow> Bytes \<Rightarrow> CryptoError + Bytes" where
  "open_content prims key nonce aad ciphertext =
     (case aead_decrypt prims (content_key_bytes key) (content_nonce_bytes nonce) ciphertext aad of
        None \<Rightarrow> Inl Aead | Some plaintext \<Rightarrow> Inr plaintext)"

definition hpke_public_key_from_bytes :: "Primitives \<Rightarrow> Bytes \<Rightarrow> CryptoError + Bytes" where
  "hpke_public_key_from_bytes prims bytes =
     (if hpke_public_valid prims bytes then Inr bytes else Inl InvalidHpkePublicKey)"

definition hpke_encapped_key_from_bytes :: "Primitives \<Rightarrow> Bytes \<Rightarrow> CryptoError + Bytes" where
  "hpke_encapped_key_from_bytes prims bytes =
     (if hpke_encapped_valid prims bytes then Inr bytes else Inl InvalidHpkeEncapsulatedKey)"

definition hpke_seal :: "Primitives \<Rightarrow> Bytes \<Rightarrow> Bytes \<Rightarrow> Bytes \<Rightarrow> Bytes \<Rightarrow> Bytes \<Rightarrow> CryptoError + HpkeSealed" where
  "hpke_seal prims rng recipient_public_key info aad plaintext =
     and_then (hpke_public_key_from_bytes prims recipient_public_key) (\<lambda>public_key.
     and_then (map_err Hpke (hpke_single_shot_seal prims rng public_key (hpke_info info) plaintext aad)) (\<lambda>(encapped, ciphertext).
       Inr \<lparr>encapsulated_key = encapped, hpke_ciphertext = ciphertext\<rparr>))"

definition hpke_open :: "Primitives \<Rightarrow> HpkeKeypair \<Rightarrow> Bytes \<Rightarrow> Bytes \<Rightarrow> Bytes \<Rightarrow> Bytes \<Rightarrow> CryptoError + Bytes" where
  "hpke_open prims recipient encapsulated info aad ciphertext =
     and_then (hpke_encapped_key_from_bytes prims encapsulated) (\<lambda>encapped.
       map_err Hpke (hpke_single_shot_open prims (hpke_private_key recipient) encapped (hpke_info info) ciphertext aad))"

definition wrap_content_key ::
  "Primitives \<Rightarrow> Bytes \<Rightarrow> Bytes \<Rightarrow> Bytes \<Rightarrow> Bytes \<Rightarrow> ContentKey \<Rightarrow> CryptoError + HpkeSealed" where
  "wrap_content_key prims rng recipient_public_key info aad content_key =
     hpke_seal prims rng recipient_public_key info aad (content_key_bytes content_key)"

definition unwrap_content_key ::
  "Primitives \<Rightarrow> HpkeKeypair \<Rightarrow> Bytes \<Rightarrow> Bytes \<Rightarrow> Bytes \<Rightarrow> Bytes \<Rightarrow> CryptoError + ContentKey" where
  "unwrap_content_key prims recipient encapsulated info aad wrapped =
     and_then (hpke_open prims recipient encapsulated info aad wrapped) content_key_from_bytes"

section \<open>Prefix codes\<close>

text \<open>
  An encoding of single values that can be told apart at the front of any byte string; sequences of
  encoded values then determine the values.
\<close>

locale prefix_code =
  fixes code :: "'a \<Rightarrow> Bytes" and fits :: "'a \<Rightarrow> bool"
  assumes front: "fits v \<Longrightarrow> fits w \<Longrightarrow> code v @ rest = code w @ rest' \<Longrightarrow> v = w \<and> rest = rest'"
    and nonempty: "code v \<noteq> []"
begin

lemma sequence_unique:
  "list_all fits vs \<Longrightarrow> list_all fits ws \<Longrightarrow> concat (map code vs) = concat (map code ws) \<Longrightarrow> vs = ws"
proof (induction vs arbitrary: ws)
  case Nil
  then show ?case by (cases ws) (auto simp: nonempty)
next
  case (Cons v vs)
  have "concat (map code ws) \<noteq> []"
    using Cons.prems(3) nonempty [of v] by (metis append_is_Nil_conv concat.simps(2) list.simps(9))
  then obtain w ws' where ws: "ws = w # ws'" by (cases ws) simp_all
  have "v = w \<and> concat (map code vs) = concat (map code ws')"
    using Cons.prems unfolding ws by (intro front) simp_all
  then show ?case
    using Cons.IH [of ws'] Cons.prems unfolding ws by simp
qed

end

lemma to_be_bytes_length [simp]: "length (to_be_bytes w) = 8"
  by (simp add: to_be_bytes_def)

lemma to_be_bytes_nth: "i < 8 \<Longrightarrow> to_be_bytes w ! (7 - i) = ucast (drop_bit (8 * i) w)"
proof -
  assume "i < 8"
  then have "[7, 6, 5, 4, 3, 2, 1, 0] ! (7 - i) = i" by (auto simp: less_Suc_eq numeral_eq_Suc)
  moreover have "7 - i < length [7, 6, 5, 4, 3, 2, 1, 0 :: nat]" by simp
  ultimately show ?thesis unfolding to_be_bytes_def by (simp only: nth_map)
qed

lemma to_be_bytes_inj: "to_be_bytes v = to_be_bytes w \<longleftrightarrow> v = w"
proof
  assume eq: "to_be_bytes v = to_be_bytes w"
  show "v = w"
  proof (rule bit_word_eqI)
    fix n assume "n < LENGTH(64)"
    then have "n div 8 < 8" by (simp add: less_mult_imp_div_less)
    then have "(ucast (drop_bit (8 * (n div 8)) v) :: u8) = ucast (drop_bit (8 * (n div 8)) w)"
      using eq by (metis to_be_bytes_nth)
    then have "bit (ucast (drop_bit (8 * (n div 8)) v) :: u8) (n mod 8) = bit (ucast (drop_bit (8 * (n div 8)) w) :: u8) (n mod 8)"
      by simp
    then show "bit v n = bit w n"
      by (simp add: bit_ucast_iff bit_drop_bit_eq)
  qed
qed simp

interpretation frame: prefix_code framed "\<lambda>v. length v < 2 ^ 64"
proof
  fix v w rest rest' :: Bytes
  assume fits: "length v < 2 ^ 64" "length w < 2 ^ 64" and eq: "framed v @ rest = framed w @ rest'"
  then have "to_be_bytes (of_nat (length v)) = to_be_bytes (of_nat (length w))" "v @ rest = w @ rest'"
    by (simp_all add: framed_def)
  then have "(of_nat (length v) :: u64) = of_nat (length w)"
    by (simp add: to_be_bytes_inj)
  then have "length v = length w"
    using fits by (simp add: word_of_nat_eq_iff take_bit_nat_eq_self)
  with \<open>v @ rest = w @ rest'\<close> show "v = w \<and> rest = rest'" by simp
next
  show "framed v \<noteq> []" for v by (simp add: framed_def flip: length_greater_0_conv)
qed

section \<open>Transcripts\<close>

lemma str_bytes_inj: "str_bytes s = str_bytes t \<longleftrightarrow> s = t"
proof -
  have "inj (of_char :: char \<Rightarrow> u8)"
  proof (rule injI)
    fix c c' :: char assume "(of_char c :: u8) = of_char c'"
    then have "(of_nat (of_char c) :: u8) = of_nat (of_char c')" by (simp only: of_nat_of_char)
    then have "(of_char c :: nat) = of_char c'" by (simp add: word_of_nat_eq_iff take_bit_nat_eq_self)
    then show "c = c'" by simp
  qed
  then show ?thesis by (simp add: str_bytes_def inj_map_eq_map)
qed

lemma str_bytes_length [simp]: "length (str_bytes s) = length s"
  by (simp add: str_bytes_def)

lemma transcript_frames:
  "signature_transcript d m = concat (map framed [str_bytes SIGNATURE_DOMAIN, str_bytes d, m])"
  "hash_transcript d m = concat (map framed [str_bytes HASH_DOMAIN, str_bytes d, m])"
  "hpke_info i = concat (map framed [str_bytes HPKE_INFO_DOMAIN, i])"
  "ratchet_mac_transcript root user b =
     concat (map framed [RATCHET_MAC_SALT, hash_bytes root, case user of UserId h \<Rightarrow> hash_bytes h, b])"
  by (simp_all add: signature_transcript_def hash_transcript_def hpke_info_def ratchet_mac_transcript_def
      append_transcript_def update_transcript_def update_mac_transcript_def)

lemma domain_lengths: "length SIGNATURE_DOMAIN < 2 ^ 64" "length HASH_DOMAIN < 2 ^ 64" "length HPKE_INFO_DOMAIN < 2 ^ 64"
    "length RATCHET_MAC_SALT < 2 ^ 64"
  by (simp_all add: SIGNATURE_DOMAIN_def HASH_DOMAIN_def HPKE_INFO_DOMAIN_def RATCHET_MAC_SALT_def)

section \<open>Properties\<close>

text \<open>
  C25. Transcripts keep apart what they should. For domains and messages whose length fits 64 bits,
  the bytes that are signed determine domain and message, the bytes that are hashed determine
  domain and message (so two hashes of the provider agree only for equal inputs or on a collision
  of SHA-256 itself), the bytes that bind an HPKE exchange determine the given info, the bytes that
  a ratchet is authenticated over determine root, user and ratchet, and nothing that is signed is
  ever hashed under the provider's hash or authenticated as a ratchet.
\<close>

theorem transcripts_are_separated:
  assumes "length d < 2 ^ 64" "length d' < 2 ^ 64" "length m < 2 ^ 64" "length m' < 2 ^ 64"
    "length (hash_bytes h) < 2 ^ 64" "length (hash_bytes h') < 2 ^ 64" "length (hash_bytes r) < 2 ^ 64" "length (hash_bytes r') < 2 ^ 64"
  shows "(signature_transcript d m = signature_transcript d' m' \<longleftrightarrow> d = d' \<and> m = m')
    \<and> (provider_hash prims d m = provider_hash prims d' m' \<longleftrightarrow> d = d' \<and> m = m'
         \<or> hash_transcript d m \<noteq> hash_transcript d' m'
           \<and> sha256 prims (hash_transcript d m) = sha256 prims (hash_transcript d' m'))
    \<and> (hpke_info m = hpke_info m' \<longleftrightarrow> m = m')
    \<and> (ratchet_mac_transcript r (UserId h) m = ratchet_mac_transcript r' (UserId h') m' \<longleftrightarrow> r = r' \<and> h = h' \<and> m = m')
    \<and> signature_transcript d m \<notin> {hash_transcript d' m', ratchet_mac_transcript r (UserId h) m', hpke_info m'}"
proof -
  note unique = frame.sequence_unique
  have sig: "signature_transcript d m = signature_transcript d' m' \<longleftrightarrow> d = d' \<and> m = m'"
    unfolding transcript_frames using unique [of "[str_bytes SIGNATURE_DOMAIN, str_bytes d, m]" "[str_bytes SIGNATURE_DOMAIN, str_bytes d', m']"]
      assms domain_lengths by (auto simp: str_bytes_inj)
  have hash_eq: "hash_transcript d m = hash_transcript d' m' \<longleftrightarrow> d = d' \<and> m = m'"
    unfolding transcript_frames using unique [of "[str_bytes HASH_DOMAIN, str_bytes d, m]" "[str_bytes HASH_DOMAIN, str_bytes d', m']"]
      assms domain_lengths by (auto simp: str_bytes_inj)
  have info: "hpke_info m = hpke_info m' \<longleftrightarrow> m = m'"
    unfolding transcript_frames using unique [of "[str_bytes HPKE_INFO_DOMAIN, m]" "[str_bytes HPKE_INFO_DOMAIN, m']"]
      assms domain_lengths by auto
  have mac: "ratchet_mac_transcript r (UserId h) m = ratchet_mac_transcript r' (UserId h') m' \<longleftrightarrow> r = r' \<and> h = h' \<and> m = m'"
    unfolding transcript_frames using unique [of "[RATCHET_MAC_SALT, hash_bytes r, hash_bytes h, m]" "[RATCHET_MAC_SALT, hash_bytes r', hash_bytes h', m']"]
      assms domain_lengths by (cases h; cases h'; cases r; cases r') auto
  have "str_bytes SIGNATURE_DOMAIN \<noteq> str_bytes HASH_DOMAIN"
    by (simp add: str_bytes_inj SIGNATURE_DOMAIN_def HASH_DOMAIN_def)
  then have apart: "signature_transcript d m \<noteq> hash_transcript d' m'"
    unfolding transcript_frames using unique [of "[str_bytes SIGNATURE_DOMAIN, str_bytes d, m]" "[str_bytes HASH_DOMAIN, str_bytes d', m']"]
      assms domain_lengths by auto
  moreover have "signature_transcript d m \<noteq> ratchet_mac_transcript r (UserId h) m'" "signature_transcript d m \<noteq> hpke_info m'"
    unfolding transcript_frames
    using unique [of "[str_bytes SIGNATURE_DOMAIN, str_bytes d, m]" "[RATCHET_MAC_SALT, hash_bytes r, hash_bytes h, m']"]
      unique [of "[str_bytes SIGNATURE_DOMAIN, str_bytes d, m]" "[str_bytes HPKE_INFO_DOMAIN, m']"] assms domain_lengths by auto
  ultimately show ?thesis
    using sig hash_eq info mac by (auto simp: provider_hash_def)
qed

theorem transcripts_are_separated_witness:
  "signature_transcript ''a'' [1] \<noteq> signature_transcript ''b'' [1]
   \<and> signature_transcript ''a'' [1] \<noteq> hash_transcript ''a'' [1]
   \<and> hpke_info [1] \<noteq> hpke_info [2]"
  using transcripts_are_separated [of "''a''" "''b''" "[1]" "[1]" "HashValue []" "HashValue []" "HashValue []" "HashValue []"]
    transcripts_are_separated [of "''a''" "''a''" "[1]" "[1]" "HashValue []" "HashValue []" "HashValue []" "HashValue []"]
    transcripts_are_separated [of "''a''" "''a''" "[1]" "[2]" "HashValue []" "HashValue []" "HashValue []" "HashValue []"]
  by simp

end
