(* ===== verification/Thorax_Transaction.thy ===== *)
theory Thorax_Transaction
  imports Thorax_Store Thorax_Validation Thorax_Provider
begin

text \<open>
  Files: \<open>crates/thorax-ops/src/transaction.rs\<close>, the legacy join journal of \<open>enrollment.rs\<close>, the
  trust anchor of \<open>trust.rs\<close> and the errors of \<open>lib.rs\<close>. A mutation replaces two files, the vault
  and the ratchet; the journal makes the pair atomic: it is written first with the hashes of both
  before-images and both after-images, and whoever finds it completes it.

  An operation is a function of a state, here the disk, that returns a result and the new state. A crash is the
  error that the source injects at its four persistence boundaries (\<open>TestFaultPoint\<close>); a
  production build runs with no fault. The random transaction identifier is an argument.

  The theorems show that a commit is atomic under a crash at every boundary, that recovery never
  overwrites a file it does not recognise, that a pending journal stops every writer, and that
  abandoning a journal keeps the rollback memory of its after-image.
\<close>

section \<open>Errors and operations\<close>

text \<open>The errors of the operations; one of the keychain is carried as its text.\<close>

datatype OpsError =
    Store StoreError
  | Core CoreError
  | Crypto CryptoError
  | Cord CordError
  | Hazmat HazmatError
  | Keychain string
  | VaultAlreadyInitialized Path
  | MissingRatchet Path
  | ValidationFailed "ValidationIssue list"
  | OperationNotEffective string
  | MissingEffectiveRoot
  | NotAVaultMember UserId
  | MissingTrustedRootCandidate
  | AmbiguousTrustedRootCandidates "HashValue list"
  | SecretMissing
  | SecretNotDecryptable SecretState
  | InvalidSecretPlaintext
  | SecretNotWritable
  | RecipientSlotMissing UserId
  | MissingReaderUser UserId
  | MissingWriterUser UserId
  | MissingUser UserId
  | UserHandleNotFound string
  | UserHandleTargetMissing string UserId
  | InvalidUserHandle string string
  | InvalidVaultHandle string string
  | InvalidGroupHandle string string
  | AdministerRequired UserId
  | CannotConferGroupAuthority UserId
  | KeychainIdentityMismatch UserId UserId
  | ClaimNotAMember UserId
  | ClaimRolledBack
  | InviteRootMismatch
  | InviteRollbackBaselineRequired
  | ConflictCandidateNotFound HashValue
  | ConflictNotResolvable string
  | SecretConflicted
  | CounterExhausted
  | InvalidJoinCandidate string
  | JoinRootMismatch
  | JoinApprovalMismatch
  | JoinPlanStale
  | JoinRecoveryConflict
  | PendingTransaction string string
  | TransactionRecoveryConflict
  | TransactionPreconditionChanged string
  | NoPendingTransaction
  | MultipleRecoveryTransactions

type_synonym ('s, 'a) StateOp = "'s \<Rightarrow> (OpsError + 'a) \<times> 's"
type_synonym 'a Op = "(Disk, 'a) StateOp"

definition op_ok :: "'a \<Rightarrow> ('s, 'a) StateOp" where
  "op_ok x d = (Inr x, d)"

definition op_err :: "OpsError \<Rightarrow> ('s, 'a) StateOp" where
  "op_err e d = (Inl e, d)"

text \<open>A computation that only reads the state, and one of the store that may write the disk.\<close>

definition op_read :: "('s \<Rightarrow> OpsError + 'a) \<Rightarrow> ('s, 'a) StateOp" where
  "op_read f d = (f d, d)"

definition op_store :: "(Disk \<Rightarrow> (StoreError + 'a) \<times> Disk) \<Rightarrow> 'a Op" where
  "op_store f d = (map_err Store (fst (f d)), snd (f d))"

text \<open>The \<open>?\<close> operator on operations: what was written before an error stays written.\<close>

definition op_then :: "('s, 'a) StateOp \<Rightarrow> ('a \<Rightarrow> ('s, 'b) StateOp) \<Rightarrow> ('s, 'b) StateOp" where
  "op_then m f d = (case m d of (Inl e, d1) \<Rightarrow> (Inl e, d1) | (Inr x, d1) \<Rightarrow> f x d1)"

record JoinCommitJournalV1 =
  jcj_trusted_root :: HashValue
  expected_vault_hash :: HashValue
  expected_ratchet_hash :: HashValue
  jcj_next_vault_bytes :: Bytes
  jcj_next_ratchet_bytes :: Bytes

datatype JoinCommitJournal = V1 JoinCommitJournalV1

text \<open>The environment of the store, and the serialiser of the legacy journal.\<close>

record OpsEnv =
  ops_store :: StoreEnv
  ops_join_commit :: "JoinCommitJournal CordCodec"

abbreviation ops_crypto :: "OpsEnv \<Rightarrow> CryptoProvider" where
  "ops_crypto env \<equiv> env_crypto (ops_store env)"

section \<open>The root a vault is anchored in\<close>

definition root_candidate :: "CryptoProvider \<Rightarrow> VaultRecordV1 \<Rightarrow> CoreError + HashValue option" where
  "root_candidate crypto sr =
     (case known (rec_body sr) of
        Some (RecordBodyV1.VaultRoot root) \<Rightarrow>
          and_then (derive_user_id crypto (rec_signing_public_key sr) (root_hpke_public_key root)) (\<lambda>i.
            if root_id root \<noteq> i then Inr None
            else and_then (signed_record_message crypto sr) (\<lambda>message.
              if \<not> verify_signature crypto ''thorax.signed.v1'' (rec_signing_public_key sr) message (rec_signature sr)
              then Inr None
              else and_then (key_hash crypto (rec_signing_public_key sr)) (\<lambda>h. Inr (Some h))))
      | _ \<Rightarrow> Inr None)"

fun trusted_root_candidate :: "CryptoProvider \<Rightarrow> VaultStore \<Rightarrow> OpsError + HashValue" where
  "trusted_root_candidate crypto (VaultStore.V1 v1) =
     and_then (map_err OpsError.Core (collect_results (root_candidate crypto) (vs_records v1))) (\<lambda>found.
       let candidates = sorted_list_of_set (set (List.map_filter (\<lambda>x. x) found))
       in case candidates of
            [] \<Rightarrow> Inl MissingTrustedRootCandidate
          | [h] \<Rightarrow> Inr h
          | _ \<Rightarrow> Inl (AmbiguousTrustedRootCandidates candidates))"

definition ensure_no_issues :: "ValidationReport \<Rightarrow> OpsError + unit" where
  "ensure_no_issues report =
     (if vrep_issues report = [] then Inr () else Inl (ValidationFailed (vrep_issues report)))"

section \<open>The journal of a mutation\<close>

definition TRANSACTION_HASH_DOMAIN :: string where
  "TRANSACTION_HASH_DOMAIN = ''thorax.transaction-file.v1''"

datatype TestFaultPoint = AfterJournal | AfterRatchet | AfterVault | BeforeJournalRemoval

record PendingTransaction =
  pt_transaction_id :: Bytes
  pt_operation :: string
  pt_origin :: "Path option"
  recoverable_here :: bool

datatype RecoveryDisposition = NothingToDo | Recovered | PendingElsewhere

definition file_hash :: "CryptoProvider \<Rightarrow> Bytes \<Rightarrow> HashValue" where
  "file_hash crypto bytes = crypto_hash crypto TRANSACTION_HASH_DOMAIN bytes"

definition classify_file :: "CryptoProvider \<Rightarrow> Bytes option \<Rightarrow> FilePreconditionV1 \<Rightarrow> Bytes \<Rightarrow> OpsError + bool" where
  "classify_file crypto current before after =
     (let is_before = (case (current, before) of
                         (None, FilePreconditionV1.Missing) \<Rightarrow> True
                       | (Some bytes, Hash expected) \<Rightarrow> file_hash crypto bytes = expected
                       | _ \<Rightarrow> False);
          is_after = (case current of None \<Rightarrow> False | Some bytes \<Rightarrow> file_hash crypto bytes = file_hash crypto after)
      in if \<not> is_before \<and> \<not> is_after then Inl TransactionRecoveryConflict else Inr is_after)"

definition validate_transaction :: "StoreEnv \<Rightarrow> WorkspacePaths \<Rightarrow> TransactionV1 \<Rightarrow> OpsError + Ratchet" where
  "validate_transaction env paths tx =
     and_then (map_err (\<lambda>e. Store (InvalidVault (transaction_path paths (tx_trusted_root tx)) e))
         (decode_vault (env_vault env) (next_vault_bytes tx))) (\<lambda>vault.
     and_then (trusted_root_candidate (env_crypto env) vault) (\<lambda>vault_root.
       if vault_root \<noteq> tx_trusted_root tx then Inl TransactionRecoveryConflict
       else and_then (map_err Store (decode_ratchet env (transaction_path paths (tx_trusted_root tx)) (next_ratchet_bytes tx)))
         (\<lambda>ratchet.
           if trusted_root ratchet \<noteq> tx_trusted_root tx then Inl TransactionRecoveryConflict else Inr ratchet)))"

text \<open>\<open>push\<close> of the records of unknown kinds that are not there yet.\<close>

definition merge_ratchet :: "Ratchet \<Rightarrow> Ratchet \<Rightarrow> OpsError + Ratchet" where
  "merge_ratchet current after =
     (if trusted_root current \<noteq> trusted_root after then Inl TransactionRecoveryConflict
      else let absorbed = fold absorb_record (to_records after) current
           in Inr (absorbed\<lparr>unknown_records := fold set_insert (unknown_records after) (unknown_records absorbed)\<rparr>))"

definition transaction_id_hex :: "Bytes \<Rightarrow> string" where
  "transaction_id_hex bytes = hex_bytes bytes"

definition origin_text :: "Path option \<Rightarrow> string" where
  "origin_text origin = (case origin of Some path \<Rightarrow> path | None \<Rightarrow> ''<another platform path>'')"

definition pending_error :: "TransactionV1 \<Rightarrow> OpsError" where
  "pending_error tx =
     OpsError.PendingTransaction (transaction_id_hex (transaction_id tx)) (origin_text (to_path_buf (origin_vault_path tx)))"

definition pending_barrier_error :: "PendingTransaction \<Rightarrow> OpsError" where
  "pending_barrier_error pending =
     OpsError.PendingTransaction (transaction_id_hex (pt_transaction_id pending)) (origin_text (pt_origin pending))"

fun fault_name :: "TestFaultPoint \<Rightarrow> string" where
  "fault_name AfterJournal = ''AfterJournal''"
| "fault_name AfterRatchet = ''AfterRatchet''"
| "fault_name AfterVault = ''AfterVault''"
| "fault_name BeforeJournalRemoval = ''BeforeJournalRemoval''"

definition maybe_inject_fault ::
  "TestFaultPoint option \<Rightarrow> WorkspacePaths \<Rightarrow> HashValue \<Rightarrow> TestFaultPoint \<Rightarrow> OpsError + unit" where
  "maybe_inject_fault fault paths root point =
     (if fault = Some point
      then Inl (Store (Io (transaction_path paths root)
             (IoError Interrupted (''injected transaction fault at '' @ fault_name point))))
      else Inr ())"

definition complete_transaction_locked ::
  "StoreEnv \<Rightarrow> TestFaultPoint option \<Rightarrow> WorkspacePaths \<Rightarrow> TransactionV1 \<Rightarrow> unit Op" where
  "complete_transaction_locked env fault paths tx =
     (let root = tx_trusted_root tx;
          read_vault_file = op_read (\<lambda>d. map_err Store (read_current_file d (vault_path paths) MAX_VAULT_BYTES));
          read_ratchet_file = op_read (\<lambda>d. map_err Store (read_current_file d (ratchet_path paths root) MAX_RATCHET_BYTES));
          inject = (\<lambda>point. op_read (\<lambda>_. maybe_inject_fault fault paths root point))
      in op_then read_vault_file (\<lambda>current_vault.
         op_then read_ratchet_file (\<lambda>current_ratchet.
         op_then (op_read (\<lambda>_. classify_file (env_crypto env) current_vault (vault_before tx) (next_vault_bytes tx)))
           (\<lambda>vault_is_after.
         op_then (op_read (\<lambda>_. classify_file (env_crypto env) current_ratchet (ratchet_before tx) (next_ratchet_bytes tx)))
           (\<lambda>ratchet_is_after.
         op_then (if ratchet_is_after then op_ok ()
                  else op_store (write_ratchet_bytes_atomic env paths root (next_ratchet_bytes tx))) (\<lambda>_.
         op_then (inject AfterRatchet) (\<lambda>_.
         op_then (if vault_is_after then op_ok ()
                  else op_store (write_vault_bytes_atomic env paths (next_vault_bytes tx))) (\<lambda>_.
         op_then (inject AfterVault) (\<lambda>_.
         op_then read_ratchet_file (\<lambda>reopened_ratchet.
         op_then read_vault_file (\<lambda>reopened_vault.
           if reopened_ratchet \<noteq> Some (next_ratchet_bytes tx) \<or> reopened_vault \<noteq> Some (next_vault_bytes tx)
           then op_err TransactionRecoveryConflict
           else op_then (inject BeforeJournalRemoval) (\<lambda>_. \<lambda>d.
             (Inr (), remove_file_durable (transaction_path paths root) d)))))))))))))"

section \<open>The legacy journal of an enrollment\<close>

definition JOIN_COMMIT_HASH_DOMAIN :: string where
  "JOIN_COMMIT_HASH_DOMAIN = ''thorax.join-commit.v1''"

definition JOIN_COMMIT_FILE :: string where
  "JOIN_COMMIT_FILE = ''join-commit.cord''"

definition JOIN_COMMIT_MAGIC :: Bytes where
  "JOIN_COMMIT_MAGIC = str_bytes ''thorax-join-commit'' @ [0]"

definition MAX_JOIN_COMMIT_BYTES :: nat where
  "MAX_JOIN_COMMIT_BYTES = MAX_VAULT_BYTES + 1024 * 1024"

definition join_commit_path :: "WorkspacePaths \<Rightarrow> HashValue \<Rightarrow> Path" where
  "join_commit_path paths root = path_join (path_join (state_dir paths) (hex_hash root)) JOIN_COMMIT_FILE"

definition join_commit_present :: "Disk \<Rightarrow> WorkspacePaths \<Rightarrow> HashValue \<Rightarrow> OpsError + bool" where
  "join_commit_present d paths root =
     (let path = join_commit_path paths root in
      case read_file_bounded d path MAX_JOIN_COMMIT_BYTES of
        Inr _ \<Rightarrow> Inr True
      | Inl (IoError NotFound m) \<Rightarrow> Inr False
      | Inl e \<Rightarrow> Inl (Store (Io path e)))"

text \<open>\<open>read_ratchet_for_root\<close> where a missing ratchet is an error.\<close>

definition require_ratchet :: "StoreEnv \<Rightarrow> WorkspacePaths \<Rightarrow> HashValue \<Rightarrow> Disk \<Rightarrow> OpsError + Ratchet" where
  "require_ratchet env paths root d =
     and_then (map_err Store (read_ratchet_for_root env d paths root)) (\<lambda>found.
       case found of None \<Rightarrow> Inl (MissingRatchet (ratchet_path paths root)) | Some r \<Rightarrow> Inr r)"

definition complete_join_commit :: "StoreEnv \<Rightarrow> WorkspacePaths \<Rightarrow> JoinCommitJournalV1 \<Rightarrow> unit Op" where
  "complete_join_commit env paths journal =
     (let root = jcj_trusted_root journal;
          journal_hash = crypto_hash (env_crypto env) JOIN_COMMIT_HASH_DOMAIN;
          encode = (\<lambda>r. op_read (\<lambda>_. map_err Store (encode_ratchet env r)))
      in op_then (op_read (\<lambda>d. map_err Store (read_vault_bytes d paths))) (\<lambda>current_vault.
         if journal_hash current_vault \<noteq> expected_vault_hash journal
            \<and> journal_hash current_vault \<noteq> journal_hash (jcj_next_vault_bytes journal)
         then op_err JoinRecoveryConflict
         else op_then (op_read (require_ratchet env paths root)) (\<lambda>current_ratchet.
         op_then (encode current_ratchet) (\<lambda>current_bytes.
         if journal_hash current_bytes \<noteq> expected_ratchet_hash journal
            \<and> journal_hash current_bytes \<noteq> journal_hash (jcj_next_ratchet_bytes journal)
         then op_err JoinRecoveryConflict
         else op_then (op_read (\<lambda>_. map_err Store
                (decode_ratchet env (join_commit_path paths root) (jcj_next_ratchet_bytes journal)))) (\<lambda>next_ratchet.
         op_then (op_store (write_ratchet_atomic env paths next_ratchet)) (\<lambda>_.
         op_then (op_store (write_vault_bytes_atomic env paths (jcj_next_vault_bytes journal))) (\<lambda>_.
         op_then (op_read (require_ratchet env paths root)) (\<lambda>reopened_ratchet.
         op_then (op_read (\<lambda>d. map_err Store (read_vault_bytes d paths))) (\<lambda>reopened_vault.
         if reopened_vault \<noteq> jcj_next_vault_bytes journal then op_err JoinRecoveryConflict
         else op_then (encode reopened_ratchet) (\<lambda>reopened_bytes.
         if reopened_bytes \<noteq> jcj_next_ratchet_bytes journal then op_err JoinRecoveryConflict
         else (\<lambda>d. (Inr (), remove_file_durable (join_commit_path paths root) d))))))))))))"

definition recover_join_commit :: "OpsEnv \<Rightarrow> WorkspacePaths \<Rightarrow> HashValue \<Rightarrow> bool Op" where
  "recover_join_commit env paths root =
     (let path = join_commit_path paths root in
      op_then (op_read (\<lambda>d. map_err Store (read_current_file d path MAX_JOIN_COMMIT_BYTES))) (\<lambda>file.
        case file of
          None \<Rightarrow> op_ok False
        | Some bytes \<Rightarrow>
            (case strip_prefix JOIN_COMMIT_MAGIC bytes of
               None \<Rightarrow> op_err JoinRecoveryConflict
             | Some payload \<Rightarrow>
                 op_then (op_read (\<lambda>_. map_err OpsError.Cord (cord_de (ops_join_commit env) payload))) (\<lambda>store.
                   case store of JoinCommitJournal.V1 journal \<Rightarrow>
                     if jcj_trusted_root journal \<noteq> root then op_err JoinRecoveryConflict
                     else op_then (complete_join_commit (ops_store env) paths journal) (\<lambda>_. op_ok True)))))"

section \<open>Recovery, commit and abandonment\<close>

definition read_pending :: "StoreEnv \<Rightarrow> WorkspacePaths \<Rightarrow> HashValue \<Rightarrow> TransactionV1 option Op" where
  "read_pending env paths root = op_read (\<lambda>d. map_err Store (read_transaction env d paths root))"

definition recover_transaction_if_origin :: "StoreEnv \<Rightarrow> TestFaultPoint option \<Rightarrow> WorkspacePaths \<Rightarrow> HashValue \<Rightarrow> RecoveryDisposition Op" where
  "recover_transaction_if_origin env fault paths root =
     (let validated_origin = (\<lambda>tx.
            op_then (op_read (\<lambda>_. validate_transaction env paths tx)) (\<lambda>_.
              op_read (\<lambda>_. map_err Store (matches_canonical env (origin_vault_path tx) (vault_path paths)))))
      in op_then (read_pending env paths root) (\<lambda>pending.
         case pending of
           None \<Rightarrow> op_ok NothingToDo
         | Some tx \<Rightarrow> op_then (validated_origin tx) (\<lambda>is_origin.
             if \<not> is_origin then op_ok PendingElsewhere
             else op_then (read_pending env paths root) (\<lambda>again.
               case again of
                 None \<Rightarrow> op_ok Recovered
               | Some tx \<Rightarrow> op_then (validated_origin tx) (\<lambda>is_origin.
                   if \<not> is_origin then op_ok PendingElsewhere
                   else op_then (complete_transaction_locked env fault paths tx) (\<lambda>_. op_ok Recovered))))))"

definition recover_for_root :: "OpsEnv \<Rightarrow> TestFaultPoint option \<Rightarrow> WorkspacePaths \<Rightarrow> HashValue \<Rightarrow> RecoveryDisposition Op" where
  "recover_for_root env fault paths root =
     op_then (read_pending (ops_store env) paths root) (\<lambda>pending.
     op_then (op_read (\<lambda>d. join_commit_present d paths root)) (\<lambda>has_legacy_join.
       if pending \<noteq> None \<and> has_legacy_join then op_err MultipleRecoveryTransactions
       else op_then (recover_transaction_if_origin (ops_store env) fault paths root) (\<lambda>disposition.
         if disposition \<noteq> NothingToDo then op_ok disposition
         else op_then (recover_join_commit env paths root) (\<lambda>joined.
           op_ok (if joined then Recovered else NothingToDo)))))"

definition recover_current_workspace_if_needed :: "OpsEnv \<Rightarrow> TestFaultPoint option \<Rightarrow> WorkspacePaths \<Rightarrow> bool Op" where
  "recover_current_workspace_if_needed env fault paths =
     op_then (op_read (\<lambda>d. map_err Store (read_vault (ops_store env) d paths))) (\<lambda>vault.
     op_then (op_read (\<lambda>_. trusted_root_candidate (ops_crypto env) vault)) (\<lambda>root.
     op_then (recover_for_root env fault paths root) (\<lambda>disposition. op_ok (disposition = Recovered))))"

definition pending_of :: "TransactionV1 \<Rightarrow> bool \<Rightarrow> PendingTransaction" where
  "pending_of tx here =
     \<lparr>pt_transaction_id = transaction_id tx, pt_operation = tx_operation tx,
      pt_origin = to_path_buf (origin_vault_path tx), recoverable_here = here\<rparr>"

definition read_strongest_ratchet_optional_with_pending_locked ::
  "StoreEnv \<Rightarrow> WorkspacePaths \<Rightarrow> HashValue \<Rightarrow> Disk \<Rightarrow> OpsError + Ratchet option \<times> PendingTransaction option" where
  "read_strongest_ratchet_optional_with_pending_locked env paths root d =
     and_then (map_err Store (read_ratchet_for_root env d paths root)) (\<lambda>ratchet.
     and_then (map_err Store (read_transaction env d paths root)) (\<lambda>pending.
       case pending of
         None \<Rightarrow> Inr (ratchet, None)
       | Some tx \<Rightarrow>
           and_then (validate_transaction env paths tx) (\<lambda>next_ratchet.
           and_then (merge_ratchet (case ratchet of None \<Rightarrow> ratchet_new root | Some r \<Rightarrow> r) next_ratchet) (\<lambda>merged.
           and_then (map_err Store (matches_canonical env (origin_vault_path tx) (vault_path paths))) (\<lambda>here.
             Inr (Some merged, Some (pending_of tx here)))))))"

definition read_strongest_ratchet_optional_locked ::
  "StoreEnv \<Rightarrow> WorkspacePaths \<Rightarrow> HashValue \<Rightarrow> Disk \<Rightarrow> OpsError + Ratchet option" where
  "read_strongest_ratchet_optional_locked env paths root d =
     and_then (read_strongest_ratchet_optional_with_pending_locked env paths root d) (\<lambda>found. Inr (fst found))"

definition read_strongest_ratchet_locked ::
  "StoreEnv \<Rightarrow> WorkspacePaths \<Rightarrow> HashValue \<Rightarrow> Disk \<Rightarrow> OpsError + Ratchet \<times> PendingTransaction option" where
  "read_strongest_ratchet_locked env paths root d =
     and_then (read_strongest_ratchet_optional_with_pending_locked env paths root d) (\<lambda>found.
       case fst found of
         None \<Rightarrow> Inl (MissingRatchet (ratchet_path paths root))
       | Some ratchet \<Rightarrow> Inr (ratchet, snd found))"

definition new_transaction ::
  "CryptoProvider \<Rightarrow> Bytes \<Rightarrow> HashValue \<Rightarrow> NativePathV1 \<Rightarrow> string \<Rightarrow> Bytes \<Rightarrow> Bytes \<Rightarrow> Bytes \<Rightarrow> Bytes \<Rightarrow> TransactionV1" where
  "new_transaction crypto seed root origin operation expected_vault expected_ratchet next_vault next_ratchet =
     \<lparr>transaction_id = seed, tx_trusted_root = root, origin_vault_path = origin, tx_operation = operation,
      vault_before = Hash (file_hash crypto expected_vault), ratchet_before = Hash (file_hash crypto expected_ratchet),
      next_vault_bytes = next_vault, next_ratchet_bytes = next_ratchet\<rparr>"

definition commit_after_images_locked ::
  "StoreEnv \<Rightarrow> TestFaultPoint option \<Rightarrow> Bytes \<Rightarrow> WorkspacePaths \<Rightarrow> HashValue \<Rightarrow> string
     \<Rightarrow> Bytes \<Rightarrow> Bytes \<Rightarrow> Bytes \<Rightarrow> Bytes \<Rightarrow> unit Op" where
  "commit_after_images_locked env fault seed paths root operation expected_vault expected_ratchet next_vault next_ratchet =
     op_then (op_read (\<lambda>d. join_commit_present d paths root)) (\<lambda>has_legacy_join.
     if has_legacy_join then op_err MultipleRecoveryTransactions
     else op_then (read_pending env paths root) (\<lambda>pending.
     case pending of
       Some tx \<Rightarrow> op_err (pending_error tx)
     | None \<Rightarrow>
         op_then (op_read (\<lambda>d. map_err Store (read_vault_bytes d paths))) (\<lambda>current_vault.
         if current_vault \<noteq> expected_vault then op_err (TransactionPreconditionChanged ''vault'')
         else op_then (op_read (\<lambda>d. map_err Store
                (read_current_file d (ratchet_path paths root) MAX_RATCHET_BYTES))) (\<lambda>current_ratchet.
         if current_ratchet \<noteq> Some expected_ratchet then op_err (TransactionPreconditionChanged ''ratchet'')
         else op_then (op_read (\<lambda>_. map_err Store (native_canonical env (vault_path paths)))) (\<lambda>origin.
         let tx = new_transaction (env_crypto env) seed root origin operation expected_vault expected_ratchet
                    next_vault next_ratchet
         in op_then (op_read (\<lambda>_. validate_transaction env paths tx)) (\<lambda>_.
            op_then (op_store (write_transaction_atomic env paths tx)) (\<lambda>_.
            op_then (op_read (\<lambda>_. maybe_inject_fault fault paths root AfterJournal)) (\<lambda>_.
              complete_transaction_locked env fault paths tx))))))))"

definition ensure_no_pending_transaction_locked :: "StoreEnv \<Rightarrow> WorkspacePaths \<Rightarrow> HashValue \<Rightarrow> Disk \<Rightarrow> OpsError + unit" where
  "ensure_no_pending_transaction_locked env paths root d =
     and_then (join_commit_present d paths root) (\<lambda>has_legacy_join.
       if has_legacy_join then Inl MultipleRecoveryTransactions
       else and_then (map_err Store (read_transaction env d paths root)) (\<lambda>pending.
         case pending of
           None \<Rightarrow> Inr ()
         | Some tx \<Rightarrow> and_then (validate_transaction env paths tx) (\<lambda>_. Inl (pending_error tx))))"

definition abandon_transaction :: "StoreEnv \<Rightarrow> WorkspacePaths \<Rightarrow> HashValue \<Rightarrow> PendingTransaction Op" where
  "abandon_transaction env paths root =
     op_then (read_pending env paths root) (\<lambda>pending.
     case pending of
       None \<Rightarrow> op_err NoPendingTransaction
     | Some tx \<Rightarrow>
         op_then (op_read (\<lambda>_. validate_transaction env paths tx)) (\<lambda>after.
         op_then (op_read (require_ratchet env paths root)) (\<lambda>persisted.
         op_then (op_read (\<lambda>_. merge_ratchet persisted after)) (\<lambda>merged.
         op_then (op_store (write_ratchet_atomic env paths merged)) (\<lambda>_.
           (\<lambda>d. (Inr (pending_of tx False), remove_file_durable (transaction_path paths root) d)))))))"

section \<open>Running an operation\<close>

lemma op_then_Inr_iff:
  "op_then m f d = (Inr y, d') \<longleftrightarrow> (\<exists>x d1. m d = (Inr x, d1) \<and> f x d1 = (Inr y, d'))"
  by (auto simp: op_then_def split: prod.splits sum.splits)

lemma op_then_Inl_iff:
  "op_then m f d = (Inl e, d') \<longleftrightarrow> m d = (Inl e, d') \<or> (\<exists>x d1. m d = (Inr x, d1) \<and> f x d1 = (Inl e, d'))"
  by (auto simp: op_then_def split: prod.splits sum.splits)

lemma op_read_then [simp]:
  "op_then (op_read g) f d = (case g d of Inl e \<Rightarrow> (Inl e, d) | Inr x \<Rightarrow> f x d)"
  by (simp add: op_then_def op_read_def split: sum.splits)

lemma op_ok_then [simp]: "op_then (op_ok x) f = f x"
  by (rule ext) (simp add: op_then_def op_ok_def)

lemma op_store_then:
  "op_then (op_store g) f d =
     (case g d of (Inl e, d1) \<Rightarrow> (Inl (Store e), d1) | (Inr x, d1) \<Rightarrow> f x d1)"
  by (auto simp: op_then_def op_store_def split: prod.splits sum.splits)

section \<open>Files at rest\<close>

lemma read_current_Some: "read_current_file d path n = Inr f" if "d path = f" "\<And>b. f = Some b \<Longrightarrow> length b \<le> n"
  using that by (simp add: read_current_iff)

lemma decode_ratchet_path: "decode_ratchet env p b = Inr r \<longleftrightarrow> decode_ratchet env q b = Inr r"
  by (auto simp: decode_ratchet_def and_then_Inr_iff split: option.splits)

lemma validate_transaction_Inr:
  assumes "validate_transaction env paths tx = Inr r"
  shows "\<exists>vault. decode_vault (env_vault env) (next_vault_bytes tx) = Inr vault
      \<and> trusted_root_candidate (env_crypto env) vault = Inr (tx_trusted_root tx)"
    and "decode_ratchet env p (next_ratchet_bytes tx) = Inr r" and "trusted_root r = tx_trusted_root tx"
  using assms decode_ratchet_path [of env p "next_ratchet_bytes tx" r "transaction_path paths (tx_trusted_root tx)"]
  by (auto simp: validate_transaction_def and_then_Inr_iff split: if_splits)

lemma write_vault_bytes_ok:
  assumes "length bytes \<le> MAX_VAULT_BYTES" and "decode_vault (env_vault env) bytes = Inr v"
  shows "write_vault_bytes_atomic env paths bytes d = (Inr (), d(vault_path paths \<mapsto> bytes))"
  using assms
  by (simp add: write_vault_bytes_atomic_def write_atomic_def read_vault_bytes_def read_file_bounded_def)

lemma state_paths_differ [simp]:
  "join_commit_path paths root \<noteq> ratchet_path paths root" "join_commit_path paths root \<noteq> transaction_path paths root"
  "ratchet_path paths root \<noteq> join_commit_path paths root" "transaction_path paths root \<noteq> join_commit_path paths root"
  by (simp_all add: transaction_path_def ratchet_path_def join_commit_path_def path_join_def TRANSACTION_FILE_def
      RATCHET_FILE_def JOIN_COMMIT_FILE_def)

text \<open>The vault of a workspace is not one of the files below the state directory of the root.\<close>

definition separate :: "WorkspacePaths \<Rightarrow> HashValue \<Rightarrow> bool" where
  "separate paths root \<longleftrightarrow> vault_path paths \<notin> {ratchet_path paths root, transaction_path paths root, join_commit_path paths root}"

text \<open>The classification of a file is exact: it says \<open>after\<close> just when the file is the after-image.\<close>

definition exactly_classified :: "CryptoProvider \<Rightarrow> Bytes option \<Rightarrow> FilePreconditionV1 \<Rightarrow> Bytes \<Rightarrow> bool" where
  "exactly_classified crypto current before after \<longleftrightarrow>
     classify_file crypto current before after = Inr (current = Some after)"

lemma after_image_classified: "exactly_classified crypto (Some after) before after"
  by (simp add: exactly_classified_def classify_file_def Let_def)

lemma before_image_classified:
  assumes "file_hash crypto b = file_hash crypto after \<longrightarrow> b = after"
  shows "exactly_classified crypto (Some b) (Hash (file_hash crypto b)) after"
  using assms by (auto simp: exactly_classified_def classify_file_def Let_def)

text \<open>The disk once a journal is completed.\<close>

definition after_images :: "WorkspacePaths \<Rightarrow> HashValue \<Rightarrow> Bytes \<Rightarrow> Bytes \<Rightarrow> Disk \<Rightarrow> Disk" where
  "after_images paths root v r d = d(ratchet_path paths root \<mapsto> r, vault_path paths \<mapsto> v)"

fun images_at :: "TestFaultPoint \<Rightarrow> WorkspacePaths \<Rightarrow> HashValue \<Rightarrow> Bytes \<Rightarrow> Bytes \<Rightarrow> Disk \<Rightarrow> Disk" where
  "images_at AfterJournal paths root v r d = d"
| "images_at AfterRatchet paths root v r d = d(ratchet_path paths root \<mapsto> r)"
| "images_at _ paths root v r d = after_images paths root v r d"

lemma complete_transaction_run:
  assumes sep: "separate paths (tx_trusted_root tx)"
    and valid: "validate_transaction env paths tx = Inr r0"
    and len: "length (next_vault_bytes tx) \<le> MAX_VAULT_BYTES" "length (next_ratchet_bytes tx) \<le> MAX_RATCHET_BYTES"
    and cur: "\<And>b. d (vault_path paths) = Some b \<Longrightarrow> length b \<le> MAX_VAULT_BYTES"
      "\<And>b. d (ratchet_path paths (tx_trusted_root tx)) = Some b \<Longrightarrow> length b \<le> MAX_RATCHET_BYTES"
    and cls: "exactly_classified (env_crypto env) (d (vault_path paths)) (vault_before tx) (next_vault_bytes tx)"
      "exactly_classified (env_crypto env) (d (ratchet_path paths (tx_trusted_root tx))) (ratchet_before tx) (next_ratchet_bytes tx)"
    and fault: "fault \<noteq> Some AfterJournal"
  shows "complete_transaction_locked env fault paths tx d =
    (let root = tx_trusted_root tx; v = next_vault_bytes tx; r = next_ratchet_bytes tx in
     case fault of
       None \<Rightarrow> (Inr (), (after_images paths root v r d)(transaction_path paths root := None))
     | Some point \<Rightarrow> (map_err id (maybe_inject_fault fault paths root point), images_at point paths root v r d))"
proof -
  let ?rp = "ratchet_path paths (tx_trusted_root tx)" and ?vp = "vault_path paths"
  let ?d1 = "d(?rp \<mapsto> next_ratchet_bytes tx)"
  obtain vault where vault: "decode_vault (env_vault env) (next_vault_bytes tx) = Inr vault"
    and ratchet: "decode_ratchet env ?rp (next_ratchet_bytes tx) = Inr r0" "trusted_root r0 = tx_trusted_root tx"
    using validate_transaction_Inr [OF valid] by blast
  have ne: "?vp \<noteq> ?rp" "?vp \<noteq> transaction_path paths (tx_trusted_root tx)"
    using sep by (auto simp: separate_def)
  have wr: "write_ratchet_bytes_atomic env paths (tx_trusted_root tx) (next_ratchet_bytes tx) d = (Inr (), ?d1)"
    using len(2) ratchet by (simp add: write_ratchet_bytes_ok)
  have wv: "write_vault_bytes_atomic env paths (next_vault_bytes tx) ?d1 = (Inr (), ?d1(?vp \<mapsto> next_vault_bytes tx))"
    by (rule write_vault_bytes_ok [OF len(1) vault])
  have rv: "read_current_file d ?vp MAX_VAULT_BYTES = Inr (d ?vp)"
    and rr: "read_current_file d ?rp MAX_RATCHET_BYTES = Inr (d ?rp)"
    using cur by (auto simp: read_current_iff)
  have same_r: "?d1 = d" if "d ?rp = Some (next_ratchet_bytes tx)"
    using that by (simp add: fun_upd_idem)
  have same_v: "?d1(?vp \<mapsto> next_vault_bytes tx) = ?d1" if "d ?vp = Some (next_vault_bytes tx)"
    using that ne by (simp add: fun_upd_idem)
  have reads: "read_current_file (?d1(?vp \<mapsto> next_vault_bytes tx)) ?rp MAX_RATCHET_BYTES = Inr (Some (next_ratchet_bytes tx))"
    "read_current_file (?d1(?vp \<mapsto> next_vault_bytes tx)) ?vp MAX_VAULT_BYTES = Inr (Some (next_vault_bytes tx))"
    using ne len by (auto simp: read_current_iff)
  let ?ratchet_step = "if d ?rp = Some (next_ratchet_bytes tx) then op_ok ()
      else op_store (write_ratchet_bytes_atomic env paths (tx_trusted_root tx) (next_ratchet_bytes tx))"
  let ?vault_step = "if d ?vp = Some (next_vault_bytes tx) then op_ok ()
      else op_store (write_vault_bytes_atomic env paths (next_vault_bytes tx))"
  have ratchet_step: "op_then ?ratchet_step f d = f () ?d1" for f :: "unit \<Rightarrow> unit Op"
    using wr same_r by (simp add: op_store_then)
  have vault_step: "op_then ?vault_step f ?d1 = f () (?d1(?vp \<mapsto> next_vault_bytes tx))" for f :: "unit \<Rightarrow> unit Op"
    using wv same_v by (simp add: op_store_then)
  note eval = complete_transaction_locked_def Let_def exactly_classified_def rv rr ratchet_step vault_step
    maybe_inject_fault_def reads after_images_def remove_file_durable_def
  show ?thesis
  proof (cases fault)
    case (Some point)
    with fault cls show ?thesis by (cases point) (simp_all add: eval)
  qed (use cls in \<open>simp add: eval\<close>)
qed

text \<open>A commit may start: nothing is pending, both files are what the caller saw, and the journal can be written.\<close>

definition commit_ready ::
  "StoreEnv \<Rightarrow> Bytes \<Rightarrow> WorkspacePaths \<Rightarrow> HashValue \<Rightarrow> string \<Rightarrow> Bytes \<Rightarrow> Bytes \<Rightarrow> Bytes \<Rightarrow> Bytes \<Rightarrow> Disk \<Rightarrow> bool" where
  "commit_ready env seed paths root operation expected_vault expected_ratchet next_vault next_ratchet d \<longleftrightarrow>
     d (join_commit_path paths root) = None \<and> d (transaction_path paths root) = None
     \<and> d (vault_path paths) = Some expected_vault \<and> length expected_vault \<le> MAX_VAULT_BYTES
     \<and> d (ratchet_path paths root) = Some expected_ratchet \<and> length expected_ratchet \<le> MAX_RATCHET_BYTES
     \<and> (\<exists>origin r b. native_canonical env (vault_path paths) = Inr origin
         \<and> validate_transaction env paths (new_transaction (env_crypto env) seed root origin operation
              expected_vault expected_ratchet next_vault next_ratchet) = Inr r
         \<and> encode_transaction env (new_transaction (env_crypto env) seed root origin operation
              expected_vault expected_ratchet next_vault next_ratchet) = Inr b)"

text \<open>What is relied on of the serialiser of journals.\<close>

definition faithful_codec :: "'a CordCodec \<Rightarrow> bool" where
  "faithful_codec codec \<longleftrightarrow> (\<forall>v b. cord_ser codec v = Inr b \<longrightarrow> cord_de codec b = Inr v)"

lemma join_commit_present_iff: "join_commit_present d paths root = Inr False \<longleftrightarrow> d (join_commit_path paths root) = None"
  by (auto simp: join_commit_present_def Let_def read_file_bounded_def split: option.splits)

lemma validate_shape_path: "validate_shape p tx = Inr u \<longleftrightarrow> validate_shape q tx = Inr u"
  by (cases "vault_before tx"; cases "ratchet_before tx") (simp_all add: validate_shape_def)

lemma validate_shape_lengths:
  assumes "validate_shape p tx = Inr u"
  shows "length (next_vault_bytes tx) \<le> MAX_VAULT_BYTES" "length (next_ratchet_bytes tx) \<le> MAX_RATCHET_BYTES"
  using assms by (auto simp: validate_shape_def and_then_Inr_iff split: if_splits)

lemma decode_encode_transaction:
  assumes "faithful_codec (env_transaction env)" and "encode_transaction env tx = Inr b"
  shows "decode_transaction env path b = Inr tx" and "length b \<le> MAX_TRANSACTION_BYTES"
    and "length (next_vault_bytes tx) \<le> MAX_VAULT_BYTES" and "length (next_ratchet_bytes tx) \<le> MAX_RATCHET_BYTES"
proof -
  obtain payload where payload: "validate_shape TRANSACTION_FILE tx = Inr ()"
      "cord_ser (env_transaction env) (TransactionStore.V1 tx) = Inr payload"
      "b = TRANSACTION_MAGIC @ payload" "length b \<le> MAX_TRANSACTION_BYTES"
    using assms(2) by (auto simp: encode_transaction_def and_then_Inr_iff Let_def not_less split: if_splits)
  then have "cord_de (env_transaction env) payload = Inr (TransactionStore.V1 tx)"
    using assms(1) by (simp add: faithful_codec_def)
  then show "decode_transaction env path b = Inr tx"
    using payload validate_shape_path [of TRANSACTION_FILE tx "()" path]
    by (simp add: decode_transaction_def strip_prefix_def)
  show "length b \<le> MAX_TRANSACTION_BYTES" by (rule payload(4))
  show "length (next_vault_bytes tx) \<le> MAX_VAULT_BYTES" "length (next_ratchet_bytes tx) \<le> MAX_RATCHET_BYTES"
    by (rule validate_shape_lengths [OF payload(1)])+
qed

lemma write_transaction_run:
  assumes "faithful_codec (env_transaction env)" and "encode_transaction env tx = Inr b"
  shows "write_transaction_atomic env paths tx d = (Inr (), d(transaction_path paths (tx_trusted_root tx) \<mapsto> b))"
  using decode_encode_transaction [OF assms] assms(2)
  by (simp add: write_transaction_atomic_def Let_def write_atomic_def read_file_bounded_def)

lemma read_written_transaction:
  assumes "faithful_codec (env_transaction env)" and "encode_transaction env tx = Inr b"
    and "d (transaction_path paths (tx_trusted_root tx)) = Some b"
  shows "read_transaction env d paths (tx_trusted_root tx) = Inr (Some tx)"
  using decode_encode_transaction [OF assms(1,2)] assms(3)
  by (simp add: read_transaction_def Let_def read_current_file_def read_file_bounded_def)



lemma read_transaction_None_iff: "read_transaction env d paths root = Inr None \<longleftrightarrow> d (transaction_path paths root) = None"
  by (auto simp: read_transaction_def Let_def and_then_Inr_iff read_current_iff split: option.splits if_splits)

lemma read_vault_bytes_iff: "read_vault_bytes d paths = Inr b \<longleftrightarrow> d (vault_path paths) = Some b \<and> length b \<le> MAX_VAULT_BYTES"
  by (auto simp: read_vault_bytes_def read_file_bounded_def split: option.splits)

text \<open>The disk of a journal in flight: each of the two files is its before- or its after-image.\<close>

definition in_flight :: "StoreEnv \<Rightarrow> WorkspacePaths \<Rightarrow> TransactionV1 \<Rightarrow> Bytes \<Rightarrow> Bytes \<Rightarrow> Disk \<Rightarrow> bool" where
  "in_flight env paths tx ev er d \<longleftrightarrow>
     (\<exists>b. encode_transaction env tx = Inr b \<and> d (transaction_path paths (tx_trusted_root tx)) = Some b)
     \<and> d (join_commit_path paths (tx_trusted_root tx)) = None
     \<and> d (vault_path paths) \<in> {Some ev, Some (next_vault_bytes tx)}
     \<and> d (ratchet_path paths (tx_trusted_root tx)) \<in> {Some er, Some (next_ratchet_bytes tx)}"

definition sound_journal :: "StoreEnv \<Rightarrow> WorkspacePaths \<Rightarrow> TransactionV1 \<Rightarrow> Bytes \<Rightarrow> Bytes \<Rightarrow> bool" where
  "sound_journal env paths tx ev er \<longleftrightarrow>
     separate paths (tx_trusted_root tx) \<and> faithful_codec (env_transaction env)
     \<and> (\<exists>r. validate_transaction env paths tx = Inr r)
     \<and> matches_canonical env (origin_vault_path tx) (vault_path paths) = Inr True
     \<and> length ev \<le> MAX_VAULT_BYTES \<and> length er \<le> MAX_RATCHET_BYTES
     \<and> exactly_classified (env_crypto env) (Some ev) (vault_before tx) (next_vault_bytes tx)
     \<and> exactly_classified (env_crypto env) (Some er) (ratchet_before tx) (next_ratchet_bytes tx)"

lemma in_flight_complete:
  assumes "sound_journal env paths tx ev er" and "in_flight env paths tx ev er d" and "fault \<noteq> Some AfterJournal"
  shows "complete_transaction_locked env fault paths tx d =
    (let root = tx_trusted_root tx; v = next_vault_bytes tx; r = next_ratchet_bytes tx in
     case fault of
       None \<Rightarrow> (Inr (), (after_images paths root v r d)(transaction_path paths root := None))
     | Some point \<Rightarrow> (map_err id (maybe_inject_fault fault paths root point), images_at point paths root v r d))"
proof -
  obtain b where b: "encode_transaction env tx = Inr b"
    using assms(2) by (auto simp: in_flight_def)
  have codec: "faithful_codec (env_transaction env)"
    using assms(1) by (simp add: sound_journal_def)
  obtain r where r: "validate_transaction env paths tx = Inr r"
    using assms(1) by (auto simp: sound_journal_def)
  note len = decode_encode_transaction(3,4) [OF codec b]
  show ?thesis
    by (rule complete_transaction_run [OF _ r len]; use assms len in
        \<open>auto simp: in_flight_def sound_journal_def intro: after_image_classified\<close>)
qed

lemma in_flight_origin:
  assumes "sound_journal env paths tx ev er" and "in_flight env paths tx ev er d"
  shows "read_transaction env d paths (tx_trusted_root tx) = Inr (Some tx)"
    and "recover_transaction_if_origin env fault paths (tx_trusted_root tx) d =
      op_then (complete_transaction_locked env fault paths tx) (\<lambda>_. op_ok Recovered) d"
proof -
  show tx: "read_transaction env d paths (tx_trusted_root tx) = Inr (Some tx)"
    using assms read_written_transaction by (auto simp: in_flight_def sound_journal_def)
  obtain r where "validate_transaction env paths tx = Inr r"
    "matches_canonical env (origin_vault_path tx) (vault_path paths) = Inr True"
    using assms(1) by (auto simp: sound_journal_def)
  then show "recover_transaction_if_origin env fault paths (tx_trusted_root tx) d =
      op_then (complete_transaction_locked env fault paths tx) (\<lambda>_. op_ok Recovered) d"
    using tx by (auto simp: read_pending_def recover_transaction_if_origin_def Let_def op_then_def op_read_def
        split: prod.splits sum.splits)
qed

lemma in_flight_recover:
  assumes "sound_journal (ops_store env) paths tx ev er" and "in_flight (ops_store env) paths tx ev er d"
  shows "recover_for_root env fault paths (tx_trusted_root tx) d =
    op_then (complete_transaction_locked (ops_store env) fault paths tx) (\<lambda>_. op_ok Recovered) d"
proof -
  have "join_commit_present d paths (tx_trusted_root tx) = Inr False"
    using assms by (simp add: in_flight_def join_commit_present_iff)
  then show ?thesis
    using in_flight_origin(1) [OF assms] in_flight_origin(2) [OF assms, of fault]
    by (auto simp: recover_for_root_def read_pending_def op_then_def op_read_def op_ok_def split: prod.splits sum.splits)
qed

lemma in_flight_images:
  assumes "separate paths (tx_trusted_root tx)" and "in_flight env paths tx ev er d"
  shows "in_flight env paths tx ev er (images_at p paths (tx_trusted_root tx) (next_vault_bytes tx) (next_ratchet_bytes tx) d)"
    and "after_images paths (tx_trusted_root tx) (next_vault_bytes tx) (next_ratchet_bytes tx)
       (images_at p paths (tx_trusted_root tx) (next_vault_bytes tx) (next_ratchet_bytes tx) d) =
     after_images paths (tx_trusted_root tx) (next_vault_bytes tx) (next_ratchet_bytes tx) d"
  using assms by (cases p; auto simp: in_flight_def after_images_def separate_def fun_upd_twist)+

text \<open>
  The disks that a commit can leave behind when it stops at a boundary, and when any number of
  recoveries stop there too.
\<close>

inductive interrupted ::
  "OpsEnv \<Rightarrow> WorkspacePaths \<Rightarrow> HashValue \<Rightarrow> (TestFaultPoint option \<Rightarrow> unit Op) \<Rightarrow> Disk \<Rightarrow> Disk \<Rightarrow> bool"
  for env paths root commit d where
  commit_stops: "commit (Some point) d = (Inl e, d1) \<Longrightarrow> interrupted env paths root commit d d1"
| recovery_stops: "interrupted env paths root commit d d1 \<Longrightarrow>
     recover_for_root env (Some point) paths root d1 = (Inl e, d2) \<Longrightarrow> interrupted env paths root commit d d2"

lemma interrupted_in_flight:
  assumes "interrupted env paths (tx_trusted_root tx) commit d d1"
    and sound: "sound_journal (ops_store env) paths tx ev er"
    and start: "in_flight (ops_store env) paths tx ev er d0"
    and stops: "\<And>p. commit (Some p) d = (Inl (Store (Io (transaction_path paths (tx_trusted_root tx))
         (IoError Interrupted (''injected transaction fault at '' @ fault_name p)))),
        images_at p paths (tx_trusted_root tx) (next_vault_bytes tx) (next_ratchet_bytes tx) d0)"
  shows "in_flight (ops_store env) paths tx ev er d1
    \<and> after_images paths (tx_trusted_root tx) (next_vault_bytes tx) (next_ratchet_bytes tx) d1 =
      after_images paths (tx_trusted_root tx) (next_vault_bytes tx) (next_ratchet_bytes tx) d0"
  using assms(1)
proof induction
  case (commit_stops point e d1)
  then show ?case
    using stops [of point] in_flight_images [of paths tx] sound start by (auto simp: sound_journal_def)
next
  case (recovery_stops d1 point e d2)
  have "point \<noteq> AfterJournal"
  proof
    assume "point = AfterJournal"
    moreover have "complete_transaction_locked (ops_store env) (Some AfterJournal) paths tx =
        complete_transaction_locked (ops_store env) None paths tx"
      by (simp add: complete_transaction_locked_def maybe_inject_fault_def cong: if_cong)
    ultimately show False
      using recovery_stops in_flight_recover [OF sound] in_flight_complete [OF sound, of _ None]
      by (auto simp: op_then_def op_ok_def Let_def)
  qed
  then have "d2 = images_at point paths (tx_trusted_root tx) (next_vault_bytes tx) (next_ratchet_bytes tx) d1"
    using recovery_stops in_flight_recover [OF sound] in_flight_complete [OF sound, of _ "Some point"]
    by (auto simp: op_then_def op_ok_def Let_def maybe_inject_fault_def)
  then show ?case
    using recovery_stops in_flight_images [of paths tx] sound by (auto simp: sound_journal_def)
qed

text \<open>An operation that stops with the disk as it is, and how that is established step by step.\<close>

definition harmless :: "('s, 'a) StateOp \<Rightarrow> 's \<Rightarrow> bool" where
  "harmless m d \<longleftrightarrow> (\<exists>e. m d = (Inl e, d))"

named_theorems harmless_intros \<open>introduction rules of operations that stop without a write\<close>

lemma harmless_err [harmless_intros]: "harmless (op_err e) d"
  by (simp add: harmless_def op_err_def)

lemma harmless_read [harmless_intros]:
  "(\<And>x. g d = Inr x \<Longrightarrow> harmless (f x) d) \<Longrightarrow> harmless (op_then (op_read g) f) d"
  by (auto simp: harmless_def split: sum.splits)

lemma harmless_if [harmless_intros]:
  "(b \<Longrightarrow> harmless m d) \<Longrightarrow> (\<not> b \<Longrightarrow> harmless m' d) \<Longrightarrow> harmless (if b then m else m') d"
  by simp

lemma harmless_option [harmless_intros]:
  "(x = None \<Longrightarrow> harmless m d) \<Longrightarrow> (\<And>y. x = Some y \<Longrightarrow> harmless (f y) d) \<Longrightarrow>
     harmless (case x of None \<Rightarrow> m | Some y \<Rightarrow> f y) d"
  by (simp split: option.splits)

lemma harmless_then: "harmless m d \<Longrightarrow> harmless (op_then m f) d"
  by (auto simp: harmless_def op_then_def)

lemma harmless_store: "w d = (Inl e, d) \<Longrightarrow> harmless (op_then (op_store w) f) d"
  by (auto simp: harmless_def op_store_then)

lemma commit_refused:
  assumes "\<not> commit_ready env seed paths root operation ev er nv nr d"
  shows "harmless (commit_after_images_locked env fault seed paths root operation ev er nv nr) d"
  unfolding commit_after_images_locked_def read_pending_def Let_def
proof (intro harmless_intros, goal_cases)
  case (1 legacy pending current_vault current_ratchet origin r)
  let ?tx = "new_transaction (env_crypto env) seed root origin operation ev er nv nr"
  obtain e where "encode_transaction env ?tx = Inl e"
    using 1 assms by (cases "encode_transaction env ?tx")
      (auto simp: commit_ready_def join_commit_present_iff read_transaction_None_iff read_vault_bytes_iff read_current_iff)
  then show ?case
    by (intro harmless_store) (simp add: write_transaction_atomic_def Let_def)
qed

lemma commit_atomic:
  fixes env seed paths root operation ev er nv nr
  defines "commit \<equiv> \<lambda>fault. commit_after_images_locked (ops_store env) fault seed paths root operation ev er nv nr"
  assumes sep: "separate paths root" and codec: "faithful_codec (env_transaction (ops_store env))"
    and hash: "file_hash (ops_crypto env) ev = file_hash (ops_crypto env) nv \<longrightarrow> ev = nv"
      "file_hash (ops_crypto env) er = file_hash (ops_crypto env) nr \<longrightarrow> er = nr"
  shows "if commit_ready (ops_store env) seed paths root operation ev er nv nr d
    then commit None d = (Inr (), after_images paths root nv nr d)
      \<and> (\<forall>point. \<exists>e d1. commit (Some point) d = (Inl e, d1))
      \<and> (\<forall>d1. interrupted env paths root commit d d1 \<longrightarrow>
           recover_for_root env None paths root d1 = (Inr Recovered, after_images paths root nv nr d))
    else (\<forall>fault. \<exists>e. commit fault d = (Inl e, d))"
proof (cases "commit_ready (ops_store env) seed paths root operation ev er nv nr d")
  case True
  then obtain origin r b where origin: "native_canonical (ops_store env) (vault_path paths) = Inr origin"
    and valid: "validate_transaction (ops_store env) paths (new_transaction (ops_crypto env) seed root origin operation ev er nv nr) = Inr r"
    and enc: "encode_transaction (ops_store env) (new_transaction (ops_crypto env) seed root origin operation ev er nv nr) = Inr b"
    by (auto simp: commit_ready_def)
  define tx where "tx = new_transaction (ops_crypto env) seed root origin operation ev er nv nr"
  have tx: "tx_trusted_root tx = root" "next_vault_bytes tx = nv" "next_ratchet_bytes tx = nr"
      "origin_vault_path tx = origin" "vault_before tx = Hash (file_hash (ops_crypto env) ev)"
      "ratchet_before tx = Hash (file_hash (ops_crypto env) er)"
    by (simp_all add: tx_def new_transaction_def)
  let ?d0 = "d(transaction_path paths root \<mapsto> b)"
  have sound: "sound_journal (ops_store env) paths tx ev er"
    using sep codec valid hash origin True before_image_classified
    by (auto simp: sound_journal_def tx commit_ready_def matches_canonical_def tx_def [symmetric])
  have flight: "in_flight (ops_store env) paths tx ev er ?d0"
    using True sep enc by (auto simp: in_flight_def tx commit_ready_def separate_def tx_def [symmetric])
  have run: "commit fault d = (if fault = Some AfterJournal then (maybe_inject_fault fault paths root AfterJournal, ?d0)
      else complete_transaction_locked (ops_store env) fault paths tx ?d0)" for fault
  proof -
    have "join_commit_present d paths root = Inr False" "read_transaction (ops_store env) d paths root = Inr None"
      "read_vault_bytes d paths = Inr ev"
      "read_current_file d (ratchet_path paths root) MAX_RATCHET_BYTES = Inr (Some er)"
      using True by (auto simp: commit_ready_def join_commit_present_iff read_transaction_None_iff read_vault_bytes_iff
          read_current_iff)
    then show ?thesis
      using origin valid write_transaction_run [OF codec enc, of paths d]
      by (simp add: commit_def commit_after_images_locked_def read_pending_def Let_def tx_def [symmetric] tx op_store_then
          maybe_inject_fault_def)
  qed
  have final: "(after_images paths root nv nr ?d0)(transaction_path paths root := None) = after_images paths root nv nr d"
    using True sep by (auto simp: after_images_def commit_ready_def separate_def fun_eq_iff)
  have stops: "commit (Some p) d = (Inl (Store (Io (transaction_path paths (tx_trusted_root tx))
         (IoError Interrupted (''injected transaction fault at '' @ fault_name p)))),
        images_at p paths (tx_trusted_root tx) (next_vault_bytes tx) (next_ratchet_bytes tx) ?d0)" for p
    using in_flight_complete [OF sound flight, of "Some p"]
    by (cases "p = AfterJournal") (simp_all add: run maybe_inject_fault_def tx Let_def)
  have "recover_for_root env None paths root d1 = (Inr Recovered, after_images paths root nv nr d)"
    if "interrupted env paths root commit d d1" for d1
    using interrupted_in_flight [of env paths tx commit d d1, unfolded tx(1), OF that sound flight]
      stops in_flight_recover [OF sound, of d1 None] in_flight_complete [OF sound, of d1 None] final
    by (simp add: tx op_then_def op_ok_def)
  moreover have "commit None d = (Inr (), after_images paths root nv nr d)"
    using in_flight_complete [OF sound flight, of None] final by (simp add: run tx)
  ultimately show ?thesis
    using True stops by auto
next
  case False
  then have "\<exists>e. commit fault d = (Inl e, d)" for fault
    using commit_refused by (auto simp: commit_def harmless_def)
  with False show ?thesis by auto
qed



definition recognised :: "CryptoProvider \<Rightarrow> Bytes option \<Rightarrow> FilePreconditionV1 \<Rightarrow> Bytes \<Rightarrow> bool" where
  "recognised crypto current before after \<longleftrightarrow> (\<exists>b. classify_file crypto current before after = Inr b)"

text \<open>
  What completing a journal does to the disk, whatever is on it: it touches the ratchet, the vault
  and the journal only, puts after-images only, and only over files it recognised; the journal goes
  only when both after-images are in place.
\<close>

definition journal_step :: "StoreEnv \<Rightarrow> WorkspacePaths \<Rightarrow> TransactionV1 \<Rightarrow> Disk \<Rightarrow> bool \<Rightarrow> Disk \<Rightarrow> bool" where
  "journal_step env paths tx d done d' \<longleftrightarrow>
     (let root = tx_trusted_root tx in
      recognised (env_crypto env) (d (vault_path paths)) (vault_before tx) (next_vault_bytes tx)
      \<and> recognised (env_crypto env) (d (ratchet_path paths root)) (ratchet_before tx) (next_ratchet_bytes tx)
      \<and> d' (vault_path paths) \<in> {d (vault_path paths), Some (next_vault_bytes tx)}
      \<and> d' (ratchet_path paths root) \<in> {d (ratchet_path paths root), Some (next_ratchet_bytes tx)}
      \<and> (\<forall>path. path \<notin> {vault_path paths, ratchet_path paths root, transaction_path paths root} \<longrightarrow> d' path = d path)
      \<and> (if done then d' (vault_path paths) = Some (next_vault_bytes tx)
            \<and> d' (ratchet_path paths root) = Some (next_ratchet_bytes tx) \<and> d' (transaction_path paths root) = None
         else d' (transaction_path paths root) = d (transaction_path paths root)))"

lemma write_vault_bytes_effect:
  assumes "write_vault_bytes_atomic env paths bytes d = (res, d1)"
  shows "d1 = d \<or> d1 = d(vault_path paths \<mapsto> bytes)"
  using assms by (auto simp: write_vault_bytes_atomic_def write_atomic_def Let_def split: if_splits)

lemma write_ratchet_bytes_effect:
  assumes "write_ratchet_bytes_atomic env paths root bytes d = (res, d1)"
  shows "d1 = d \<or> d1 = d(ratchet_path paths root \<mapsto> bytes)"
  using assms write_ratchet_bytes_ok [of env paths root bytes d] write_ratchet_bytes_err [of env paths root bytes d]
  by (cases res) auto

lemma maybe_write:
  assumes "(if skip then op_ok () else op_store w) d = (res, d1)"
    and "\<And>res d1. w d = (res, d1) \<Longrightarrow> d1 = d \<or> d1 = d(path \<mapsto> bytes)"
  shows "d1 = d \<or> d1 = d(path \<mapsto> bytes)"
  using assms by (cases "w d") (auto simp: op_ok_def op_store_def split: if_splits)

lemma complete_refused:
  assumes "\<not> (\<exists>vb rb. read_current_file d (vault_path paths) MAX_VAULT_BYTES = Inr (d (vault_path paths))
      \<and> read_current_file d (ratchet_path paths (tx_trusted_root tx)) MAX_RATCHET_BYTES = Inr (d (ratchet_path paths (tx_trusted_root tx)))
      \<and> classify_file (env_crypto env) (d (vault_path paths)) (vault_before tx) (next_vault_bytes tx) = Inr vb
      \<and> classify_file (env_crypto env) (d (ratchet_path paths (tx_trusted_root tx))) (ratchet_before tx) (next_ratchet_bytes tx) = Inr rb)"
  shows "harmless (complete_transaction_locked env fault paths tx) d"
  unfolding complete_transaction_locked_def Let_def
proof (intro harmless_read, goal_cases)
  case (1 v r vb rb)
  with assms show ?case by (auto simp: read_current_iff)
qed

lemma complete_transaction_effect:
  assumes sep: "separate paths (tx_trusted_root tx)"
    and run: "complete_transaction_locked env fault paths tx d = (res, d')"
  shows "d' = d \<and> (\<exists>e. res = Inl e) \<or> journal_step env paths tx d (res = Inr ()) d'"
proof -
  let ?rp = "ratchet_path paths (tx_trusted_root tx)" and ?vp = "vault_path paths"
  have ne: "?vp \<noteq> ?rp" "?vp \<noteq> transaction_path paths (tx_trusted_root tx)"
    using sep by (auto simp: separate_def)
  show ?thesis
  proof (cases "\<exists>vb rb. read_current_file d ?vp MAX_VAULT_BYTES = Inr (d ?vp)
      \<and> read_current_file d ?rp MAX_RATCHET_BYTES = Inr (d ?rp)
      \<and> classify_file (env_crypto env) (d ?vp) (vault_before tx) (next_vault_bytes tx) = Inr vb
      \<and> classify_file (env_crypto env) (d ?rp) (ratchet_before tx) (next_ratchet_bytes tx) = Inr rb")
    case False
    then show ?thesis
      using run complete_refused [of d paths tx env fault] by (auto simp: harmless_def)
  next
    case True
    then obtain vb rb where ok: "read_current_file d ?vp MAX_VAULT_BYTES = Inr (d ?vp)"
      "read_current_file d ?rp MAX_RATCHET_BYTES = Inr (d ?rp)"
      "classify_file (env_crypto env) (d ?vp) (vault_before tx) (next_vault_bytes tx) = Inr vb"
      "classify_file (env_crypto env) (d ?rp) (ratchet_before tx) (next_ratchet_bytes tx) = Inr rb" by blast
    let ?wr = "if rb then op_ok () else op_store (write_ratchet_bytes_atomic env paths (tx_trusted_root tx) (next_ratchet_bytes tx))"
    let ?wv = "if vb then op_ok () else op_store (write_vault_bytes_atomic env paths (next_vault_bytes tx))"
    obtain r1 d1 where d1: "?wr d = (r1, d1)" by (rule prod.exhaust)
    obtain r2 d2 where d2: "?wv d1 = (r2, d2)" by (rule prod.exhaust)
    have e1: "d1 = d \<or> d1 = d(?rp \<mapsto> next_ratchet_bytes tx)"
      by (rule maybe_write [OF d1]) (rule write_ratchet_bytes_effect)
    have e2: "d2 = d1 \<or> d2 = d1(?vp \<mapsto> next_vault_bytes tx)"
      by (rule maybe_write [OF d2]) (rule write_vault_bytes_effect)
    have rec: "recognised (env_crypto env) (d ?vp) (vault_before tx) (next_vault_bytes tx)"
      "recognised (env_crypto env) (d ?rp) (ratchet_before tx) (next_ratchet_bytes tx)"
      using ok by (auto simp: recognised_def)
    define rest where "rest = op_then (op_read (\<lambda>d. map_err Store (read_current_file d ?rp MAX_RATCHET_BYTES))) (\<lambda>reopened_ratchet.
         op_then (op_read (\<lambda>d. map_err Store (read_current_file d ?vp MAX_VAULT_BYTES))) (\<lambda>reopened_vault.
           if reopened_ratchet \<noteq> Some (next_ratchet_bytes tx) \<or> reopened_vault \<noteq> Some (next_vault_bytes tx)
           then op_err TransactionRecoveryConflict
           else op_then (op_read (\<lambda>_. maybe_inject_fault fault paths (tx_trusted_root tx) BeforeJournalRemoval)) (\<lambda>_. \<lambda>d.
             (Inr (), remove_file_durable (transaction_path paths (tx_trusted_root tx)) d))))"
    have chain: "complete_transaction_locked env fault paths tx d =
        op_then ?wr (\<lambda>_. op_then (op_read (\<lambda>_. maybe_inject_fault fault paths (tx_trusted_root tx) AfterRatchet)) (\<lambda>_.
          op_then ?wv (\<lambda>_. op_then (op_read (\<lambda>_. maybe_inject_fault fault paths (tx_trusted_root tx) AfterVault)) (\<lambda>_. rest)))) d"
      using ok by (simp add: complete_transaction_locked_def Let_def rest_def)
    have end_effect: "d' = d2 \<and> res \<noteq> Inr () \<or> d' = d2(transaction_path paths (tx_trusted_root tx) := None) \<and> res = Inr ()
        \<and> d2 ?rp = Some (next_ratchet_bytes tx) \<and> d2 ?vp = Some (next_vault_bytes tx)" if "rest d2 = (res, d')"
      using that by (auto simp: rest_def read_current_iff op_err_def remove_file_durable_def split: sum.splits if_splits)
    have wr: "op_then ?wr f d = (case r1 of Inl e \<Rightarrow> (Inl e, d1) | Inr x \<Rightarrow> f x d1)" for f :: "unit \<Rightarrow> unit Op"
      unfolding op_then_def d1 by (simp split: sum.splits)
    have wv: "op_then ?wv f d1 = (case r2 of Inl e \<Rightarrow> (Inl e, d2) | Inr x \<Rightarrow> f x d2)" for f :: "unit \<Rightarrow> unit Op"
      unfolding op_then_def d2 by (simp split: sum.splits)
    have "(d' = d1 \<or> d' = d2) \<and> res \<noteq> Inr ()
      \<or> d' = d2(transaction_path paths (tx_trusted_root tx) := None) \<and> res = Inr ()
        \<and> d2 ?rp = Some (next_ratchet_bytes tx) \<and> d2 ?vp = Some (next_vault_bytes tx)"
      using run [unfolded chain wr op_read_then wv] end_effect by (auto split: sum.splits)

    then show ?thesis
      using e1 e2 ne rec by (auto simp: journal_step_def)
  qed
qed



lemma recover_cases:
  assumes "recover_transaction_if_origin env fault paths root d = (res, d')"
  shows "d' = d \<and> res \<noteq> Inr Recovered \<or> (\<exists>tx r out. read_transaction env d paths root = Inr (Some tx) \<and> tx_trusted_root tx = root
      \<and> validate_transaction env paths tx = Inr r
      \<and> matches_canonical env (origin_vault_path tx) (vault_path paths) = Inr True
      \<and> complete_transaction_locked env fault paths tx d = (out, d')
      \<and> res = (case out of Inl e \<Rightarrow> Inl e | Inr _ \<Rightarrow> Inr Recovered))"
proof (cases "\<exists>tx. read_transaction env d paths root = Inr (Some tx)")
  case True
  then obtain tx where tx: "read_transaction env d paths root = Inr (Some tx)" by blast
  then have root: "tx_trusted_root tx = root"
    by (auto simp: read_transaction_def Let_def and_then_Inr_iff split: option.splits if_splits)
  obtain out d1 where out: "complete_transaction_locked env fault paths tx d = (out, d1)" by (rule prod.exhaust)
  have run: "op_then (complete_transaction_locked env fault paths tx) f d =
      (case out of Inl e \<Rightarrow> (Inl e, d1) | Inr x \<Rightarrow> f x d1)" for f :: "unit \<Rightarrow> RecoveryDisposition Op"
    unfolding op_then_def out by (simp split: sum.splits)
  show ?thesis
    using assms tx root out
    by (auto simp: recover_transaction_if_origin_def Let_def read_pending_def op_then_def [of "op_then _ _"] run op_ok_def op_read_def
        split: sum.splits if_splits)
next
  case False
  then show ?thesis
    using assms by (auto simp: recover_transaction_if_origin_def read_pending_def Let_def op_ok_def split: sum.splits option.splits)
qed

section \<open>Merging rollback memory\<close>


lemma record_origin_matches:
  assumes "ratchet_record_origin x = Some v" and "ratchet_record_key x = Some k"
  shows "origin_matches k v"
  using assms by (cases x) (auto split: if_splits)

lemma record_key_not_root: "ratchet_record_key x \<noteq> Some RecordKey.VaultRoot"
  by (cases x) auto

lemma ratchet_wf_absorb:
  assumes "ratchet_wf r"
  shows "ratchet_wf (absorb_record x r)"
proof -
  have wf: "bt_wf (watermarks (absorb_record x r))" "bt_wf (origins (absorb_record x r))"
    using assms absorb_wf by (auto simp: ratchet_wf_def)
  have "origin_matches k v \<and> bt_get (watermarks (absorb_record x r)) k \<noteq> None"
    if "(k, v) \<in> set (origins (absorb_record x r))" for k v
  proof -
    have "bt_get (origins (absorb_record x r)) k = Some v"
      using wf(2) that by (simp add: bt_get_def bt_wf_def strict_sorted_iff)
    then have "bt_get (origins r) k = Some v \<or> ratchet_record_key x = Some k \<and> ratchet_record_origin x = Some v"
      by (auto simp: absorb_origins split: option.splits if_splits)
    moreover have "origin_matches k v \<and> bt_get (watermarks r) k \<noteq> None" if "bt_get (origins r) k = Some v"
      using assms that by (auto simp: ratchet_wf_def list_all_iff bt_get_def dest: map_of_SomeD)
    ultimately show ?thesis
      by (auto simp: absorb_watermarks record_origin_matches)
  qed
  then show ?thesis
    using assms wf by (auto simp: ratchet_wf_def list_all_iff absorb_watermarks record_key_not_root)
qed

lemma ratchet_wf_fold: "ratchet_wf r \<Longrightarrow> ratchet_wf (fold absorb_record rs r)"
  by (induction rs arbitrary: r) (auto intro: ratchet_wf_absorb)

lemma ratchet_wf_new [simp]: "ratchet_wf (ratchet_new root)"
  by (simp add: ratchet_wf_def ratchet_new_def bt_wf_def bt_get_def)

lemma ratchet_wf_unknowns [simp]: "ratchet_wf (r\<lparr>unknown_records := us\<rparr>) = ratchet_wf r"
  by (simp add: ratchet_wf_def)

lemma ratchet_level_unknowns [simp]: "ratchet_level (r\<lparr>unknown_records := us\<rparr>) k = ratchet_level r k"
  by (cases k) (simp_all add: ratchet_level_def watermark_level_def)

lemma decoded_ratchet_wf:
  assumes "decode_ratchet env path bytes = Inr r"
  shows "ratchet_wf r"
proof -
  obtain store where "into_ratchet store = Some r"
    using assms by (auto simp: decode_ratchet_def and_then_Inr_iff split: option.splits)
  then show ?thesis
    by (cases store) (auto intro!: ratchet_wf_fold split: prod.splits option.splits)
qed

lemma level_absorb_all:
  assumes "ratchet_wf after"
  shows "ratchet_level (fold absorb_record (to_records after) current) k = max (ratchet_level current k) (ratchet_level after k)"
proof -
  let ?claims = "(\<lambda>x. record_claim x k) ` set (to_records after)"
  have new: "ratchet_level (ratchet_new (trusted_root after)) k = 0"
    by (cases k) (simp_all add: ratchet_level_def watermark_level_def ratchet_new_def bt.get_empty)
  have "ratchet_level after k = Max (insert 0 ?claims)"
    using absorption.level_fold [of "to_records after" "ratchet_new (trusted_root after)" k]
      absorb_restores [OF assms refl] new
    by (simp add: list_all_iff)
  moreover have "?claims \<noteq> {}"
    by (simp add: to_records_def)
  moreover have "(0 :: u64) \<le> Max ?claims" by simp
  ultimately have "ratchet_level after k = Max ?claims"
    by (simp add: max_def)
  then show ?thesis
    using absorption.level_fold [of "to_records after" current k] \<open>?claims \<noteq> {}\<close> by (simp add: list_all_iff)
qed

lemma merge_ratchet_level:
  assumes "merge_ratchet current after = Inr merged" and "ratchet_wf after"
  shows "ratchet_level merged k = max (ratchet_level current k) (ratchet_level after k)"
    and "trusted_root merged = trusted_root current" and "trusted_root after = trusted_root current"
    and "ratchet_wf current \<Longrightarrow> ratchet_wf merged"
    and "set (unknown_records merged) = set (unknown_records current) \<union> set (unknown_records after)"
proof -
  let ?a = "fold absorb_record (to_records after) current"
  have merged: "merged = ?a\<lparr>unknown_records := fold set_insert (unknown_records after) (unknown_records current)\<rparr>"
    and root: "trusted_root after = trusted_root current"
    using assms(1) by (auto simp: merge_ratchet_def Let_def absorb_fold_frames split: if_splits)
  show "ratchet_level merged k = max (ratchet_level current k) (ratchet_level after k)"
    by (simp add: merged level_absorb_all [OF assms(2)])
  show "trusted_root merged = trusted_root current" "trusted_root after = trusted_root current"
    "set (unknown_records merged) = set (unknown_records current) \<union> set (unknown_records after)"
    using root by (simp_all add: merged absorb_fold_frames set_fold_insert)
  show "ratchet_wf current \<Longrightarrow> ratchet_wf merged"
    unfolding merged by (simp add: ratchet_wf_fold)
qed

lemma read_ratchet_Some_iff:
  "read_ratchet_for_root env d paths root = Inr (Some r) \<longleftrightarrow>
     (\<exists>b. d (ratchet_path paths root) = Some b \<and> length b \<le> MAX_RATCHET_BYTES
        \<and> decode_ratchet env (ratchet_path paths root) b = Inr r \<and> trusted_root r = root)"
  by (auto simp: read_ratchet_for_root_def read_ratchet_at_def and_then_Inr_iff read_current_iff split: option.splits if_splits)

lemma same_ratchet_root: "same_ratchet r r' \<Longrightarrow> trusted_root r' = trusted_root r"
  by (cases r; cases r') (simp add: same_ratchet_def)


lemma same_ratchet_level: "same_ratchet r r' \<Longrightarrow> ratchet_level r' k = ratchet_level r k"
  by (metis ratchet_level_unknowns same_ratchet_def)

lemma require_ratchet_Inr: "require_ratchet env paths root d = Inr r \<longleftrightarrow> read_ratchet_for_root env d paths root = Inr (Some r)"
  by (auto simp: require_ratchet_def and_then_Inr_iff split: option.splits)

lemma read_ratchet_wf: "read_ratchet_for_root env d paths root = Inr (Some r) \<Longrightarrow> ratchet_wf r"
  by (auto simp: read_ratchet_Some_iff intro: decoded_ratchet_wf)

lemma write_then_read_ratchet:
  assumes codec: "canonical_ratchet_codec (env_ratchet env)" and "ratchet_wf r"
    and "write_ratchet_atomic env paths r d = (Inr u, d1)"
  shows "\<exists>b r'. d1 = d(ratchet_path paths (trusted_root r) \<mapsto> b) \<and> same_ratchet r r'
    \<and> read_ratchet_for_root env d1 paths (trusted_root r) = Inr (Some r')"
proof -
  obtain b where b: "encode_ratchet env r = Inr b" "length b \<le> MAX_RATCHET_BYTES"
      "d1 = d(ratchet_path paths (trusted_root r) \<mapsto> b)"
    using assms(3) by (auto simp: write_ratchet_atomic_def write_ratchet_bytes_ok split: sum.splits)
  obtain r' where "decode_ratchet env (ratchet_path paths (trusted_root r)) b = Inr r'" "same_ratchet r r'"
    using decode_encode_ratchet [OF codec assms(2) b(1)] by blast
  with b show ?thesis
    by (auto simp: read_ratchet_Some_iff dest: same_ratchet_root)
qed


lemma det_hash_loop_length: "length (det_hash_loop state idx bs) = length state"
  by (induction state idx bs rule: det_hash_loop.induct) (simp_all add: det_hash_step_def Let_def)

lemma det_hash_length: "length (hash_bytes (det_hash domain bytes)) = 32"
  by (simp add: det_hash_def det_hash_loop_length)

text \<open>A workspace whose vault holds one root record, and a commit that replaces both files.\<close>

definition sample_tx :: TransactionV1 where
  "sample_tx = new_transaction sample_crypto (replicate 32 0) (trusted_root sample_anchor)
     (Unix (str_bytes ''/w/.thorax/vault.cord'')) ''test'' (VAULT_MAGIC @ [1]) (RATCHET_MAGIC @ [1])
     (VAULT_MAGIC @ [7]) (RATCHET_MAGIC @ [9])"

definition sample_tx_env :: StoreEnv where
  "sample_tx_env = sample_env\<lparr>env_vault := \<lparr>cord_ser = (\<lambda>_. Inr [7]),
       cord_de = (\<lambda>_. Inr (VaultStore.V1 \<lparr>vs_records = [sample_root_record]\<rparr>))\<rparr>,
     env_ratchet := ratchet_codec_for (ratchet_store_of sample_anchor),
     env_transaction := single_codec (TransactionStore.V1 sample_tx), env_crypto := sample_crypto\<rparr>"

definition sample_ops :: OpsEnv where
  "sample_ops = \<lparr>ops_store = sample_tx_env, ops_join_commit = no_codec\<rparr>"

definition sample_disk :: Disk where
  "sample_disk = [vault_path sample_paths \<mapsto> VAULT_MAGIC @ [1],
     ratchet_path sample_paths (trusted_root sample_anchor) \<mapsto> RATCHET_MAGIC @ [1]]"

abbreviation sample_commit :: "TestFaultPoint option \<Rightarrow> unit Op" where
  "sample_commit \<equiv> \<lambda>fault. commit_after_images_locked sample_tx_env fault (replicate 32 0) sample_paths
     (trusted_root sample_anchor) ''test'' (VAULT_MAGIC @ [1]) (RATCHET_MAGIC @ [1]) (VAULT_MAGIC @ [7]) (RATCHET_MAGIC @ [9])"

abbreviation sample_after :: Disk where
  "sample_after \<equiv> after_images sample_paths (trusted_root sample_anchor) (VAULT_MAGIC @ [7]) (RATCHET_MAGIC @ [9]) sample_disk"

lemma sample_tx_env_simps [simp]:
  "env_crypto sample_tx_env = sample_crypto" "ops_store sample_ops = sample_tx_env"
  "env_transaction sample_tx_env = single_codec (TransactionStore.V1 sample_tx)"
  "cord_de (env_vault sample_tx_env) p = Inr (VaultStore.V1 \<lparr>vs_records = [sample_root_record]\<rparr>)"
  "env_ratchet sample_tx_env = ratchet_codec_for (ratchet_store_of sample_anchor)"
  by (simp_all add: sample_tx_env_def sample_ops_def)

lemma sample_separate: "separate sample_paths root"
  by (simp add: separate_def sample_paths_def ratchet_path_def transaction_path_def join_commit_path_def path_join_def
      hex_hash_def)

lemma single_codec_faithful: "faithful_codec (single_codec x)"
  by (simp add: faithful_codec_def single_codec_def)

lemma sample_images:
  "file_hash sample_crypto (VAULT_MAGIC @ [1]) \<noteq> file_hash sample_crypto (VAULT_MAGIC @ [7])"
  "file_hash sample_crypto (RATCHET_MAGIC @ [1]) \<noteq> file_hash sample_crypto (RATCHET_MAGIC @ [9])"
  unfolding file_hash_def TRANSACTION_HASH_DOMAIN_def sample_crypto_def DeterministicCrypto_def CryptoProvider.simps
  by code_simp+

lemma sample_candidate_root:
  "trusted_root_candidate sample_crypto (VaultStore.V1 \<lparr>vs_records = [sample_root_record]\<rparr>) = Inr (trusted_root sample_anchor)"
proof -
  have "root_candidate sample_crypto sample_root_record = Inr (Some (trusted_root sample_anchor))"
    using sample_envelope [of undefined]
    by (auto simp: sample_evals root_candidate_def check_envelope_def envelope_verifies_def sample_anchor_def ratchet_new_def
        and_then_Inr_iff)
  then show ?thesis by (simp add: map_filter_simps)
qed

lemma sample_decode_ratchet: "decode_ratchet sample_tx_env path (RATCHET_MAGIC @ [b]) = Inr sample_anchor"
proof -
  have "into_ratchet (ratchet_store_of sample_anchor) = Some sample_anchor"
    by (simp add: ratchet_store_of_def sample_anchor_def ratchet_new_def to_records_def collect_set_def set_insert_def map_filter_simps)
  then show ?thesis
    by (simp add: decode_ratchet_def strip_prefix_def ratchet_codec_for_def)
qed

lemma sample_tx_fields [simp]:
  "tx_trusted_root sample_tx = trusted_root sample_anchor" "next_vault_bytes sample_tx = VAULT_MAGIC @ [7]"
  "next_ratchet_bytes sample_tx = RATCHET_MAGIC @ [9]"
  "origin_vault_path sample_tx = Unix (str_bytes ''/w/.thorax/vault.cord'')"
  "vault_before sample_tx = Hash (file_hash sample_crypto (VAULT_MAGIC @ [1]))"
  "ratchet_before sample_tx = Hash (file_hash sample_crypto (RATCHET_MAGIC @ [1]))"
  by (simp_all add: sample_tx_def new_transaction_def)

lemma sample_lengths:
  "length (VAULT_MAGIC @ [b]) \<le> MAX_VAULT_BYTES" "length (RATCHET_MAGIC @ [b]) \<le> MAX_RATCHET_BYTES"
  by (simp_all add: MAX_RATCHET_BYTES_def MAX_VAULT_BYTES_def RATCHET_MAGIC_def VAULT_MAGIC_def str_bytes_def)

lemma sample_valid: "validate_transaction sample_tx_env paths sample_tx = Inr sample_anchor"
proof -
  have "decode_vault (env_vault sample_tx_env) (VAULT_MAGIC @ [7]) = Inr (VaultStore.V1 \<lparr>vs_records = [sample_root_record]\<rparr>)"
    using sample_lengths(1) [of 7]
    by (simp add: decode_vault_def decode_vault_with_limits_def strip_prefix_def MAX_VAULT_RECORDS_def del: append.simps)
  then show ?thesis
    using sample_candidate_root by (simp add: validate_transaction_def sample_decode_ratchet)
qed

lemma sample_encodes: "encode_transaction sample_tx_env sample_tx = Inr (TRANSACTION_MAGIC @ [9])"
proof -
  have "validate_shape TRANSACTION_FILE sample_tx = Inr ()"
    using sample_lengths
    by (simp add: validate_shape_def TRANSACTION_ID_BYTES_def MAX_TRANSACTION_OPERATION_BYTES_def file_hash_def sample_crypto_def
        DeterministicCrypto_def det_hash_length)
       (simp add: sample_tx_def new_transaction_def)
  then show ?thesis
    by (simp add: encode_transaction_def single_codec_def MAX_TRANSACTION_BYTES_def MAX_VAULT_BYTES_def TRANSACTION_MAGIC_def str_bytes_def)
qed

lemma sample_origin: "native_canonical sample_tx_env (vault_path sample_paths) = Inr (Unix (str_bytes ''/w/.thorax/vault.cord''))"
  by (simp add: native_canonical_def sample_tx_env_def sample_env_def sample_paths_def)

lemma sample_ready:
  "commit_ready sample_tx_env (replicate 32 0) sample_paths (trusted_root sample_anchor) ''test''
     (VAULT_MAGIC @ [1]) (RATCHET_MAGIC @ [1]) (VAULT_MAGIC @ [7]) (RATCHET_MAGIC @ [9]) sample_disk"
  using sample_valid [of sample_paths] sample_encodes sample_origin sample_separate [of "trusted_root sample_anchor"] sample_lengths
  by (auto simp: commit_ready_def sample_disk_def separate_def sample_tx_def simp del: sample_tx_fields)

definition sample_journal :: Disk where
  "sample_journal = sample_disk(transaction_path sample_paths (trusted_root sample_anchor) \<mapsto> TRANSACTION_MAGIC @ [9])"

lemma sample_sound: "sound_journal sample_tx_env sample_paths sample_tx (VAULT_MAGIC @ [1]) (RATCHET_MAGIC @ [1])"
  using sample_separate single_codec_faithful [of "TransactionStore.V1 sample_tx"] sample_valid sample_origin sample_lengths
    before_image_classified [of sample_crypto] sample_images
  by (simp add: sound_journal_def matches_canonical_def)

lemma sample_in_flight: "in_flight sample_tx_env sample_paths sample_tx (VAULT_MAGIC @ [1]) (RATCHET_MAGIC @ [1]) sample_journal"
  using sample_encodes sample_separate [of "trusted_root sample_anchor"]
  by (auto simp: in_flight_def sample_journal_def sample_disk_def separate_def)

section \<open>Properties\<close>

text \<open>
  C8. A mutation is atomic: when it may start (no journal is pending, both files are what the caller
  saw, the after-images are a vault of this root and a ratchet of this root, the journal fits) it
  puts both after-images and leaves no journal; when the process stops at any of the four
  persistence boundaries, and when recoveries stop there as well, any number of times, the next
  recovery that runs to its end leaves exactly the same disk. When the mutation may not start it
  fails and writes nothing. The vault file must not be one of the state files, the serialiser must
  read what it wrote, and the hash must tell each before-image from its after-image.
\<close>

theorem commit_is_atomic:
  assumes "separate paths root" and "faithful_codec (env_transaction (ops_store env))"
    and "file_hash (ops_crypto env) ev = file_hash (ops_crypto env) nv \<longrightarrow> ev = nv"
    and "file_hash (ops_crypto env) er = file_hash (ops_crypto env) nr \<longrightarrow> er = nr"
  shows "let commit = (\<lambda>fault. commit_after_images_locked (ops_store env) fault seed paths root operation ev er nv nr) in
    if commit_ready (ops_store env) seed paths root operation ev er nv nr d
    then commit None d = (Inr (), after_images paths root nv nr d)
      \<and> (\<forall>point. \<exists>e d1. commit (Some point) d = (Inl e, d1))
      \<and> (\<forall>d1. interrupted env paths root commit d d1 \<longrightarrow>
           recover_for_root env None paths root d1 = (Inr Recovered, after_images paths root nv nr d))
    else (\<forall>fault. \<exists>e. commit fault d = (Inl e, d))"
  unfolding Let_def by (rule commit_atomic [OF assms])

theorem commit_is_atomic_witness:
  "sample_commit None sample_disk = (Inr (), sample_after)
   \<and> recover_for_root sample_ops None sample_paths (trusted_root sample_anchor) (snd (sample_commit (Some AfterRatchet) sample_disk)) =
       (Inr Recovered, sample_after)"
proof -
  have run: "sample_commit None sample_disk = (Inr (), sample_after)"
    "\<exists>e d1. sample_commit (Some AfterRatchet) sample_disk = (Inl e, d1)"
    "interrupted sample_ops sample_paths (trusted_root sample_anchor) sample_commit sample_disk d1 \<Longrightarrow>
       recover_for_root sample_ops None sample_paths (trusted_root sample_anchor) d1 = (Inr Recovered, sample_after)" for d1
    using commit_is_atomic [of sample_paths "trusted_root sample_anchor" sample_ops "VAULT_MAGIC @ [1]" "VAULT_MAGIC @ [7]"
        "RATCHET_MAGIC @ [1]" "RATCHET_MAGIC @ [9]" "replicate 32 0" "''test''" sample_disk, OF sample_separate]
      sample_ready sample_images single_codec_faithful [of "TransactionStore.V1 sample_tx"]
    by (auto simp: Let_def)
  obtain e d1 where stop: "sample_commit (Some AfterRatchet) sample_disk = (Inl e, d1)" using run(2) by blast
  have "interrupted sample_ops sample_paths (trusted_root sample_anchor) sample_commit sample_disk d1"
    by (rule interrupted.commit_stops) (rule stop)
  then show ?thesis
    using run(1) run(3) stop by simp
qed

text \<open>
  Recovery never destroys what it does not recognise: whatever is on the disk and wherever it
  stops, it changes something only for a journal of this root, when the vault and the ratchet each
  have the hash of their before- or after-image; it then changes only these two files, to the
  after-images, and it removes the journal only when it reports a recovery, with both after-images
  in place.
\<close>

lemma recovery_keeps_unrecognised_files:
  assumes "separate paths root" and "recover_transaction_if_origin env fault paths root d = (res, d')"
  shows "d' = d \<and> res \<noteq> Inr Recovered
    \<or> (\<exists>tx. read_transaction env d paths root = Inr (Some tx) \<and> journal_step env paths tx d (res = Inr Recovered) d')"
  using recover_cases [OF assms(2)] complete_transaction_effect [of paths _ env fault d] assms(1)
  by (fastforce split: sum.splits)

text \<open>
  C34. Abandoning a pending mutation forgets nothing: the vault and every other file stay as they are,
  the journal is gone, and the ratchet on disk remembers at every key, and for the format version,
  the maximum of what was persisted and what the journal would have persisted, which is what
  readers enforced while the journal was pending.
\<close>

theorem abandonment_keeps_rollback_memory:
  assumes codec: "canonical_ratchet_codec (env_ratchet env)" and sep: "separate paths root"
    and run: "abandon_transaction env paths root d = (Inr p, d')"
  shows "\<exists>tx after persisted kept. read_transaction env d paths root = Inr (Some tx)
    \<and> validate_transaction env paths tx = Inr after
    \<and> read_ratchet_for_root env d paths root = Inr (Some persisted)
    \<and> read_ratchet_for_root env d' paths root = Inr (Some kept)
    \<and> (\<forall>k. ratchet_level kept k = max (ratchet_level persisted k) (ratchet_level after k))
    \<and> (\<forall>s q. read_strongest_ratchet_locked env paths root d = Inr (s, q) \<longrightarrow> same_ratchet s kept)
    \<and> d' (vault_path paths) = d (vault_path paths) \<and> d' (transaction_path paths root) = None
    \<and> (\<forall>path. path \<notin> {ratchet_path paths root, transaction_path paths root} \<longrightarrow> d' path = d path)"
proof -
  obtain tx after persisted merged d1 where tx: "read_transaction env d paths root = Inr (Some tx)"
    and after: "validate_transaction env paths tx = Inr after"
    and persisted: "read_ratchet_for_root env d paths root = Inr (Some persisted)"
    and merged: "merge_ratchet persisted after = Inr merged"
    and written: "write_ratchet_atomic env paths merged d = (Inr (), d1)"
    and d': "d' = d1(transaction_path paths root := None)"
    using run by (auto simp: abandon_transaction_def read_pending_def op_store_then op_err_def require_ratchet_Inr
        remove_file_durable_def split: sum.splits option.splits prod.splits)
  have wf: "ratchet_wf after"
    using validate_transaction_Inr(2) [OF after] decoded_ratchet_wf by blast
  note merge = merge_ratchet_level [OF merged wf]
  have root: "trusted_root merged = root"
    using merge(2) persisted by (auto simp: read_ratchet_Some_iff)
  obtain b kept where b: "d1 = d(ratchet_path paths root \<mapsto> b)" "same_ratchet merged kept"
      "read_ratchet_for_root env d1 paths root = Inr (Some kept)"
    using write_then_read_ratchet [OF codec merge(4) [OF read_ratchet_wf [OF persisted]] written] root by auto
  have "read_ratchet_for_root env d' paths root = Inr (Some kept)"
    using b(3) by (simp add: d' read_ratchet_Some_iff)
  moreover have "s = merged" if "read_strongest_ratchet_locked env paths root d = Inr (s, q)" for s q
    using that tx after persisted merged
    by (auto simp: read_strongest_ratchet_locked_def read_strongest_ratchet_optional_with_pending_locked_def and_then_Inr_iff)
  moreover have "vault_path paths \<notin> {ratchet_path paths root, transaction_path paths root}"
    using sep by (simp add: separate_def)
  ultimately show ?thesis
    using tx after persisted b merge(1) same_ratchet_level [OF b(2)]
    by (intro exI [of _ tx] exI [of _ after] exI [of _ persisted] exI [of _ kept]) (auto simp: d')
qed

theorem abandonment_keeps_rollback_memory_witness:
  "\<exists>p d' kept. abandon_transaction sample_tx_env sample_paths (trusted_root sample_anchor) sample_journal = (Inr p, d')
     \<and> read_ratchet_for_root sample_tx_env d' sample_paths (trusted_root sample_anchor) = Inr (Some kept)
     \<and> d' (vault_path sample_paths) = Some (VAULT_MAGIC @ [1])"
proof -
  let ?root = "trusted_root sample_anchor"
  have tx: "read_transaction sample_tx_env sample_journal sample_paths ?root = Inr (Some sample_tx)"
    using in_flight_origin(1) [OF sample_sound sample_in_flight] by simp
  have vault: "sample_journal (vault_path sample_paths) = Some (VAULT_MAGIC @ [1])"
    using sample_separate [of ?root] by (auto simp: sample_journal_def sample_disk_def separate_def)
  have persisted: "require_ratchet sample_tx_env sample_paths ?root sample_journal = Inr sample_anchor"
    using sample_lengths(2) [of 1] sample_separate [of ?root]
    by (auto simp: require_ratchet_Inr read_ratchet_Some_iff sample_journal_def sample_disk_def separate_def sample_decode_ratchet)
  have merged: "merge_ratchet sample_anchor sample_anchor = Inr sample_anchor"
    by (simp add: merge_ratchet_def sample_anchor_def ratchet_new_def to_records_def map_filter_simps)
  have "encode_ratchet sample_tx_env sample_anchor = Inr (RATCHET_MAGIC @ [9])"
    by (simp add: encode_ratchet_def ratchet_codec_for_def ratchet_store_of_def)
  then obtain d1 where "write_ratchet_atomic sample_tx_env sample_paths sample_anchor sample_journal = (Inr (), d1)"
    using sample_lengths(2) [of 9] by (simp add: write_ratchet_atomic_def write_ratchet_bytes_ok sample_decode_ratchet)
  then obtain p d' where run: "abandon_transaction sample_tx_env sample_paths ?root sample_journal = (Inr p, d')"
    using tx persisted merged by (simp add: abandon_transaction_def read_pending_def sample_valid op_store_then)
  have "canonical_ratchet_codec (env_ratchet sample_tx_env)"
    by (simp add: ratchet_codec_for_canonical)
  from abandonment_keeps_rollback_memory [OF this sample_separate run] run vault show ?thesis by auto
qed

end
