(* ===== verification/Thorax_Session.thy ===== *)
theory Thorax_Session
  imports Thorax_Transaction
begin

text \<open>
  File: \<open>crates/thorax-ops/src/session.rs\<close>, with \<open>commit_record\<close> of \<open>lib.rs\<close>. A session is a vault
  that was read, decoded and validated once, with the bytes it was read from, the ratchet it was
  validated against and the report. Loading recovers an interrupted mutation first; a commit
  validates the successor state before anything is written, and writes through the journal.

  A mutation is the pair of closures the source passes to \<open>commit\<close>: \<open>update\<close> edits the vault,
  \<open>check\<close> inspects the report on the result. Which user this machine calls current, and whether
  another process holds the root lock while a load persists its raises, are arguments.

  The theorems show that a commit publishes exactly a validated state, or fails and leaves the disk
  as it was or with a journal for recovery, and that no writer gets past a pending journal.
\<close>

section \<open>Sessions\<close>

datatype PersistenceMode = Live | Prepared

datatype Verifications = Direct | Cached Bytes

record LockedSession =
  ls_paths :: WorkspacePaths
  ls_vault :: VaultStore
  ls_vault_bytes :: Bytes
  ls_ratchet :: Ratchet
  ls_report :: ValidationReport
  ls_verifications :: Verifications
  ls_pending_transaction :: "PendingTransaction option"
  ls_recovered_transaction :: bool
  ls_persistence :: PersistenceMode

type_synonym 'a SessionOp = "(LockedSession \<times> Disk, 'a) StateOp"

text \<open>An operation on the disk, and an assignment to fields of \<open>self\<close>, inside a method.\<close>

definition on_disk :: "'a Op \<Rightarrow> 'a SessionOp" where
  "on_disk m = (\<lambda>(s, d). case m d of (res, d1) \<Rightarrow> (res, (s, d1)))"

definition on_self :: "(LockedSession \<Rightarrow> LockedSession) \<Rightarrow> unit SessionOp" where
  "on_self f = (\<lambda>(s, d). (Inr (), (f s, d)))"

definition self_get :: "LockedSession SessionOp" where
  "self_get = op_read (\<lambda>(s, d). Inr s)"

definition effective :: "LockedSession \<Rightarrow> EffectiveState" where
  "effective s = vrep_effective (ls_report s)"

definition session_root :: "LockedSession \<Rightarrow> HashValue" where
  "session_root s = trusted_root (ls_ratchet s)"

definition ensure_valid :: "LockedSession \<Rightarrow> OpsError + unit" where
  "ensure_valid s = ensure_no_issues (ls_report s)"

definition decode_vault_file :: "StoreEnv \<Rightarrow> WorkspacePaths \<Rightarrow> Bytes \<Rightarrow> OpsError + VaultStore" where
  "decode_vault_file env paths bytes =
     map_err (\<lambda>e. Store (InvalidVault (vault_path paths) e)) (decode_vault (env_vault env) bytes)"

definition validate_with ::
  "StoreEnv \<Rightarrow> VaultStore \<Rightarrow> Ratchet \<Rightarrow> HashValue set \<Rightarrow> OpsError + ValidationReport" where
  "validate_with env vault ratchet verified =
     map_err OpsError.Core (validate_vault_with_verified (env_crypto env) vault ratchet verified)"

definition read_trusted_cache ::
  "StoreEnv \<Rightarrow> Disk \<Rightarrow> WorkspacePaths \<Rightarrow> UserId option \<Rightarrow> VaultStore \<Rightarrow> HashValue \<Rightarrow> VerificationCacheV1 option" where
  "read_trusted_cache env d paths current vault root =
     (case current of
        None \<Rightarrow> None
      | Some user \<Rightarrow>
          (case read_verification_cache env d paths root user of
             None \<Rightarrow> None
           | Some cache \<Rightarrow>
               if cache_trusted_root cache \<noteq> root \<or> cache_format_version cache \<noteq> format_version vault then None
               else case verification_cache_message env (cache_trusted_root cache) (cache_format_version cache)
                           (Thorax_Store.verified_record_hashes cache) of
                      Inl _ \<Rightarrow> None
                    | Inr message \<Rightarrow>
                        if verify_signature (env_crypto env) CACHE_SIGNATURE_DOMAIN (cache_signing_public_key cache)
                             message (cache_signature cache)
                        then Some cache else None))"

section \<open>Loading\<close>

definition absorb_clean_trust_raises :: "StoreEnv \<Rightarrow> bool \<Rightarrow> unit SessionOp" where
  "absorb_clean_trust_raises env contended =
     op_then self_get (\<lambda>s.
       let update = vrep_ratchet_update (ls_report s); root = session_root s in
       if vrep_issues (ls_report s) \<noteq> [] \<or> raised_watermarks update = [] then op_ok ()
       else op_then (on_self (\<lambda>s. s\<lparr>ls_ratchet := apply_update update (ls_ratchet s)\<rparr>)) (\<lambda>_.
         if ls_pending_transaction s \<noteq> None then op_ok ()
         else if contended then op_ok ()
         else op_then (on_disk (op_read (ensure_no_pending_transaction_locked env (ls_paths s) root))) (\<lambda>_.
           op_then (on_disk (op_read (\<lambda>d. map_err Store (read_ratchet_for_root env d (ls_paths s) root)))) (\<lambda>found.
             let current = apply_update update (case found of None \<Rightarrow> ratchet_new root | Some r \<Rightarrow> r) in
             op_then (on_disk (op_store (write_ratchet_atomic env (ls_paths s) current))) (\<lambda>_.
               on_self (\<lambda>s. s\<lparr>ls_ratchet := current\<rparr>))))))"

definition load_snapshot ::
  "StoreEnv \<Rightarrow> WorkspacePaths \<Rightarrow> UserId option \<Rightarrow> HashValue \<Rightarrow> RecoveryDisposition \<Rightarrow> Disk \<Rightarrow> OpsError + LockedSession" where
  "load_snapshot env paths current root recovery d =
     and_then (map_err Store (read_vault_bytes d paths)) (\<lambda>vault_bytes.
     and_then (decode_vault_file env paths vault_bytes) (\<lambda>vault.
     and_then (read_strongest_ratchet_locked env paths root d) (\<lambda>(ratchet, pending).
     let (verified, verifications) =
           (case read_trusted_cache env d paths current vault root of
              Some cache \<Rightarrow> (set (Thorax_Store.verified_record_hashes cache), Cached (cache_signing_public_key cache))
            | None \<Rightarrow> ({}, Direct))
     in and_then (validate_with env vault ratchet verified) (\<lambda>report.
       Inr \<lparr>ls_paths = paths, ls_vault = vault, ls_vault_bytes = vault_bytes, ls_ratchet = ratchet,
            ls_report = report, ls_verifications = verifications, ls_pending_transaction = pending,
            ls_recovered_transaction = (recovery = Recovered), ls_persistence = Live\<rparr>))))"

definition load ::
  "OpsEnv \<Rightarrow> TestFaultPoint option \<Rightarrow> WorkspacePaths \<Rightarrow> UserId option \<Rightarrow> bool \<Rightarrow> LockedSession Op" where
  "load env fault paths current contended =
     op_then (op_read (\<lambda>d. map_err Store (read_vault_bytes d paths))) (\<lambda>initial_bytes.
     op_then (op_read (\<lambda>_. decode_vault_file (ops_store env) paths initial_bytes)) (\<lambda>initial_vault.
     op_then (op_read (\<lambda>_. trusted_root_candidate (ops_crypto env) initial_vault)) (\<lambda>root.
     op_then (recover_for_root env fault paths root) (\<lambda>recovery.
     op_then (op_read (load_snapshot (ops_store env) paths current root recovery)) (\<lambda>session. \<lambda>d.
       case absorb_clean_trust_raises (ops_store env) contended (session, d) of
         (Inl e, (_, d1)) \<Rightarrow> (Inl e, d1)
       | (Inr _, (s1, d1)) \<Rightarrow> (Inr s1, d1))))))"

definition reload_if_stale_locked :: "StoreEnv \<Rightarrow> bool SessionOp" where
  "reload_if_stale_locked env =
     op_then self_get (\<lambda>s. let paths = ls_paths s; root = session_root s in
     op_then (on_disk (op_read (\<lambda>d. map_err Store (read_vault_bytes d paths)))) (\<lambda>vault_bytes.
     op_then (on_disk (op_read (read_strongest_ratchet_locked env paths root))) (\<lambda>(ratchet, pending).
       if vault_bytes = ls_vault_bytes s \<and> ratchet = ls_ratchet s
       then op_then (on_self (\<lambda>s. s\<lparr>ls_pending_transaction := pending\<rparr>)) (\<lambda>_. op_ok False)
       else op_then (op_read (\<lambda>_. decode_vault_file env paths vault_bytes)) (\<lambda>vault.
         op_then (op_read (\<lambda>_. trusted_root_candidate (env_crypto env) vault)) (\<lambda>reread_root.
         if reread_root \<noteq> root then op_err (Store (TrustRootMismatch reread_root root))
         else op_then (op_read (\<lambda>_. validate_with env vault ratchet
                  (Thorax_State.verified_record_hashes (effective s)))) (\<lambda>report.
           op_then (on_self (\<lambda>s. s\<lparr>ls_vault := vault, ls_vault_bytes := vault_bytes, ls_ratchet := ratchet,
                     ls_report := report, ls_pending_transaction := pending\<rparr>)) (\<lambda>_. op_ok True)))))))"

section \<open>Committing\<close>

type_synonym 't Update = "VaultStore \<Rightarrow> ValidationReport \<Rightarrow> OpsError + 't \<times> VaultStore"
type_synonym 't Check = "'t \<Rightarrow> ValidationReport \<Rightarrow> OpsError + unit"

text \<open>The successor of a session: the mutation applied, validated, and checked.\<close>

record 't Successor =
  suc_output :: 't
  suc_vault :: VaultStore
  suc_ratchet :: Ratchet
  suc_report :: ValidationReport

definition successor :: "StoreEnv \<Rightarrow> 't Update \<Rightarrow> 't Check \<Rightarrow> LockedSession \<Rightarrow> OpsError + 't Successor" where
  "successor env update check s =
     (let next_ratchet = apply_update (vrep_ratchet_update (ls_report s)) (ls_ratchet s) in
      and_then (update (ls_vault s) (ls_report s)) (\<lambda>(output, next_vault).
      and_then (validate_with env next_vault next_ratchet (Thorax_State.verified_record_hashes (effective s))) (\<lambda>post_report.
      and_then (ensure_no_issues post_report) (\<lambda>_.
      and_then (check output post_report) (\<lambda>_.
        Inr \<lparr>suc_output = output, suc_vault = next_vault,
             suc_ratchet = apply_update (vrep_ratchet_update post_report) next_ratchet, suc_report = post_report\<rparr>)))))"

definition apply_prepared_mutation :: "StoreEnv \<Rightarrow> 't Update \<Rightarrow> 't Check \<Rightarrow> 't SessionOp" where
  "apply_prepared_mutation env update check =
     op_then self_get (\<lambda>s.
     op_then (op_read (\<lambda>_. ensure_no_issues (ls_report s))) (\<lambda>_.
     op_then (op_read (\<lambda>_. successor env update check s)) (\<lambda>next.
     op_then (op_read (\<lambda>_. map_err OpsError.Core (encode_vault (env_vault env) (suc_vault next)))) (\<lambda>vault_bytes.
     op_then (on_self (\<lambda>s. s\<lparr>ls_vault_bytes := vault_bytes, ls_vault := suc_vault next, ls_ratchet := suc_ratchet next,
               ls_report := suc_report next\<rparr>)) (\<lambda>_. op_ok (suc_output next))))))"

text \<open>The part of \<open>commit\<close> that runs on a session known to be current.\<close>

definition commit_current :: "StoreEnv \<Rightarrow> TestFaultPoint option \<Rightarrow> Bytes \<Rightarrow> 't Update \<Rightarrow> 't Check \<Rightarrow> 't SessionOp" where
  "commit_current env fault seed update check =
     op_then self_get (\<lambda>s.
     op_then (op_read (\<lambda>_. ensure_no_issues (ls_report s))) (\<lambda>_.
     op_then (op_read (\<lambda>_. map_err Store (encode_ratchet env (ls_ratchet s)))) (\<lambda>expected_ratchet_bytes.
     op_then (op_read (\<lambda>_. successor env update check s)) (\<lambda>next.
     op_then (op_read (\<lambda>_. map_err OpsError.Core (encode_vault (env_vault env) (suc_vault next)))) (\<lambda>vault_bytes.
     op_then (op_read (\<lambda>_. map_err Store (encode_ratchet env (suc_ratchet next)))) (\<lambda>next_ratchet_bytes.
     op_then (on_disk (commit_after_images_locked env fault seed (ls_paths s) (session_root s) ''vault mutation''
                (ls_vault_bytes s) expected_ratchet_bytes vault_bytes next_ratchet_bytes)) (\<lambda>_.
     op_then (on_self (\<lambda>s. s\<lparr>ls_vault := suc_vault next, ls_vault_bytes := vault_bytes, ls_ratchet := suc_ratchet next,
               ls_report := suc_report next, ls_pending_transaction := None\<rparr>)) (\<lambda>_. op_ok (suc_output next)))))))))"

definition commit_live :: "StoreEnv \<Rightarrow> TestFaultPoint option \<Rightarrow> Bytes \<Rightarrow> 't Update \<Rightarrow> 't Check \<Rightarrow> 't SessionOp" where
  "commit_live env fault seed update check =
     op_then self_get (\<lambda>s.
     op_then (on_disk (op_read (ensure_no_pending_transaction_locked env (ls_paths s) (session_root s)))) (\<lambda>_.
     op_then (reload_if_stale_locked env) (\<lambda>_. commit_current env fault seed update check)))"

definition commit :: "StoreEnv \<Rightarrow> TestFaultPoint option \<Rightarrow> Bytes \<Rightarrow> 't Update \<Rightarrow> 't Check \<Rightarrow> 't SessionOp" where
  "commit env fault seed update check =
     op_then self_get (\<lambda>s.
       if ls_persistence s = Prepared then apply_prepared_mutation env update check
       else commit_live env fault seed update check)"

definition commit_record ::
  "StoreEnv \<Rightarrow> TestFaultPoint option \<Rightarrow> Bytes \<Rightarrow> (ValidationReport \<Rightarrow> u64 \<Rightarrow> OpsError + VaultRecordV1 \<times> 't)
     \<Rightarrow> ('t \<Rightarrow> HashValue \<Rightarrow> ValidationReport \<Rightarrow> OpsError + unit) \<Rightarrow> 't SessionOp" where
  "commit_record env fault seed build is_effective =
     op_then (commit env fault seed
       (\<lambda>vault pre_report.
          let counter = max (next_counter (vrep_effective pre_report)) (rollback_counter_floor (vrep_effective pre_report)) in
          if counter > MAX_LWW_COUNTER then Inl CounterExhausted
          else and_then (build pre_report counter) (\<lambda>(signed, output).
               and_then (map_err OpsError.Core (record_hash (env_crypto env) signed)) (\<lambda>hash.
                 Inr ((output, hash), append_record vault signed))))
       (\<lambda>(output, hash) post_report. is_effective output hash post_report))
     (\<lambda>(output, hash). op_ok output)"

definition prepared_clone :: "LockedSession \<Rightarrow> LockedSession" where
  "prepared_clone s = s\<lparr>ls_persistence := Prepared\<rparr>"

definition commit_prepared ::
  "StoreEnv \<Rightarrow> TestFaultPoint option \<Rightarrow> Bytes \<Rightarrow> LockedSession \<Rightarrow> string \<Rightarrow> Bytes \<Rightarrow> Bytes \<Rightarrow> unit SessionOp" where
  "commit_prepared env fault seed prepared operation expected_vault_bytes expected_ratchet_bytes =
     op_then self_get (\<lambda>s. let root = session_root s in
     if ls_persistence prepared \<noteq> Prepared \<or> session_root prepared \<noteq> root \<or> ls_vault_bytes s \<noteq> expected_vault_bytes
     then op_err (TransactionPreconditionChanged ''prepared session'')
     else op_then (op_read (\<lambda>_. map_err Store (encode_ratchet env (ls_ratchet s)))) (\<lambda>own_bytes.
     if own_bytes \<noteq> expected_ratchet_bytes then op_err (TransactionPreconditionChanged ''prepared session'')
     else op_then (on_disk (op_read (ensure_no_pending_transaction_locked env (ls_paths s) root))) (\<lambda>_.
     op_then (op_read (\<lambda>_. map_err Store (encode_ratchet env (ls_ratchet prepared)))) (\<lambda>next_ratchet_bytes.
     op_then (on_disk (commit_after_images_locked env fault seed (ls_paths s) root operation expected_vault_bytes
                expected_ratchet_bytes (ls_vault_bytes prepared) next_ratchet_bytes)) (\<lambda>_.
     on_self (\<lambda>_. prepared\<lparr>ls_persistence := Live\<rparr>))))))"

definition rewrite_ratchet :: "StoreEnv \<Rightarrow> (Ratchet \<Rightarrow> Ratchet) \<Rightarrow> unit SessionOp" where
  "rewrite_ratchet env mutate =
     op_then self_get (\<lambda>s.
     op_then (on_disk (op_read (ensure_no_pending_transaction_locked env (ls_paths s) (session_root s)))) (\<lambda>_.
     op_then (reload_if_stale_locked env) (\<lambda>_.
     op_then self_get (\<lambda>s. let root = session_root s in
     op_then (on_disk (op_read (\<lambda>d. map_err Store (read_ratchet_for_root env d (ls_paths s) root)))) (\<lambda>found.
     let trust = mutate (case found of None \<Rightarrow> ratchet_new root | Some r \<Rightarrow> r) in
     op_then (on_disk (op_store (write_ratchet_atomic env (ls_paths s) trust))) (\<lambda>_.
     op_then (op_read (\<lambda>_. validate_with env (ls_vault s) trust (Thorax_State.verified_record_hashes (effective s)))) (\<lambda>report.
       on_self (\<lambda>s. s\<lparr>ls_report := report, ls_ratchet := trust\<rparr>))))))))"

section \<open>Sessions of an identity\<close>

definition write_verification_cache :: "StoreEnv \<Rightarrow> RecordSigner \<Rightarrow> LockedSession \<Rightarrow> unit Op" where
  "write_verification_cache env identity s =
     (let hashes = sorted_list_of_set (Thorax_State.verified_record_hashes (effective s)); root = session_root s;
          version = format_version (ls_vault s)
      in op_then (op_read (\<lambda>_. map_err Store (verification_cache_message env root version hashes))) (\<lambda>message.
         op_store (write_verification_cache_atomic env (ls_paths s) (signer_user_id identity)
           \<lparr>cache_trusted_root = root, cache_format_version = version, verified_record_hashes = hashes,
            cache_signing_public_key = signer_signing_public_key identity,
            cache_signature = signer_sign identity CACHE_SIGNATURE_DOMAIN message\<rparr>)))"

definition attest_verifications :: "StoreEnv \<Rightarrow> RecordSigner \<Rightarrow> unit SessionOp" where
  "attest_verifications env identity =
     op_then self_get (\<lambda>s.
     op_then (case ls_verifications s of
         Cached signer \<Rightarrow>
           if signer \<noteq> signer_signing_public_key identity
           then op_then (op_read (\<lambda>_. validate_with env (ls_vault s) (ls_ratchet s) {})) (\<lambda>report.
                op_then (on_self (\<lambda>s. s\<lparr>ls_report := report, ls_verifications := Direct\<rparr>)) (\<lambda>_.
                op_read (\<lambda>_. ensure_no_issues report)))
           else op_ok ()
       | Direct \<Rightarrow> op_ok ()) (\<lambda>_.
     op_then self_get (\<lambda>s.
     if vrep_issues (ls_report s) = []
     then op_then (on_disk (\<lambda>d. (Inr (), snd (write_verification_cache env identity s d)))) (\<lambda>_.
            on_self (\<lambda>s. s\<lparr>ls_verifications := Direct\<rparr>))
     else op_ok ())))"

definition ensure_member :: "LockedSession \<Rightarrow> UserId \<Rightarrow> OpsError + unit" where
  "ensure_member s user =
     (if vrep_issues (ls_report s) = [] \<and> \<not> bt_contains_key (es_users (effective s)) user
      then Inl (NotAVaultMember user) else Inr ())"

definition with_identity :: "StoreEnv \<Rightarrow> RecordSigner \<Rightarrow> unit SessionOp" where
  "with_identity env identity =
     op_then (op_read (\<lambda>(s, d). ensure_valid s)) (\<lambda>_.
     op_then (attest_verifications env identity) (\<lambda>_.
     op_then (op_read (\<lambda>(s, d). ensure_valid s)) (\<lambda>_.
       op_read (\<lambda>(s, d). ensure_member s (signer_user_id identity)))))"

section \<open>Running a method\<close>

named_theorems session_simps \<open>evaluation of session operations\<close>

lemma self_get_then [session_simps]: "op_then self_get f (s, d) = f s (s, d)"
  by (simp add: self_get_def)

lemma on_self_then [session_simps]: "op_then (on_self g) f (s, d) = f () (g s, d)"
  by (simp add: op_then_def on_self_def)

lemma on_disk_then:
  "op_then (on_disk m) f (s, d) = (case m d of (Inl e, d1) \<Rightarrow> (Inl e, (s, d1)) | (Inr x, d1) \<Rightarrow> f x (s, d1))"
  by (auto simp: op_then_def on_disk_def split: prod.splits sum.splits)

lemma on_disk_read_then [session_simps]:
  "op_then (on_disk (op_read g)) f (s, d) = (case g d of Inl e \<Rightarrow> (Inl e, (s, d)) | Inr x \<Rightarrow> f x (s, d))"
  by (simp add: on_disk_then op_read_def split: sum.splits)

lemma op_then_cases:
  assumes "op_then m f st = (res, st')"
  obtains (stop) e where "m st = (Inl e, st')" "res = Inl e"
    | (go) x st1 where "m st = (Inr x, st1)" "f x st1 = (res, st')"
  using assms by (cases "m st") (auto simp: op_then_def split: sum.splits)

lemma strongest_root:
  assumes "read_strongest_ratchet_locked env paths root d = Inr (r, p)"
  shows "trusted_root r = root"
proof -
  obtain found where found: "read_ratchet_for_root env d paths root = Inr found"
    using assms by (auto simp: read_strongest_ratchet_locked_def read_strongest_ratchet_optional_with_pending_locked_def and_then_Inr_iff)
  have base: "trusted_root (case found of None \<Rightarrow> ratchet_new root | Some r \<Rightarrow> r) = root"
    using found by (auto simp: ratchet_new_def read_ratchet_Some_iff split: option.splits)
  have "found = Some r \<or> (\<exists>after. merge_ratchet (case found of None \<Rightarrow> ratchet_new root | Some r \<Rightarrow> r) after = Inr r)"
    using assms found by (auto simp: read_strongest_ratchet_locked_def read_strongest_ratchet_optional_with_pending_locked_def
        and_then_Inr_iff split: option.splits)
  then show ?thesis
    using base by (auto simp: merge_ratchet_def Let_def absorb_fold_frames split: if_splits)
qed

lemma strongest_without_journal:
  assumes "read_transaction env d paths root = Inr None"
  shows "read_strongest_ratchet_locked env paths root d = Inr (r, p) \<longleftrightarrow>
    read_ratchet_for_root env d paths root = Inr (Some r) \<and> p = None"
  using assms by (auto simp: read_strongest_ratchet_locked_def read_strongest_ratchet_optional_with_pending_locked_def
      and_then_Inr_iff split: option.splits)

lemma no_pending_iff:
  "ensure_no_pending_transaction_locked env paths root d = Inr u \<longleftrightarrow>
     d (join_commit_path paths root) = None \<and> d (transaction_path paths root) = None"
proof (cases "join_commit_present d paths root = Inr False \<and> read_transaction env d paths root = Inr None")
  case True
  then show ?thesis
    by (simp add: ensure_no_pending_transaction_locked_def) (simp add: join_commit_present_iff read_transaction_None_iff)
next
  case False
  then have "ensure_no_pending_transaction_locked env paths root d \<noteq> Inr u"
    by (auto simp: ensure_no_pending_transaction_locked_def and_then_Inr_iff split: option.splits if_splits)
  then show ?thesis
    using False by (simp add: join_commit_present_iff read_transaction_None_iff)
qed

text \<open>The session stands on the bytes it was decoded from.\<close>

definition decoded :: "StoreEnv \<Rightarrow> LockedSession \<Rightarrow> bool" where
  "decoded env s \<longleftrightarrow> decode_vault (env_vault env) (ls_vault_bytes s) = Inr (ls_vault s)"

lemma reload_cases:
  assumes "reload_if_stale_locked env (s, d) = (res, (s1, d1))"
  obtains (failed) e where "d1 = d" "s1 = s" "res = Inl e"
    | (fresh) b where "d1 = d" "res = Inr b" "read_vault_bytes d (ls_paths s) = Inr (ls_vault_bytes s1)"
      "read_strongest_ratchet_locked env (ls_paths s) (session_root s) d = Inr (ls_ratchet s1, ls_pending_transaction s1)"
      "ls_paths s1 = ls_paths s" "ls_persistence s1 = ls_persistence s"
      "decode_vault (env_vault env) (ls_vault_bytes s1) = Inr (ls_vault s1) \<or> ls_vault s1 = ls_vault s \<and> ls_vault_bytes s1 = ls_vault_bytes s"
proof -
  let ?good = "\<exists>b. res = Inr b \<and> read_vault_bytes d (ls_paths s) = Inr (ls_vault_bytes s1)
      \<and> read_strongest_ratchet_locked env (ls_paths s) (session_root s) d = Inr (ls_ratchet s1, ls_pending_transaction s1)
      \<and> ls_paths s1 = ls_paths s \<and> ls_persistence s1 = ls_persistence s
      \<and> (decode_vault (env_vault env) (ls_vault_bytes s1) = Inr (ls_vault s1) \<or> ls_vault s1 = ls_vault s \<and> ls_vault_bytes s1 = ls_vault_bytes s)"
  have *: "d1 = d \<and> (s1 = s \<and> (\<exists>e. res = Inl e) \<or> ?good)"
  proof (cases "\<exists>bytes ratchet pending. read_vault_bytes d (ls_paths s) = Inr bytes
      \<and> read_strongest_ratchet_locked env (ls_paths s) (session_root s) d = Inr (ratchet, pending)")
    case False
    show ?thesis
    proof (cases "read_vault_bytes d (ls_paths s)")
      case (Inl e)
      with assms show ?thesis by (auto simp: reload_if_stale_locked_def session_simps Let_def)
    next
      case (Inr b)
      with False obtain e where "read_strongest_ratchet_locked env (ls_paths s) (session_root s) d = Inl e"
        by (cases "read_strongest_ratchet_locked env (ls_paths s) (session_root s) d") auto
      with Inr assms show ?thesis by (auto simp: reload_if_stale_locked_def session_simps Let_def)
    qed
  next
    case True
    then obtain bytes ratchet pending where r: "read_vault_bytes d (ls_paths s) = Inr bytes"
      "read_strongest_ratchet_locked env (ls_paths s) (session_root s) d = Inr (ratchet, pending)" by blast
    show ?thesis
    proof (cases "bytes = ls_vault_bytes s \<and> ratchet = ls_ratchet s")
      case True
      then have "res = Inr False" "d1 = d" "s1 = s\<lparr>ls_pending_transaction := pending\<rparr>"
        using assms by (simp_all add: reload_if_stale_locked_def session_simps Let_def op_ok_def r)
      then show ?thesis
        using r True by - (rule conjI, assumption, rule disjI2, rule exI [of _ False], simp)
    next
      case False
      then have ne: "(bytes = ls_vault_bytes s \<and> ratchet = ls_ratchet s) = False" by simp
      note eval = reload_if_stale_locked_def session_simps Let_def op_ok_def op_err_def ne r
      show ?thesis
      proof (cases "decode_vault_file env (ls_paths s) bytes")
        case (Inl e)
        with assms show ?thesis by (auto simp: eval)
      next
        case vault: (Inr vault)
        show ?thesis
        proof (cases "trusted_root_candidate (env_crypto env) vault = Inr (session_root s)")
          case False
          with assms vault show ?thesis
            by (cases "trusted_root_candidate (env_crypto env) vault") (auto simp: eval)
        next
          case True
          show ?thesis
          proof (cases "validate_with env vault ratchet (Thorax_State.verified_record_hashes (effective s))")
            case (Inl e)
            with assms vault True show ?thesis by (auto simp: eval)
          next
            case (Inr report)
            then have "res = Inr True" "d1 = d" "s1 = s\<lparr>ls_vault := vault, ls_vault_bytes := bytes, ls_ratchet := ratchet,
                ls_report := report, ls_pending_transaction := pending\<rparr>"
              using assms vault True by (simp_all add: eval)
            then show ?thesis
              using r vault by - (rule conjI, assumption, rule disjI2, rule exI [of _ True], simp add: decode_vault_file_def)
          qed
        qed
      qed
    qed
  qed
  then have d: "d1 = d" and alternatives: "s1 = s \<and> (\<exists>e. res = Inl e) \<or> ?good" by (rule conjunct1, rule conjunct2)
  from alternatives show thesis
  proof (elim disjE conjE exE)
    fix e assume "s1 = s" "res = Inl e"
    with d show thesis by (rule failed)
  next
    fix b
    assume "res = Inr b" "read_vault_bytes d (ls_paths s) = Inr (ls_vault_bytes s1)"
      "read_strongest_ratchet_locked env (ls_paths s) (session_root s) d = Inr (ls_ratchet s1, ls_pending_transaction s1)"
      "ls_paths s1 = ls_paths s" "ls_persistence s1 = ls_persistence s"
      "decode_vault (env_vault env) (ls_vault_bytes s1) = Inr (ls_vault s1)"
    with d show thesis by (intro fresh) simp_all
  next
    fix b
    assume "res = Inr b" "read_vault_bytes d (ls_paths s) = Inr (ls_vault_bytes s1)"
      "read_strongest_ratchet_locked env (ls_paths s) (session_root s) d = Inr (ls_ratchet s1, ls_pending_transaction s1)"
      "ls_paths s1 = ls_paths s" "ls_persistence s1 = ls_persistence s"
      "ls_vault s1 = ls_vault s" "ls_vault_bytes s1 = ls_vault_bytes s"
    with d show thesis by (intro fresh) simp_all
  qed
qed

lemma reload_effect:
  assumes "reload_if_stale_locked env (s, d) = (res, (s1, d1))"
  shows "d1 = d" and "ls_paths s1 = ls_paths s" and "ls_persistence s1 = ls_persistence s"
    and "session_root s1 = session_root s" and "decoded env s \<Longrightarrow> decoded env s1"
  using assms by (cases rule: reload_cases; simp add: session_root_def strongest_root decoded_def; auto)+

lemma commit_after_images_effect:
  assumes sep: "separate paths root"
    and run: "commit_after_images_locked env fault seed paths root operation ev er nv nr d = (res, d')"
  shows "d' = d \<and> (\<exists>e. res = Inl e)
    \<or> d (transaction_path paths root) = None \<and> d (vault_path paths) = Some ev \<and> d (ratchet_path paths root) = Some er
      \<and> (\<exists>e. res = Inl e) \<and> d' (transaction_path paths root) \<noteq> None
      \<and> (\<forall>path. path \<notin> {vault_path paths, ratchet_path paths root, transaction_path paths root} \<longrightarrow> d' path = d path)
    \<or> d (transaction_path paths root) = None \<and> d (vault_path paths) = Some ev \<and> d (ratchet_path paths root) = Some er
      \<and> res = Inr () \<and> d' = after_images paths root nv nr d"
proof (cases "commit_ready env seed paths root operation ev er nv nr d")
  case False
  with commit_refused [of env seed paths root operation ev er nv nr d fault] run show ?thesis
    by (auto simp: harmless_def)
next
  case True
  then obtain origin r b where origin: "native_canonical env (vault_path paths) = Inr origin"
    and valid: "validate_transaction env paths (new_transaction (env_crypto env) seed root origin operation ev er nv nr) = Inr r"
    and enc: "encode_transaction env (new_transaction (env_crypto env) seed root origin operation ev er nv nr) = Inr b"
    by (auto simp: commit_ready_def)
  define tx where "tx = new_transaction (env_crypto env) seed root origin operation ev er nv nr"
  have tx: "tx_trusted_root tx = root" "next_vault_bytes tx = nv" "next_ratchet_bytes tx = nr"
    by (simp_all add: tx_def new_transaction_def)
  let ?d0 = "d(transaction_path paths root \<mapsto> b)"
  have ne: "vault_path paths \<notin> {ratchet_path paths root, transaction_path paths root}"
    using sep by (simp add: separate_def)
  have reads: "join_commit_present d paths root = Inr False" "read_transaction env d paths root = Inr None"
    "read_vault_bytes d paths = Inr ev" "read_current_file d (ratchet_path paths root) MAX_RATCHET_BYTES = Inr (Some er)"
    using True by (auto simp: commit_ready_def join_commit_present_iff read_transaction_None_iff read_vault_bytes_iff read_current_iff)
  obtain w where w: "write_transaction_atomic env paths tx d = (w, ?d0)"
    using enc by (simp add: write_transaction_atomic_def Let_def tx tx_def [symmetric] write_atomic_def)
  obtain stop where stop: "maybe_inject_fault fault paths root AfterJournal = stop" by simp
  have eq: "commit_after_images_locked env fault seed paths root operation ev er nv nr d =
      (case w of Inl e \<Rightarrow> (Inl (Store e), ?d0) | Inr _ \<Rightarrow>
        (case stop of Inl e \<Rightarrow> (Inl e, ?d0)
         | Inr _ \<Rightarrow> complete_transaction_locked env fault paths tx ?d0))"
    using reads origin valid w stop
    by (cases w) (simp_all add: commit_after_images_locked_def read_pending_def Let_def tx_def [symmetric] op_store_then)
  have "(d' = ?d0 \<and> (\<exists>e. res = Inl e)) \<or> complete_transaction_locked env fault paths tx ?d0 = (res, d')"
    using run unfolding eq by (cases w; cases stop) auto
  then have outcome: "(d' = ?d0 \<and> (\<exists>e. res = Inl e)) \<or> journal_step env paths tx ?d0 (res = Inr ()) d'"
    using complete_transaction_effect [of paths tx env fault ?d0 res d'] sep tx(1) by blast
  have base: "d (transaction_path paths root) = None" "d (vault_path paths) = Some ev" "d (ratchet_path paths root) = Some er"
    using True by (simp_all add: commit_ready_def)
  have full: "d' = after_images paths root nv nr d" if "journal_step env paths tx ?d0 True d'"
  proof
    fix path
    have other: "d' path = ?d0 path" if "path \<notin> {vault_path paths, ratchet_path paths root, transaction_path paths root}"
      using \<open>journal_step env paths tx ?d0 True d'\<close> that unfolding journal_step_def Let_def tx by (elim conjE allE impE)
    have "d' (vault_path paths) = Some nv" "d' (ratchet_path paths root) = Some nr" "d' (transaction_path paths root) = None"
      using that unfolding journal_step_def Let_def tx if_True by simp_all
    then show "d' path = after_images paths root nv nr d path"
      using other base(1) ne by (cases "path \<in> {vault_path paths, ratchet_path paths root, transaction_path paths root}")
        (auto simp: after_images_def)
  qed
  have partial: "d' (transaction_path paths root) \<noteq> None
      \<and> (\<forall>path. path \<notin> {vault_path paths, ratchet_path paths root, transaction_path paths root} \<longrightarrow> d' path = d path)"
    if "journal_step env paths tx ?d0 False d'"
    using that unfolding journal_step_def Let_def tx by auto
  show ?thesis
  proof (cases res)
    case (Inl e)
    then have "d' = ?d0 \<or> journal_step env paths tx ?d0 False d'"
      using outcome by simp
    then show ?thesis
      using partial base Inl by auto
  next
    case (Inr u)
    then have "journal_step env paths tx ?d0 True d'"
      using outcome by simp
    then show ?thesis
      using full base Inr by simp
  qed
qed

lemma successor_Inr:
  assumes "successor env update check s = Inr next"
  shows "vrep_issues (suc_report next) = []" and "check (suc_output next) (suc_report next) = Inr ()"
    and "update (ls_vault s) (ls_report s) = Inr (suc_output next, suc_vault next)"
    and "\<exists>r. r = apply_update (vrep_ratchet_update (ls_report s)) (ls_ratchet s)
      \<and> validate_with env (suc_vault next) r (Thorax_State.verified_record_hashes (effective s)) = Inr (suc_report next)
      \<and> suc_ratchet next = apply_update (vrep_ratchet_update (suc_report next)) r"
  using assms by (auto simp: successor_def Let_def and_then_Inr_iff ensure_no_issues_def split: if_splits)

text \<open>What a successful commit has done, in terms of the state \<open>base\<close> it found on the disk.\<close>

definition published ::
  "StoreEnv \<Rightarrow> 't Update \<Rightarrow> 't Check \<Rightarrow> LockedSession \<Rightarrow> Disk \<Rightarrow> 't \<Rightarrow> LockedSession \<Rightarrow> Disk \<Rightarrow> bool" where
  "published env update check base d output s' d' \<longleftrightarrow>
     (let paths = ls_paths base; root = session_root base in
      d (transaction_path paths root) = None \<and> d (join_commit_path paths root) = None
      \<and> d (vault_path paths) = Some (ls_vault_bytes base)
      \<and> read_ratchet_for_root env d paths root = Inr (Some (ls_ratchet base))
      \<and> vrep_issues (ls_report base) = []
      \<and> (\<exists>next vb rb. successor env update check base = Inr next \<and> output = suc_output next
           \<and> encode_vault (env_vault env) (suc_vault next) = Inr vb \<and> encode_ratchet env (suc_ratchet next) = Inr rb
           \<and> d' = after_images paths root vb rb d
           \<and> s' = base\<lparr>ls_vault := suc_vault next, ls_vault_bytes := vb, ls_ratchet := suc_ratchet next,
                  ls_report := suc_report next, ls_pending_transaction := None\<rparr>))"

lemma commit_current_cases:
  assumes run: "commit_current env fault seed update check (s, d) = (res, (s', d'))"
  obtains (failed) e where "res = Inl e" "d' = d"
    | (tried) rb nx vb nrb out where "vrep_issues (ls_report s) = []" "encode_ratchet env (ls_ratchet s) = Inr rb"
      "successor env update check s = Inr nx" "encode_vault (env_vault env) (suc_vault nx) = Inr vb"
      "encode_ratchet env (suc_ratchet nx) = Inr nrb"
      "commit_after_images_locked env fault seed (ls_paths s) (session_root s) ''vault mutation'' (ls_vault_bytes s) rb vb nrb d = (out, d')"
      "case out of Inl e \<Rightarrow> res = Inl e
       | Inr _ \<Rightarrow> res = Inr (suc_output nx) \<and> s' = s\<lparr>ls_vault := suc_vault nx, ls_vault_bytes := vb, ls_ratchet := suc_ratchet nx,
            ls_report := suc_report nx, ls_pending_transaction := None\<rparr>"
proof (cases "\<exists>rb nx vb nrb. ensure_no_issues (ls_report s) = Inr () \<and> encode_ratchet env (ls_ratchet s) = Inr rb
    \<and> successor env update check s = Inr nx \<and> encode_vault (env_vault env) (suc_vault nx) = Inr vb
    \<and> encode_ratchet env (suc_ratchet nx) = Inr nrb")
  case False
  have "harmless (commit_current env fault seed update check) (s, d)"
    unfolding commit_current_def self_get_def
  proof (intro harmless_read, goal_cases)
    case (1 s1 u rb nx vb nrb)
    with False show ?case by auto
  qed
  then show thesis
    using run failed by (auto simp: harmless_def)
next
  case True
  then obtain rb nx vb nrb where ok: "ensure_no_issues (ls_report s) = Inr ()" "encode_ratchet env (ls_ratchet s) = Inr rb"
    "successor env update check s = Inr nx" "encode_vault (env_vault env) (suc_vault nx) = Inr vb"
    "encode_ratchet env (suc_ratchet nx) = Inr nrb" by blast
  obtain out d1 where out: "commit_after_images_locked env fault seed (ls_paths s) (session_root s) ''vault mutation''
      (ls_vault_bytes s) rb vb nrb d = (out, d1)" by (rule prod.exhaust)
  have "(case out of Inl e \<Rightarrow> (Inl e, (s, d1)) | Inr _ \<Rightarrow> (Inr (suc_output nx), (s\<lparr>ls_vault := suc_vault nx, ls_vault_bytes := vb,
      ls_ratchet := suc_ratchet nx, ls_report := suc_report nx, ls_pending_transaction := None\<rparr>, d1))) = (res, (s', d'))"
    using run unfolding commit_current_def by (simp add: session_simps ok on_disk_then out op_ok_def split: sum.splits)
  moreover have "vrep_issues (ls_report s) = []"
    using ok(1) by (auto simp: ensure_no_issues_def split: if_splits)
  ultimately show thesis
    using tried [OF _ ok(2-5)] out by (cases out) auto
qed

lemma commit_live_cases:
  assumes sep: "separate (ls_paths s) (session_root s)"
    and run: "commit_live env fault seed update check (s, d) = (res, (s', d'))"
  obtains (failed) e where "res = Inl e" "d' = d"
    | (stopped) e where "res = Inl e" "d (transaction_path (ls_paths s) (session_root s)) = None"
      "d' (transaction_path (ls_paths s) (session_root s)) \<noteq> None"
      "\<forall>path. path \<notin> {vault_path (ls_paths s), ratchet_path (ls_paths s) (session_root s),
         transaction_path (ls_paths s) (session_root s)} \<longrightarrow> d' path = d path"
    | (committed) x base where "res = Inr x" "published env update check base d x s' d'"
      "ls_paths base = ls_paths s" "session_root base = session_root s" "ls_persistence base = ls_persistence s"
      "decoded env s \<Longrightarrow> decoded env base"
proof (cases "ensure_no_pending_transaction_locked env (ls_paths s) (session_root s) d")
  case (Inl e)
  then show thesis
    using run failed by (auto simp: commit_live_def session_simps)
next
  case pend: (Inr u)
  obtain r s1 d1 where reload: "reload_if_stale_locked env (s, d) = (r, (s1, d1))" by (metis prod_cases3)
  note effect = reload_effect [OF reload]
  have rest: "(case r of Inl e \<Rightarrow> (Inl e, (s1, d1)) | Inr _ \<Rightarrow> commit_current env fault seed update check (s1, d1)) = (res, (s', d'))"
    using run unfolding commit_live_def session_simps pend sum.case op_then_def [of "reload_if_stale_locked env"] reload prod.case .
  show thesis
  proof (cases r)
    case (Inl e)
    then show thesis
      using rest effect(1) failed by auto
  next
    case reloaded: (Inr b)
    have fresh: "read_vault_bytes d (ls_paths s) = Inr (ls_vault_bytes s1)"
      "read_strongest_ratchet_locked env (ls_paths s) (session_root s) d = Inr (ls_ratchet s1, ls_pending_transaction s1)"
      using reload by (cases rule: reload_cases; simp add: reloaded)+
    from rest have "commit_current env fault seed update check (s1, d) = (res, (s', d'))"
      by (simp add: reloaded effect(1))
    then show thesis
    proof (cases rule: commit_current_cases)
      case (failed e)
      then show thesis by (rule that(1))
    next
      case (tried rb nx vb nrb out)
      have none: "d (join_commit_path (ls_paths s) (session_root s)) = None" "d (transaction_path (ls_paths s) (session_root s)) = None"
        using pend by (auto simp: no_pending_iff)
      then have ratchet: "read_ratchet_for_root env d (ls_paths s) (session_root s) = Inr (Some (ls_ratchet s1))"
        using fresh(2) strongest_without_journal read_transaction_None_iff by metis
      note eff = commit_after_images_effect [OF sep, of env fault seed "''vault mutation''" "ls_vault_bytes s1" rb vb nrb d out d']
      show thesis
      proof (cases out)
        case (Inl e)
        then show thesis
          using eff tried(6,7) effect(2,4) that(1,2) by auto
      next
        case (Inr u)
        have "d' = after_images (ls_paths s) (session_root s) vb nrb d"
          using eff tried(6) effect(2,4) Inr by simp
        then have "published env update check s1 d (suc_output nx) s' d'"
          using tried Inr none ratchet fresh(1) effect(2,4) by (auto simp: published_def Let_def read_vault_bytes_iff)
        then show thesis
          using that(3) [of "suc_output nx" s1] tried(7) Inr effect by simp
      qed
    qed
  qed
qed

section \<open>The barrier of a pending journal\<close>

text \<open>
  The contract of a barrier: in a blocked state every writer stops without a change. Its clients
  may then run writers in any number and order.
\<close>

locale write_barrier =
  fixes blocked :: "'s \<Rightarrow> bool" and writer :: "'w \<Rightarrow> ('s, 'a) StateOp"
  assumes refuses: "blocked st \<Longrightarrow> harmless (writer w) st"
begin

lemma state_kept: "blocked st \<Longrightarrow> fold (\<lambda>w st. snd (writer w st)) ws st = st"
proof (induction ws)
  case (Cons w ws)
  then obtain e where "writer w st = (Inl e, st)"
    using refuses [of st w] by (auto simp: harmless_def)
  with Cons show ?case by simp
qed simp

lemma all_fail: "blocked st \<Longrightarrow> \<exists>e. fst (writer w (fold (\<lambda>w st. snd (writer w st)) ws st)) = Inl e"
  using state_kept [of st ws] refuses [of st w] by (auto simp: harmless_def)

end

text \<open>The writers of a session whose results are of no interest here.\<close>

datatype 't Writer =
    Commit "TestFaultPoint option" Bytes "'t Update" "'t Check"
  | CommitPrepared "TestFaultPoint option" Bytes LockedSession string Bytes Bytes
  | RewriteRatchet "Ratchet \<Rightarrow> Ratchet"

definition run_writer :: "StoreEnv \<Rightarrow> 't Writer \<Rightarrow> unit SessionOp" where
  "run_writer env w =
     (case w of
        Commit fault seed update check \<Rightarrow> op_then (commit env fault seed update check) (\<lambda>_. op_ok ())
      | CommitPrepared fault seed prepared operation ev er \<Rightarrow> commit_prepared env fault seed prepared operation ev er
      | RewriteRatchet mutate \<Rightarrow> rewrite_ratchet env mutate)"

definition journal_pending :: "LockedSession \<times> Disk \<Rightarrow> bool" where
  "journal_pending st \<longleftrightarrow> ls_persistence (fst st) = Live
     \<and> (snd st (transaction_path (ls_paths (fst st)) (session_root (fst st))) \<noteq> None
        \<or> snd st (join_commit_path (ls_paths (fst st)) (session_root (fst st))) \<noteq> None)"

lemma pending_stops: "journal_pending (s, d) \<Longrightarrow> \<exists>e. ensure_no_pending_transaction_locked env (ls_paths s) (session_root s) d = Inl e"
  using no_pending_iff [of env "ls_paths s" "session_root s" d]
  by (cases "ensure_no_pending_transaction_locked env (ls_paths s) (session_root s) d") (auto simp: journal_pending_def)

lemma commit_blocked:
  assumes "journal_pending (s, d)"
  shows "harmless (commit env fault seed update check) (s, d)"
  using pending_stops [OF assms, of env] assms
  by (auto simp: harmless_def commit_def commit_live_def session_simps journal_pending_def)

lemma rewrite_blocked:
  assumes "journal_pending (s, d)"
  shows "harmless (rewrite_ratchet env mutate) (s, d)"
  using pending_stops [OF assms, of env] by (auto simp: harmless_def rewrite_ratchet_def session_simps)

lemma commit_prepared_blocked:
  assumes "journal_pending (s, d)"
  shows "harmless (commit_prepared env fault seed prepared operation ev er) (s, d)"
proof -
  obtain e where "ensure_no_pending_transaction_locked env (ls_paths s) (session_root s) d = Inl e"
    using pending_stops [OF assms] by blast
  then show ?thesis
    by (auto simp: harmless_def commit_prepared_def session_simps Let_def op_err_def split: sum.splits)
qed

interpretation barrier: write_barrier journal_pending "run_writer env" for env
proof
  fix st :: "LockedSession \<times> Disk" and w :: "'t Writer"
  assume "journal_pending st"
  then show "harmless (run_writer env w) st"
    using commit_blocked commit_prepared_blocked rewrite_blocked
    by (cases st; cases w) (auto simp: run_writer_def intro!: harmless_then)
qed

lemma compare_and_swap_blocked:
  assumes "d (transaction_path paths root) \<noteq> None"
  shows "\<exists>e. compare_and_swap env paths root expected r d = (Inl e, d)"
  using assms read_transaction_None_iff [of env d paths root]
  by (cases "read_transaction env d paths root") (auto simp: compare_and_swap_def split: option.splits)

section \<open>A session to run\<close>

definition sample_base :: Ratchet where
  "sample_base = sample_anchor\<lparr>ratchet_format_version := 1\<rparr>"

abbreviation sample_vault_store :: VaultStore where
  "sample_vault_store \<equiv> VaultStore.V1 \<lparr>vs_records = [sample_root_record]\<rparr>"

definition sample_session_tx :: TransactionV1 where
  "sample_session_tx = new_transaction sample_crypto (replicate 32 0) (trusted_root sample_anchor)
     (Unix (str_bytes ''/w/.thorax/vault.cord'')) ''vault mutation'' (VAULT_MAGIC @ [1]) (RATCHET_MAGIC @ [9])
     (VAULT_MAGIC @ [7]) (RATCHET_MAGIC @ [9])"

definition sample_session_env :: StoreEnv where
  "sample_session_env = sample_tx_env\<lparr>env_ratchet := ratchet_codec_for (ratchet_store_of sample_base),
     env_transaction := single_codec (TransactionStore.V1 sample_session_tx)\<rparr>"

definition sample_session_disk :: Disk where
  "sample_session_disk = [vault_path sample_paths \<mapsto> VAULT_MAGIC @ [1],
     ratchet_path sample_paths (trusted_root sample_anchor) \<mapsto> RATCHET_MAGIC @ [9]]"

definition sample_session :: "ValidationReport \<Rightarrow> LockedSession" where
  "sample_session report =
     \<lparr>ls_paths = sample_paths, ls_vault = sample_vault_store, ls_vault_bytes = VAULT_MAGIC @ [1], ls_ratchet = sample_base,
      ls_report = report, ls_verifications = Direct, ls_pending_transaction = None, ls_recovered_transaction = False,
      ls_persistence = Live\<rparr>"

lemma sample_session_env_simps [simp]:
  "env_crypto sample_session_env = sample_crypto"
  "env_transaction sample_session_env = single_codec (TransactionStore.V1 sample_session_tx)"
  "env_ratchet sample_session_env = ratchet_codec_for (ratchet_store_of sample_base)"
  "env_vault sample_session_env = env_vault sample_tx_env"
  "trusted_root sample_base = trusted_root sample_anchor"
  by (simp_all add: sample_session_env_def sample_base_def)

lemma sample_session_tx_fields [simp]:
  "tx_trusted_root sample_session_tx = trusted_root sample_anchor" "next_vault_bytes sample_session_tx = VAULT_MAGIC @ [7]"
  "next_ratchet_bytes sample_session_tx = RATCHET_MAGIC @ [9]"
  "vault_before sample_session_tx = Hash (file_hash sample_crypto (VAULT_MAGIC @ [1]))"
  "ratchet_before sample_session_tx = Hash (file_hash sample_crypto (RATCHET_MAGIC @ [9]))"
  "origin_vault_path sample_session_tx = Unix (str_bytes ''/w/.thorax/vault.cord'')"
  by (simp_all add: sample_session_tx_def new_transaction_def)

lemma sample_base_decodes: "decode_ratchet sample_session_env path (RATCHET_MAGIC @ [b]) = Inr sample_base"
proof -
  have "into_ratchet (ratchet_store_of sample_base) = Some sample_base"
    by (simp add: ratchet_store_of_def sample_base_def sample_anchor_def ratchet_new_def to_records_def collect_set_def set_insert_def
        map_filter_simps)
  then show ?thesis
    by (simp add: decode_ratchet_def strip_prefix_def ratchet_codec_for_def)
qed

lemma sample_base_encodes: "encode_ratchet sample_session_env sample_base = Inr (RATCHET_MAGIC @ [9])"
  by (simp add: encode_ratchet_def ratchet_codec_for_def ratchet_store_of_def)

lemma sample_vault_decodes: "decode_vault (env_vault sample_tx_env) (VAULT_MAGIC @ [b]) = Inr sample_vault_store"
  using sample_lengths(1) [of b]
  by (simp add: decode_vault_def decode_vault_with_limits_def strip_prefix_def MAX_VAULT_RECORDS_def del: append.simps)

lemma sample_vault_encodes: "encode_vault (env_vault sample_tx_env) sample_vault_store = Inr (VAULT_MAGIC @ [7])"
  using sample_lengths(1) [of 7]
  by (simp add: encode_vault_accepts MAX_VAULT_RECORDS_def sample_tx_env_def del: append.simps)

lemma sample_session_valid: "validate_transaction sample_session_env paths sample_session_tx = Inr sample_base"
  using sample_candidate_root
  by (simp add: validate_transaction_def sample_vault_decodes sample_base_decodes del: trusted_root_candidate.simps)

lemma sample_session_encodes: "encode_transaction sample_session_env sample_session_tx = Inr (TRANSACTION_MAGIC @ [9])"
proof -
  have "validate_shape TRANSACTION_FILE sample_session_tx = Inr ()"
    using sample_lengths
    by (simp add: validate_shape_def TRANSACTION_ID_BYTES_def MAX_TRANSACTION_OPERATION_BYTES_def file_hash_def sample_crypto_def
        DeterministicCrypto_def det_hash_length)
       (simp add: sample_session_tx_def new_transaction_def)
  then show ?thesis
    by (simp add: encode_transaction_def single_codec_def MAX_TRANSACTION_BYTES_def MAX_VAULT_BYTES_def TRANSACTION_MAGIC_def str_bytes_def)
qed

lemma sample_session_commits:
  "commit_after_images_locked sample_session_env None (replicate 32 0) sample_paths (trusted_root sample_anchor) ''vault mutation''
     (VAULT_MAGIC @ [1]) (RATCHET_MAGIC @ [9]) (VAULT_MAGIC @ [7]) (RATCHET_MAGIC @ [9]) sample_session_disk =
   (Inr (), after_images sample_paths (trusted_root sample_anchor) (VAULT_MAGIC @ [7]) (RATCHET_MAGIC @ [9]) sample_session_disk)"
proof -
  have "native_canonical sample_session_env (vault_path sample_paths) = Inr (Unix (str_bytes ''/w/.thorax/vault.cord''))"
    using sample_origin by (simp add: native_canonical_def sample_session_env_def)
  then have ready: "commit_ready sample_session_env (replicate 32 0) sample_paths (trusted_root sample_anchor) ''vault mutation''
     (VAULT_MAGIC @ [1]) (RATCHET_MAGIC @ [9]) (VAULT_MAGIC @ [7]) (RATCHET_MAGIC @ [9]) sample_session_disk"
    using sample_session_valid [of sample_paths] sample_session_encodes sample_separate [of "trusted_root sample_anchor"] sample_lengths
    by (auto simp: commit_ready_def sample_session_disk_def separate_def sample_session_tx_def simp del: sample_session_tx_fields)
  show ?thesis
    using commit_atomic [of sample_paths "trusted_root sample_anchor" "\<lparr>ops_store = sample_session_env, ops_join_commit = no_codec\<rparr>"
        "VAULT_MAGIC @ [1]" "VAULT_MAGIC @ [7]" "RATCHET_MAGIC @ [9]" "RATCHET_MAGIC @ [9]" "replicate 32 0" "''vault mutation''"
        sample_session_disk, OF sample_separate]
      ready sample_images(1) single_codec_faithful [of "TransactionStore.V1 sample_session_tx"] by simp
qed

lemma sample_validation:
  "case validate_vault_with_verified sample_crypto sample_vault_store sample_base {} of
     Inl _ \<Rightarrow> False
   | Inr r \<Rightarrow> vrep_issues r = [] \<and> vrep_ratchet_update r = default_ratchet_update
       \<and> (case validate_vault_with_verified sample_crypto sample_vault_store sample_base
              (Thorax_State.verified_record_hashes (vrep_effective r)) of
            Inl _ \<Rightarrow> False | Inr r' \<Rightarrow> vrep_issues r' = [] \<and> vrep_ratchet_update r' = default_ratchet_update)"
  by code_simp

definition sample_report :: ValidationReport where
  "sample_report = \<lparr>vrep_effective = default_effective_state, vrep_ratchet_update = default_ratchet_update, vrep_issues = [],
     vrep_warnings = []\<rparr>"

section \<open>Properties\<close>

text \<open>
  C7. A commit of a live session publishes exactly a validated state: when it returns a value, the
  disk held no journal and the bytes and ratchet of some decoded session \<^term>\<open>base\<close> with a clean
  report, the update closure turned the vault of \<^term>\<open>base\<close> into the vault of the session, that
  vault validates without issues against the ratchet advanced by the pending trust raises, the
  check closure accepted the report, and vault file and ratchet file hold the encodings of the
  session's vault and ratchet. When it returns an error, the disk is unchanged, or a journal is
  there now and only the vault, the ratchet and the journal may differ.
\<close>

theorem commit_publishes_validated_state:
  assumes live: "ls_persistence s = Live" and sep: "separate (ls_paths s) (session_root s)" and dec: "decoded env s"
    and run: "commit env fault seed update check (s, d) = (res, (s', d'))"
  shows "case res of
      Inr x \<Rightarrow> (\<exists>base. ls_paths base = ls_paths s \<and> session_root base = session_root s \<and> decoded env base
        \<and> published env update check base d x s' d'
        \<and> update (ls_vault base) (ls_report base) = Inr (x, ls_vault s')
        \<and> vrep_issues (ls_report s') = [] \<and> check x (ls_report s') = Inr ())
    | Inl e \<Rightarrow> d' = d
        \<or> d (transaction_path (ls_paths s) (session_root s)) = None
          \<and> d' (transaction_path (ls_paths s) (session_root s)) \<noteq> None
          \<and> (\<forall>path. path \<notin> {vault_path (ls_paths s), ratchet_path (ls_paths s) (session_root s),
                transaction_path (ls_paths s) (session_root s)} \<longrightarrow> d' path = d path)"
proof -
  have "commit_live env fault seed update check (s, d) = (res, (s', d'))"
    using run live by (simp add: commit_def session_simps)
  with sep show ?thesis
  proof (cases rule: commit_live_cases)
    case (committed x base)
    then show ?thesis
      using dec successor_Inr [of env update check base] by (fastforce simp: published_def Let_def)
  qed auto
qed

theorem commit_publishes_validated_state_witness:
  "\<exists>report s' d'. commit sample_session_env None (replicate 32 0) (\<lambda>vault _. Inr ((), vault)) (\<lambda>_ _. Inr ())
       (sample_session report, sample_session_disk) = (Inr (), (s', d'))
     \<and> vrep_issues (ls_report s') = [] \<and> ls_vault s' = sample_vault_store \<and> d' (vault_path sample_paths) = Some (VAULT_MAGIC @ [7])"
proof -
  obtain report where first: "validate_vault_with_verified sample_crypto sample_vault_store sample_base {} = Inr report"
    using sample_validation by (cases "validate_vault_with_verified sample_crypto sample_vault_store sample_base {}") auto
  note ok = sample_validation [unfolded first sum.case]
  have report: "vrep_issues report = []" "vrep_ratchet_update report = default_ratchet_update"
    using ok by blast+
  obtain report' where again: "validate_vault_with_verified sample_crypto sample_vault_store sample_base
      (Thorax_State.verified_record_hashes (vrep_effective report)) = Inr report'"
    using ok by (cases "validate_vault_with_verified sample_crypto sample_vault_store sample_base
      (Thorax_State.verified_record_hashes (vrep_effective report))") auto
  have clean: "vrep_issues report' = []" "vrep_ratchet_update report' = default_ratchet_update"
    using ok [unfolded again sum.case] by blast+
  let ?s = "sample_session report" and ?update = "\<lambda>vault _. Inr ((), vault)" and ?check = "\<lambda>_ _. Inr ()"
  have s [simp]: "ls_paths ?s = sample_paths" "ls_vault ?s = sample_vault_store" "ls_vault_bytes ?s = VAULT_MAGIC @ [1]"
    "ls_ratchet ?s = sample_base" "ls_report ?s = report" "ls_persistence ?s = Live" "session_root ?s = trusted_root sample_anchor"
    "effective ?s = vrep_effective report"
    by (simp_all add: sample_session_def session_root_def effective_def)
  have same: "apply_update default_ratchet_update sample_base = sample_base"
    by (simp add: apply_update_def default_ratchet_update_def)
  have succ: "successor sample_session_env ?update ?check ?s =
      Inr \<lparr>suc_output = (), suc_vault = sample_vault_store, suc_ratchet = sample_base, suc_report = report'\<rparr>"
    using again clean by (simp add: successor_def report same validate_with_def ensure_no_issues_def)
  have disk: "sample_session_disk (vault_path sample_paths) = Some (VAULT_MAGIC @ [1])"
    "sample_session_disk (ratchet_path sample_paths (trusted_root sample_anchor)) = Some (RATCHET_MAGIC @ [9])"
    "sample_session_disk (transaction_path sample_paths (trusted_root sample_anchor)) = None"
    "sample_session_disk (join_commit_path sample_paths (trusted_root sample_anchor)) = None"
    using sample_separate [of "trusted_root sample_anchor"] by (auto simp: sample_session_disk_def separate_def)
  have reads: "ensure_no_pending_transaction_locked sample_session_env sample_paths (trusted_root sample_anchor) sample_session_disk = Inr ()"
    "read_vault_bytes sample_session_disk sample_paths = Inr (VAULT_MAGIC @ [1])"
    "read_strongest_ratchet_locked sample_session_env sample_paths (trusted_root sample_anchor) sample_session_disk = Inr (sample_base, None)"
    using disk sample_lengths
    by (simp_all add: no_pending_iff read_vault_bytes_iff strongest_without_journal read_transaction_None_iff read_ratchet_Some_iff
        sample_base_decodes)
  have pending: "?s\<lparr>ls_pending_transaction := None\<rparr> = ?s"
    by (simp add: sample_session_def)
  have reload: "reload_if_stale_locked sample_session_env (?s, sample_session_disk) = (Inr False, (?s, sample_session_disk))"
    by (simp add: reload_if_stale_locked_def session_simps Let_def op_ok_def reads pending)
  have "\<exists>s' d'. commit_current sample_session_env None (replicate 32 0) ?update ?check (?s, sample_session_disk) = (Inr (), (s', d'))"
    using report
    by (simp add: commit_current_def session_simps succ sample_base_encodes sample_vault_encodes ensure_no_issues_def
        on_disk_then sample_session_commits op_ok_def)
  then obtain s' d' where run: "commit sample_session_env None (replicate 32 0) ?update ?check (?s, sample_session_disk) = (Inr (), (s', d'))"
    by (auto simp: commit_def commit_live_def session_simps reads op_then_def [of "reload_if_stale_locked _"] reload)
  have "decoded sample_session_env ?s"
    by (simp add: decoded_def sample_vault_decodes)
  from commit_publishes_validated_state [OF _ _ this run] sample_separate
  obtain base where base: "decoded sample_session_env base" "published sample_session_env ?update ?check base sample_session_disk () s' d'"
    "?update (ls_vault base) (ls_report base) = Inr ((), ls_vault s')" "vrep_issues (ls_report s') = []" "ls_paths base = sample_paths"
    by auto
  have "ls_vault_bytes base = VAULT_MAGIC @ [1]"
    using base(2,5) disk(1) by (auto simp: published_def Let_def)
  then have vault: "ls_vault s' = sample_vault_store"
    using base(1,3) by (simp add: decoded_def sample_vault_decodes)
  obtain vb rb where "encode_vault (env_vault sample_tx_env) (ls_vault s') = Inr vb"
    "d' = after_images sample_paths (session_root base) vb rb sample_session_disk"
    using base(2,5) by (auto simp: published_def Let_def)
  with vault have "d' (vault_path sample_paths) = Some (VAULT_MAGIC @ [7])"
    by (simp add: sample_vault_encodes after_images_def)
  with run base(4) vault show ?thesis by blast
qed

text \<open>
  C35. While a transaction journal or a join journal is on the disk, no writer of a live session
  (commit, commit of a prepared session, rewrite of the ratchet), in any number and order,
  changes session or disk, and each returns an error; with a transaction journal, neither does
  the store's compare-and-swap of a ratchet nor another commit of after-images.
\<close>

theorem pending_journal_blocks_writers:
  fixes ws :: "'t Writer list" and w :: "'t Writer"
  assumes pending: "journal_pending (s, d)"
  shows "fold (\<lambda>w st. snd (run_writer env w st)) ws (s, d) = (s, d)
    \<and> (\<exists>e. fst (run_writer env w (fold (\<lambda>w st. snd (run_writer env w st)) ws (s, d))) = Inl e)
    \<and> (d (transaction_path paths root) \<noteq> None \<longrightarrow>
        (\<exists>e. compare_and_swap env paths root expected r d = (Inl e, d))
        \<and> (\<exists>e. commit_after_images_locked env fault seed paths root operation ev er nv nr d = (Inl e, d)))"
proof -
  have "harmless (commit_after_images_locked env fault seed paths root operation ev er nv nr) d"
    if "d (transaction_path paths root) \<noteq> None"
    using that by (intro commit_refused) (simp add: commit_ready_def)
  then show ?thesis
    using barrier.state_kept [OF pending, of env ws] barrier.all_fail [OF pending, of env w ws] compare_and_swap_blocked
    by (auto simp: harmless_def)
qed

theorem pending_journal_blocks_writers_witness:
  "\<exists>e. fst (run_writer sample_session_env (RewriteRatchet id :: unit Writer)
     (fold (\<lambda>w st. snd (run_writer sample_session_env w st)) [Commit None [] (\<lambda>vault _. Inr ((), vault)) (\<lambda>_ _. Inr ())]
        (sample_session sample_report, sample_session_disk(transaction_path sample_paths (trusted_root sample_anchor) \<mapsto> [])))) = Inl e"
proof -
  have "journal_pending (sample_session sample_report,
      sample_session_disk(transaction_path sample_paths (trusted_root sample_anchor) \<mapsto> []))"
    by (simp add: journal_pending_def sample_session_def session_root_def)
  from pending_journal_blocks_writers [OF this, of sample_session_env
      "[Commit None [] (\<lambda>vault _. Inr ((), vault)) (\<lambda>_ _. Inr ())]" "RewriteRatchet id"]
  show ?thesis by blast
qed

end
