(* ===== verification/Thorax_Commit.thy ===== *)
theory Thorax_Commit
  imports Thorax_Session
begin

text \<open>
  What the operations built on sessions rely on: the facts that a validated report guarantees about
  its records, its root and its winners, and what a commit that returned has done, whether the
  session writes through to the disk or is a prepared copy.
\<close>

section \<open>What a report says\<close>

lemma validate_with_cases:
  assumes "validate_with env (VaultStore.V1 vault) ratchet verified = Inr report"
  obtains (unresolved) "vrep_effective report = unresolved_state" "vrep_issues report \<noteq> []"
  | (settled) hrs root kr v eff upd iss where "dedup_loop (env_crypto env) {} (vs_records vault) = Inr hrs"
      "root_matches (env_crypto env) (trusted_root ratchet) verified hrs = Inr [root]"
      "verify_records (env_crypto env) verified (selected_root root) kr hrs
         \<lparr>verified_list = [], verification_issues = [], unknown_count = 0\<rparr> = Inr v"
      "settle_v1 (env_crypto env) ratchet root (verified_list v) = (eff, upd, iss)"
      "vrep_effective report = eff" "vrep_issues report = verification_issues v @ iss"
proof -
  consider "vrep_effective report = unresolved_state" "vrep_issues report \<noteq> []"
    | rep where "validate_v1 (env_crypto env) ratchet verified vault = Inr rep" "vrep_effective report = vrep_effective rep"
      "vrep_issues report = vrep_issues rep"
    using assms by (auto simp: validate_with_def validate_vault_with_verified_def Let_def and_then_Inr_iff unresolved_state_def
        split: if_splits)
  then show thesis
  proof cases
    case 1
    then show thesis by (rule unresolved)
  next
    case (2 rep)
    from 2(1) show thesis
    proof (cases rule: validate_v1_cases)
      case no_root
      with 2 unresolved show thesis by auto
    next
      case (root hrs root kr v eff upd iss)
      with 2(2,3) settled show thesis by simp
    qed
  qed
qed

lemma report_records:
  assumes "validate_with env (VaultStore.V1 vault) ratchet verified = Inr report"
    and "w \<in> set (es_verified_records (vrep_effective report))"
  shows "vr_signed w \<in> set (vs_records vault)" and "known (rec_body (vr_signed w)) = Some (vr_body w)"
    and "record_hash (env_crypto env) (vr_signed w) = Inr (vr_record_hash w)"
    and "\<exists>root. structurally_validate_record (env_crypto env) (vr_signed w) (vr_body w) root = Inr ()"
proof -
  have "vr_signed w \<in> set (vs_records vault) \<and> known (rec_body (vr_signed w)) = Some (vr_body w)
    \<and> record_hash (env_crypto env) (vr_signed w) = Inr (vr_record_hash w)
    \<and> (\<exists>root. structurally_validate_record (env_crypto env) (vr_signed w) (vr_body w) root = Inr ())"
    using assms(1)
  proof (cases rule: validate_with_cases)
    case unresolved
    with assms(2) show ?thesis by (simp add: unresolved_state_def default_effective_state_def)
  next
    case (settled hrs root kr v eff upd iss)
    have "w \<in> set (verified_list v)"
      using assms(2) settled(5) settle_v1_fields [OF settled(4)] by simp
    then have ok: "verified_ok (env_crypto env) verified (selected_root root) kr (set hrs) w"
      using verified_list_ok(1) [OF settled(1,3)] by (simp add: list_all_iff)
    then show ?thesis
      using dedup_loop_Inr [OF settled(1)] by (auto simp: verified_ok_def)
  qed
  then show "vr_signed w \<in> set (vs_records vault)" "known (rec_body (vr_signed w)) = Some (vr_body w)"
    "record_hash (env_crypto env) (vr_signed w) = Inr (vr_record_hash w)"
    "\<exists>root. structurally_validate_record (env_crypto env) (vr_signed w) (vr_body w) root = Inr ()" by blast+
qed

lemma report_winner:
  assumes "validate_with env (VaultStore.V1 vault) ratchet verified = Inr report"
    and "latest_authorized_secret_record (vrep_effective report) i = Some w"
  shows "w \<in> set (es_verified_records (vrep_effective report))"
  using assms(1)
proof (cases rule: validate_with_cases)
  case unresolved
  with assms(2) show ?thesis
    by (simp add: unresolved_state_def default_effective_state_def latest_authorized_secret_record_def bt_get_def)
next
  case (settled hrs root kr v eff upd iss)
  obtain wm rb eff0 where parts: "settled_rollbacks (env_crypto env) ratchet root (verified_list v) = (wm, rb, eff0)"
    by (metis prod_cases3)
  let ?st = "eff0\<lparr>es_conflicted := bt_extend (bt_extend (es_conflicted eff0)
            (materialize_conflicts (env_crypto env) (verified_list v) (lww_conflicted
               (lww_resolution (verified_list v) rb (classify_secret_write eff0)))))
            (map (\<lambda>(k, c). (k, rollback_report (env_crypto env) ratchet (verified_list v) wm k c)) rb)\<rparr>"
  have eff: "eff = attach_verified_records ?st (verified_list v) (max_value (fst wm))"
    by (rule settle_v1_parts(1) [OF settled(4) parts])
  have "w \<in> set (verified_list v)"
    using latest_some [of ?st "verified_list v" "max_value (fst wm)" i w] assms(2) unfolding settled(5) eff by blast
  then show ?thesis
    unfolding settled(5) settle_v1_fields [OF settled(4)] .
qed

lemma root_matches_hash:
  "root_matches crypto trusted verified hrs = Inr ms \<Longrightarrow> m \<in> set ms \<Longrightarrow> selected_root_hash m = trusted"
proof (induction hrs arbitrary: ms)
  case (Cons hr hrs)
  then show ?case
    by (auto simp: Let_def and_then_Inr_iff split: option.splits RecordBodyV1.splits if_splits)
qed simp

lemma settled_root_hash:
  assumes settle: "settle_v1 crypto ratchet root records = (eff, upd, iss)"
  shows "es_root_signing_public_key_hash eff = Some (selected_root_hash root)"
proof -
  obtain wm rb eff0 where parts: "settled_rollbacks crypto ratchet root records = (wm, rb, eff0)"
    by (metis prod_cases3)
  have "es_root_signing_public_key_hash eff = es_root_signing_public_key_hash eff0"
    unfolding settle_v1_parts(1) [OF settle parts] by (simp add: attach_verified_records_def Let_def)
  also have "\<dots> = Some (selected_root_hash root)"
    unfolding settle_v1_parts(5) [OF settle parts]
    using resolved_state [of crypto root records rb] by (auto simp: compute_effective_state_def Let_def case_prod_beta)
  finally show ?thesis .
qed

lemma report_root:
  assumes "validate_with env (VaultStore.V1 vault) ratchet verified = Inr report"
    and "es_root_signing_public_key_hash (vrep_effective report) = Some h"
  shows "h = trusted_root ratchet"
  using assms(1)
proof (cases rule: validate_with_cases)
  case unresolved
  with assms(2) show ?thesis by (simp add: unresolved_state_def default_effective_state_def)
next
  case (settled hrs root kr v eff upd iss)
  then show ?thesis
    using assms(2) settled_root_hash [OF settled(4)] root_matches_hash [OF settled(2)] by simp
qed

lemma report_resolved:
  assumes "validate_with env (VaultStore.V1 vault) ratchet verified = Inr report" and "vrep_issues report = []"
  shows "\<not> es_authority_unresolved (vrep_effective report)"
    and "es_root_signing_public_key_hash (vrep_effective report) = Some (trusted_root ratchet)"
proof -
  have "\<not> es_authority_unresolved (vrep_effective report)
    \<and> es_root_signing_public_key_hash (vrep_effective report) = Some (trusted_root ratchet)"
    using assms(1)
  proof (cases rule: validate_with_cases)
    case (settled hrs root kr v eff upd iss)
    obtain wm rb eff0 where parts: "settled_rollbacks (env_crypto env) ratchet root (verified_list v) = (wm, rb, eff0)"
      by (metis prod_cases3)
    show ?thesis
      using assms(2) settled(5,6) settle_v1_parts(3) [OF settled(4) parts] settled_frames(9) [OF settled(4) parts]
        settled_root_hash [OF settled(4)] root_matches_hash [OF settled(2)]
      by (auto split: if_splits)
  qed (use assms(2) in simp)
  then show "\<not> es_authority_unresolved (vrep_effective report)"
    "es_root_signing_public_key_hash (vrep_effective report) = Some (trusted_root ratchet)" by blast+
qed

section \<open>Committing on a current session\<close>

definition up_to_date :: "StoreEnv \<Rightarrow> LockedSession \<Rightarrow> Disk \<Rightarrow> bool" where
  "up_to_date env s d \<longleftrightarrow> ls_persistence s = Prepared \<or> (\<exists>st. reload_if_stale_locked env (s, d) = (Inr False, st))"

lemma reload_False:
  assumes "reload_if_stale_locked env (s, d) = (Inr False, st)"
  shows "\<exists>p. st = (s\<lparr>ls_pending_transaction := p\<rparr>, d)"
proof -
  obtain bytes where bytes: "read_vault_bytes d (ls_paths s) = Inr bytes"
    using assms by (cases "read_vault_bytes d (ls_paths s)") (auto simp: reload_if_stale_locked_def session_simps Let_def)
  obtain ratchet pending where r: "read_strongest_ratchet_locked env (ls_paths s) (session_root s) d = Inr (ratchet, pending)"
    using assms bytes by (cases "read_strongest_ratchet_locked env (ls_paths s) (session_root s) d")
      (auto simp: reload_if_stale_locked_def session_simps Let_def)
  show ?thesis
  proof (cases "bytes = ls_vault_bytes s \<and> ratchet = ls_ratchet s")
    case True
    then show ?thesis
      using assms bytes r by (auto simp: reload_if_stale_locked_def session_simps Let_def op_ok_def)
  next
    case False
    have "fst (reload_if_stale_locked env (s, d)) \<noteq> Inr False"
      using bytes r False
      by (auto simp: reload_if_stale_locked_def session_simps Let_def op_ok_def op_err_def split: sum.splits)
    with assms show ?thesis by simp
  qed
qed

lemma successor_pending [simp]:
  "successor env update check (s\<lparr>ls_pending_transaction := p\<rparr>) = successor env update check s"
  by (simp add: successor_def effective_def)

lemma commit_current_Inr:
  assumes "commit_current env fault seed update check (s, d) = (Inr x, (s', d'))"
  obtains nx where "successor env update check s = Inr nx" "x = suc_output nx" "ls_vault s' = suc_vault nx"
    "ls_report s' = suc_report nx" "ls_ratchet s' = suc_ratchet nx"
  using assms
proof (cases rule: commit_current_cases)
  case (tried rb nx vb nrb out)
  then show thesis
    using that [of nx] by (cases out) simp_all
qed simp

lemma prepared_Inr:
  assumes "apply_prepared_mutation env update check (s, d) = (Inr x, (s', d'))"
  obtains nx where "successor env update check s = Inr nx" "x = suc_output nx" "ls_vault s' = suc_vault nx"
    "ls_report s' = suc_report nx" "ls_ratchet s' = suc_ratchet nx"
  using assms that
  by (auto simp: apply_prepared_mutation_def session_simps op_ok_def split: sum.splits)

text \<open>A commit that returns has taken the successor of the session it found.\<close>

lemma commit_Inr:
  assumes run: "commit env fault seed update check (s, d) = (Inr x, (s', d'))"
  obtains base nx where "successor env update check base = Inr nx" "x = suc_output nx" "ls_vault s' = suc_vault nx"
    "ls_report s' = suc_report nx" "ls_ratchet s' = suc_ratchet nx" "up_to_date env s d \<Longrightarrow> \<exists>p. base = s\<lparr>ls_pending_transaction := p\<rparr>"
proof (cases "ls_persistence s = Prepared")
  case True
  then have "apply_prepared_mutation env update check (s, d) = (Inr x, (s', d'))"
    using run by (simp add: commit_def session_simps)
  then obtain nx where nx: "successor env update check s = Inr nx" "x = suc_output nx" "ls_vault s' = suc_vault nx"
    "ls_report s' = suc_report nx" "ls_ratchet s' = suc_ratchet nx" by (rule prepared_Inr)
  have "\<exists>p. s = s\<lparr>ls_pending_transaction := p\<rparr>" by (rule exI [of _ "ls_pending_transaction s"]) simp
  with nx show thesis by (rule that)
next
  case False
  then have "commit_live env fault seed update check (s, d) = (Inr x, (s', d'))"
    using run by (cases "ls_persistence s") (simp_all add: commit_def session_simps)
  then obtain b s1 where reload: "reload_if_stale_locked env (s, d) = (Inr b, (s1, d))"
    and current: "commit_current env fault seed update check (s1, d) = (Inr x, (s', d'))"
    by (cases "ensure_no_pending_transaction_locked env (ls_paths s) (session_root s) d")
      (auto simp: commit_live_def session_simps op_then_Inr_iff dest: reload_effect(1))
  from current obtain nx where nx: "successor env update check s1 = Inr nx" "x = suc_output nx" "ls_vault s' = suc_vault nx"
    "ls_report s' = suc_report nx" "ls_ratchet s' = suc_ratchet nx"
    by (rule commit_current_Inr)
  have "\<exists>p. s1 = s\<lparr>ls_pending_transaction := p\<rparr>" if "up_to_date env s d"
    using that False reload reload_False [of env s d "(s1, d)"] by (auto simp: up_to_date_def)
  with nx show thesis by (rule that)
qed

lemma commit_checked:
  assumes "commit env fault seed update check (s, d) = (Inr x, (s', d'))"
  shows "vrep_issues (ls_report s') = []" and "check x (ls_report s') = Inr ()"
    and "\<exists>r verified. validate_with env (ls_vault s') r verified = Inr (ls_report s') \<and> trusted_root r = session_root s'"
proof -
  from assms obtain base nx where nx: "successor env update check base = Inr nx" "x = suc_output nx" "ls_vault s' = suc_vault nx"
    "ls_report s' = suc_report nx" "ls_ratchet s' = suc_ratchet nx" by (rule commit_Inr)
  note suc = successor_Inr [OF nx(1)]
  show "vrep_issues (ls_report s') = []" "check x (ls_report s') = Inr ()"
    using suc(1,2) nx by simp_all
  show "\<exists>r verified. validate_with env (ls_vault s') r verified = Inr (ls_report s') \<and> trusted_root r = session_root s'"
    using suc(4) nx by (auto simp: session_root_def apply_update_fields(4))
qed

lemma commit_record_Inr:
  assumes run: "commit_record env fault seed build is_effective (s, d) = (Inr out, (s', d'))"
  obtains base counter sr h r verified where "build (ls_report base) counter = Inr (sr, out)"
    "counter = max (next_counter (effective base)) (rollback_counter_floor (effective base))" "counter \<le> MAX_LWW_COUNTER"
    "record_hash (env_crypto env) sr = Inr h" "ls_vault s' = append_record (ls_vault base) sr"
    "is_effective out h (ls_report s') = Inr ()" "vrep_issues (ls_report s') = []"
    "validate_with env (ls_vault s') r verified = Inr (ls_report s')" "trusted_root r = session_root base"
    "up_to_date env s d \<Longrightarrow> \<exists>p. base = s\<lparr>ls_pending_transaction := p\<rparr>"
proof -
  obtain h where commit: "commit env fault seed
       (\<lambda>vault pre_report.
          let counter = max (next_counter (vrep_effective pre_report)) (rollback_counter_floor (vrep_effective pre_report)) in
          if counter > MAX_LWW_COUNTER then Inl CounterExhausted
          else and_then (build pre_report counter) (\<lambda>(sr, output).
               and_then (map_err OpsError.Core (record_hash (env_crypto env) sr)) (\<lambda>hash.
                 Inr ((output, hash), append_record vault sr))))
       (\<lambda>(output, hash) post_report. is_effective output hash post_report) (s, d) = (Inr (out, h), (s', d'))"
    using run by (auto simp: commit_record_def op_then_Inr_iff op_ok_def)
  show thesis
  proof (rule commit_Inr [OF commit], goal_cases)
    case (1 base nx)
    note suc = successor_Inr [OF 1(1)] and pair = 1(2) [symmetric]
    define counter where "counter = max (next_counter (effective base)) (rollback_counter_floor (effective base))"
    have upd: "(let counter = counter in
          if counter > MAX_LWW_COUNTER then Inl CounterExhausted
          else and_then (build (ls_report base) counter) (\<lambda>(sr, output).
               and_then (map_err OpsError.Core (record_hash (env_crypto env) sr)) (\<lambda>hash.
                 Inr ((output, hash), append_record (ls_vault base) sr)))) = Inr ((out, h), suc_vault nx)"
      using suc(3) unfolding pair counter_def effective_def .
    then obtain sr where sr: "counter \<le> MAX_LWW_COUNTER" "build (ls_report base) counter = Inr (sr, out)"
      "record_hash (env_crypto env) sr = Inr h" "suc_vault nx = append_record (ls_vault base) sr"
      by (cases "counter > MAX_LWW_COUNTER") (auto simp: Let_def and_then_Inr_iff)
    obtain r where r: "validate_with env (suc_vault nx) r (Thorax_State.verified_record_hashes (effective base)) = Inr (suc_report nx)"
      "trusted_root r = session_root base"
      using suc(4) by (auto simp: session_root_def apply_update_fields(4))
    have check: "is_effective out h (suc_report nx) = Inr ()"
      using suc(2) unfolding pair by simp
    show thesis
      using that [OF sr(2) counter_def sr(1,3)] sr(4) r check suc(1) 1(6) unfolding 1(3,4) by blast
  qed
qed

section \<open>Running a prepared session\<close>

text \<open>The closures that \<open>commit_record\<close> passes to \<open>commit\<close>.\<close>

definition record_update ::
  "StoreEnv \<Rightarrow> (ValidationReport \<Rightarrow> u64 \<Rightarrow> OpsError + VaultRecordV1 \<times> 't) \<Rightarrow> ('t \<times> HashValue) Update" where
  "record_update env build vault pre_report =
     (let counter = max (next_counter (vrep_effective pre_report)) (rollback_counter_floor (vrep_effective pre_report)) in
      if counter > MAX_LWW_COUNTER then Inl CounterExhausted
      else and_then (build pre_report counter) (\<lambda>(signed, output).
           and_then (map_err OpsError.Core (record_hash (env_crypto env) signed)) (\<lambda>hash.
             Inr ((output, hash), append_record vault signed))))"

definition record_check :: "('t \<Rightarrow> HashValue \<Rightarrow> ValidationReport \<Rightarrow> OpsError + unit) \<Rightarrow> ('t \<times> HashValue) Check" where
  "record_check is_effective out report = is_effective (fst out) (snd out) report"

lemma commit_record_eq:
  "commit_record env fault seed build is_effective =
     op_then (commit env fault seed (record_update env build) (record_check is_effective)) (\<lambda>(output, hash). op_ok output)"
proof -
  have "record_update env build = (\<lambda>vault pre_report.
          let counter = max (next_counter (vrep_effective pre_report)) (rollback_counter_floor (vrep_effective pre_report)) in
          if counter > MAX_LWW_COUNTER then Inl CounterExhausted
          else and_then (build pre_report counter) (\<lambda>(signed, output).
               and_then (map_err OpsError.Core (record_hash (env_crypto env) signed)) (\<lambda>hash.
                 Inr ((output, hash), append_record vault signed))))"
    "record_check is_effective = (\<lambda>(output, hash) post_report. is_effective output hash post_report)"
    by (simp_all add: fun_eq_iff record_update_def record_check_def)
  then show ?thesis by (simp add: commit_record_def)
qed

lemma prepared_commit:
  assumes "ls_persistence s = Prepared" and "vrep_issues (ls_report s) = []" and "successor env update check s = Inr nx"
    and "encode_vault (env_vault env) (suc_vault nx) = Inr b"
  shows "commit env fault seed update check (s, d) = (Inr (suc_output nx),
    (s\<lparr>ls_vault_bytes := b, ls_vault := suc_vault nx, ls_ratchet := suc_ratchet nx, ls_report := suc_report nx\<rparr>, d))"
  using assms by (simp add: commit_def apply_prepared_mutation_def session_simps ensure_no_issues_def op_ok_def)

lemma prepared_commit_record:
  assumes "ls_persistence s = Prepared" and "vrep_issues (ls_report s) = []"
    and "successor env (record_update env build) (record_check is_effective) s = Inr nx"
    and "encode_vault (env_vault env) (suc_vault nx) = Inr b"
  shows "commit_record env fault seed build is_effective (s, d) = (Inr (fst (suc_output nx)),
    (s\<lparr>ls_vault_bytes := b, ls_vault := suc_vault nx, ls_ratchet := suc_ratchet nx, ls_report := suc_report nx\<rparr>, d))"
  by (simp add: commit_record_eq op_then_def prepared_commit [OF assms] op_ok_def case_prod_beta)

end
