(* ===== verification/Thorax_Secrets.thy ===== *)
theory Thorax_Secrets
  imports Thorax_Commit
begin

text \<open>
  Files: \<open>crates/thorax-ops/src/secrets.rs\<close> and \<open>reconcile.rs\<close>, with the values of a secret from
  \<open>lib.rs\<close> and \<open>access_addition\<close> of \<open>session.rs\<close>. A value is sealed under a fresh content key, which is
  wrapped once for every current reader; the sealed payload is bound to the vault root, the record
  key, the signer, the counter and the selector. Convergence reseals what a new reader lacks.

  A method of an unlocked session takes the identity as an argument. What the code draws at random
  (transaction identifiers, content keys, nonces, encapsulation) is the record \<open>Draws\<close>; the
  serialisers of the value and of the two bindings are fields of the environment.

  The theorems show that a sealed value opens for every reader and for nobody else, and that a value
  that was set reads back.
\<close>

section \<open>Values\<close>

record SecretField =
  sf_key :: string
  sf_value :: Bytes

record SecretPlaintext =
  sp_selector :: SecretSelectorV1
  sp_plaintext :: Bytes
  sp_fields :: "SecretField list"

record SetSecretOutput =
  sso_secret_id :: SecretId
  sso_selector :: SecretSelectorV1
  sso_sealed :: SealedPayloadV1

record DeleteSecretOutput =
  dso_secret_id :: SecretId
  dso_selector :: SecretSelectorV1

record RelabelSecretOutput =
  rso_from :: SecretSelectorV1
  rso_to :: SecretSelectorV1

datatype RunSecretsError = SecretFailed SecretSelectorV1 OpsError | Ops OpsError

record ReconcileOutput =
  encrypted :: "SecretSelectorV1 list"
  needs_rotation :: "SecretSelectorV1 list"

record 't AccessChange =
  change_output :: 't
  change_reconcile :: ReconcileOutput

definition field_entries :: "SecretPlaintext \<Rightarrow> SecretFieldEntryV1 list" where
  "field_entries p = map (\<lambda>f. \<lparr>field_key = sf_key f, field_value = sf_value f\<rparr>) (sp_fields p)"

definition secret_field :: "SecretPlaintext \<Rightarrow> string \<Rightarrow> SecretField option" where
  "secret_field p k = find (\<lambda>f. sf_key f = k) (sp_fields p)"

definition to_value_with_primary :: "SecretPlaintext \<Rightarrow> Bytes \<Rightarrow> SecretValueV1" where
  "to_value_with_primary p primary = \<lparr>sv_primary = primary, sv_fields = field_entries p\<rparr>"

definition to_value :: "SecretPlaintext \<Rightarrow> SecretValueV1" where
  "to_value p = \<lparr>sv_primary = sp_plaintext p, sv_fields = field_entries p\<rparr>"

definition with_field :: "SecretPlaintext \<Rightarrow> string \<Rightarrow> Bytes \<Rightarrow> SecretValueV1" where
  "with_field p k v =
     \<lparr>sv_primary = sp_plaintext p,
      sv_fields = filter (\<lambda>entry. field_key entry \<noteq> k) (field_entries p) @ [\<lparr>field_key = k, field_value = v\<rparr>]\<rparr>"

definition without_field :: "SecretPlaintext \<Rightarrow> string \<Rightarrow> SecretValueV1" where
  "without_field p k =
     \<lparr>sv_primary = sp_plaintext p, sv_fields = filter (\<lambda>entry. field_key entry \<noteq> k) (field_entries p)\<rparr>"

section \<open>Bindings\<close>

record SecretContentAadV1 =
  aad_trusted_root :: HashValue
  aad_record_key :: RecordKey
  aad_signing_public_key :: Bytes
  aad_counter :: u64
  aad_secret_id :: SecretId
  aad_selector :: SecretSelectorV1
  aad_nonce :: Bytes
  aad_recipient_slots :: "RecipientSlotV1 list"

record RecipientSlotBindingV1 =
  rsb_trusted_root :: HashValue
  rsb_secret_id :: SecretId
  rsb_selector :: SecretSelectorV1
  rsb_recipient_id :: UserId

record SecretsEnv =
  sec_store :: StoreEnv
  sec_prims :: Primitives
  sec_value :: "SecretValueV1 CordCodec"
  sec_aad :: "SecretContentAadV1 \<Rightarrow> CordError + Bytes"
  sec_binding :: "RecipientSlotBindingV1 \<Rightarrow> CordError + Bytes"

abbreviation sec_crypto :: "SecretsEnv \<Rightarrow> CryptoProvider" where
  "sec_crypto env \<equiv> env_crypto (sec_store env)"

record Draws =
  draw_fault :: "TestFaultPoint option"
  draw_seed :: Bytes
  draw_key :: ContentKey
  draw_nonce :: ContentNonce
  draw_slot :: "nat \<Rightarrow> Bytes"

record SealContext =
  ctx_record_key :: RecordKey
  ctx_signer_key :: Bytes
  ctx_counter :: u64
  ctx_secret_id :: SecretId
  ctx_selector :: SecretSelectorV1

definition SEALED_VALUE_PREFIX :: Bytes where
  "SEALED_VALUE_PREFIX = str_bytes ''thorax-secret-''"

definition SEALED_VALUE_V1_MAGIC :: Bytes where
  "SEALED_VALUE_V1_MAGIC = str_bytes ''thorax-secret-v1'' @ [0]"

definition effective_trusted_root :: "EffectiveState \<Rightarrow> OpsError + HashValue" where
  "effective_trusted_root st =
     (case es_root_signing_public_key_hash st of None \<Rightarrow> Inl MissingEffectiveRoot | Some h \<Rightarrow> Inr h)"

definition secret_content_aad_bytes ::
  "SecretsEnv \<Rightarrow> HashValue \<Rightarrow> SealContext \<Rightarrow> Bytes \<Rightarrow> RecipientSlotV1 list \<Rightarrow> OpsError + Bytes" where
  "secret_content_aad_bytes env root ctx nonce slots =
     map_err OpsError.Cord (sec_aad env
       \<lparr>aad_trusted_root = root, aad_record_key = ctx_record_key ctx, aad_signing_public_key = ctx_signer_key ctx,
        aad_counter = ctx_counter ctx, aad_secret_id = ctx_secret_id ctx, aad_selector = ctx_selector ctx,
        aad_nonce = nonce, aad_recipient_slots = slots\<rparr>)"

definition recipient_slot_binding_bytes ::
  "SecretsEnv \<Rightarrow> HashValue \<Rightarrow> SecretId \<Rightarrow> SecretSelectorV1 \<Rightarrow> UserId \<Rightarrow> OpsError + Bytes" where
  "recipient_slot_binding_bytes env root secret selector recipient =
     map_err OpsError.Cord (sec_binding env
       \<lparr>rsb_trusted_root = root, rsb_secret_id = secret, rsb_selector = selector, rsb_recipient_id = recipient\<rparr>)"

section \<open>Sealing and opening\<close>

fun seal_slots ::
  "SecretsEnv \<Rightarrow> Draws \<Rightarrow> EffectiveState \<Rightarrow> HashValue \<Rightarrow> SealContext \<Rightarrow> nat \<Rightarrow> UserId list \<Rightarrow> OpsError + RecipientSlotV1 list" where
  "seal_slots env draws st root ctx i [] = Inr []"
| "seal_slots env draws st root ctx i (reader # readers) =
     (case bt_get (es_users st) reader of
        None \<Rightarrow> Inl (MissingReaderUser reader)
      | Some user \<Rightarrow>
          and_then (recipient_slot_binding_bytes env root (ctx_secret_id ctx) (ctx_selector ctx) reader) (\<lambda>binding.
          and_then (map_err Crypto (wrap_content_key (sec_prims env) (draw_slot draws i) (user_hpke_public_key user)
                      binding binding (draw_key draws))) (\<lambda>wrapped.
          and_then (seal_slots env draws st root ctx (Suc i) readers) (\<lambda>slots.
            Inr (\<lparr>recipient_id = reader, hpke_encapsulated_key = encapsulated_key wrapped,
                  wrapped_content_key = hpke_ciphertext wrapped\<rparr> # slots)))))"

definition seal_secret_payload ::
  "SecretsEnv \<Rightarrow> Draws \<Rightarrow> EffectiveState \<Rightarrow> SealContext \<Rightarrow> SecretValueV1 \<Rightarrow> OpsError + SealedPayloadV1" where
  "seal_secret_payload env draws st ctx val =
     and_then (effective_trusted_root st) (\<lambda>root.
     and_then (map_err OpsError.Cord (cord_ser (sec_value env) val)) (\<lambda>encoded.
     let plaintext = SEALED_VALUE_V1_MAGIC @ encoded; nonce_bytes = content_nonce_bytes (draw_nonce draws) in
     and_then (seal_slots env draws st root ctx 0 (current_reader_entries st (ctx_selector ctx))) (\<lambda>slots.
     and_then (secret_content_aad_bytes env root ctx nonce_bytes slots) (\<lambda>aad.
     and_then (map_err Crypto (seal_content (sec_prims env) (draw_key draws) (draw_nonce draws) aad plaintext)) (\<lambda>ciphertext.
       Inr \<lparr>sealed_nonce = nonce_bytes, sealed_ciphertext = ciphertext, recipient_slots = slots\<rparr>)))))"

definition decode_plaintext :: "SecretsEnv \<Rightarrow> Bytes \<Rightarrow> OpsError + SecretValueV1 option" where
  "decode_plaintext env opened =
     (case strip_prefix SEALED_VALUE_V1_MAGIC opened of
        Some payload \<Rightarrow>
          (case cord_de (sec_value env) payload of Inl _ \<Rightarrow> Inl InvalidSecretPlaintext | Inr v \<Rightarrow> Inr (Some v))
      | None \<Rightarrow>
          if take (length SEALED_VALUE_PREFIX) opened = SEALED_VALUE_PREFIX then Inl InvalidSecretPlaintext
          else Inr (case cord_de (sec_value env) opened of Inl _ \<Rightarrow> None | Inr v \<Rightarrow> Some v))"

definition decrypt_secret_record ::
  "SecretsEnv \<Rightarrow> Identity \<Rightarrow> VaultRecordV1 \<Rightarrow> SecretRecordV1 \<Rightarrow> HashValue \<Rightarrow> OpsError + SecretPlaintext" where
  "decrypt_secret_record env identity sr val root =
     (case find (\<lambda>slot. recipient_id slot = identity_user identity) (recipient_slots (secret_sealed val)) of
        None \<Rightarrow> Inl (RecipientSlotMissing (identity_user identity))
      | Some slot \<Rightarrow>
          and_then (recipient_slot_binding_bytes env root (secret_id val) (secret_selector val) (recipient_id slot)) (\<lambda>binding.
          and_then (map_err Crypto (unwrap_content_key (sec_prims env) (keys_hpke (identity_keys identity))
                      (hpke_encapsulated_key slot) binding binding (wrapped_content_key slot))) (\<lambda>content_key.
          and_then (map_err Crypto (content_nonce_from_bytes (sealed_nonce (secret_sealed val)))) (\<lambda>nonce.
          and_then (secret_content_aad_bytes env root
                      \<lparr>ctx_record_key = RecordKey.Secret (secret_id val), ctx_signer_key = rec_signing_public_key sr,
                       ctx_counter = secret_counter val, ctx_secret_id = secret_id val, ctx_selector = secret_selector val\<rparr>
                      (sealed_nonce (secret_sealed val)) (recipient_slots (secret_sealed val))) (\<lambda>aad.
          and_then (map_err Crypto (open_content (sec_prims env) content_key nonce aad
                      (sealed_ciphertext (secret_sealed val)))) (\<lambda>opened.
          and_then (decode_plaintext env opened) (\<lambda>decoded.
            Inr (case decoded of
                   Some envelope \<Rightarrow>
                     \<lparr>sp_selector = secret_selector val, sp_plaintext = sv_primary envelope,
                      sp_fields = sort_key sf_key (map (\<lambda>entry. \<lparr>sf_key = field_key entry, sf_value = field_value entry\<rparr>)
                                    (sv_fields envelope))\<rparr>
                 | None \<Rightarrow>
                     \<lparr>sp_selector = secret_selector val, sp_plaintext = opened, sp_fields = []\<rparr>))))))))"

definition decrypt_secret_from_report ::
  "SecretsEnv \<Rightarrow> ValidationReport \<Rightarrow> Identity \<Rightarrow> SecretSelectorV1 \<Rightarrow> OpsError + SecretPlaintext" where
  "decrypt_secret_from_report env report identity selector =
     and_then (map_err OpsError.Core (current_secret_record (vrep_effective report) (sec_crypto env) selector)) (\<lambda>found.
       case found of
         None \<Rightarrow> Inl SecretMissing
       | Some active \<Rightarrow>
           and_then (effective_trusted_root (vrep_effective report)) (\<lambda>root.
             decrypt_secret_record env identity (as_signed active) (as_value active) root))"

section \<open>Reading and writing secrets\<close>

definition ensure_secret_decryptable ::
  "SecretsEnv \<Rightarrow> EffectiveState \<Rightarrow> SecretSelectorV1 \<Rightarrow> UserId \<Rightarrow> OpsError + unit" where
  "ensure_secret_decryptable env st selector user =
     (case classify_secret_for_user st (sec_crypto env) selector user of
        ActiveDecryptable \<Rightarrow> Inr ()
      | Missing \<Rightarrow> Inl SecretMissing
      | Conflicted \<Rightarrow> Inl SecretConflicted
      | other \<Rightarrow> Inl (SecretNotDecryptable other))"

definition ensure_secret_writable :: "EffectiveState \<Rightarrow> SecretSelectorV1 \<Rightarrow> UserId \<Rightarrow> OpsError + unit" where
  "ensure_secret_writable st selector user =
     (if \<not> bt_contains_key (es_users st) user then Inl (MissingWriterUser user)
      else if es_authority_unresolved st then Inl SecretNotWritable
      else if can_write (authority_for_user st user) selector then Inr () else Inl SecretNotWritable)"

definition ensure_can_write_secret :: "EffectiveState \<Rightarrow> UserId \<Rightarrow> SecretSelectorV1 \<Rightarrow> OpsError + unit" where
  "ensure_can_write_secret st user selector =
     (if \<not> bt_contains_key (es_users st) user then Inl (MissingUser user)
      else if es_authority_unresolved st \<or> \<not> can_write (authority_for_user st user) selector then Inl SecretNotWritable
      else Inr ())"

definition locked_set_secret_value ::
  "SecretsEnv \<Rightarrow> Draws \<Rightarrow> Identity \<Rightarrow> SecretSelectorV1 \<Rightarrow> SecretValueV1 \<Rightarrow> SetSecretOutput SessionOp" where
  "locked_set_secret_value env draws identity selector val =
     (let signer = identity_signer (sec_prims env) identity; crypto = sec_crypto env in
      op_then (op_read (\<lambda>_. map_err Hazmat (ensure_identity_consistent crypto signer))) (\<lambda>_.
      op_then (op_read (\<lambda>_. map_err OpsError.Core (derive_secret_id crypto selector))) (\<lambda>secret.
      commit_record (sec_store env) (draw_fault draws) (draw_seed draws)
        (\<lambda>pre_report counter.
           and_then (seal_secret_payload env draws (vrep_effective pre_report)
                       \<lparr>ctx_record_key = RecordKey.Secret secret, ctx_signer_key = signer_signing_public_key signer,
                        ctx_counter = counter, ctx_secret_id = secret, ctx_selector = selector\<rparr> val) (\<lambda>sealed.
           and_then (map_err Hazmat (secret_record crypto signer selector sealed counter)) (\<lambda>sr.
             Inr (sr, \<lparr>sso_secret_id = secret, sso_selector = selector, sso_sealed = sealed\<rparr>))))
        (\<lambda>_ hash report.
           if secret_record_is_current (vrep_effective report) hash then Inr ()
           else Inl (OperationNotEffective ''secret value did not take effect'')))))"

definition locked_delete_secret ::
  "SecretsEnv \<Rightarrow> Draws \<Rightarrow> RecordSigner \<Rightarrow> SecretSelectorV1 \<Rightarrow> DeleteSecretOutput SessionOp" where
  "locked_delete_secret env draws signer selector =
     (let crypto = sec_crypto env in
      op_then (op_read (\<lambda>_. map_err Hazmat (ensure_identity_consistent crypto signer))) (\<lambda>_.
      op_then (op_read (\<lambda>_. map_err OpsError.Core (derive_secret_id crypto selector))) (\<lambda>secret.
      commit_record (sec_store env) (draw_fault draws) (draw_seed draws)
        (\<lambda>_ counter.
           and_then (map_err Hazmat (secret_deleted_record crypto signer selector counter)) (\<lambda>sr.
             Inr (sr, \<lparr>dso_secret_id = secret, dso_selector = selector\<rparr>)))
        (\<lambda>_ hash report.
           if secret_record_is_current (vrep_effective report) hash then Inr ()
           else Inl (OperationNotEffective ''secret deletion did not take effect'')))))"

definition get_secret :: "SecretsEnv \<Rightarrow> LockedSession \<Rightarrow> Identity \<Rightarrow> SecretSelectorV1 \<Rightarrow> OpsError + SecretPlaintext" where
  "get_secret env s identity selector =
     and_then (ensure_secret_decryptable env (effective s) selector (identity_user identity)) (\<lambda>_.
       decrypt_secret_from_report env (ls_report s) identity selector)"

definition set_secret_value ::
  "SecretsEnv \<Rightarrow> Draws \<Rightarrow> Identity \<Rightarrow> SecretSelectorV1 \<Rightarrow> SecretValueV1 \<Rightarrow> SetSecretOutput SessionOp" where
  "set_secret_value env draws identity selector val =
     op_then (op_read (\<lambda>(s, d). ensure_secret_writable (effective s) selector (identity_user identity))) (\<lambda>_.
       locked_set_secret_value env draws identity selector val)"

definition set_secret ::
  "SecretsEnv \<Rightarrow> Draws \<Rightarrow> Identity \<Rightarrow> SecretSelectorV1 \<Rightarrow> Bytes \<Rightarrow> SetSecretOutput SessionOp" where
  "set_secret env draws identity selector plaintext =
     set_secret_value env draws identity selector (from_primary plaintext)"

definition delete_secret :: "SecretsEnv \<Rightarrow> Draws \<Rightarrow> Identity \<Rightarrow> SecretSelectorV1 \<Rightarrow> DeleteSecretOutput SessionOp" where
  "delete_secret env draws identity selector =
     op_then (op_read (\<lambda>(s, d). ensure_secret_writable (effective s) selector (identity_user identity))) (\<lambda>_.
       locked_delete_secret env draws (identity_signer (sec_prims env) identity) selector)"

definition relabel_secret ::
  "SecretsEnv \<Rightarrow> Draws \<Rightarrow> Draws \<Rightarrow> Identity \<Rightarrow> SecretSelectorV1 \<Rightarrow> SecretSelectorV1 \<Rightarrow> RelabelSecretOutput SessionOp" where
  "relabel_secret env draws draws' identity source target =
     (let user = identity_user identity in
      op_then (op_read (\<lambda>(s, d). ensure_secret_decryptable env (effective s) source user)) (\<lambda>_.
      op_then (op_read (\<lambda>(s, d). ensure_secret_writable (effective s) target user)) (\<lambda>_.
      op_then (op_read (\<lambda>(s, d). ensure_secret_writable (effective s) source user)) (\<lambda>_.
      op_then (op_read (\<lambda>(s, d). decrypt_secret_from_report env (ls_report s) identity source)) (\<lambda>plaintext.
      op_then (locked_set_secret_value env draws identity target (to_value plaintext)) (\<lambda>_.
      op_then (if source \<noteq> target
               then op_then (locked_delete_secret env draws' (identity_signer (sec_prims env) identity) source) (\<lambda>_. op_ok ())
               else op_ok ()) (\<lambda>_.
        op_ok \<lparr>rso_from = source, rso_to = target\<rparr>)))))))"

definition get_secrets_for_run ::
  "SecretsEnv \<Rightarrow> LockedSession \<Rightarrow> Identity \<Rightarrow> SecretSelectorV1 list \<Rightarrow> RunSecretsError + SecretPlaintext list" where
  "get_secrets_for_run env s identity selectors =
     and_then (collect_results (\<lambda>selector.
         map_err (SecretFailed selector) (ensure_secret_decryptable env (effective s) selector (identity_user identity)))
       selectors) (\<lambda>_.
     collect_results (\<lambda>selector.
         map_err (SecretFailed selector) (decrypt_secret_from_report env (ls_report s) identity selector)) selectors)"

section \<open>Convergence\<close>

definition missing_reader_candidates :: "SecretsEnv \<Rightarrow> ValidationReport \<Rightarrow> SecretSelectorV1 list" where
  "missing_reader_candidates env report =
     filter (\<lambda>selector. case secret_missing_reader (vrep_effective report) (sec_crypto env) selector of
         Inl _ \<Rightarrow> False | Inr missing \<Rightarrow> missing)
       (map (\<lambda>active. secret_selector (as_value active)) (secret_records (vrep_effective report)))"

fun open_candidates ::
  "SecretsEnv \<Rightarrow> ValidationReport \<Rightarrow> Identity \<Rightarrow> SecretSelectorV1 list \<Rightarrow> SecretPlaintext list \<times> SecretSelectorV1 list" where
  "open_candidates env report identity [] = ([], [])"
| "open_candidates env report identity (selector # selectors) =
     (case open_candidates env report identity selectors of (opened, unopened) \<Rightarrow>
        case decrypt_secret_from_report env report identity selector of
          Inr plaintext \<Rightarrow> (plaintext # opened, unopened)
        | Inl _ \<Rightarrow> (opened, selector # unopened))"

fun reseal_all ::
  "SecretsEnv \<Rightarrow> (nat \<Rightarrow> Draws) \<Rightarrow> Identity \<Rightarrow> EffectiveState \<Rightarrow> u64 \<Rightarrow> nat \<Rightarrow> SecretPlaintext list \<Rightarrow> VaultStore \<Rightarrow> OpsError + VaultStore" where
  "reseal_all env draws identity st counter i [] vault = Inr vault"
| "reseal_all env draws identity st counter i (secret # secrets) vault =
     (let signer = identity_signer (sec_prims env) identity; crypto = sec_crypto env in
      and_then (map_err OpsError.Core (derive_secret_id crypto (sp_selector secret))) (\<lambda>secret_id.
      and_then (seal_secret_payload env (draws i) st
                  \<lparr>ctx_record_key = RecordKey.Secret secret_id, ctx_signer_key = signer_signing_public_key signer,
                   ctx_counter = counter, ctx_secret_id = secret_id, ctx_selector = sp_selector secret\<rparr>
                  (to_value secret)) (\<lambda>sealed.
      and_then (map_err Hazmat (secret_record crypto signer (sp_selector secret) sealed counter)) (\<lambda>sr.
        reseal_all env draws identity st counter (Suc i) secrets (append_record vault sr)))))"

definition converge_readers :: "SecretsEnv \<Rightarrow> (nat \<Rightarrow> Draws) \<Rightarrow> Identity \<Rightarrow> ReconcileOutput SessionOp" where
  "converge_readers env draws identity =
     op_then self_get (\<lambda>s.
       let candidates = missing_reader_candidates env (ls_report s) in
       if candidates = [] then op_ok \<lparr>encrypted = [], needs_rotation = []\<rparr>
       else case open_candidates env (ls_report s) identity candidates of (opened, unopened) \<Rightarrow>
         if opened = [] then op_ok \<lparr>encrypted = [], needs_rotation = unopened\<rparr>
         else op_then (commit (sec_store env) (draw_fault (draws 0)) (draw_seed (draws 0))
                (\<lambda>vault pre_report.
                   let counter = next_counter (vrep_effective pre_report) in
                   and_then (reseal_all env draws identity (vrep_effective pre_report) counter 0 opened vault) (\<lambda>v. Inr ((), v)))
                (\<lambda>_ _. Inr ())) (\<lambda>_.
              op_ok \<lparr>encrypted = map sp_selector opened, needs_rotation = unopened\<rparr>))"

definition reconcile_readers :: "SecretsEnv \<Rightarrow> (nat \<Rightarrow> Draws) \<Rightarrow> Identity \<Rightarrow> ReconcileOutput SessionOp" where
  "reconcile_readers env draws identity = converge_readers env draws identity"

definition access_addition ::
  "SecretsEnv \<Rightarrow> (nat \<Rightarrow> Draws) \<Rightarrow> Identity \<Rightarrow> 't SessionOp \<Rightarrow> 't AccessChange SessionOp" where
  "access_addition env draws identity operation =
     op_then operation (\<lambda>out.
     op_then (converge_readers env draws identity) (\<lambda>reconcile.
       op_ok \<lparr>change_output = out, change_reconcile = reconcile\<rparr>))"

definition push_missing :: "KeyspaceSelectorV1 list \<Rightarrow> KeyspaceSelectorV1 list \<Rightarrow> KeyspaceSelectorV1 list" where
  "push_missing = foldl (\<lambda>selectors selector. if selector \<in> set selectors then selectors else selectors @ [selector])"

definition effective_read_grants :: "LockedSession \<Rightarrow> Identity \<Rightarrow> KeyspaceSelectorV1 list" where
  "effective_read_grants s identity =
     (let authority = authority_for_user (effective s) (identity_user identity) in
      if auth_administer authority then [keyspace_all]
      else push_missing (push_missing (auth_read authority) (auth_write authority))
             (map mk_selector (auth_manage authority)))"

section \<open>Sealed values\<close>

text \<open>What the primitives promise: what was encrypted decrypts under the same key, nonce and data.\<close>

definition aead_law :: "Primitives \<Rightarrow> bool" where
  "aead_law prims \<longleftrightarrow> (\<forall>k n m a c. aead_encrypt prims k n m a = Some c \<longrightarrow> aead_decrypt prims k n c a = Some m)"

definition hpke_law :: "Primitives \<Rightarrow> HpkeKeypair \<Rightarrow> bool" where
  "hpke_law prims keys \<longleftrightarrow> (\<forall>rng info m aad e c.
     hpke_single_shot_seal prims rng (hpke_public_key_bytes keys) info m aad = Inr (e, c) \<longrightarrow>
     hpke_encapped_valid prims e \<and> hpke_single_shot_open prims (hpke_private_key keys) e info c aad = Inr m)"

definition value_codec_law :: "SecretValueV1 CordCodec \<Rightarrow> bool" where
  "value_codec_law codec \<longleftrightarrow> (\<forall>v b. cord_ser codec v = Inr b \<longrightarrow>
     (\<exists>v'. cord_de codec b = Inr v' \<and> sv_primary v' = sv_primary v \<and> set (sv_fields v') = set (sv_fields v)
        \<and> distinct (sv_fields v')))"

text \<open>The plaintext a reader should see for a value: the primary, and each field once, by key.\<close>

definition shows_value :: "SecretPlaintext \<Rightarrow> SecretSelectorV1 \<Rightarrow> SecretValueV1 \<Rightarrow> bool" where
  "shows_value p selector v \<longleftrightarrow> sp_selector p = selector \<and> sp_plaintext p = sv_primary v
     \<and> set (field_entries p) = set (sv_fields v) \<and> distinct (sp_fields p) \<and> sorted (map sf_key (sp_fields p))"

lemma open_seal: "aead_law prims \<Longrightarrow> seal_content prims k n aad m = Inr c \<Longrightarrow> open_content prims k n aad c = Inr m"
  by (auto simp: aead_law_def seal_content_def open_content_def split: option.splits)

lemma unwrap_wrap:
  assumes "hpke_law prims keys" and "wrap_content_key prims rng (hpke_public_key_bytes keys) info aad k = Inr w"
    and "length (content_key_bytes k) = CONTENT_KEY_LEN"
  shows "unwrap_content_key prims keys (encapsulated_key w) info aad (hpke_ciphertext w) = Inr k"
proof -
  obtain e c where "hpke_single_shot_seal prims rng (hpke_public_key_bytes keys) (hpke_info info) (content_key_bytes k) aad = Inr (e, c)"
    "w = \<lparr>encapsulated_key = e, hpke_ciphertext = c\<rparr>"
    using assms(2) by (auto simp: wrap_content_key_def hpke_seal_def hpke_public_key_from_bytes_def and_then_Inr_iff split: if_splits)
  then show ?thesis
    using assms(1,3) unfolding hpke_law_def
    by (cases k) (auto simp: unwrap_content_key_def hpke_open_def hpke_encapped_key_from_bytes_def content_key_from_bytes_def fixed_array_def)
qed

lemma seal_slots_Inr:
  "seal_slots env draws st root ctx i readers = Inr slots \<Longrightarrow>
     map recipient_id slots = readers
     \<and> (\<forall>slot \<in> set slots. \<exists>rng user binding w. bt_get (es_users st) (recipient_id slot) = Some user
          \<and> recipient_slot_binding_bytes env root (ctx_secret_id ctx) (ctx_selector ctx) (recipient_id slot) = Inr binding
          \<and> wrap_content_key (sec_prims env) rng (user_hpke_public_key user) binding binding (draw_key draws) = Inr w
          \<and> hpke_encapsulated_key slot = encapsulated_key w \<and> wrapped_content_key slot = hpke_ciphertext w)"
proof (induction readers arbitrary: i slots)
  case (Cons reader readers)
  from Cons.prems obtain user binding w rest where step: "bt_get (es_users st) reader = Some user"
    "recipient_slot_binding_bytes env root (ctx_secret_id ctx) (ctx_selector ctx) reader = Inr binding"
    "wrap_content_key (sec_prims env) (draw_slot draws i) (user_hpke_public_key user) binding binding (draw_key draws) = Inr w"
    "seal_slots env draws st root ctx (Suc i) readers = Inr rest"
    "slots = \<lparr>recipient_id = reader, hpke_encapsulated_key = encapsulated_key w, wrapped_content_key = hpke_ciphertext w\<rparr> # rest"
    by (auto simp: and_then_Inr_iff split: option.splits)
  from Cons.IH [OF step(4)] step show ?case by simp metis
qed simp

lemma seal_secret_payload_Inr:
  assumes "seal_secret_payload env draws st ctx val = Inr sealed"
  obtains root encoded aad where "es_root_signing_public_key_hash st = Some root"
    "cord_ser (sec_value env) val = Inr encoded"
    "seal_slots env draws st root ctx 0 (current_reader_entries st (ctx_selector ctx)) = Inr (recipient_slots sealed)"
    "secret_content_aad_bytes env root ctx (sealed_nonce sealed) (recipient_slots sealed) = Inr aad"
    "seal_content (sec_prims env) (draw_key draws) (draw_nonce draws) aad (SEALED_VALUE_V1_MAGIC @ encoded) = Inr (sealed_ciphertext sealed)"
    "sealed_nonce sealed = content_nonce_bytes (draw_nonce draws)"
  using assms that
  by (auto simp: seal_secret_payload_def effective_trusted_root_def and_then_Inr_iff Let_def split: option.splits)

lemma decode_sealed:
  assumes "value_codec_law (sec_value env)" and "cord_ser (sec_value env) val = Inr encoded"
  obtains v' where "decode_plaintext env (SEALED_VALUE_V1_MAGIC @ encoded) = Inr (Some v')"
    "sv_primary v' = sv_primary val" "set (sv_fields v') = set (sv_fields val)" "distinct (sv_fields v')"
proof -
  obtain v' where "cord_de (sec_value env) encoded = Inr v'" "sv_primary v' = sv_primary val"
    "set (sv_fields v') = set (sv_fields val)" "distinct (sv_fields v')"
    using assms unfolding value_codec_law_def by blast
  then show thesis
    using that by (simp add: decode_plaintext_def strip_prefix_def)
qed

lemma shown_fields:
  assumes "sv_primary v' = sv_primary val" "set (sv_fields v') = set (sv_fields val)" "distinct (sv_fields v')"
  shows "shows_value \<lparr>sp_selector = selector, sp_plaintext = sv_primary v',
      sp_fields = sort_key sf_key (map (\<lambda>entry. \<lparr>sf_key = field_key entry, sf_value = field_value entry\<rparr>) (sv_fields v'))\<rparr> selector val"
proof -
  let ?f = "\<lambda>entry :: SecretFieldEntryV1. \<lparr>sf_key = field_key entry, sf_value = field_value entry\<rparr>"
    and ?g = "\<lambda>f :: SecretField. \<lparr>field_key = sf_key f, field_value = sf_value f\<rparr>"
  have undo: "?g (?f entry) = entry" for entry :: SecretFieldEntryV1 by simp
  then have "inj ?f" by (rule inj_on_inverseI)
  then have "distinct (map ?f (sv_fields v'))"
    using assms(3) unfolding distinct_map by (blast intro: inj_on_subset)
  moreover have "?g ` ?f ` set (sv_fields v') = set (sv_fields val)"
    unfolding image_image undo by (simp add: assms(2))
  ultimately show ?thesis
    using assms(1) unfolding shows_value_def field_entries_def
    by (simp only: SecretPlaintext.select_convs set_map set_sort distinct_sort sorted_sort_key simp_thms)
qed

text \<open>Sealed for the readers of a state, a value opens for each of them and for nobody else.\<close>

lemma sealed_opens:
  assumes laws: "aead_law (sec_prims env)" "hpke_law (sec_prims env) (keys_hpke (identity_keys identity))" "value_codec_law (sec_value env)"
    and draws: "length (content_key_bytes (draw_key draws)) = CONTENT_KEY_LEN"
      "length (content_nonce_bytes (draw_nonce draws)) = CONTENT_NONCE_LEN"
    and seal: "seal_secret_payload env draws st
      \<lparr>ctx_record_key = RecordKey.Secret i, ctx_signer_key = rec_signing_public_key sr, ctx_counter = counter, ctx_secret_id = i,
       ctx_selector = selector\<rparr> val = Inr sealed"
    and root: "es_root_signing_public_key_hash st = Some root"
    and key: "\<And>u. bt_get (es_users st) (identity_user identity) = Some u \<Longrightarrow>
      user_hpke_public_key u = hpke_public_key_bytes (keys_hpke (identity_keys identity))"
  defines "rv \<equiv> \<lparr>secret_id = i, secret_selector = selector, secret_sealed = sealed, secret_counter = counter\<rparr>"
  shows "if identity_user identity \<in> set (current_reader_entries st selector)
    then \<exists>p. decrypt_secret_record env identity sr rv root = Inr p \<and> shows_value p selector val
    else decrypt_secret_record env identity sr rv root = Inl (RecipientSlotMissing (identity_user identity))"
proof -
  let ?user = "identity_user identity"
  let ?ctx = "\<lparr>ctx_record_key = RecordKey.Secret i, ctx_signer_key = rec_signing_public_key sr, ctx_counter = counter, ctx_secret_id = i,
       ctx_selector = selector\<rparr>"
  from seal obtain encoded aad where parts: "cord_ser (sec_value env) val = Inr encoded"
    "seal_slots env draws st root ?ctx 0 (current_reader_entries st selector) = Inr (recipient_slots sealed)"
    "secret_content_aad_bytes env root ?ctx (sealed_nonce sealed) (recipient_slots sealed) = Inr aad"
    "seal_content (sec_prims env) (draw_key draws) (draw_nonce draws) aad (SEALED_VALUE_V1_MAGIC @ encoded) = Inr (sealed_ciphertext sealed)"
    "sealed_nonce sealed = content_nonce_bytes (draw_nonce draws)"
    by (rule seal_secret_payload_Inr) (use root in auto)
  note slots = seal_slots_Inr [OF parts(2)]
  show ?thesis
  proof (cases "find (\<lambda>slot. recipient_id slot = ?user) (recipient_slots sealed)")
    case None
    then have "?user \<notin> set (map recipient_id (recipient_slots sealed))"
      by (auto simp: find_None_iff)
    then have "?user \<notin> set (current_reader_entries st selector)"
      using slots by simp
    with None show ?thesis
      by (simp add: decrypt_secret_record_def rv_def)
  next
    case (Some slot)
    then have slot: "slot \<in> set (recipient_slots sealed)" "recipient_id slot = ?user"
      by (auto simp: find_Some_iff)
    then have reader: "?user \<in> set (current_reader_entries st selector)"
      using slots by (metis image_eqI set_map)
    obtain rng user binding w where wrap: "bt_get (es_users st) ?user = Some user"
      "recipient_slot_binding_bytes env root i selector ?user = Inr binding"
      "wrap_content_key (sec_prims env) rng (user_hpke_public_key user) binding binding (draw_key draws) = Inr w"
      "hpke_encapsulated_key slot = encapsulated_key w" "wrapped_content_key slot = hpke_ciphertext w"
      using slots slot by auto
    have unwrap: "unwrap_content_key (sec_prims env) (keys_hpke (identity_keys identity)) (hpke_encapsulated_key slot) binding binding
        (wrapped_content_key slot) = Inr (draw_key draws)"
      using unwrap_wrap [OF laws(2), of rng binding binding "draw_key draws" w] wrap key draws(1) by simp
    have nonce: "content_nonce_from_bytes (sealed_nonce sealed) = Inr (draw_nonce draws)"
      using draws(2) parts(5) by (cases "draw_nonce draws") (simp add: content_nonce_from_bytes_def fixed_array_def)
    have opened: "open_content (sec_prims env) (draw_key draws) (draw_nonce draws) aad (sealed_ciphertext sealed) =
        Inr (SEALED_VALUE_V1_MAGIC @ encoded)"
      by (rule open_seal [OF laws(1) parts(4)])
    obtain v' where v': "decode_plaintext env (SEALED_VALUE_V1_MAGIC @ encoded) = Inr (Some v')"
      "sv_primary v' = sv_primary val" "set (sv_fields v') = set (sv_fields val)" "distinct (sv_fields v')"
      by (rule decode_sealed [OF laws(3) parts(1)])
    show ?thesis
      using reader Some slot(2) wrap(2) unwrap nonce parts(3) opened v'(1) shown_fields [OF v'(2-4), of selector]
      by (simp add: decrypt_secret_record_def rv_def)
  qed
qed

section \<open>The record a write publishes\<close>

abbreviation vault_records_of :: "VaultStore \<Rightarrow> VaultRecordV1 list" where
  "vault_records_of vault \<equiv> (case vault of VaultStore.V1 v1 \<Rightarrow> vs_records v1)"

definition sound_session :: "StoreEnv \<Rightarrow> LockedSession \<Rightarrow> bool" where
  "sound_session env s \<longleftrightarrow>
     (\<exists>r verified. validate_with env (ls_vault s) r verified = Inr (ls_report s) \<and> trusted_root r = session_root s)"

lemma record_hash_unique:
  "inj_on (record_hash crypto) R \<Longrightarrow> r \<in> R \<Longrightarrow> r' \<in> R \<Longrightarrow> record_hash crypto r = Inr h \<Longrightarrow> record_hash crypto r' = Inr h \<Longrightarrow> r = r'"
  by (metis inj_onD)

lemma append_record_mem: "sr \<in> set (vault_records_of (append_record vault sr))"
  by (cases vault) (simp add: append_record_def)

text \<open>When a hash is current, the record with this hash is the live winner at its key.\<close>

lemma current_is_winner:
  assumes valid: "validate_with env vault ratchet verified = Inr report"
    and current: "secret_record_is_current (vrep_effective report) h"
    and inj: "inj_on (record_hash (env_crypto env)) (set (vault_records_of vault))"
    and sr: "sr \<in> set (vault_records_of vault)" "record_hash (env_crypto env) sr = Inr h" "known (rec_body sr) = Some body"
    and id: "secret_record_identity body = Some (i, selector)"
  shows "bt_get (es_conflicted (vrep_effective report)) (RecordKey.Secret i) = None"
    and "\<exists>w. latest_authorized_secret_record (vrep_effective report) i = Some w \<and> vr_signed w = sr \<and> vr_body w = body"
    and "\<exists>root. structurally_validate_record (env_crypto env) sr body root = Inr ()"
proof -
  let ?st = "vrep_effective report"
  obtain v1 where v1: "vault = VaultStore.V1 v1" by (cases vault)
  note facts = report_records [OF valid [unfolded v1]] and win = report_winner [OF valid [unfolded v1]]
  have same: "vr_signed w = sr \<and> vr_body w = body"
    if "w \<in> set (es_verified_records ?st)" "vr_record_hash w = h" for w
  proof -
    have "vr_signed w = sr"
      using record_hash_unique [OF inj, of "vr_signed w" sr h] facts [OF that(1)] that(2) sr v1 by simp
    then show ?thesis using facts(2) [OF that(1)] sr(3) by simp
  qed
  obtain target i' selector' w where cur: "find (\<lambda>r. vr_record_hash r = h) (es_verified_records ?st) = Some target"
    "secret_record_identity (vr_body target) = Some (i', selector')" "\<not> bt_contains_key (es_conflicted ?st) (RecordKey.Secret i')"
    "latest_authorized_secret_record ?st i' = Some w" "vr_record_hash w = h"
    using current by (auto simp: secret_record_is_current_def split: option.splits if_splits)
  have "target \<in> set (es_verified_records ?st)" "vr_record_hash target = h"
    using cur(1) by (auto simp: find_Some_iff)
  then have i': "i' = i"
    using same cur(2) id by auto
  then show "bt_get (es_conflicted ?st) (RecordKey.Secret i) = None"
    using cur(3) by (simp add: bt_contains_key_def)
  have w: "w \<in> set (es_verified_records ?st)" by (rule win [OF cur(4)])
  then show "\<exists>w. latest_authorized_secret_record ?st i = Some w \<and> vr_signed w = sr \<and> vr_body w = body"
    using cur(4,5) i' same by blast
  show "\<exists>root. structurally_validate_record (env_crypto env) sr body root = Inr ()"
    using facts(4) [OF w] same [OF w cur(5)] by simp
qed

lemma current_value:
  assumes valid: "validate_with env vault ratchet verified = Inr report"
    and current: "secret_record_is_current (vrep_effective report) h"
    and inj: "inj_on (record_hash (env_crypto env)) (set (vault_records_of vault))"
    and sr: "sr \<in> set (vault_records_of vault)" "record_hash (env_crypto env) sr = Inr h"
      "known (rec_body sr) = Some (RecordBodyV1.Secret v)"
    and id: "derive_secret_id (env_crypto env) (secret_selector v) = Inr (secret_id v)"
  shows "current_secret_record (vrep_effective report) (env_crypto env) (secret_selector v) = Inr (Some \<lparr>as_signed = sr, as_value = v\<rparr>)"
    and "\<not> es_authority_unresolved (vrep_effective report) \<Longrightarrow> can_read (authority_for_user (vrep_effective report) u) (secret_selector v) \<Longrightarrow>
      bt_contains_key (es_users (vrep_effective report)) u \<Longrightarrow> u \<in> recipient_id ` set (recipient_slots (secret_sealed v)) \<Longrightarrow>
      classify_secret_for_user (vrep_effective report) (env_crypto env) (secret_selector v) u = ActiveDecryptable"
proof -
  note winner = current_is_winner [OF valid current inj sr, of "secret_id v" "secret_selector v"]
  obtain w where w: "latest_authorized_secret_record (vrep_effective report) (secret_id v) = Some w" "vr_signed w = sr"
    "vr_body w = RecordBodyV1.Secret v" using winner(2) by auto
  have conflict: "bt_get (es_conflicted (vrep_effective report)) (RecordKey.Secret (secret_id v)) = None"
    using winner(1) by simp
  obtain root where "structurally_validate_record (env_crypto env) sr (RecordBodyV1.Secret v) root = Inr ()"
    using winner(3) by auto
  then have slots: "\<not> duplicate_slot {} (recipient_slots (secret_sealed v))"
    using id by (auto simp: structurally_validate_record_def and_then_Inr_iff recipient_slots_loop_iff duplicate_slot_iff split: if_splits)
  show "current_secret_record (vrep_effective report) (env_crypto env) (secret_selector v) = Inr (Some \<lparr>as_signed = sr, as_value = v\<rparr>)"
    using w conflict id by (simp add: current_secret_record_def secret_conflict_def live_secret_winner_def)
  show "classify_secret_for_user (vrep_effective report) (env_crypto env) (secret_selector v) u = ActiveDecryptable"
    if "\<not> es_authority_unresolved (vrep_effective report)" "can_read (authority_for_user (vrep_effective report) u) (secret_selector v)"
      "bt_contains_key (es_users (vrep_effective report)) u" "u \<in> recipient_id ` set (recipient_slots (secret_sealed v))"
    using that w conflict id slots
    by (auto simp: classify_secret_for_user_def secret_conflict_def live_secret_winner_def list_ex_iff)
qed

section \<open>Reading back a write\<close>

lemma signed_payload_Inr:
  assumes "signed_payload crypto signer body = Inr sr"
  shows "rec_body sr = body" and "rec_signing_public_key sr = signer_signing_public_key signer"
  using assms by (auto simp: signed_payload_def and_then_Inr_iff Let_def)

lemma secret_record_Inr:
  assumes "secret_record crypto signer selector sealed counter = Inr sr" and "derive_secret_id crypto selector = Inr i"
  shows "known (rec_body sr) = Some (RecordBodyV1.Secret
      \<lparr>secret_id = i, secret_selector = selector, secret_sealed = sealed, secret_counter = counter\<rparr>)"
    and "rec_signing_public_key sr = signer_signing_public_key signer"
proof -
  have "signed_payload crypto signer (Known (RecordBodyV1.Secret
      \<lparr>secret_id = i, secret_selector = selector, secret_sealed = sealed, secret_counter = counter\<rparr>)) = Inr sr"
    using assms by (simp add: secret_record_def secret_record_payload_def record_payload_def)
  from signed_payload_Inr [OF this]
  show "known (rec_body sr) = Some (RecordBodyV1.Secret
      \<lparr>secret_id = i, secret_selector = selector, secret_sealed = sealed, secret_counter = counter\<rparr>)"
    "rec_signing_public_key sr = signer_signing_public_key signer" by simp_all
qed

lemma set_secret_value_Inr:
  assumes run: "set_secret_value env draws writer selector val (s, d) = (Inr out, (s', d'))"
    and current: "up_to_date (sec_store env) s d"
  obtains i counter sealed sr h r verified where "derive_secret_id (sec_crypto env) selector = Inr i"
    "seal_secret_payload env draws (effective s) \<lparr>ctx_record_key = RecordKey.Secret i, ctx_signer_key = rec_signing_public_key sr,
       ctx_counter = counter, ctx_secret_id = i, ctx_selector = selector\<rparr> val = Inr sealed"
    "known (rec_body sr) = Some (RecordBodyV1.Secret
       \<lparr>secret_id = i, secret_selector = selector, secret_sealed = sealed, secret_counter = counter\<rparr>)"
    "record_hash (sec_crypto env) sr = Inr h" "sr \<in> set (vault_records_of (ls_vault s'))"
    "secret_record_is_current (vrep_effective (ls_report s')) h" "vrep_issues (ls_report s') = []"
    "validate_with (sec_store env) (ls_vault s') r verified = Inr (ls_report s')" "trusted_root r = session_root s"
    "can_write (authority_for_user (effective s) (identity_user writer)) selector"
proof -
  let ?signer = "identity_signer (sec_prims env) writer"
  have writable: "ensure_secret_writable (effective s) selector (identity_user writer) = Inr ()"
    and locked: "locked_set_secret_value env draws writer selector val (s, d) = (Inr out, (s', d'))"
    using run by (auto simp: set_secret_value_def split: sum.splits)
  obtain i where i: "derive_secret_id (sec_crypto env) selector = Inr i"
    using locked by (auto simp: locked_set_secret_value_def Let_def split: sum.splits)
  from locked have "commit_record (sec_store env) (draw_fault draws) (draw_seed draws)
    (\<lambda>pre_report counter.
     and_then (seal_secret_payload env draws (vrep_effective pre_report)
                 \<lparr>ctx_record_key = RecordKey.Secret i, ctx_signer_key = signer_signing_public_key ?signer,
                  ctx_counter = counter, ctx_secret_id = i, ctx_selector = selector\<rparr> val) (\<lambda>sealed.
     and_then (map_err Hazmat (secret_record (sec_crypto env) ?signer selector sealed counter)) (\<lambda>sr.
       Inr (sr, \<lparr>sso_secret_id = i, sso_selector = selector, sso_sealed = sealed\<rparr>))))
    (\<lambda>_ hash report. if secret_record_is_current (vrep_effective report) hash then Inr ()
           else Inl (OperationNotEffective ''secret value did not take effect'')) (s, d) = (Inr out, (s', d'))"
    using i by (auto simp: locked_set_secret_value_def Let_def split: sum.splits)
  then show thesis
  proof (rule commit_record_Inr, goal_cases)
    case (1 base counter sr h r verified)
    obtain p where base: "base = s\<lparr>ls_pending_transaction := p\<rparr>" using 1(10) current by blast
    obtain sealed where sealed: "seal_secret_payload env draws (effective s) \<lparr>ctx_record_key = RecordKey.Secret i,
        ctx_signer_key = signer_signing_public_key ?signer, ctx_counter = counter, ctx_secret_id = i, ctx_selector = selector\<rparr> val = Inr sealed"
      "secret_record (sec_crypto env) ?signer selector sealed counter = Inr sr"
      using 1(1) base by (auto simp: and_then_Inr_iff effective_def)
    note body = secret_record_Inr [OF sealed(2) i]
    show thesis
    proof (rule that [OF i _ body(1) 1(4)])
      show "secret_record_is_current (vrep_effective (ls_report s')) h" using 1(6) by (simp split: if_splits)
      show "sr \<in> set (vault_records_of (ls_vault s'))" unfolding 1(5) by (rule append_record_mem)
      show "can_write (authority_for_user (effective s) (identity_user writer)) selector"
        using writable by (auto simp: ensure_secret_writable_def split: if_splits)
      show "trusted_root r = session_root s" using 1(9) base by (simp add: session_root_def)
    qed (use sealed(1) body(2) 1(7,8) in simp_all)
  qed
qed

text \<open>
  The value that was sealed in a session and is in force in the next one reads back, for every
  reader of the selector at the time of the sealing.
\<close>

lemma written_value_reads:
  assumes laws: "aead_law (sec_prims env)" "hpke_law (sec_prims env) (keys_hpke (identity_keys reader))" "value_codec_law (sec_value env)"
    and draws: "length (content_key_bytes (draw_key draws)) = CONTENT_KEY_LEN"
      "length (content_nonce_bytes (draw_nonce draws)) = CONTENT_NONCE_LEN"
    and sound: "sound_session (sec_store env) s"
    and reader: "identity_user reader \<in> set (current_reader_entries (effective s) selector)"
    and key: "\<And>u. bt_get (es_users (effective s)) (identity_user reader) = Some u \<Longrightarrow>
      user_hpke_public_key u = hpke_public_key_bytes (keys_hpke (identity_keys reader))"
    and id: "derive_secret_id (sec_crypto env) selector = Inr i"
    and seal: "seal_secret_payload env draws (effective s) \<lparr>ctx_record_key = RecordKey.Secret i, ctx_signer_key = rec_signing_public_key sr,
       ctx_counter = counter, ctx_secret_id = i, ctx_selector = selector\<rparr> val = Inr sealed"
    and sr: "known (rec_body sr) = Some (RecordBodyV1.Secret
       \<lparr>secret_id = i, secret_selector = selector, secret_sealed = sealed, secret_counter = counter\<rparr>)"
      "record_hash (sec_crypto env) sr = Inr h" "sr \<in> set (vault_records_of (ls_vault s'))"
    and won: "secret_record_is_current (vrep_effective (ls_report s')) h" "vrep_issues (ls_report s') = []"
      "validate_with (sec_store env) (ls_vault s') r verified = Inr (ls_report s')" "trusted_root r = session_root s"
    and inj: "inj_on (record_hash (sec_crypto env)) (set (vault_records_of (ls_vault s')))"
  shows "\<exists>p. shows_value p selector val \<and> decrypt_secret_from_report env (ls_report s') reader selector = Inr p
       \<and> (bt_contains_key (es_users (effective s')) (identity_user reader)
           \<and> can_read (authority_for_user (effective s') (identity_user reader)) selector \<longrightarrow>
          get_secret env s' reader selector = Inr p)"
proof -
  obtain v0 r0 verified0 where s: "ls_vault s = VaultStore.V1 v0" "validate_with (sec_store env) (VaultStore.V1 v0) r0 verified0 = Inr (ls_report s)"
    "trusted_root r0 = session_root s"
    using sound by (cases "ls_vault s") (auto simp: sound_session_def)
  have root: "es_root_signing_public_key_hash (effective s) = Some (session_root s)"
    using seal report_root [OF s(2)] s(3) by (auto elim!: seal_secret_payload_Inr simp: effective_def)
  obtain v1 where v1: "ls_vault s' = VaultStore.V1 v1" by (cases "ls_vault s'")
  have resolved: "\<not> es_authority_unresolved (vrep_effective (ls_report s'))"
    "es_root_signing_public_key_hash (vrep_effective (ls_report s')) = Some (session_root s)"
    using report_resolved [OF won(3) [unfolded v1] won(2)] won(4) by simp_all
  let ?written = "\<lparr>secret_id = i, secret_selector = selector, secret_sealed = sealed, secret_counter = counter\<rparr>"
  obtain p where p: "decrypt_secret_record env reader sr ?written (session_root s) = Inr p" "shows_value p selector val"
    using sealed_opens [OF laws draws seal root key] reader by auto
  note now = current_value [OF won(3) won(1) inj sr(3,2,1), simplified, OF id]
  have found: "decrypt_secret_from_report env (ls_report s') reader selector = Inr p"
    using now(1) p(1) resolved(2) by (simp add: decrypt_secret_from_report_def effective_trusted_root_def)
  have slots: "identity_user reader \<in> recipient_id ` set (recipient_slots sealed)"
    using reader seal_slots_Inr seal by (metis SealContext.select_convs(5) seal_secret_payload_Inr set_map)
  have "get_secret env s' reader selector = Inr p"
    if "bt_contains_key (es_users (effective s')) (identity_user reader)"
      "can_read (authority_for_user (effective s') (identity_user reader)) selector"
    using now(2) [OF resolved(1), of "identity_user reader"] that slots found
    by (simp add: get_secret_def ensure_secret_decryptable_def effective_def)
  with p(2) found show ?thesis by blast
qed

section \<open>A secret to write\<close>

text \<open>Samples: a serialiser that tells the values apart, primitives that keep what they are given.\<close>

fun sample_serialize :: "CordValue \<Rightarrow> CordError + Bytes" where
  "sample_serialize (CvBody (Known (RecordBodyV1.Secret _))) = Inr [1]"
| "sample_serialize (CvBody _) = Inr [2]"
| "sample_serialize (CvRecord r) =
     (case rec_body r of
        Known (RecordBodyV1.Secret _) \<Rightarrow> Inr [3]
      | Known (RecordBodyV1.Group _) \<Rightarrow> Inr [9]
      | Known (RecordBodyV1.GroupDeleted _) \<Rightarrow> Inr [10]
      | Known (RecordBodyV1.GroupMember _) \<Rightarrow> Inr [11]
      | Known (RecordBodyV1.GroupMemberDeleted _) \<Rightarrow> Inr [12]
      | Known (RecordBodyV1.VaultHandle _) \<Rightarrow> Inr [13]
      | _ \<Rightarrow> Inr [4])"
| "sample_serialize (CvUserIdInput _) = Inr [5]"
| "sample_serialize (CvSelector _) = Inr [6]"
| "sample_serialize (CvBytes _) = Inr [7]"
| "sample_serialize _ = Inr [8]"

definition sample_prims :: Primitives where
  "sample_prims = \<lparr>sha256 = id, hmac_sha256 = (\<lambda>_. id), hkdf_expand = (\<lambda>_ _ _ _. None), ed25519_public = id,
     ed25519_sign = (\<lambda>_ _. [1]), ed25519_public_valid = (\<lambda>_. True), ed25519_verify_strict = (\<lambda>_ _ _. True),
     hpke_derive_keypair = (\<lambda>b. (b, b)), hpke_public_valid = (\<lambda>_. True), hpke_encapped_valid = (\<lambda>_. True),
     hpke_single_shot_seal = (\<lambda>rng _ _ m _. Inr (rng, m)), hpke_single_shot_open = (\<lambda>_ _ _ c _. Inr c),
     aead_encrypt = (\<lambda>_ _ m _. Some m), aead_decrypt = (\<lambda>_ _ c _. Some c)\<rparr>"

definition sample_provider :: CryptoProvider where
  "sample_provider = \<lparr>cord_serialize = sample_serialize, crypto_hash = (\<lambda>_ b. HashValue b), verify_signature = (\<lambda>_ _ _ _. True)\<rparr>"

definition sample_secrets_env :: SecretsEnv where
  "sample_secrets_env = \<lparr>sec_store = sample_session_env\<lparr>env_crypto := sample_provider,
       env_vault := \<lparr>cord_ser = (\<lambda>_. Inr [9]), cord_de = (\<lambda>_. Inl (CordError []))\<rparr>\<rparr>,
     sec_prims = sample_prims, sec_value = single_codec (from_primary [42]), sec_aad = (\<lambda>_. Inr []), sec_binding = (\<lambda>_. Inr [])\<rparr>"

definition sample_identity :: Identity where
  "sample_identity = \<lparr>identity_user = UserId (HashValue [5]),
     identity_keys = \<lparr>keys_signing = \<lparr>signing_secret = [1]\<rparr>, keys_hpke = \<lparr>hpke_private_key = [2], hpke_public_key_bytes = [2]\<rparr>\<rparr>,
     identity_signing_public_key = [1], identity_hpke_public_key = [2], identity_master_seed = []\<rparr>"

definition sample_draws :: Draws where
  "sample_draws = \<lparr>draw_fault = None, draw_seed = [], draw_key = ContentKey (replicate 32 0), draw_nonce = ContentNonce (replicate 12 0),
     draw_slot = (\<lambda>_. [])\<rparr>"

definition sample_selector :: SecretSelectorV1 where
  "sample_selector = selector_tuple [''db'']"

definition sample_secret_vault :: VaultStore where
  "sample_secret_vault = VaultStore.V1 \<lparr>vs_records = [\<lparr>rec_body = Known (RecordBodyV1.VaultRoot
     \<lparr>root_id = UserId (HashValue [5]), root_hpke_public_key = [2]\<rparr>), rec_signing_public_key = [1], rec_signature = []\<rparr>]\<rparr>"

definition sample_prepared :: "ValidationReport \<Rightarrow> LockedSession" where
  "sample_prepared report = (sample_session report)\<lparr>ls_vault := sample_secret_vault, ls_ratchet := ratchet_new (HashValue [7]),
     ls_persistence := Prepared\<rparr>"

definition sample_disk_free :: Disk where
  "sample_disk_free = (\<lambda>_. None)"

abbreviation sample_build :: "ValidationReport \<Rightarrow> u64 \<Rightarrow> OpsError + VaultRecordV1 \<times> SetSecretOutput" where
  "sample_build \<equiv> (\<lambda>pre_report counter.
     and_then (seal_secret_payload sample_secrets_env sample_draws (vrep_effective pre_report)
                 \<lparr>ctx_record_key = RecordKey.Secret (SecretId (HashValue [6])), ctx_signer_key = [1],
                  ctx_counter = counter, ctx_secret_id = SecretId (HashValue [6]), ctx_selector = sample_selector\<rparr> (from_primary [42])) (\<lambda>sealed.
     and_then (map_err Hazmat (secret_record sample_provider (identity_signer sample_prims sample_identity) sample_selector sealed counter)) (\<lambda>sr.
       Inr (sr, \<lparr>sso_secret_id = SecretId (HashValue [6]), sso_selector = sample_selector, sso_sealed = sealed\<rparr>))))"

abbreviation sample_effective :: "SetSecretOutput \<Rightarrow> HashValue \<Rightarrow> ValidationReport \<Rightarrow> OpsError + unit" where
  "sample_effective \<equiv> (\<lambda>_ hash report. if secret_record_is_current (vrep_effective report) hash then Inr ()
     else Inl (OperationNotEffective ''secret value did not take effect''))"

definition sample_update :: "(SetSecretOutput \<times> HashValue) Update" where
  "sample_update = (\<lambda>vault pre_report.
          let counter = max (next_counter (vrep_effective pre_report)) (rollback_counter_floor (vrep_effective pre_report)) in
          if counter > MAX_LWW_COUNTER then Inl CounterExhausted
          else and_then (sample_build pre_report counter) (\<lambda>(sr, output).
               and_then (map_err OpsError.Core (record_hash sample_provider sr)) (\<lambda>hash.
                 Inr ((output, hash), append_record vault sr))))"

definition sample_check :: "(SetSecretOutput \<times> HashValue) Check" where
  "sample_check = (\<lambda>(output, hash) report. if secret_record_is_current (vrep_effective report) hash then Inr ()
           else Inl (OperationNotEffective ''secret value did not take effect''))"

lemma sample_write:
  "case validate_with (sec_store sample_secrets_env) sample_secret_vault (ratchet_new (HashValue [7])) {} of
     Inl _ \<Rightarrow> False
   | Inr report \<Rightarrow> vrep_issues report = []
       \<and> ensure_secret_writable (vrep_effective report) sample_selector (identity_user sample_identity) = Inr ()
       \<and> identity_user sample_identity \<in> set (current_reader_entries (vrep_effective report) sample_selector)
       \<and> map_option user_hpke_public_key (bt_get (es_users (vrep_effective report)) (identity_user sample_identity)) = Some [2]
       \<and> (case successor (sec_store sample_secrets_env) sample_update sample_check (sample_prepared report) of
            Inl _ \<Rightarrow> False
          | Inr nx \<Rightarrow> distinct (map (record_hash sample_provider) (vault_records_of (suc_vault nx)))
              \<and> length (vault_records_of (suc_vault nx)) = 2
              \<and> bt_contains_key (es_users (vrep_effective (suc_report nx))) (identity_user sample_identity)
              \<and> can_read (authority_for_user (vrep_effective (suc_report nx)) (identity_user sample_identity)) sample_selector)"
  by code_simp
lemma sample_fields [simp]:
  "sec_prims sample_secrets_env = sample_prims" "env_crypto (sec_store sample_secrets_env) = sample_provider"
  "sec_value sample_secrets_env = single_codec (from_primary [42])"
  "env_vault (sec_store sample_secrets_env) = \<lparr>cord_ser = (\<lambda>_. Inr [9]), cord_de = (\<lambda>_. Inl (CordError []))\<rparr>"
  by (simp_all add: sample_secrets_env_def)

lemma sample_laws:
  "aead_law sample_prims" "hpke_law sample_prims keys" "value_codec_law (single_codec (from_primary [42]))"
  "length (content_key_bytes (draw_key sample_draws)) = CONTENT_KEY_LEN"
  "length (content_nonce_bytes (draw_nonce sample_draws)) = CONTENT_NONCE_LEN"
  by (auto simp: aead_law_def hpke_law_def value_codec_law_def sample_prims_def single_codec_def from_primary_def sample_draws_def
      CONTENT_KEY_LEN_def CONTENT_NONCE_LEN_def split: if_splits)

lemma sample_ids:
  "derive_secret_id sample_provider sample_selector = Inr (SecretId (HashValue [6]))"
  "ensure_identity_consistent sample_provider (identity_signer sample_prims sample_identity) = Inr (UserId (HashValue [5]))"
  by (simp_all add: derive_secret_id_def derive_hash_def canonical_bytes_def sample_provider_def ensure_identity_consistent_def
      derive_user_id_def identity_signer_def sample_identity_def)

lemma sample_secret_encodes: "length (vault_records_of v) = 2 \<Longrightarrow> \<exists>b. encode_vault \<lparr>cord_ser = (\<lambda>_. Inr [9]), cord_de = f\<rparr> v = Inr b"
  by (cases v) (simp add: encode_vault_def MAX_VAULT_RECORDS_def usize_saturating_add_def Let_def MAX_VAULT_BYTES_def VAULT_MAGIC_def)

lemma sample_closures:
  "sample_update = record_update (sec_store sample_secrets_env) sample_build" "sample_check = record_check sample_effective"
  by (simp_all add: fun_eq_iff sample_update_def sample_check_def record_update_def record_check_def Let_def)

lemma sample_run:
  assumes "vrep_issues report = []" and "ensure_secret_writable (vrep_effective report) sample_selector (identity_user sample_identity) = Inr ()"
    and nx: "successor (sec_store sample_secrets_env) sample_update sample_check (sample_prepared report) = Inr nx"
    and "length (vault_records_of (suc_vault nx)) = 2"
  obtains s' where "set_secret_value sample_secrets_env sample_draws sample_identity sample_selector (from_primary [42])
      (sample_prepared report, sample_disk_free) = (Inr (fst (suc_output nx)), (s', sample_disk_free))"
    "ls_vault s' = suc_vault nx" "ls_report s' = suc_report nx"
proof -
  obtain b where b: "encode_vault (env_vault (sec_store sample_secrets_env)) (suc_vault nx) = Inr b"
    using sample_secret_encodes [OF assms(4)] by auto
  let ?s = "sample_prepared report"
  let ?s' = "?s\<lparr>ls_vault_bytes := b, ls_vault := suc_vault nx, ls_ratchet := suc_ratchet nx, ls_report := suc_report nx\<rparr>"
  have rep: "ls_report ?s = report" "ls_persistence ?s = Prepared" "effective ?s = vrep_effective report"
    by (simp_all add: sample_prepared_def sample_session_def effective_def)
  have "commit_record (sec_store sample_secrets_env) None [] sample_build sample_effective (?s, sample_disk_free) =
      (Inr (fst (suc_output nx)), (?s', sample_disk_free))"
    using assms(1) nx b rep unfolding sample_closures by (intro prepared_commit_record) simp_all
  then have "set_secret_value sample_secrets_env sample_draws sample_identity sample_selector (from_primary [42])
      (?s, sample_disk_free) = (Inr (fst (suc_output nx)), (?s', sample_disk_free))"
    using assms(2) by (simp add: set_secret_value_def locked_set_secret_value_def Let_def rep sample_ids sample_draws_def)
      (simp add: identity_signer_def sample_identity_def)
  then show thesis by (rule that) simp_all
qed

lemma sample_seal:
  "case validate_with (sec_store sample_secrets_env) sample_secret_vault (ratchet_new (HashValue [7])) {} of
     Inl _ \<Rightarrow> False
   | Inr report \<Rightarrow>
       es_root_signing_public_key_hash (vrep_effective report) = Some (HashValue [7])
       \<and> (case seal_secret_payload sample_secrets_env sample_draws (vrep_effective report)
             \<lparr>ctx_record_key = RecordKey.Secret (SecretId (HashValue [6])), ctx_signer_key = [1], ctx_counter = 3,
              ctx_secret_id = SecretId (HashValue [6]), ctx_selector = sample_selector\<rparr> (from_primary [42]) of
            Inl _ \<Rightarrow> False | Inr _ \<Rightarrow> True)"
  by code_simp

lemma sample_hpke_key: "hpke_public_key_bytes (keys_hpke (identity_keys sample_identity)) = [2]"
  by (simp add: sample_identity_def)

section \<open>Properties\<close>

text \<open>
  C11. A sealed value opens for every reader and for nobody else. Sealing a value in a state wraps the
  content key for exactly the current readers of the selector; the record that carries the payload
  at the position it was sealed for (root, key, signer, counter, selector) decrypts for an identity
  among these readers, whose key is the one of its user record, to the primary value and to each
  field once, in the order of the keys; for any other identity it fails for want of a slot.
\<close>

theorem sealed_value_opens_for_readers_only:
  assumes "aead_law (sec_prims env)" "hpke_law (sec_prims env) (keys_hpke (identity_keys identity))" "value_codec_law (sec_value env)"
    and "length (content_key_bytes (draw_key draws)) = CONTENT_KEY_LEN" "length (content_nonce_bytes (draw_nonce draws)) = CONTENT_NONCE_LEN"
    and "seal_secret_payload env draws st
      \<lparr>ctx_record_key = RecordKey.Secret i, ctx_signer_key = rec_signing_public_key sr, ctx_counter = counter, ctx_secret_id = i,
       ctx_selector = selector\<rparr> val = Inr sealed"
    and "es_root_signing_public_key_hash st = Some root"
    and "\<And>u. bt_get (es_users st) (identity_user identity) = Some u \<Longrightarrow>
      user_hpke_public_key u = hpke_public_key_bytes (keys_hpke (identity_keys identity))"
  shows "let r = \<lparr>secret_id = i, secret_selector = selector, secret_sealed = sealed, secret_counter = counter\<rparr> in
    if identity_user identity \<in> set (current_reader_entries st selector)
    then \<exists>p. decrypt_secret_record env identity sr r root = Inr p \<and> shows_value p selector val
    else decrypt_secret_record env identity sr r root = Inl (RecipientSlotMissing (identity_user identity))"
  unfolding Let_def by (rule sealed_opens [OF assms])

theorem sealed_value_opens_for_readers_only_witness:
  "\<exists>sealed p. decrypt_secret_record sample_secrets_env sample_identity
      \<lparr>rec_body = Unknown [], rec_signing_public_key = [1], rec_signature = []\<rparr>
      \<lparr>secret_id = SecretId (HashValue [6]), secret_selector = sample_selector, secret_sealed = sealed, secret_counter = 3\<rparr> (HashValue [7]) = Inr p
     \<and> sp_plaintext p = [42]"
proof -
  obtain report where report: "validate_with (sec_store sample_secrets_env) sample_secret_vault (ratchet_new (HashValue [7])) {} = Inr report"
    using sample_write by (auto split: sum.splits)
  note facts = sample_write [unfolded report sum.case] and root = conjunct1 [OF sample_seal [unfolded report sum.case]]
  let ?sr = "\<lparr>rec_body = Unknown [], rec_signing_public_key = [1], rec_signature = []\<rparr> :: VaultRecordV1"
  obtain sealed where "seal_secret_payload sample_secrets_env sample_draws (vrep_effective report)
      \<lparr>ctx_record_key = RecordKey.Secret (SecretId (HashValue [6])), ctx_signer_key = rec_signing_public_key ?sr, ctx_counter = 3,
       ctx_secret_id = SecretId (HashValue [6]), ctx_selector = sample_selector\<rparr> (from_primary [42]) = Inr sealed"
    using sample_seal [unfolded report sum.case] by (auto split: sum.splits)
  from sealed_value_opens_for_readers_only [OF _ _ _ _ _ this root, of sample_identity] sample_laws facts
  have "\<exists>p. decrypt_secret_record sample_secrets_env sample_identity ?sr
      \<lparr>secret_id = SecretId (HashValue [6]), secret_selector = sample_selector, secret_sealed = sealed, secret_counter = 3\<rparr> (HashValue [7]) = Inr p
     \<and> shows_value p sample_selector (from_primary [42])"
    by (auto simp: Let_def sample_hpke_key)
  then show ?thesis by (auto simp: shows_value_def from_primary_def)
qed

text \<open>
  C10. A value that was set reads back. When a write on a current session returns, the writer had the
  authority to write the selector, and every reader of the selector finds the value in the session
  that is left: its report decrypts to the primary value and the fields, and the read operation
  returns it to whoever is still an effective user with read authority. The hypotheses are the laws
  of the primitives and the serialiser, draws of the right length, a session whose report is the
  validation of its vault under its root, and no two records of the vault with one hash.
\<close>

theorem set_secret_reads_back:
  assumes laws: "aead_law (sec_prims env)" "hpke_law (sec_prims env) (keys_hpke (identity_keys reader))" "value_codec_law (sec_value env)"
    and draws: "length (content_key_bytes (draw_key draws)) = CONTENT_KEY_LEN"
      "length (content_nonce_bytes (draw_nonce draws)) = CONTENT_NONCE_LEN"
    and sound: "sound_session (sec_store env) s" and current: "up_to_date (sec_store env) s d"
    and run: "set_secret_value env draws writer selector val (s, d) = (Inr out, (s', d'))"
    and inj: "inj_on (record_hash (sec_crypto env)) (set (vault_records_of (ls_vault s')))"
    and reader: "identity_user reader \<in> set (current_reader_entries (effective s) selector)"
    and key: "\<And>u. bt_get (es_users (effective s)) (identity_user reader) = Some u \<Longrightarrow>
      user_hpke_public_key u = hpke_public_key_bytes (keys_hpke (identity_keys reader))"
  shows "can_write (authority_for_user (effective s) (identity_user writer)) selector
    \<and> (\<exists>p. shows_value p selector val \<and> decrypt_secret_from_report env (ls_report s') reader selector = Inr p
       \<and> (bt_contains_key (es_users (effective s')) (identity_user reader)
           \<and> can_read (authority_for_user (effective s') (identity_user reader)) selector \<longrightarrow>
          get_secret env s' reader selector = Inr p))"
proof -
  from run current obtain i counter sealed sr h r verified where w: "derive_secret_id (sec_crypto env) selector = Inr i"
    "seal_secret_payload env draws (effective s) \<lparr>ctx_record_key = RecordKey.Secret i, ctx_signer_key = rec_signing_public_key sr,
       ctx_counter = counter, ctx_secret_id = i, ctx_selector = selector\<rparr> val = Inr sealed"
    "known (rec_body sr) = Some (RecordBodyV1.Secret
       \<lparr>secret_id = i, secret_selector = selector, secret_sealed = sealed, secret_counter = counter\<rparr>)"
    "record_hash (sec_crypto env) sr = Inr h" "sr \<in> set (vault_records_of (ls_vault s'))"
    "secret_record_is_current (vrep_effective (ls_report s')) h" "vrep_issues (ls_report s') = []"
    "validate_with (sec_store env) (ls_vault s') r verified = Inr (ls_report s')" "trusted_root r = session_root s"
    "can_write (authority_for_user (effective s) (identity_user writer)) selector"
    by (rule set_secret_value_Inr)
  from written_value_reads [OF laws draws sound reader key w(1-9) inj] w(10) show ?thesis by blast
qed

theorem set_secret_reads_back_witness:
  "\<exists>report out s' d' p. set_secret_value sample_secrets_env sample_draws sample_identity sample_selector (from_primary [42])
       (sample_prepared report, sample_disk_free) = (Inr out, (s', d'))
     \<and> get_secret sample_secrets_env s' sample_identity sample_selector = Inr p \<and> sp_plaintext p = [42]"
proof -
  obtain report where report: "validate_with (sec_store sample_secrets_env) sample_secret_vault (ratchet_new (HashValue [7])) {} = Inr report"
    using sample_write by (auto split: sum.splits)
  note facts = sample_write [unfolded report sum.case]
  obtain nx where nx: "successor (sec_store sample_secrets_env) sample_update sample_check (sample_prepared report) = Inr nx"
    using facts by (auto split: sum.splits)
  note after = facts [unfolded nx sum.case]
  obtain s' where run: "set_secret_value sample_secrets_env sample_draws sample_identity sample_selector (from_primary [42])
      (sample_prepared report, sample_disk_free) = (Inr (fst (suc_output nx)), (s', sample_disk_free))"
    and s': "ls_vault s' = suc_vault nx" "ls_report s' = suc_report nx"
    by (rule sample_run [OF _ _ nx]) (use after in auto)
  have eff: "effective (sample_prepared report) = vrep_effective report"
    by (simp add: sample_prepared_def sample_session_def effective_def)
  have sound: "sound_session (sec_store sample_secrets_env) (sample_prepared report)"
    unfolding sound_session_def using report
    by (intro exI [of _ "ratchet_new (HashValue [7])"] exI [of _ "{}"])
      (simp add: sample_prepared_def sample_session_def session_root_def ratchet_new_def)
  have current: "up_to_date (sec_store sample_secrets_env) (sample_prepared report) sample_disk_free"
    by (simp add: up_to_date_def sample_prepared_def)
  have inj: "inj_on (record_hash (sec_crypto sample_secrets_env)) (set (vault_records_of (ls_vault s')))"
    using after s' by (simp add: distinct_map)
  have "\<exists>p. shows_value p sample_selector (from_primary [42]) \<and> get_secret sample_secrets_env s' sample_identity sample_selector = Inr p"
    using set_secret_reads_back [OF _ _ _ _ _ sound current run inj, of sample_identity] sample_laws after s' unfolding eff
    by (auto simp: effective_def sample_hpke_key)
  with run show ?thesis by (auto simp: shows_value_def from_primary_def)
qed

end
