(* ===== verification/Thorax_Isolation.thy ===== *)
theory Thorax_Isolation
  imports Thorax_Secrets
begin

text \<open>
  Secrets and principals. Whatever secret records a vault holds, written by anybody, its users,
  groups, memberships, grants, handles and authorities are those of the vault without them: the
  value layer cannot be used to influence the authority layer. The theorem compares two vaults
  whose other records are the same, under one ratchet and one set of attested hashes, and follows
  the pipeline stage by stage.
\<close>

section \<open>The other records\<close>

fun is_secret_body :: "RecordBodyV1 \<Rightarrow> bool" where
  "is_secret_body (RecordBodyV1.Secret _) = True"
| "is_secret_body (RecordBodyV1.SecretDeleted _) = True"
| "is_secret_body _ = False"

definition is_secret_record :: "VaultRecordV1 \<Rightarrow> bool" where
  "is_secret_record sr \<longleftrightarrow> (\<exists>b. known (rec_body sr) = Some b \<and> is_secret_body b)"

abbreviation other_records :: "VaultRecordV1 list \<Rightarrow> VaultRecordV1 list" where
  "other_records \<equiv> filter (\<lambda>sr. \<not> is_secret_record sr)"

abbreviation other_hashed :: "HashedRecord list \<Rightarrow> HashedRecord list" where
  "other_hashed \<equiv> filter (\<lambda>hr. \<not> is_secret_record (fst hr))"

abbreviation others :: "VerifiedRecord list \<Rightarrow> VerifiedRecord list" where
  "others \<equiv> filter (\<lambda>r. \<not> is_secret_body (vr_body r))"

text \<open>The principals of a state: everything but conflicts, counters, records and the secret index.\<close>

definition principals :: "EffectiveState \<Rightarrow> EffectiveState" where
  "principals st = st\<lparr>es_conflicted := [], es_admitted_counter_max := None, es_verified_records := [], es_secret_index := []\<rparr>"

lemma principals_authority:
  assumes "principals st = principals st'"
  shows "authority_for_user st = authority_for_user st'" and "es_grants st = es_grants st'"
proof -
  have "es_authorities (principals st) = es_authorities (principals st')"
    "es_grants (principals st) = es_grants (principals st')" using assms by simp_all
  then show "authority_for_user st = authority_for_user st'" "es_grants st = es_grants st'"
    by (simp_all add: principals_def authority_for_user_def [abs_def])
qed

section \<open>Up to verification\<close>

lemma dedup_others:
  assumes "dedup_loop crypto (hash ` T) srs = Inr hrs" and "\<And>sr. sr \<in> set srs \<Longrightarrow> record_hash crypto sr = Inr (hash sr)"
    and "inj_on hash (T \<union> set srs)"
  shows "dedup_loop crypto (hash ` {sr \<in> T. \<not> is_secret_record sr}) (other_records srs) = Inr (other_hashed hrs)"
  using assms
proof (induction srs arbitrary: T hrs)
  case (Cons sr srs)
  let ?O = "\<lambda>T. {sr \<in> T. \<not> is_secret_record sr}"
  have h: "record_hash crypto sr = Inr (hash sr)" using Cons.prems(2) by simp
  have seen: "hash sr \<in> hash ` T \<longleftrightarrow> sr \<in> T"
    using Cons.prems(3) by (auto simp: inj_on_def)
  show ?case
  proof (cases "sr \<in> T")
    case True
    then have "dedup_loop crypto (hash ` T) srs = Inr hrs"
      using Cons.prems(1) h seen by simp
    from Cons.IH [OF this] Cons.prems True h show ?thesis
      by (auto simp: insert_absorb)
  next
    case False
    then obtain rest where rest: "dedup_loop crypto (hash ` insert sr T) srs = Inr rest" "hrs = (sr, hash sr) # rest"
      using Cons.prems(1) h seen by (auto simp: and_then_Inr_iff)
    have IH: "dedup_loop crypto (hash ` ?O (insert sr T)) (other_records srs) = Inr (other_hashed rest)"
      using Cons.prems(2,3) by (intro Cons.IH [OF rest(1)]) auto
    show ?thesis
    proof (cases "is_secret_record sr")
      case True
      then have "?O (insert sr T) = ?O T" by auto
      with IH True rest(2) show ?thesis by simp
    next
      case fresh: False
      then have "?O (insert sr T) = insert sr (?O T)" by auto
      moreover have "hash sr \<notin> hash ` ?O T" using seen False by auto
      ultimately show ?thesis
        using IH fresh rest(2) h by simp
    qed
  qed
qed simp

lemma is_secret_recordD: "is_secret_record sr \<Longrightarrow>
    (\<exists>r. known (rec_body sr) = Some (RecordBodyV1.Secret r)) \<or> (\<exists>r. known (rec_body sr) = Some (RecordBodyV1.SecretDeleted r))"
  unfolding is_secret_record_def by (metis is_secret_body.elims(2))

lemma root_matches_others: "root_matches crypto trusted verified (other_hashed hrs) = root_matches crypto trusted verified hrs"
  by (induction hrs) (auto dest!: is_secret_recordD simp: Let_def)

lemma map_filter_ignores: "(\<And>x. \<not> P x \<Longrightarrow> f x = None) \<Longrightarrow> List.map_filter f (filter P xs) = List.map_filter f xs"
  by (induction xs) (auto simp: List.map_filter_simps split: option.split)

lemma user_bodies_others: "user_bodies crypto (other_hashed hrs) = user_bodies crypto hrs"
  unfolding user_bodies_def by (rule map_filter_ignores) (auto dest!: is_secret_recordD)

lemma attested_others: "attested_loop crypto verified root_user (other_hashed hrs) = attested_loop crypto verified root_user hrs"
  by (induction hrs) (auto dest!: is_secret_recordD split: option.splits RecordBodyV1.splits)

lemma signing_keys_others: "signing_keys crypto verified root (other_hashed hrs) = signing_keys crypto verified root hrs"
  by (simp add: signing_keys_def user_bodies_others attested_others)

text \<open>The verified records of a vault are determined record by record.\<close>

definition verified_from ::
  "CryptoProvider \<Rightarrow> HashValue set \<Rightarrow> VaultRootRecordV1 \<Rightarrow> KeyResolution \<Rightarrow> HashedRecord \<Rightarrow> VerifiedRecord list" where
  "verified_from crypto verified root kr hr =
     (case known (rec_body (fst hr)) of
        None \<Rightarrow> []
      | Some body \<Rightarrow>
          if structurally_validate_record crypto (fst hr) body root \<noteq> Inr ()
             \<or> rec_signing_public_key (fst hr) \<in> contested_keys kr \<or> check_envelope crypto verified hr \<noteq> Inr True then []
          else case bt_get (signer_for_key kr) (rec_signing_public_key (fst hr)) of
                 None \<Rightarrow> []
               | Some signer \<Rightarrow>
                   (case record_key_for body signer of
                      Inl _ \<Rightarrow> []
                    | Inr key \<Rightarrow> [\<lparr>vr_signed = fst hr, vr_body = body, vr_key = key, vr_record_hash = snd hr, vr_signer = signer\<rparr>]))"

lemma verify_one:
  assumes "verify_records crypto verified root kr (hr # hrs) acc = Inr v"
  shows "\<exists>acc'. verify_records crypto verified root kr hrs acc' = Inr v
    \<and> verified_list acc' = verified_list acc @ verified_from crypto verified root kr hr"
proof (cases "known (rec_body (fst hr))")
  case None
  with assms show ?thesis
    by (intro exI [of _ "acc\<lparr>unknown_count := Suc (unknown_count acc)\<rparr>"]) (simp add: verified_from_def)
next
  case body: (Some body)
  show ?thesis
  proof (cases "structurally_validate_record crypto (fst hr) body root = Inr () \<and> rec_signing_public_key (fst hr) \<notin> contested_keys kr")
    case False
    with assms body show ?thesis
      by (cases "structurally_validate_record crypto (fst hr) body root") (auto simp: verified_from_def)
  next
    case True
    show ?thesis
    proof (cases "bt_get (signer_for_key kr) (rec_signing_public_key (fst hr))")
      case None
      with True assms body show ?thesis by (auto simp: verified_from_def and_then_Inr_iff)
    next
      case (Some signer)
      with True assms body show ?thesis
        by (auto simp: verified_from_def and_then_Inr_iff split: if_splits)
    qed
  qed
qed

lemma verify_records_concat:
  "verify_records crypto verified root kr hrs acc = Inr v \<Longrightarrow>
     verified_list v = verified_list acc @ concat (map (verified_from crypto verified root kr) hrs)"
proof (induction hrs arbitrary: acc)
  case (Cons hr hrs)
  then show ?case
    using verify_one [OF Cons.prems] by fastforce
qed simp

lemma verified_from_body:
  assumes "r \<in> set (verified_from crypto verified root kr hr)"
  shows "is_secret_body (vr_body r) \<longleftrightarrow> is_secret_record (fst hr)"
proof (cases "known (rec_body (fst hr))")
  case (Some body)
  then have "vr_body r = body"
    using assms by (auto simp: verified_from_def split: if_splits option.splits sum.splits)
  with Some show ?thesis by (simp add: is_secret_record_def)
qed (use assms in \<open>simp add: verified_from_def\<close>)

lemma others_concat:
  "others (concat (map (verified_from crypto verified root kr) hrs)) =
     concat (map (verified_from crypto verified root kr) (other_hashed hrs))"
proof (induction hrs)
  case (Cons hr hrs)
  have "others (verified_from crypto verified root kr hr) =
      (if is_secret_record (fst hr) then [] else verified_from crypto verified root kr hr)"
    using verified_from_body [of _ crypto verified root kr hr]
    by (auto simp: filter_empty_conv filter_id_conv)
  with Cons show ?case by simp
qed simp

section \<open>From verification on\<close>

lemma fold_ignores: "(\<And>x. \<not> P x \<Longrightarrow> f x = id) \<Longrightarrow> fold f xs = fold f (filter P xs)"
  by (induction xs) auto

text \<open>Two lists of verified records, with rollbacks, that differ in secrets only.\<close>

definition same_principals :: "VerifiedRecord list \<Rightarrow> RollbackKeys \<Rightarrow> VerifiedRecord list \<Rightarrow> RollbackKeys \<Rightarrow> bool" where
  "same_principals rs rb rs' rb' \<longleftrightarrow> others rs = others rs'
     \<and> list_all (\<lambda>r. bt_contains_key rb (vr_key r) = bt_contains_key rb' (vr_key r)) (others rs)"

lemma same_keys:
  "same_principals rs rb rs' rb' \<Longrightarrow> r \<in> set (others rs) \<Longrightarrow> bt_contains_key rb (vr_key r) = bt_contains_key rb' (vr_key r)"
  unfolding same_principals_def list_all_iff by blast

lemma lww_same:
  assumes "same_principals rs rb rs' rb'" and "\<And>r. is_secret_body (vr_body r) \<Longrightarrow> classify r = None"
  shows "lww_resolution rs rb classify = lww_resolution rs' rb' classify"
proof -
  have skip: "fold (lww_step b classify) l = fold (lww_step b classify) (others l)" for b l
    by (rule fold_ignores) (auto simp: lww_step_def assms(2))
  have "fold (lww_step rb classify) (others rs) [] = fold (lww_step rb' classify) (others rs) []"
    by (intro fold_cong refl ext) (simp add: lww_step_def same_keys [OF assms(1)])
  then have "lww_slots rs rb classify = lww_slots rs' rb' classify"
    unfolding lww_slots_def skip [of rb rs] skip [of rb' rs'] using assms(1) by (simp add: same_principals_def)
  then show ?thesis by (simp add: lww_resolution_def)
qed

lemma secret_unclassified:
  assumes "is_secret_body (vr_body r)"
  shows "classify_user u a d r = None" "classify_group a d r = None" "classify_membership a us gs r = None"
    "classify_grant a d us gs r = None" "classify_handle a us r = None" "classify_vault_handle a r = None"
    "classify_entry_point us r = None"
  using assms by (auto simp: classify_user_def classify_group_def classify_membership_def classify_grant_def
      classify_handle_def classify_vault_handle_def classify_entry_point_def elim!: is_secret_body.elims(2))

lemmas site_same = lww_same [OF _ secret_unclassified(1)] lww_same [OF _ secret_unclassified(2)]
  lww_same [OF _ secret_unclassified(3)] lww_same [OF _ secret_unclassified(4)] lww_same [OF _ secret_unclassified(5)]
  lww_same [OF _ secret_unclassified(6)] lww_same [OF _ secret_unclassified(7)]

lemma select_same:
  "same_principals rs rb rs' rb' \<Longrightarrow>
     select_authorized_records rs ru eps d rb = select_authorized_records rs' ru eps d rb'"
  by (rule ext) (simp add: select_authorized_records_def site_same [of rs rb rs' rb'])

lemma map_filter_cong: "(\<And>x. x \<in> set xs \<Longrightarrow> f x = g x) \<Longrightarrow> List.map_filter f xs = List.map_filter g xs"
  by (induction xs) (auto simp: List.map_filter_simps split: option.split)

lemma entry_points_same:
  assumes "same_principals rs rb rs' rb'"
  shows "entry_point_user_ids rs rb = entry_point_user_ids rs' rb'"
proof -
  let ?f = "\<lambda>rb r. if bt_contains_key rb (vr_key r) then None else
    (case (vr_key r, vr_body r) of (RecordKey.EntryPoint uid, RecordBodyV1.EntryPoint _) \<Rightarrow> Some uid | _ \<Rightarrow> None)"
  have ids: "entry_point_user_ids l b = List.map_filter (?f b) (others l)" for l b
  proof -
    have "entry_point_user_ids l b = List.map_filter (?f b) l"
      unfolding entry_point_user_ids_def by (induction l) (auto simp: List.map_filter_simps split: option.split)
    also have "\<dots> = List.map_filter (?f b) (others l)"
      by (rule map_filter_ignores [symmetric]) (auto split: RecordKey.splits elim!: is_secret_body.elims(2))
    finally show ?thesis .
  qed
  have "List.map_filter (?f rb) (others rs) = List.map_filter (?f rb') (others rs)"
    by (intro map_filter_cong) (simp add: same_keys [OF assms])
  then show ?thesis
    using assms by (simp add: ids same_principals_def)
qed

lemma compute_same:
  assumes "same_principals rs rb rs' rb'"
  shows "principals (compute_effective_state crypto ru h rs d rb) = principals (compute_effective_state crypto ru h rs' d rb')"
  using assms
  by (simp add: compute_effective_state_def entry_points_same [of rs rb rs' rb'] select_same [of rs rb rs' rb']
      site_same [of rs rb rs' rb'] principals_def Let_def case_prod_beta)

lemma deletion_candidates_others: "deletion_candidates rs = deletion_candidates (others rs)"
proof -
  have "filter (\<lambda>r. is_graph_deletion (vr_body r)) rs = filter (\<lambda>r. is_graph_deletion (vr_body r)) (others rs)"
    by (induction rs) (auto elim!: is_secret_body.elims(2))
  then show ?thesis by (simp add: deletion_candidates_def)
qed

lemma deletion_authorized_principals:
  "principals st = principals st' \<Longrightarrow> deletion_authorized st r = deletion_authorized st' r"
  using principals_authority [of st st'] by (cases "vr_body r") (simp_all add: deletion_authorized_def grant_deleted_authorized_def)

lemma deletion_loop_same:
  assumes "\<And>d. principals (compute d) = principals (compute' d)"
  shows "principals (fst (deletion_loop compute cs d)) = principals (fst (deletion_loop compute' cs d))
    \<and> snd (deletion_loop compute cs d) = snd (deletion_loop compute' cs d)"
  using assms
proof (induction compute cs d rule: deletion_loop.induct)
  case (1 compute cs d)
  have "newly_admitted (compute d) d cs = newly_admitted (compute' d) d cs"
    by (simp add: newly_admitted_def deletion_authorized_principals [OF 1(2)])
  with 1 show ?case
    by (auto simp: deletion_loop.simps [of compute cs d] deletion_loop.simps [of compute' cs d] split: option.splits)
qed

lemma resolve_same:
  assumes "same_principals rs rb rs' rb'"
  shows "principals (fst (resolve_effective_with_deletions crypto root rs rb)) =
      principals (fst (resolve_effective_with_deletions crypto root rs' rb'))
    \<and> snd (resolve_effective_with_deletions crypto root rs rb) = snd (resolve_effective_with_deletions crypto root rs' rb')"
proof -
  have "deletion_candidates rs = deletion_candidates rs'"
    using assms deletion_candidates_others by (metis same_principals_def)
  then show ?thesis
    unfolding resolve_effective_with_deletions_def by (simp only: deletion_loop_same [OF compute_same [OF assms]])
qed

section \<open>Watermarks and rollbacks\<close>

fun is_secret_key :: "RecordKey \<Rightarrow> bool" where
  "is_secret_key (RecordKey.Secret _) = True"
| "is_secret_key _ = False"

lemma keyed_secret: "keyed r \<Longrightarrow> is_secret_key (vr_key r) \<longleftrightarrow> is_secret_body (vr_body r)"
  by (cases "vr_body r") (auto simp: keyed_def dest!: sym [of _ "vr_key r"])

lemma rollback_contains:
  "bt_contains_key (rollback_keys_of ratchet cur) k \<longleftrightarrow> (\<exists>c. (k, c) \<in> set (watermarks ratchet) \<and> get_or_zero cur k < c)"
proof -
  have "bt_contains_key (fold (\<lambda>(key, c) m. if get_or_zero cur key < c then bt_insert key c m else m) ps m) k
      \<longleftrightarrow> bt_contains_key m k \<or> (\<exists>c. (k, c) \<in> set ps \<and> get_or_zero cur k < c)" for ps m
    by (induction ps arbitrary: m) (auto simp: bt_contains_key_def bt.get_insert split: if_splits)
  then show ?thesis
    by (simp add: rollback_keys_of_def bt_contains_key_def bt.get_empty)
qed

lemma attested_users_others: "attested_users rs = attested_users (others rs)"
proof -
  have "filter (\<lambda>r. case vr_body r of RecordBodyV1.EntryPoint _ \<Rightarrow> True | _ \<Rightarrow> False) rs =
      filter (\<lambda>r. case vr_body r of RecordBodyV1.EntryPoint _ \<Rightarrow> True | _ \<Rightarrow> False) (others rs)"
    by (induction rs) (auto elim!: is_secret_body.elims(2))
  then show ?thesis by (simp add: attested_users_def)
qed

lemma admitted_principals: "principals st = principals st' \<Longrightarrow> is_admitted a st d r = is_admitted a st' d r"
  by (simp add: is_admitted_def principals_authority(1) [of st st'])

lemma counters_others:
  assumes "list_all keyed rs" and "\<not> is_secret_key k"
  shows "admitted_counters a st d rs k = admitted_counters a st d (others rs) k"
  using assms by (auto simp: admitted_counters_def list_all_iff dest: keyed_secret)

lemma watermarks_same:
  assumes "others rs = others rs'" and "list_all keyed rs" and "list_all keyed rs'"
    and "principals st = principals st'" and "\<not> is_secret_key k"
  shows "bt_get (fst (admitted_watermarks rs st d)) k = bt_get (fst (admitted_watermarks rs' st' d)) k"
proof -
  have "attested_users rs = attested_users rs'"
    using attested_users_others assms(1) by metis
  moreover have "admitted_counters a st d rs k = admitted_counters a st' d rs' k" for a
    unfolding counters_others [OF assms(2,5)] counters_others [OF assms(3,5)] assms(1)
    by (simp add: admitted_counters_def admitted_principals [OF assms(4)])
  ultimately show ?thesis by (simp add: admitted_watermarks_get)
qed

section \<open>Two vaults with the same principals\<close>

lemma attach_principals: "principals (attach_verified_records (st\<lparr>es_conflicted := c\<rparr>) rs m) = principals st"
  by (simp add: principals_def attach_verified_records_def Let_def)

lemma settle_same:
  assumes same: "others rs = others rs'" and keyed: "list_all keyed rs" "list_all keyed rs'"
    and settled: "settle_v1 crypto ratchet root rs = (eff, upd, iss)" "settle_v1 crypto ratchet root rs' = (eff', upd', iss')"
  shows "principals eff = principals eff' \<and> iss = iss'"
proof -
  obtain wm rb eff0 where parts: "settled_rollbacks crypto ratchet root rs = (wm, rb, eff0)" by (metis prod_cases3)
  obtain wm' rb' eff0' where parts': "settled_rollbacks crypto ratchet root rs' = (wm', rb', eff0')" by (metis prod_cases3)
  have "same_principals rs [] rs' []"
    using same by (simp add: same_principals_def list_all_iff)
  note provisional = resolve_same [OF this, of crypto root]
  have "same_principals rs rb rs' rb'"
    unfolding same_principals_def list_all_iff
  proof (intro conjI same ballI)
    fix r assume r: "r \<in> set (others rs)"
    then have "\<not> is_secret_key (vr_key r)"
      using keyed(1) by (auto simp: list_all_iff keyed_secret)
    with provisional have "bt_get (fst wm) (vr_key r) = bt_get (fst wm') (vr_key r)"
      using parts parts' watermarks_same [OF same keyed] by (auto simp: settled_rollbacks_def Let_def)
    then show "bt_contains_key rb (vr_key r) = bt_contains_key rb' (vr_key r)"
      unfolding settle_v1_parts(4) [OF settled(1) parts] settle_v1_parts(4) [OF settled(2) parts']
      by (simp add: rollback_contains get_or_zero_def)
  qed
  then have eq: "principals eff0 = principals eff0'"
    unfolding settle_v1_parts(5) [OF settled(1) parts] settle_v1_parts(5) [OF settled(2) parts'] using resolve_same by blast
  have "es_authority_unresolved (principals eff0) = es_authority_unresolved (principals eff0')" using eq by simp
  then have "es_authority_unresolved eff0 = es_authority_unresolved eff0'" by (simp add: principals_def)
  with eq show ?thesis
    unfolding settle_v1_parts(1,3) [OF settled(1) parts] settle_v1_parts(1,3) [OF settled(2) parts'] attach_principals by simp
qed

lemma validate_v1_roots:
  assumes "validate_v1 crypto ratchet verified vault = Inr report" and "dedup_loop crypto {} (vs_records vault) = Inr hrs"
  obtains (none) "\<And>root. root_matches crypto (trusted_root ratchet) verified hrs \<noteq> Inr [root]"
      "vrep_effective report = unresolved_state"
  | (one) root kr v eff upd iss where "root_matches crypto (trusted_root ratchet) verified hrs = Inr [root]"
      "signing_keys crypto verified root hrs = Inr kr"
      "verify_records crypto verified (selected_root root) kr hrs
         \<lparr>verified_list = [], verification_issues = [], unknown_count = 0\<rparr> = Inr v"
      "settle_v1 crypto ratchet root (verified_list v) = (eff, upd, iss)" "vrep_effective report = eff"
proof (cases "\<exists>root. root_matches crypto (trusted_root ratchet) verified hrs = Inr [root]")
  case False
  moreover obtain ms where ms: "root_matches crypto (trusted_root ratchet) verified hrs = Inr ms"
    using assms by (auto simp: validate_v1_def select_root_def and_then_Inr_iff)
  ultimately consider "ms = []" | m m' ms' where "ms = m # m' # ms'"
    by (metis neq_Nil_conv)
  then have "vrep_effective report = unresolved_state"
    by cases (use assms ms in \<open>auto simp: validate_v1_def select_root_def\<close>)
  with False none show thesis by blast
next
  case True
  then obtain root where root: "root_matches crypto (trusted_root ratchet) verified hrs = Inr [root]" by blast
  then obtain kr v where kr: "signing_keys crypto verified root hrs = Inr kr"
    "verify_records crypto verified (selected_root root) kr hrs
       \<lparr>verified_list = [], verification_issues = [], unknown_count = 0\<rparr> = Inr v"
    "vrep_effective report = fst (settle_v1 crypto ratchet root (verified_list v))"
    using assms by (auto simp: validate_v1_def select_root_def and_then_Inr_iff case_prod_beta)
  obtain eff upd iss where "settle_v1 crypto ratchet root (verified_list v) = (eff, upd, iss)" by (metis prod_cases3)
  with root kr one show thesis by simp
qed

lemma validate_v1_same:
  assumes same: "other_records (vs_records vault) = other_records (vs_records vault')"
    and hashes: "\<And>sr. sr \<in> set (vs_records vault) \<union> set (vs_records vault') \<Longrightarrow> record_hash crypto sr = Inr (hash sr)"
    and inj: "inj_on hash (set (vs_records vault) \<union> set (vs_records vault'))"
    and reports: "validate_v1 crypto ratchet verified vault = Inr report" "validate_v1 crypto ratchet verified vault' = Inr report'"
  shows "principals (vrep_effective report) = principals (vrep_effective report')"
proof -
  obtain hrs where hrs: "dedup_loop crypto {} (vs_records vault) = Inr hrs"
    using reports(1) by (auto simp: validate_v1_def and_then_Inr_iff)
  obtain hrs' where hrs': "dedup_loop crypto {} (vs_records vault') = Inr hrs'"
    using reports(2) by (auto simp: validate_v1_def and_then_Inr_iff)
  have "dedup_loop crypto {} (other_records (vs_records vault)) = Inr (other_hashed hrs)"
    using dedup_others [of crypto hash "{}" "vs_records vault" hrs] hrs hashes inj_on_subset [OF inj] by simp
  moreover have "dedup_loop crypto {} (other_records (vs_records vault')) = Inr (other_hashed hrs')"
    using dedup_others [of crypto hash "{}" "vs_records vault'" hrs'] hrs' hashes inj_on_subset [OF inj] by simp
  ultimately have eq: "other_hashed hrs = other_hashed hrs'" using same by simp
  have roots: "root_matches crypto t verified hrs = root_matches crypto t verified hrs'" for t
    using root_matches_others eq by metis
  have keys: "signing_keys crypto verified root hrs = signing_keys crypto verified root hrs'" for root
    using signing_keys_others eq by metis
  from reports(1) hrs show ?thesis
  proof (cases rule: validate_v1_roots)
    case none
    from reports(2) hrs' show ?thesis
      by (cases rule: validate_v1_roots) (use none roots in auto)
  next
    case (one root kr v eff upd iss)
    note first = this
    from reports(2) hrs' show ?thesis
    proof (cases rule: validate_v1_roots)
      case none
      with first roots show ?thesis by metis
    next
      case (one root' kr' v' eff' upd' iss')
      then have eqs: "root' = root" "kr' = kr" using first roots keys by auto
      have lists: "others (verified_list v) = others (verified_list v')"
        using verify_records_concat [OF first(3)] verify_records_concat [OF one(3)] eqs eq
        by (simp add: others_concat)
      show ?thesis
        using settle_same [OF lists verified_list_ok(3) [OF hrs first(3)] verified_list_ok(3) [OF hrs' one(3)]
            first(4) one(4) [unfolded eqs]] first(5) one(5) by simp
    qed
  qed
qed

lemma validate_same:
  assumes same: "other_records (vault_records_of vault) = other_records (vault_records_of vault')"
    and inj: "inj_on (record_hash crypto) (set (vault_records_of vault) \<union> set (vault_records_of vault'))"
    and reports: "validate_vault_with_verified crypto vault ratchet verified = Inr report"
      "validate_vault_with_verified crypto vault' ratchet verified = Inr report'"
  shows "principals (vrep_effective report) = principals (vrep_effective report')"
proof (cases "format_version vault < ratchet_format_version ratchet")
  case True
  with reports show ?thesis
    by (cases vault; cases vault') (simp add: validate_vault_with_verified_def)
next
  case False
  obtain v v' where v: "vault = VaultStore.V1 v" "vault' = VaultStore.V1 v'" by (cases vault; cases vault')
  obtain rep rep' where reps: "validate_v1 crypto ratchet verified v = Inr rep" "vrep_effective report = vrep_effective rep"
    "validate_v1 crypto ratchet verified v' = Inr rep'" "vrep_effective report' = vrep_effective rep'"
    using reports False v by (auto simp: validate_vault_with_verified_def Let_def and_then_Inr_iff split: if_splits)
  let ?hash = "\<lambda>sr. projr (record_hash crypto sr)"
  have hashes: "record_hash crypto sr = Inr (?hash sr)" if "sr \<in> set (vs_records v) \<union> set (vs_records v')" for sr
    using that reps(1,3) dedup_loop_covers by (fastforce simp: validate_v1_def and_then_Inr_iff)
  moreover have "inj_on (record_hash crypto) (set (vs_records v) \<union> set (vs_records v'))"
    using inj v by simp
  then have "inj_on ?hash (set (vs_records v) \<union> set (vs_records v'))"
    using hashes by (intro inj_onI) (metis inj_onD)
  ultimately show ?thesis
    using validate_v1_same [OF _ _ _ reps(1,3), of ?hash] same v reps(2,4) by simp
qed

text \<open>
  C12. Secrets do not touch authority. Two vaults with the same records apart from secret values and
  secret tombstones, validated under one ratchet and one set of attested hashes, have the same root,
  users, deleted users, groups, memberships, grants, handles and entry points, give every principal
  the same authority, and agree on whether the authority is resolved, whoever wrote the secrets and
  whether they are valid. The hypothesis is that no two records of the vaults share a hash.
\<close>

theorem secrets_do_not_affect_principals:
  assumes same: "other_records (vault_records_of vault) = other_records (vault_records_of vault')"
    and inj: "inj_on (record_hash crypto) (set (vault_records_of vault) \<union> set (vault_records_of vault'))"
    and reports: "validate_vault_with_verified crypto vault ratchet verified = Inr report"
      "validate_vault_with_verified crypto vault' ratchet verified = Inr report'"
  shows "principals (vrep_effective report) = principals (vrep_effective report')
    \<and> authority_for_user (vrep_effective report) = authority_for_user (vrep_effective report')"
  using validate_same [OF assms] principals_authority(1) by blast

definition sample_stray_secret :: VaultRecordV1 where
  "sample_stray_secret = \<lparr>rec_body = Known (RecordBodyV1.Secret \<lparr>secret_id = SecretId (HashValue [6]),
     secret_selector = sample_selector, secret_sealed = \<lparr>sealed_nonce = [], sealed_ciphertext = [], recipient_slots = []\<rparr>,
     secret_counter = 3\<rparr>), rec_signing_public_key = [1], rec_signature = []\<rparr>"

lemma sample_two_vaults:
  "case (validate_vault_with_verified sample_provider sample_secret_vault (ratchet_new (HashValue [7])) {},
         validate_vault_with_verified sample_provider (append_record sample_secret_vault sample_stray_secret) (ratchet_new (HashValue [7])) {}) of
     (Inr r, Inr r') \<Rightarrow> map fst (es_users (vrep_effective r)) = [UserId (HashValue [5])] 
   | _ \<Rightarrow> False"
  by code_simp

theorem secrets_do_not_affect_principals_witness:
  "\<exists>report. validate_vault_with_verified sample_provider (append_record sample_secret_vault sample_stray_secret)
       (ratchet_new (HashValue [7])) {} = Inr report
     \<and> map fst (es_users (vrep_effective report)) = [UserId (HashValue [5])]"
proof -
  obtain r r' where r: "validate_vault_with_verified sample_provider sample_secret_vault (ratchet_new (HashValue [7])) {} = Inr r"
    "validate_vault_with_verified sample_provider (append_record sample_secret_vault sample_stray_secret) (ratchet_new (HashValue [7])) {} = Inr r'"
    "map fst (es_users (vrep_effective r)) = [UserId (HashValue [5])]"
    using sample_two_vaults by (auto split: sum.splits)
  let ?v = sample_secret_vault and ?v' = "append_record sample_secret_vault sample_stray_secret"
  have "inj_on (record_hash sample_provider) (set (vault_records_of ?v) \<union> set (vault_records_of ?v'))"
    by (auto simp: inj_on_def sample_secret_vault_def sample_stray_secret_def append_record_def record_hash_def derive_hash_def
        canonical_bytes_def sample_provider_def)
  moreover have "other_records (vault_records_of ?v) = other_records (vault_records_of ?v')"
    by (simp add: sample_secret_vault_def sample_stray_secret_def is_secret_record_def append_record_def)
  ultimately have "principals (vrep_effective r) = principals (vrep_effective r')"
    using secrets_do_not_affect_principals [OF _ _ r(1,2)] by blast
  then have "es_users (principals (vrep_effective r)) = es_users (principals (vrep_effective r'))" by simp
  then show ?thesis using r by (auto simp: principals_def)
qed

end
