(* ===== verification/Thorax_Principals.thy ===== *)
theory Thorax_Principals
  imports Thorax_Isolation
begin

text \<open>
  File: \<open>crates/thorax-ops/src/principals.rs\<close>. Users, handles, groups, memberships and grants: each
  change is a record signed by the actor and committed through the session, with a check that it
  became effective. Deleting a user or a group writes a tombstone for it and one for every
  membership and grant that hangs off it, in that order and with rising counters.

  \<open>locked_\<close> marks a method of \<open>LockedSession\<close>, which signs as it is told, and \<open>unlocked_\<close> the method
  of \<open>UnlockedSession\<close> with the same name, which checks the authority of its identity first.

  The theorems show that none of the twelve operations of an unlocked session on secrets and
  principals changes anything without the authority it needs, that each one takes effect when it
  returns, and what a deletion cascade appends.
\<close>

section \<open>References and handles\<close>

datatype UserRef = IdRef UserId | HandleRef string

record ResolvedUserRef =
  resolved_user_id :: UserId
  resolved_handle :: "string option"

definition HANDLE_CHARSET_REASON :: string where
  "HANDLE_CHARSET_REASON = (let dash = [CHR 0xE2, CHR 0x80, CHR 0x93] in
     ''handle must be 1'' @ dash @ ''64 chars of a'' @ dash @ ''z, 0'' @ dash @
     ''9, '' @ [CHR 0x27, CHR 0x2D, CHR 0x27] @ '', '' @ [CHR 0x27, CHR 0x5F, CHR 0x27] @
     '', starting and ending with a letter or digit'')"

definition normalize_user_handle :: "string \<Rightarrow> OpsError + string" where
  "normalize_user_handle original =
     (let normalized = normalize_handle original in
      if \<not> is_valid_handle normalized then Inl (InvalidUserHandle original HANDLE_CHARSET_REASON) else Inr normalized)"

definition normalize_vault_handle :: "string \<Rightarrow> OpsError + string" where
  "normalize_vault_handle original =
     (let normalized = normalize_handle original in
      if \<not> is_valid_handle normalized then Inl (InvalidVaultHandle original HANDLE_CHARSET_REASON) else Inr normalized)"

definition normalize_group_handle :: "string \<Rightarrow> OpsError + string" where
  "normalize_group_handle original =
     (let normalized = normalize_handle original in
      if \<not> is_valid_handle normalized then Inl (InvalidGroupHandle original HANDLE_CHARSET_REASON) else Inr normalized)"

text \<open>\<open>Iterator::min_by\<close>: the first of the smallest elements.\<close>

fun min_by_key :: "('a \<Rightarrow> 'b::linorder) \<Rightarrow> 'a list \<Rightarrow> 'a option" where
  "min_by_key f [] = None"
| "min_by_key f (x # xs) = Some (foldl (\<lambda>best y. if f y < f best then y else best) x xs)"

definition primary_handle_for_user :: "ValidationReport \<Rightarrow> UserId \<Rightarrow> UserHandleRecordV1 option" where
  "primary_handle_for_user report user =
     min_by_key (\<lambda>r. normalize_handle (uh_handle r))
       (filter (\<lambda>r. uh_user_id r = user) (bt_values (es_handles (vrep_effective report))))"

definition primary_vault_handle :: "ValidationReport \<Rightarrow> VaultHandleRecordV1 option" where
  "primary_vault_handle report =
     min_by_key (\<lambda>r. normalize_handle (vh_handle r)) (bt_values (es_vault_handles (vrep_effective report)))"

definition resolve_user_ref :: "CryptoProvider \<Rightarrow> ValidationReport \<Rightarrow> UserRef \<Rightarrow> OpsError + ResolvedUserRef" where
  "resolve_user_ref crypto report reference =
     (case reference of
        IdRef user \<Rightarrow>
          if \<not> bt_contains_key (es_users (vrep_effective report)) user then Inl (MissingUser user)
          else Inr \<lparr>resolved_user_id = user,
                    resolved_handle = map_option (\<lambda>r. normalize_handle (uh_handle r)) (primary_handle_for_user report user)\<rparr>
      | HandleRef original \<Rightarrow>
          and_then (normalize_user_handle original) (\<lambda>handle.
          and_then (map_err OpsError.Core (derive_user_handle_id crypto handle)) (\<lambda>handle_id.
          case bt_get (es_handles (vrep_effective report)) handle_id of
            None \<Rightarrow> Inl (UserHandleNotFound handle)
          | Some r \<Rightarrow>
              if \<not> bt_contains_key (es_users (vrep_effective report)) (uh_user_id r)
              then Inl (UserHandleTargetMissing handle (uh_user_id r))
              else Inr \<lparr>resolved_user_id = uh_user_id r, resolved_handle = Some (normalize_handle (uh_handle r))\<rparr>)))"

section \<open>Authority of the actor\<close>

definition ensure_administer :: "EffectiveState \<Rightarrow> UserId \<Rightarrow> OpsError + unit" where
  "ensure_administer st user =
     (if \<not> bt_contains_key (es_users st) user then Inl (MissingUser user)
      else if es_authority_unresolved st \<or> \<not> auth_administer (authority_for_user st user) then Inl (AdministerRequired user)
      else Inr ())"

definition ensure_can_confer_group :: "EffectiveState \<Rightarrow> UserId \<Rightarrow> GroupId \<Rightarrow> OpsError + unit" where
  "ensure_can_confer_group st actor grp =
     (if list_ex (\<lambda>permission. \<not> can_create_permission (authority_for_user st actor) permission)
           (as_grant_permissions (authority_for_group st grp))
      then Inl (CannotConferGroupAuthority actor) else Inr ())"

definition ensure_can_create_permission :: "EffectiveState \<Rightarrow> UserId \<Rightarrow> GrantPermissionV1 \<Rightarrow> OpsError + unit" where
  "ensure_can_create_permission st user permission =
     (if \<not> bt_contains_key (es_users st) user then Inl (MissingUser user)
      else if es_authority_unresolved st \<or> \<not> can_create_permission (authority_for_user st user) permission
      then Inl (OperationNotEffective ''user cannot grant this permission'')
      else Inr ())"

definition ensure_principal_exists :: "EffectiveState \<Rightarrow> PrincipalRefV1 \<Rightarrow> OpsError + unit" where
  "ensure_principal_exists st who =
     (case who of
        PrincipalRefV1.User user \<Rightarrow> if bt_contains_key (es_users st) user then Inr () else Inl (MissingUser user)
      | PrincipalRefV1.Group grp \<Rightarrow>
          if bt_contains_key (es_groups st) grp then Inr () else Inl (OperationNotEffective ''group is not active''))"

section \<open>Operations of a locked session\<close>

text \<open>The check that an operation became effective.\<close>

definition effective_or :: "string \<Rightarrow> bool \<Rightarrow> OpsError + unit" where
  "effective_or reason ok = (if ok then Inr () else Inl (OperationNotEffective reason))"

definition locked_add_user :: "StoreEnv \<Rightarrow> Draws \<Rightarrow> RecordSigner \<Rightarrow> RecordSigner \<Rightarrow> UserId SessionOp" where
  "locked_add_user env draws admin user =
     (let crypto = env_crypto env in
      op_then (op_read (\<lambda>_. map_err Hazmat (ensure_identity_consistent crypto admin))) (\<lambda>_.
      op_then (op_read (\<lambda>_. map_err Hazmat (ensure_identity_consistent crypto user))) (\<lambda>uid.
      commit env (draw_fault draws) (draw_seed draws)
        (\<lambda>vault report.
           let counter = next_counter (vrep_effective report) in
           and_then (map_err Hazmat (user_record crypto admin (signer_signing_public_key user)
                       (signer_hpke_public_key user) counter)) (\<lambda>added.
           case es_root_user_id (vrep_effective report) of
             None \<Rightarrow> Inl MissingEffectiveRoot
           | Some root_user \<Rightarrow>
               and_then (map_err Hazmat (entry_point_record crypto user root_user counter)) (\<lambda>entry.
                 Inr (uid, append_record (append_record vault added) entry))))
        (\<lambda>uid report. effective_or ''user is not active''
           (case bt_get (es_users (vrep_effective report)) uid of
              None \<Rightarrow> False
            | Some r \<Rightarrow> user_id r = uid \<and> user_signing_public_key r = signer_signing_public_key user
                \<and> user_hpke_public_key r = signer_hpke_public_key user)))))"

definition locked_set_user_handle :: "StoreEnv \<Rightarrow> Draws \<Rightarrow> RecordSigner \<Rightarrow> string \<Rightarrow> UserId \<Rightarrow> UserHandleId SessionOp" where
  "locked_set_user_handle env draws signer original user =
     op_then (op_read (\<lambda>_. normalize_user_handle original)) (\<lambda>handle.
     op_then (op_read (\<lambda>_. map_err OpsError.Core (derive_user_handle_id (env_crypto env) handle))) (\<lambda>handle_id.
     commit_record env (draw_fault draws) (draw_seed draws)
       (\<lambda>_ counter. and_then (map_err Hazmat (user_handle_record (env_crypto env) signer handle user counter)) (\<lambda>sr. Inr (sr, handle_id)))
       (\<lambda>handle_id _ report. effective_or ''user handle is not active''
          (case bt_get (es_handles (vrep_effective report)) handle_id of
             None \<Rightarrow> False | Some r \<Rightarrow> uh_handle r = handle \<and> uh_user_id r = user))))"

definition locked_set_vault_handle :: "StoreEnv \<Rightarrow> Draws \<Rightarrow> RecordSigner \<Rightarrow> string \<Rightarrow> VaultHandleId SessionOp" where
  "locked_set_vault_handle env draws signer original =
     op_then (op_read (\<lambda>_. map_err Hazmat (ensure_identity_consistent (env_crypto env) signer))) (\<lambda>_.
     op_then (op_read (\<lambda>_. normalize_vault_handle original)) (\<lambda>handle.
     op_then (op_read (\<lambda>_. map_err OpsError.Core (derive_vault_handle_id (env_crypto env) handle))) (\<lambda>handle_id.
     commit_record env (draw_fault draws) (draw_seed draws)
       (\<lambda>_ counter. and_then (map_err Hazmat (vault_handle_record (env_crypto env) signer handle counter)) (\<lambda>sr. Inr (sr, handle_id)))
       (\<lambda>handle_id _ report. effective_or ''vault handle is not active''
          (case bt_get (es_vault_handles (vrep_effective report)) handle_id of None \<Rightarrow> False | Some r \<Rightarrow> vh_handle r = handle)))))"

text \<open>The two loops of a cascade: a tombstone per membership, then per grant, each with the next counter.\<close>

fun delete_memberships ::
  "CryptoProvider \<Rightarrow> RecordSigner \<Rightarrow> GroupMemberRecordV1 list \<Rightarrow> u64 \<times> VaultStore \<Rightarrow> OpsError + u64 \<times> VaultStore" where
  "delete_memberships crypto signer [] acc = Inr acc"
| "delete_memberships crypto signer (m # ms) (counter, vault) =
     (let next_one = u64_saturating_add counter 1 in
      and_then (map_err Hazmat (group_member_deleted_record crypto signer (gm_group_id m) (gm_member_id m) next_one)) (\<lambda>sr.
        delete_memberships crypto signer ms (next_one, append_record vault sr)))"

fun delete_grants ::
  "CryptoProvider \<Rightarrow> RecordSigner \<Rightarrow> GrantRecordV1 list \<Rightarrow> u64 \<times> VaultStore \<Rightarrow> OpsError + u64 \<times> VaultStore" where
  "delete_grants crypto signer [] acc = Inr acc"
| "delete_grants crypto signer (g # gs) (counter, vault) =
     (let next_one = u64_saturating_add counter 1 in
      and_then (map_err Hazmat (grant_deleted_record crypto signer (grant_id g) (grant_permission g) next_one)) (\<lambda>sr.
        delete_grants crypto signer gs (next_one, append_record vault sr)))"

text \<open>The closure that \<open>delete_user\<close> passes to \<open>commit\<close>.\<close>

definition delete_user_update :: "CryptoProvider \<Rightarrow> RecordSigner \<Rightarrow> UserId \<Rightarrow> string option \<Rightarrow> UserId Update" where
  "delete_user_update crypto signer user reason vault pre_report =
     (let st = vrep_effective pre_report; who = PrincipalRefV1.User user in
      if user \<in> es_deleted_users st then Inl (OperationNotEffective ''user is already deleted'')
      else if \<not> bt_contains_key (es_users st) user then Inl (MissingUser user)
      else let counter = next_counter st in
        and_then (map_err Hazmat (user_deleted_record crypto signer user reason counter)) (\<lambda>sr.
        and_then (delete_memberships crypto signer
                    (filter (\<lambda>m. gm_member_id m = who) (bt_values (es_memberships st)))
                    (counter, append_record vault sr)) (\<lambda>acc.
        and_then (delete_grants crypto signer (filter (\<lambda>g. grant_subject_id g = who) (bt_values (es_grants st))) acc) (\<lambda>acc.
          Inr (user, snd acc)))))"

definition locked_delete_user :: "StoreEnv \<Rightarrow> Draws \<Rightarrow> RecordSigner \<Rightarrow> UserId \<Rightarrow> string option \<Rightarrow> UserId SessionOp" where
  "locked_delete_user env draws signer user reason =
     commit env (draw_fault draws) (draw_seed draws) (delete_user_update (env_crypto env) signer user reason)
       (\<lambda>user report. effective_or ''user is still active'' (\<not> bt_contains_key (es_users (vrep_effective report)) user))"

definition locked_grant_permission ::
  "StoreEnv \<Rightarrow> Draws \<Rightarrow> RecordSigner \<Rightarrow> PrincipalRefV1 \<Rightarrow> GrantPermissionV1 \<Rightarrow> IdSeed \<Rightarrow> GrantId SessionOp" where
  "locked_grant_permission env draws issuer subject permission seed =
     op_then (op_read (\<lambda>_. map_err Hazmat (ensure_identity_consistent (env_crypto env) issuer))) (\<lambda>_.
     op_then (op_read (\<lambda>_. map_err OpsError.Core (derive_grant_id (env_crypto env) seed))) (\<lambda>grant.
     commit_record env (draw_fault draws) (draw_seed draws)
       (\<lambda>_ counter. and_then (map_err Hazmat (grant_record (env_crypto env) issuer subject permission seed counter)) (\<lambda>sr. Inr (sr, grant)))
       (\<lambda>grant _ report. effective_or ''grant is not active''
          (case bt_get (es_grants (vrep_effective report)) grant of
             None \<Rightarrow> False
           | Some r \<Rightarrow> grant_seed r = seed \<and> grant_subject_id r = subject \<and> grant_permission r = permission))))"

definition locked_delete_grant :: "StoreEnv \<Rightarrow> Draws \<Rightarrow> RecordSigner \<Rightarrow> GrantId \<Rightarrow> GrantPermissionV1 \<Rightarrow> GrantId SessionOp" where
  "locked_delete_grant env draws signer grant permission =
     commit_record env (draw_fault draws) (draw_seed draws)
       (\<lambda>pre_report counter.
          if \<not> bt_contains_key (es_grants (vrep_effective pre_report)) grant then Inl (OperationNotEffective ''grant is not active'')
          else and_then (map_err Hazmat (grant_deleted_record (env_crypto env) signer grant permission counter)) (\<lambda>sr. Inr (sr, grant)))
       (\<lambda>grant _ report. effective_or ''grant is still active'' (\<not> bt_contains_key (es_grants (vrep_effective report)) grant))"

definition locked_create_group :: "StoreEnv \<Rightarrow> Draws \<Rightarrow> RecordSigner \<Rightarrow> IdSeed \<Rightarrow> string \<Rightarrow> GroupId SessionOp" where
  "locked_create_group env draws signer seed original =
     op_then (op_read (\<lambda>_. normalize_group_handle original)) (\<lambda>handle.
     op_then (op_read (\<lambda>_. map_err OpsError.Core (derive_group_id (env_crypto env) seed))) (\<lambda>grp.
     commit_record env (draw_fault draws) (draw_seed draws)
       (\<lambda>_ counter. and_then (map_err Hazmat (group_record (env_crypto env) signer seed handle counter)) (\<lambda>sr. Inr (sr, grp)))
       (\<lambda>grp _ report. effective_or ''group is not active''
          (case bt_get (es_groups (vrep_effective report)) grp of
             None \<Rightarrow> False | Some r \<Rightarrow> group_seed r = seed \<and> group_handle r = handle))))"

definition delete_group_update :: "CryptoProvider \<Rightarrow> RecordSigner \<Rightarrow> GroupId \<Rightarrow> GroupId Update" where
  "delete_group_update crypto signer grp vault pre_report =
     (let st = vrep_effective pre_report; who = PrincipalRefV1.Group grp in
      if \<not> bt_contains_key (es_groups st) grp then Inl (OperationNotEffective ''group is not active'')
      else let counter = next_counter st in
        and_then (map_err Hazmat (group_deleted_record crypto signer grp counter)) (\<lambda>sr.
        and_then (delete_memberships crypto signer
                    (filter (\<lambda>m. gm_group_id m = grp \<or> gm_member_id m = who) (bt_values (es_memberships st)))
                    (counter, append_record vault sr)) (\<lambda>acc.
        and_then (delete_grants crypto signer (filter (\<lambda>g. grant_subject_id g = who) (bt_values (es_grants st))) acc) (\<lambda>acc.
          Inr (grp, snd acc)))))"

definition locked_delete_group :: "StoreEnv \<Rightarrow> Draws \<Rightarrow> RecordSigner \<Rightarrow> GroupId \<Rightarrow> GroupId SessionOp" where
  "locked_delete_group env draws signer grp =
     commit env (draw_fault draws) (draw_seed draws) (delete_group_update (env_crypto env) signer grp)
       (\<lambda>grp report. effective_or ''group is still active'' (\<not> bt_contains_key (es_groups (vrep_effective report)) grp))"

definition locked_add_group_member :: "StoreEnv \<Rightarrow> Draws \<Rightarrow> RecordSigner \<Rightarrow> GroupId \<Rightarrow> PrincipalRefV1 \<Rightarrow> GroupMemberId SessionOp" where
  "locked_add_group_member env draws signer grp member =
     op_then (op_read (\<lambda>_. map_err OpsError.Core (derive_group_member_id (env_crypto env) grp member))) (\<lambda>membership.
     commit_record env (draw_fault draws) (draw_seed draws)
       (\<lambda>_ counter. and_then (map_err Hazmat (group_member_record (env_crypto env) signer grp member counter)) (\<lambda>sr. Inr (sr, membership)))
       (\<lambda>membership _ report. effective_or ''group membership is not active''
          (bt_contains_key (es_memberships (vrep_effective report)) membership)))"

definition locked_delete_group_member :: "StoreEnv \<Rightarrow> Draws \<Rightarrow> RecordSigner \<Rightarrow> GroupId \<Rightarrow> PrincipalRefV1 \<Rightarrow> GroupMemberId SessionOp" where
  "locked_delete_group_member env draws signer grp member =
     op_then (op_read (\<lambda>_. map_err OpsError.Core (derive_group_member_id (env_crypto env) grp member))) (\<lambda>membership.
     commit_record env (draw_fault draws) (draw_seed draws)
       (\<lambda>pre_report counter.
          if \<not> bt_contains_key (es_memberships (vrep_effective pre_report)) membership
          then Inl (OperationNotEffective ''group membership is not active'')
          else and_then (map_err Hazmat (group_member_deleted_record (env_crypto env) signer grp member counter)) (\<lambda>sr. Inr (sr, membership)))
       (\<lambda>membership _ report. effective_or ''group membership is still active''
          (\<not> bt_contains_key (es_memberships (vrep_effective report)) membership)))"

section \<open>Operations of an unlocked session\<close>

definition unlocked_set_user_handle :: "SecretsEnv \<Rightarrow> Draws \<Rightarrow> Identity \<Rightarrow> string \<Rightarrow> UserId \<Rightarrow> UserHandleId SessionOp" where
  "unlocked_set_user_handle env draws identity original target =
     op_then (op_read (\<lambda>_. normalize_user_handle original)) (\<lambda>handle.
     op_then (op_read (\<lambda>(s, d). ensure_administer (effective s) (identity_user identity))) (\<lambda>_.
     op_then (op_read (\<lambda>(s, d). if \<not> bt_contains_key (es_users (effective s)) target then Inl (MissingUser target) else Inr ())) (\<lambda>_.
       locked_set_user_handle (sec_store env) draws (identity_signer (sec_prims env) identity) handle target)))"

definition unlocked_set_vault_handle :: "SecretsEnv \<Rightarrow> Draws \<Rightarrow> Identity \<Rightarrow> string \<Rightarrow> VaultHandleId SessionOp" where
  "unlocked_set_vault_handle env draws identity original =
     op_then (op_read (\<lambda>_. normalize_vault_handle original)) (\<lambda>handle.
     op_then (op_read (\<lambda>(s, d). ensure_administer (effective s) (identity_user identity))) (\<lambda>_.
       locked_set_vault_handle (sec_store env) draws (identity_signer (sec_prims env) identity) handle))"

definition unlocked_delete_user :: "SecretsEnv \<Rightarrow> Draws \<Rightarrow> Identity \<Rightarrow> UserId \<Rightarrow> string option \<Rightarrow> UserId SessionOp" where
  "unlocked_delete_user env draws identity target reason =
     op_then (op_read (\<lambda>(s, d). ensure_administer (effective s) (identity_user identity))) (\<lambda>_.
     op_then (op_read (\<lambda>(s, d). if \<not> bt_contains_key (es_users (effective s)) target then Inl (MissingUser target) else Inr ())) (\<lambda>_.
       locked_delete_user (sec_store env) draws (identity_signer (sec_prims env) identity) target reason))"

definition unlocked_grant_permission ::
  "SecretsEnv \<Rightarrow> (nat \<Rightarrow> Draws) \<Rightarrow> Identity \<Rightarrow> PrincipalRefV1 \<Rightarrow> GrantPermissionV1 \<Rightarrow> IdSeed \<Rightarrow> GrantId AccessChange SessionOp" where
  "unlocked_grant_permission env draws identity subject permission seed =
     op_then (op_read (\<lambda>(s, d). ensure_can_create_permission (effective s) (identity_user identity) permission)) (\<lambda>_.
     op_then (op_read (\<lambda>(s, d). ensure_principal_exists (effective s) subject)) (\<lambda>_.
       access_addition env (\<lambda>i. draws (Suc i)) identity
         (locked_grant_permission (sec_store env) (draws 0) (identity_signer (sec_prims env) identity) subject permission seed)))"

definition unlocked_delete_grant :: "SecretsEnv \<Rightarrow> Draws \<Rightarrow> Identity \<Rightarrow> GrantId \<Rightarrow> GrantId SessionOp" where
  "unlocked_delete_grant env draws identity grant =
     op_then (op_read (\<lambda>(s, d). case bt_get (es_grants (effective s)) grant of
         None \<Rightarrow> Inl (OperationNotEffective ''grant is not active'') | Some r \<Rightarrow> Inr (grant_permission r))) (\<lambda>permission.
     op_then (op_read (\<lambda>(s, d). ensure_can_create_permission (effective s) (identity_user identity) permission)) (\<lambda>_.
       locked_delete_grant (sec_store env) draws (identity_signer (sec_prims env) identity) grant permission))"

definition unlocked_create_group :: "SecretsEnv \<Rightarrow> Draws \<Rightarrow> Identity \<Rightarrow> IdSeed \<Rightarrow> string \<Rightarrow> GroupId SessionOp" where
  "unlocked_create_group env draws identity seed handle =
     op_then (op_read (\<lambda>(s, d). ensure_administer (effective s) (identity_user identity))) (\<lambda>_.
       locked_create_group (sec_store env) draws (identity_signer (sec_prims env) identity) seed handle)"

definition unlocked_delete_group :: "SecretsEnv \<Rightarrow> Draws \<Rightarrow> Identity \<Rightarrow> GroupId \<Rightarrow> GroupId SessionOp" where
  "unlocked_delete_group env draws identity grp =
     op_then (op_read (\<lambda>(s, d). ensure_administer (effective s) (identity_user identity))) (\<lambda>_.
     op_then (op_read (\<lambda>(s, d). if \<not> bt_contains_key (es_groups (effective s)) grp
         then Inl (OperationNotEffective ''group is not active'') else Inr ())) (\<lambda>_.
       locked_delete_group (sec_store env) draws (identity_signer (sec_prims env) identity) grp))"

definition unlocked_add_group_member ::
  "SecretsEnv \<Rightarrow> (nat \<Rightarrow> Draws) \<Rightarrow> Identity \<Rightarrow> GroupId \<Rightarrow> PrincipalRefV1 \<Rightarrow> GroupMemberId AccessChange SessionOp" where
  "unlocked_add_group_member env draws identity grp member =
     op_then (op_read (\<lambda>(s, d). ensure_administer (effective s) (identity_user identity))) (\<lambda>_.
     op_then (op_read (\<lambda>(s, d). ensure_principal_exists (effective s) (PrincipalRefV1.Group grp))) (\<lambda>_.
     op_then (op_read (\<lambda>(s, d). ensure_principal_exists (effective s) member)) (\<lambda>_.
     op_then (op_read (\<lambda>(s, d). ensure_can_confer_group (effective s) (identity_user identity) grp)) (\<lambda>_.
     op_then (op_read (\<lambda>(s, d).
         if list_ex (\<lambda>m. gm_group_id m = grp \<and> gm_member_id m = member) (bt_values (es_memberships (effective s)))
         then Inl (OperationNotEffective ''principal is already a member of this group'') else Inr ())) (\<lambda>_.
       access_addition env (\<lambda>i. draws (Suc i)) identity
         (locked_add_group_member (sec_store env) (draws 0) (identity_signer (sec_prims env) identity) grp member))))))"

definition unlocked_delete_group_member ::
  "SecretsEnv \<Rightarrow> Draws \<Rightarrow> Identity \<Rightarrow> GroupId \<Rightarrow> PrincipalRefV1 \<Rightarrow> GroupMemberId SessionOp" where
  "unlocked_delete_group_member env draws identity grp member =
     op_then (op_read (\<lambda>(s, d). ensure_administer (effective s) (identity_user identity))) (\<lambda>_.
     op_then (op_read (\<lambda>_. map_err OpsError.Core (derive_group_member_id (sec_crypto env) grp member))) (\<lambda>membership.
     op_then (op_read (\<lambda>(s, d). if \<not> bt_contains_key (es_memberships (effective s)) membership
         then Inl (OperationNotEffective ''group membership is not active'') else Inr ())) (\<lambda>_.
       locked_delete_group_member (sec_store env) draws (identity_signer (sec_prims env) identity) grp member)))"

section \<open>What an identity may do\<close>

text \<open>The operations of an unlocked session that write, without their results.\<close>

datatype Operation =
    SetSecret SecretSelectorV1 SecretValueV1
  | DeleteSecret SecretSelectorV1
  | RelabelSecret SecretSelectorV1 SecretSelectorV1
  | SetUserHandle string UserId
  | SetVaultHandle string
  | DeleteUser UserId "string option"
  | GrantPermission PrincipalRefV1 GrantPermissionV1 IdSeed
  | DeleteGrant GrantId
  | CreateGroup IdSeed string
  | DeleteGroup GroupId
  | AddGroupMember GroupId PrincipalRefV1
  | DeleteGroupMember GroupId PrincipalRefV1

definition ignore :: "'a SessionOp \<Rightarrow> unit SessionOp" where
  "ignore m = op_then m (\<lambda>_. op_ok ())"

fun run_operation :: "SecretsEnv \<Rightarrow> (nat \<Rightarrow> Draws) \<Rightarrow> Identity \<Rightarrow> Operation \<Rightarrow> unit SessionOp" where
  "run_operation env draws identity (SetSecret selector val) = ignore (set_secret_value env (draws 0) identity selector val)"
| "run_operation env draws identity (DeleteSecret selector) = ignore (delete_secret env (draws 0) identity selector)"
| "run_operation env draws identity (RelabelSecret source target) =
     ignore (relabel_secret env (draws 0) (draws 1) identity source target)"
| "run_operation env draws identity (SetUserHandle handle user) =
     ignore (unlocked_set_user_handle env (draws 0) identity handle user)"
| "run_operation env draws identity (SetVaultHandle handle) = ignore (unlocked_set_vault_handle env (draws 0) identity handle)"
| "run_operation env draws identity (DeleteUser user reason) =
     ignore (unlocked_delete_user env (draws 0) identity user reason)"
| "run_operation env draws identity (GrantPermission subject permission seed) =
     ignore (unlocked_grant_permission env draws identity subject permission seed)"
| "run_operation env draws identity (DeleteGrant grant) = ignore (unlocked_delete_grant env (draws 0) identity grant)"
| "run_operation env draws identity (CreateGroup seed handle) =
     ignore (unlocked_create_group env (draws 0) identity seed handle)"
| "run_operation env draws identity (DeleteGroup grp) = ignore (unlocked_delete_group env (draws 0) identity grp)"
| "run_operation env draws identity (AddGroupMember grp member) =
     ignore (unlocked_add_group_member env draws identity grp member)"
| "run_operation env draws identity (DeleteGroupMember grp member) =
     ignore (unlocked_delete_group_member env (draws 0) identity grp member)"

text \<open>The authority each operation asks for, in terms of the effective state.\<close>

fun required_authority :: "EffectiveState \<Rightarrow> AuthoritySet \<Rightarrow> Operation \<Rightarrow> bool" where
  "required_authority st a (SetSecret selector _) = can_write a selector"
| "required_authority st a (DeleteSecret selector) = can_write a selector"
| "required_authority st a (RelabelSecret source target) = (can_write a source \<and> can_write a target)"
| "required_authority st a (GrantPermission _ permission _) = can_create_permission a permission"
| "required_authority st a (DeleteGrant grant) =
     (case bt_get (es_grants st) grant of None \<Rightarrow> False | Some r \<Rightarrow> can_create_permission a (grant_permission r))"
| "required_authority st a (AddGroupMember grp _) =
     (auth_administer a \<and> list_all (can_create_permission a) (as_grant_permissions (authority_for_group st grp)))"
| "required_authority st a _ = auth_administer a"

definition permitted :: "EffectiveState \<Rightarrow> UserId \<Rightarrow> Operation \<Rightarrow> bool" where
  "permitted st user oper \<longleftrightarrow> bt_contains_key (es_users st) user \<and> \<not> es_authority_unresolved st
     \<and> required_authority st (authority_for_user st user) oper"

lemmas guarded_defs = set_secret_value_def delete_secret_def relabel_secret_def unlocked_set_user_handle_def
  unlocked_set_vault_handle_def unlocked_delete_user_def unlocked_grant_permission_def unlocked_delete_grant_def
  unlocked_create_group_def unlocked_delete_group_def unlocked_add_group_member_def unlocked_delete_group_member_def

lemmas guard_defs = ensure_administer_def ensure_can_confer_group_def ensure_can_create_permission_def
  ensure_secret_writable_def

lemma unpermitted_harmless:
  assumes "\<not> permitted (effective s) (identity_user identity) oper"
  shows "harmless (run_operation env draws identity oper) (s, d)"
  using assms unfolding permitted_def
  by (cases oper) (auto simp: ignore_def guarded_defs guard_defs list_ex_iff list_all_iff Let_def
      intro!: harmless_then harmless_read split: if_splits option.splits)

definition outsider :: "UserId \<Rightarrow> LockedSession \<times> Disk \<Rightarrow> bool" where
  "outsider user st \<longleftrightarrow> \<not> bt_contains_key (es_users (effective (fst st))) user"

interpretation outsiders: write_barrier "outsider (identity_user identity)" "\<lambda>(draws, oper). run_operation env draws identity oper"
  for env identity
proof
  fix st :: "LockedSession \<times> Disk" and w :: "(nat \<Rightarrow> Draws) \<times> Operation"
  assume "outsider (identity_user identity) st"
  then show "harmless (case w of (draws, oper) \<Rightarrow> run_operation env draws identity oper) st"
    using unpermitted_harmless [of "fst st" identity "snd w" env "fst w" "snd st"]
    by (simp add: outsider_def permitted_def case_prod_beta)
qed

section \<open>What an operation leaves behind\<close>

text \<open>In a report without issues, grants and memberships name effective principals.\<close>

lemma report_references:
  assumes "validate_with env (VaultStore.V1 vault) ratchet verified = Inr report" and "vrep_issues report = []"
  defines "st \<equiv> vrep_effective report"
  shows "bt_get (es_grants st) k = Some g \<Longrightarrow> principal_exists (grant_subject_id g) (es_users st) (es_groups st)"
    and "bt_get (es_memberships st) i = Some m \<Longrightarrow>
      bt_contains_key (es_groups st) (gm_group_id m) \<and> principal_exists (gm_member_id m) (es_users st) (es_groups st)"
proof -
  have "(\<forall>k g. bt_get (es_grants st) k = Some g \<longrightarrow> principal_exists (grant_subject_id g) (es_users st) (es_groups st))
    \<and> (\<forall>i m. bt_get (es_memberships st) i = Some m \<longrightarrow>
      bt_contains_key (es_groups st) (gm_group_id m) \<and> principal_exists (gm_member_id m) (es_users st) (es_groups st))"
    using assms(1)
  proof (cases rule: validate_with_cases)
    case (settled hrs root kr v eff upd iss)
    obtain wm rb eff0 where parts: "settled_rollbacks (env_crypto env) ratchet root (verified_list v) = (wm, rb, eff0)"
      by (metis prod_cases3)
    have "\<not> es_authority_unresolved eff0"
      using assms(2) settled(6) settle_v1_parts(3) [OF settled(4) parts] by (auto split: if_splits)
    moreover obtain dels where eff0: "eff0 = compute_effective_state (env_crypto env)
        (user_from_root (selected_root root) (selected_signing_public_key root)) (selected_root_hash root) (verified_list v) dels rb"
      using resolved_state [of "env_crypto env" root "verified_list v" rb] settle_v1_parts(5) [OF settled(4) parts] by blast
    ultimately show ?thesis
      using converged_authorized unfolding st_def settled(5) settled_frames [OF settled(4) parts] eff0 by blast
  qed (use assms(2) in simp)
  then show "bt_get (es_grants st) k = Some g \<Longrightarrow> principal_exists (grant_subject_id g) (es_users st) (es_groups st)"
    "bt_get (es_memberships st) i = Some m \<Longrightarrow>
      bt_contains_key (es_groups st) (gm_group_id m) \<and> principal_exists (gm_member_id m) (es_users st) (es_groups st)" by blast+
qed

text \<open>What each operation on principals promises of the effective state.\<close>

definition unreferenced :: "EffectiveState \<Rightarrow> PrincipalRefV1 \<Rightarrow> bool" where
  "unreferenced st who \<longleftrightarrow>
     (\<forall>k g. bt_get (es_grants st) k = Some g \<longrightarrow> grant_subject_id g \<noteq> who)
     \<and> (\<forall>k m. bt_get (es_memberships st) k = Some m \<longrightarrow> gm_member_id m \<noteq> who \<and> PrincipalRefV1.Group (gm_group_id m) \<noteq> who)"

fun in_effect :: "CryptoProvider \<Rightarrow> EffectiveState \<Rightarrow> Operation \<Rightarrow> bool" where
  "in_effect crypto st (SetUserHandle handle user) =
     (\<exists>i r. derive_user_handle_id crypto handle = Inr i \<and> bt_get (es_handles st) i = Some r
        \<and> uh_handle r = normalize_handle handle \<and> uh_user_id r = user)"
| "in_effect crypto st (SetVaultHandle handle) =
     (\<exists>i r. derive_vault_handle_id crypto handle = Inr i \<and> bt_get (es_vault_handles st) i = Some r
        \<and> vh_handle r = normalize_handle handle)"
| "in_effect crypto st (DeleteUser user _) =
     (\<not> bt_contains_key (es_users st) user \<and> unreferenced st (PrincipalRefV1.User user))"
| "in_effect crypto st (GrantPermission subject permission seed) =
     (\<exists>i r. derive_grant_id crypto seed = Inr i \<and> bt_get (es_grants st) i = Some r
        \<and> grant_subject_id r = subject \<and> grant_permission r = permission)"
| "in_effect crypto st (DeleteGrant grant) = (\<not> bt_contains_key (es_grants st) grant)"
| "in_effect crypto st (CreateGroup seed handle) =
     (\<exists>i r. derive_group_id crypto seed = Inr i \<and> bt_get (es_groups st) i = Some r \<and> group_handle r = normalize_handle handle)"
| "in_effect crypto st (DeleteGroup grp) =
     (\<not> bt_contains_key (es_groups st) grp \<and> unreferenced st (PrincipalRefV1.Group grp))"
| "in_effect crypto st (AddGroupMember grp member) =
     (\<exists>i. derive_group_member_id crypto grp member = Inr i \<and> bt_contains_key (es_memberships st) i)"
| "in_effect crypto st (DeleteGroupMember grp member) =
     (\<exists>i. derive_group_member_id crypto grp member = Inr i \<and> \<not> bt_contains_key (es_memberships st) i)"
| "in_effect crypto st _ = True"

lemma commit_record_effect:
  assumes "commit_record env fault seed build is_effective (s, d) = (Inr out, (s', d'))"
  obtains h report counter sr where "vrep_issues (ls_report s') = []" "is_effective out h (ls_report s') = Inr ()"
    "build report counter = Inr (sr, out)"
  using assms by (blast elim: commit_record_Inr)

lemma commit_unreferenced:
  assumes "commit env fault seed update check (s, d) = (Inr x, (s', d'))"
  shows "\<not> bt_contains_key (es_users (effective s')) user \<Longrightarrow> unreferenced (effective s') (PrincipalRefV1.User user)"
    and "\<not> bt_contains_key (es_groups (effective s')) grp \<Longrightarrow> unreferenced (effective s') (PrincipalRefV1.Group grp)"
proof -
  obtain v where v: "ls_vault s' = VaultStore.V1 v" by (cases "ls_vault s'")
  obtain r verified where report: "validate_with env (VaultStore.V1 v) r verified = Inr (ls_report s')"
    using commit_checked(3) [OF assms] v by auto
  note refs = report_references [OF report commit_checked(1) [OF assms], folded effective_def]
  show "\<not> bt_contains_key (es_users (effective s')) user \<Longrightarrow> unreferenced (effective s') (PrincipalRefV1.User user)"
    "\<not> bt_contains_key (es_groups (effective s')) grp \<Longrightarrow> unreferenced (effective s') (PrincipalRefV1.Group grp)"
    using refs by (fastforce simp: unreferenced_def)+
qed

lemma effective_or_Inr [simp]: "effective_or reason ok = Inr u \<longleftrightarrow> ok"
  by (simp add: effective_or_def)

lemma normalized_twice: "is_valid_handle (normalize_handle h) \<Longrightarrow> normalize_handle (normalize_handle h) = normalize_handle h"
  by (rule valid_handle_is_normalized)

lemma normalize_Inr:
  "normalize_user_handle h = Inr n \<Longrightarrow> n = normalize_handle h \<and> normalize_handle n = n"
  "normalize_vault_handle h = Inr n \<Longrightarrow> n = normalize_handle h \<and> normalize_handle n = n"
  "normalize_group_handle h = Inr n \<Longrightarrow> n = normalize_handle h \<and> normalize_handle n = n"
  by (auto simp: normalize_user_handle_def normalize_vault_handle_def normalize_group_handle_def Let_def normalized_twice
      split: if_splits)

lemma handle_id_normalized:
  assumes "normalize_handle n = n" and "n = normalize_handle h"
  shows "derive_user_handle_id crypto h = derive_user_handle_id crypto n" "derive_vault_handle_id crypto h = derive_vault_handle_id crypto n"
  using assms by (simp_all add: derive_user_handle_id_def derive_vault_handle_id_def)

definition takes_effect :: "CryptoProvider \<Rightarrow> Operation \<Rightarrow> LockedSession \<Rightarrow> bool" where
  "takes_effect crypto oper s \<longleftrightarrow> vrep_issues (ls_report s) = [] \<and> in_effect crypto (effective s) oper"

lemma locked_set_user_handle_effect:
  assumes "locked_set_user_handle env draws signer h user (s, d) = (Inr out, (s', d'))"
  shows "takes_effect (env_crypto env) (SetUserHandle h user) s'"
proof -
  obtain n i where n: "normalize_user_handle h = Inr n" "derive_user_handle_id (env_crypto env) n = Inr i"
    using assms by (auto simp: locked_set_user_handle_def split: sum.splits)
  from assms n show ?thesis
    using normalize_Inr(1) [OF n(1)] handle_id_normalized(1) [of n h "env_crypto env"]
    by (auto simp: locked_set_user_handle_def takes_effect_def effective_def and_then_Inr_iff split: option.splits
        elim!: commit_record_effect)
qed

lemma locked_set_vault_handle_effect:
  assumes "locked_set_vault_handle env draws signer h (s, d) = (Inr out, (s', d'))"
  shows "takes_effect (env_crypto env) (SetVaultHandle h) s'"
proof -
  obtain n i where n: "normalize_vault_handle h = Inr n" "derive_vault_handle_id (env_crypto env) n = Inr i"
    using assms by (auto simp: locked_set_vault_handle_def split: sum.splits)
  from assms n show ?thesis
    using normalize_Inr(2) [OF n(1)] handle_id_normalized(2) [of n h "env_crypto env"]
    by (auto simp: locked_set_vault_handle_def takes_effect_def effective_def and_then_Inr_iff split: option.splits sum.splits
        elim!: commit_record_effect)
qed

lemma locked_grant_permission_effect:
  assumes "locked_grant_permission env draws signer subject permission seed (s, d) = (Inr out, (s', d'))"
  shows "takes_effect (env_crypto env) (GrantPermission subject permission seed) s'"
proof -
  obtain i where "derive_grant_id (env_crypto env) seed = Inr i"
    using assms by (auto simp: locked_grant_permission_def split: sum.splits)
  with assms show ?thesis
    by (auto simp: locked_grant_permission_def takes_effect_def effective_def and_then_Inr_iff split: option.splits sum.splits
        elim!: commit_record_effect)
qed

lemma locked_delete_grant_effect:
  assumes "locked_delete_grant env draws signer grant permission (s, d) = (Inr out, (s', d'))"
  shows "takes_effect (env_crypto env) (DeleteGrant grant) s'"
  using assms
  by (auto simp: locked_delete_grant_def takes_effect_def effective_def and_then_Inr_iff split: if_splits elim!: commit_record_effect)

lemma locked_create_group_effect:
  assumes "locked_create_group env draws signer seed h (s, d) = (Inr out, (s', d'))"
  shows "takes_effect (env_crypto env) (CreateGroup seed h) s'"
proof -
  obtain n i where n: "normalize_group_handle h = Inr n" "derive_group_id (env_crypto env) seed = Inr i"
    using assms by (auto simp: locked_create_group_def split: sum.splits)
  from assms n show ?thesis
    using normalize_Inr(3) [OF n(1)]
    by (auto simp: locked_create_group_def takes_effect_def effective_def and_then_Inr_iff split: option.splits
        elim!: commit_record_effect)
qed

lemma locked_add_group_member_effect:
  assumes "locked_add_group_member env draws signer grp member (s, d) = (Inr out, (s', d'))"
  shows "takes_effect (env_crypto env) (AddGroupMember grp member) s'"
proof -
  obtain i where "derive_group_member_id (env_crypto env) grp member = Inr i"
    using assms by (auto simp: locked_add_group_member_def split: sum.splits)
  with assms show ?thesis
    by (auto simp: locked_add_group_member_def takes_effect_def effective_def and_then_Inr_iff elim!: commit_record_effect)
qed

lemma locked_delete_group_member_effect:
  assumes "locked_delete_group_member env draws signer grp member (s, d) = (Inr out, (s', d'))"
  shows "takes_effect (env_crypto env) (DeleteGroupMember grp member) s'"
proof -
  obtain i where "derive_group_member_id (env_crypto env) grp member = Inr i"
    using assms by (auto simp: locked_delete_group_member_def split: sum.splits)
  with assms show ?thesis
    by (auto simp: locked_delete_group_member_def takes_effect_def effective_def and_then_Inr_iff split: if_splits
        elim!: commit_record_effect)
qed

lemma commit_output:
  assumes "commit env fault seed update check (s, d) = (Inr x, (s', d'))"
    and "\<And>vault report x v. update vault report = Inr (x, v) \<Longrightarrow> x = y"
  shows "x = y"
  using assms successor_Inr(3) by (metis commit_Inr)

lemma locked_delete_user_effect:
  assumes "locked_delete_user env draws signer user reason (s, d) = (Inr out, (s', d'))"
  shows "takes_effect (env_crypto env) (DeleteUser user reason) s'"
proof -
  note run = assms [unfolded locked_delete_user_def]
  have "out = user"
    by (rule commit_output [OF run]) (auto simp: delete_user_update_def Let_def and_then_Inr_iff split: if_splits)
  then show ?thesis
    using commit_checked(1,2) [OF run] commit_unreferenced(1) [OF run, of user] by (simp add: takes_effect_def effective_def)
qed

lemma locked_delete_group_effect:
  assumes "locked_delete_group env draws signer grp (s, d) = (Inr out, (s', d'))"
  shows "takes_effect (env_crypto env) (DeleteGroup grp) s'"
proof -
  note run = assms [unfolded locked_delete_group_def]
  have "out = grp"
    by (rule commit_output [OF run]) (auto simp: delete_group_update_def Let_def and_then_Inr_iff split: if_splits)
  then show ?thesis
    using commit_checked(1,2) [OF run] commit_unreferenced(2) [OF run, of grp] by (simp add: takes_effect_def effective_def)
qed

lemmas locked_effects = locked_set_user_handle_effect locked_set_vault_handle_effect locked_delete_user_effect
  locked_grant_permission_effect locked_delete_grant_effect locked_create_group_effect locked_delete_group_effect
  locked_add_group_member_effect locked_delete_group_member_effect

fun on_principals :: "Operation \<Rightarrow> bool" where
  "on_principals (SetSecret _ _) = False"
| "on_principals (DeleteSecret _) = False"
| "on_principals (RelabelSecret _ _) = False"
| "on_principals _ = True"

fun adds_access :: "Operation \<Rightarrow> bool" where
  "adds_access (GrantPermission _ _ _) = True"
| "adds_access (AddGroupMember _ _) = True"
| "adds_access _ = False"

lemma ignore_Inr: "ignore m st = (Inr u, st') \<longleftrightarrow> (\<exists>x. m st = (Inr x, st'))"
  by (cases st') (auto simp: ignore_def op_then_Inr_iff op_ok_def)

lemma access_addition_Inr:
  "access_addition env draws identity m st = (Inr x, st') \<Longrightarrow>
     \<exists>out s1 d1 rec. m st = (Inr out, (s1, d1)) \<and> converge_readers env draws identity (s1, d1) = (Inr rec, st')"
  by (fastforce simp: access_addition_def op_then_Inr_iff op_ok_def)

lemma takes_effect_normalized:
  assumes "n = normalize_handle h" and "normalize_handle n = n"
  shows "takes_effect crypto (SetUserHandle n user) s \<longleftrightarrow> takes_effect crypto (SetUserHandle h user) s"
    and "takes_effect crypto (SetVaultHandle n) s \<longleftrightarrow> takes_effect crypto (SetVaultHandle h) s"
  using assms handle_id_normalized [of n h crypto] by (simp_all add: takes_effect_def)

lemma run_takes_effect:
  assumes "run_operation env draws identity oper (s, d) = (Inr u, (s', d'))" and "on_principals oper"
  shows "\<exists>s1 d1. takes_effect (sec_crypto env) oper s1
    \<and> (if adds_access oper then \<exists>out. converge_readers env (\<lambda>i. draws (Suc i)) identity (s1, d1) = (Inr out, (s', d'))
       else (s1, d1) = (s', d'))"
proof (cases oper)
  case (SetUserHandle h user)
  then show ?thesis
    using assms by (auto simp: ignore_Inr unlocked_set_user_handle_def split: sum.splits if_splits
        dest!: locked_effects normalize_Inr(1) simp: takes_effect_normalized)
next
  case (SetVaultHandle h)
  then show ?thesis
    using assms by (auto simp: ignore_Inr unlocked_set_vault_handle_def split: sum.splits
        dest!: locked_effects normalize_Inr(2) simp: takes_effect_normalized)
next
  case (GrantPermission subject permission seed)
  then show ?thesis
    using assms by (auto simp: ignore_Inr unlocked_grant_permission_def split: sum.splits dest!: access_addition_Inr)
      (blast dest: locked_effects)
next
  case (AddGroupMember grp member)
  then show ?thesis
    using assms by (auto simp: ignore_Inr unlocked_add_group_member_def split: sum.splits if_splits dest!: access_addition_Inr)
      (blast dest: locked_effects)
qed (use assms in \<open>auto simp: ignore_Inr guarded_defs split: sum.splits if_splits option.splits dest!: locked_effects\<close>)

section \<open>Cascades\<close>

text \<open>The tombstones of a cascade, as functions of their counters, and the counters they get.\<close>

definition membership_tombstone :: "CryptoProvider \<Rightarrow> GroupMemberRecordV1 \<Rightarrow> u64 \<Rightarrow> RecordBodyV1 option" where
  "membership_tombstone crypto m c =
     (case derive_group_member_id crypto (gm_group_id m) (gm_member_id m) of
        Inl _ \<Rightarrow> None
      | Inr i \<Rightarrow> Some (RecordBodyV1.GroupMemberDeleted
          \<lparr>gmd_id = i, gmd_group_id = gm_group_id m, gmd_member_id = gm_member_id m, gmd_counter = c\<rparr>))"

definition grant_tombstone :: "GrantRecordV1 \<Rightarrow> u64 \<Rightarrow> RecordBodyV1 option" where
  "grant_tombstone g c = Some (RecordBodyV1.GrantDeleted
     \<lparr>grd_id = grant_id g, grd_permission = grant_permission g, grd_counter = c\<rparr>)"

fun numbered :: "u64 \<Rightarrow> (u64 \<Rightarrow> 'b) list \<Rightarrow> 'b list" where
  "numbered c [] = []"
| "numbered c (f # fs) = (let c1 = u64_saturating_add c 1 in f c1 # numbered c1 fs)"

fun last_number :: "u64 \<Rightarrow> 'b list \<Rightarrow> u64" where
  "last_number c [] = c"
| "last_number c (x # xs) = last_number (u64_saturating_add c 1) xs"

lemma last_number_map [simp]: "last_number c (map f xs) = last_number c xs"
  by (induction xs arbitrary: c) simp_all

lemma numbered_append: "numbered c (fs @ gs) = numbered c fs @ numbered (last_number c fs) gs"
  by (induction fs arbitrary: c) (simp_all add: Let_def)

text \<open>The records a cascade appends, by the bodies they carry and the key they are signed with.\<close>

definition appends :: "RecordSigner \<Rightarrow> RecordBodyV1 option list \<Rightarrow> VaultStore \<Rightarrow> VaultStore \<Rightarrow> bool" where
  "appends signer bodies vault vault' \<longleftrightarrow>
     (\<exists>ts. vault' = foldl append_record vault ts \<and> map (\<lambda>t. known (rec_body t)) ts = bodies
        \<and> list_all (\<lambda>t. rec_signing_public_key t = signer_signing_public_key signer) ts)"

lemma appends_Nil: "appends signer [] v v"
  by (simp add: appends_def)

lemma appends_Cons:
  assumes "known (rec_body t) = b" "rec_signing_public_key t = signer_signing_public_key signer"
    and "appends signer bs (append_record v t) v'"
  shows "appends signer (b # bs) v v'"
proof -
  obtain ts where "v' = foldl append_record (append_record v t) ts" "map (\<lambda>t. known (rec_body t)) ts = bs"
    "list_all (\<lambda>t. rec_signing_public_key t = signer_signing_public_key signer) ts"
    using assms(3) by (auto simp: appends_def)
  with assms(1,2) show ?thesis
    unfolding appends_def by (intro exI [of _ "t # ts"]) simp
qed

lemma appends_trans: "appends signer bs v v1 \<Longrightarrow> appends signer bs' v1 v2 \<Longrightarrow> appends signer (bs @ bs') v v2"
  unfolding appends_def by (elim exE conjE, rule_tac x = "ts @ tsa" in exI) simp

lemma signed_known:
  assumes "signed_payload crypto signer (record_payload b) = Inr sr"
  shows "known (rec_body sr) = Some b" "rec_signing_public_key sr = signer_signing_public_key signer"
  using signed_payload_Inr [OF assms] by (simp_all add: record_payload_def)

lemma delete_memberships_appends:
  assumes "delete_memberships crypto signer ms (c, v) = Inr (c', v')"
  shows "c' = last_number c ms \<and> appends signer (numbered c (map (membership_tombstone crypto) ms)) v v'"
  using assms
proof (induction ms arbitrary: c v)
  case Nil
  then show ?case by (simp add: appends_Nil)
next
  case (Cons m ms)
  let ?c = "u64_saturating_add c 1"
  obtain sr where sr: "group_member_deleted_record crypto signer (gm_group_id m) (gm_member_id m) ?c = Inr sr"
    and rest: "delete_memberships crypto signer ms (?c, append_record v sr) = Inr (c', v')"
    using Cons.prems by (auto simp: Let_def and_then_Inr_iff)
  obtain i where i: "derive_group_member_id crypto (gm_group_id m) (gm_member_id m) = Inr i"
    "signed_payload crypto signer (record_payload (RecordBodyV1.GroupMemberDeleted
       \<lparr>gmd_id = i, gmd_group_id = gm_group_id m, gmd_member_id = gm_member_id m, gmd_counter = ?c\<rparr>)) = Inr sr"
    using sr by (auto simp: group_member_deleted_record_def group_member_deleted_record_payload_def and_then_Inr_iff)
  show ?case
    using Cons.IH [OF rest] signed_known [OF i(2)] i(1)
    by (auto simp: Let_def membership_tombstone_def intro!: appends_Cons)
qed

lemma delete_grants_appends:
  assumes "delete_grants crypto signer gs (c, v) = Inr (c', v')"
  shows "appends signer (numbered c (map grant_tombstone gs)) v v'"
  using assms
proof (induction gs arbitrary: c v)
  case Nil
  then show ?case by (simp add: appends_Nil)
next
  case (Cons g gs)
  let ?c = "u64_saturating_add c 1"
  obtain sr where sr: "signed_payload crypto signer (record_payload (RecordBodyV1.GrantDeleted
       \<lparr>grd_id = grant_id g, grd_permission = grant_permission g, grd_counter = ?c\<rparr>)) = Inr sr"
    and rest: "delete_grants crypto signer gs (?c, append_record v sr) = Inr (c', v')"
    using Cons.prems by (auto simp: Let_def and_then_Inr_iff grant_deleted_record_def grant_deleted_record_payload_def)
  show ?case
    using Cons.IH [OF rest] signed_known [OF sr] by (auto simp: Let_def grant_tombstone_def intro!: appends_Cons)
qed

lemma cascade_appends:
  assumes "signed_payload crypto signer (record_payload b) = Inr sr"
    and "delete_memberships crypto signer ms (c, append_record v sr) = Inr acc"
    and "delete_grants crypto signer gs acc = Inr (c', v')"
  shows "appends signer (Some b # numbered c (map (membership_tombstone crypto) ms @ map grant_tombstone gs)) v v'"
proof -
  obtain c1 v1 where acc: "acc = (c1, v1)" by (cases acc)
  note ms = delete_memberships_appends [OF assms(2) [unfolded acc]] and gs = delete_grants_appends [OF assms(3) [unfolded acc]]
  have "appends signer (numbered c (map (membership_tombstone crypto) ms @ map grant_tombstone gs)) (append_record v sr) v'"
    using ms gs appends_trans unfolding numbered_append by auto
  then show ?thesis
    using signed_known [OF assms(1)] by (intro appends_Cons)
qed

text \<open>The bodies that deleting a principal writes.\<close>

definition user_cascade :: "CryptoProvider \<Rightarrow> EffectiveState \<Rightarrow> UserId \<Rightarrow> string option \<Rightarrow> RecordBodyV1 option list" where
  "user_cascade crypto st user reason =
     Some (RecordBodyV1.UserDeleted \<lparr>ud_id = user, ud_reason = reason, ud_counter = next_counter st\<rparr>)
     # numbered (next_counter st)
         (map (membership_tombstone crypto) (filter (\<lambda>m. gm_member_id m = PrincipalRefV1.User user) (bt_values (es_memberships st)))
          @ map grant_tombstone (filter (\<lambda>g. grant_subject_id g = PrincipalRefV1.User user) (bt_values (es_grants st))))"

definition group_cascade :: "CryptoProvider \<Rightarrow> EffectiveState \<Rightarrow> GroupId \<Rightarrow> RecordBodyV1 option list" where
  "group_cascade crypto st grp =
     Some (RecordBodyV1.GroupDeleted \<lparr>gd_id = grp, gd_counter = next_counter st\<rparr>)
     # numbered (next_counter st)
         (map (membership_tombstone crypto)
            (filter (\<lambda>m. gm_group_id m = grp \<or> gm_member_id m = PrincipalRefV1.Group grp) (bt_values (es_memberships st)))
          @ map grant_tombstone (filter (\<lambda>g. grant_subject_id g = PrincipalRefV1.Group grp) (bt_values (es_grants st))))"

lemma delete_user_appends:
  assumes "delete_user_update crypto signer user reason vault report = Inr (out, vault')"
  shows "out = user \<and> appends signer (user_cascade crypto (vrep_effective report) user reason) vault vault'"
proof -
  let ?st = "vrep_effective report"
  obtain sr acc c' where "user_deleted_record crypto signer user reason (next_counter ?st) = Inr sr"
    "delete_memberships crypto signer (filter (\<lambda>m. gm_member_id m = PrincipalRefV1.User user) (bt_values (es_memberships ?st)))
       (next_counter ?st, append_record vault sr) = Inr acc"
    "delete_grants crypto signer (filter (\<lambda>g. grant_subject_id g = PrincipalRefV1.User user) (bt_values (es_grants ?st))) acc = Inr (c', vault')"
    and "out = user"
    using assms by (auto simp: delete_user_update_def Let_def and_then_Inr_iff split: if_splits)
  then show ?thesis
    unfolding user_deleted_record_def user_deleted_record_payload_def user_cascade_def by (blast intro: cascade_appends)
qed

lemma delete_group_appends:
  assumes "delete_group_update crypto signer grp vault report = Inr (out, vault')"
  shows "out = grp \<and> appends signer (group_cascade crypto (vrep_effective report) grp) vault vault'"
proof -
  let ?st = "vrep_effective report"
  obtain sr acc c' where "group_deleted_record crypto signer grp (next_counter ?st) = Inr sr"
    "delete_memberships crypto signer
       (filter (\<lambda>m. gm_group_id m = grp \<or> gm_member_id m = PrincipalRefV1.Group grp) (bt_values (es_memberships ?st)))
       (next_counter ?st, append_record vault sr) = Inr acc"
    "delete_grants crypto signer (filter (\<lambda>g. grant_subject_id g = PrincipalRefV1.Group grp) (bt_values (es_grants ?st))) acc = Inr (c', vault')"
    and "out = grp"
    using assms by (auto simp: delete_group_update_def Let_def and_then_Inr_iff split: if_splits)
  then show ?thesis
    unfolding group_deleted_record_def group_deleted_record_payload_def group_cascade_def by (blast intro: cascade_appends)
qed

section \<open>Samples\<close>

definition sample_group :: GroupRecordV1 where
  "sample_group = \<lparr>group_id = GroupId (HashValue [8]), group_seed = IdSeed [], group_handle = ''ops'', group_counter = 1\<rparr>"

definition sample_membership :: GroupMemberRecordV1 where
  "sample_membership = \<lparr>gm_id = GroupMemberId (HashValue [8]), gm_group_id = GroupId (HashValue [8]),
     gm_member_id = PrincipalRefV1.User (UserId (HashValue [5])), gm_counter = 2\<rparr>"

definition sample_group_report :: ValidationReport where
  "sample_group_report = \<lparr>vrep_effective = default_effective_state\<lparr>
       es_groups := [(GroupId (HashValue [8]), sample_group)],
       es_memberships := [(GroupMemberId (HashValue [8]), sample_membership)], es_admitted_counter_max := Some 2\<rparr>,
     vrep_ratchet_update = default_ratchet_update, vrep_issues = [], vrep_warnings = []\<rparr>"

lemma sample_group_update:
  "case delete_group_update sample_provider (identity_signer sample_prims sample_identity) (GroupId (HashValue [8]))
      sample_secret_vault sample_group_report of Inl _ \<Rightarrow> False | Inr _ \<Rightarrow> True"
  by code_simp

abbreviation sample_handle_build :: "ValidationReport \<Rightarrow> u64 \<Rightarrow> OpsError + VaultRecordV1 \<times> VaultHandleId" where
  "sample_handle_build \<equiv> (\<lambda>_ counter.
     and_then (map_err Hazmat (vault_handle_record sample_provider (identity_signer sample_prims sample_identity) ''ops'' counter)) (\<lambda>sr.
       Inr (sr, VaultHandleId (HashValue [8]))))"

abbreviation sample_handle_effective :: "VaultHandleId \<Rightarrow> HashValue \<Rightarrow> ValidationReport \<Rightarrow> OpsError + unit" where
  "sample_handle_effective \<equiv> (\<lambda>handle_id _ report. effective_or ''vault handle is not active''
     (case bt_get (es_vault_handles (vrep_effective report)) handle_id of None \<Rightarrow> False | Some r \<Rightarrow> vh_handle r = ''ops''))"

definition sample_handle_update :: "(VaultHandleId \<times> HashValue) Update" where
  "sample_handle_update = (\<lambda>vault pre_report.
     let counter = max (next_counter (vrep_effective pre_report)) (rollback_counter_floor (vrep_effective pre_report)) in
     if counter > MAX_LWW_COUNTER then Inl CounterExhausted
     else and_then (sample_handle_build pre_report counter) (\<lambda>(sr, output).
          and_then (map_err OpsError.Core (record_hash sample_provider sr)) (\<lambda>hash.
            Inr ((output, hash), append_record vault sr))))"

definition sample_handle_check :: "(VaultHandleId \<times> HashValue) Check" where
  "sample_handle_check = (\<lambda>(output, hash) report. sample_handle_effective output hash report)"

lemma sample_handle_write:
  "case validate_with (sec_store sample_secrets_env) sample_secret_vault (ratchet_new (HashValue [7])) {} of
     Inl _ \<Rightarrow> False
   | Inr report \<Rightarrow> vrep_issues report = [] \<and> ensure_administer (vrep_effective report) (identity_user sample_identity) = Inr ()
       \<and> (case successor (sec_store sample_secrets_env) sample_handle_update sample_handle_check (sample_prepared report) of
            Inl _ \<Rightarrow> False | Inr nx \<Rightarrow> length (vault_records_of (suc_vault nx)) = 2)"
  by code_simp

lemma sample_handle_closures:
  "sample_handle_update = record_update (sec_store sample_secrets_env) sample_handle_build"
  "sample_handle_check = record_check sample_handle_effective"
  by (simp_all add: fun_eq_iff sample_handle_update_def sample_handle_check_def record_update_def record_check_def Let_def)

lemma sample_handle_run:
  "\<exists>report s'. run_operation sample_secrets_env (\<lambda>_. sample_draws) sample_identity (SetVaultHandle ''ops'')
     (sample_prepared report, sample_disk_free) = (Inr (), (s', sample_disk_free))"
proof -
  obtain report where report: "validate_with (sec_store sample_secrets_env) sample_secret_vault (ratchet_new (HashValue [7])) {} = Inr report"
    using sample_handle_write by (auto split: sum.splits)
  note facts = sample_handle_write [unfolded report sum.case]
  obtain nx where nx: "successor (sec_store sample_secrets_env) sample_handle_update sample_handle_check (sample_prepared report) = Inr nx"
    "length (vault_records_of (suc_vault nx)) = 2"
    using facts by (auto split: sum.splits)
  obtain b where b: "encode_vault (env_vault (sec_store sample_secrets_env)) (suc_vault nx) = Inr b"
    using sample_secret_encodes [OF nx(2)] by auto
  let ?s = "sample_prepared report"
  have rep: "ls_report ?s = report" "ls_persistence ?s = Prepared" "effective ?s = vrep_effective report"
    by (simp_all add: sample_prepared_def sample_session_def effective_def)
  have norm: "normalize_vault_handle ''ops'' = Inr ''ops''" by code_simp
  have id: "derive_vault_handle_id sample_provider ''ops'' = Inr (VaultHandleId (HashValue [8]))"
    by (simp add: derive_vault_handle_id_def derive_hash_def canonical_bytes_def sample_provider_def)
  have "commit_record (sec_store sample_secrets_env) None [] sample_handle_build sample_handle_effective (?s, sample_disk_free) =
      (Inr (fst (suc_output nx)), (?s\<lparr>ls_vault_bytes := b, ls_vault := suc_vault nx, ls_ratchet := suc_ratchet nx,
         ls_report := suc_report nx\<rparr>, sample_disk_free))"
    using facts nx(1) b rep unfolding sample_handle_closures by (intro prepared_commit_record) simp_all
  then have "unlocked_set_vault_handle sample_secrets_env sample_draws sample_identity ''ops'' (?s, sample_disk_free) =
      (Inr (fst (suc_output nx)), (?s\<lparr>ls_vault_bytes := b, ls_vault := suc_vault nx, ls_ratchet := suc_ratchet nx,
         ls_report := suc_report nx\<rparr>, sample_disk_free))"
    using facts by (simp add: unlocked_set_vault_handle_def locked_set_vault_handle_def norm id sample_ids rep sample_draws_def)
  then show ?thesis by (auto simp: ignore_Inr)
qed

text \<open>
  C9. Nobody changes secrets or principals without authority. It is about the twelve operations by
  which an unlocked session sets, deletes or renames a secret, sets the handle of a user or of the
  vault, deletes a user, grants a permission or deletes a grant, creates or deletes a group, and adds
  or deletes a member. One of these for which the effective state does not give the identity the
  authority returns an error and leaves session and disk as they were: the operations on secrets ask
  for write authority on every selector involved, a grant and its deletion for the right to create
  that permission, adding a member for administration and for the right to create everything the
  group holds, and the others for administration, always of an effective user in a resolved state.
  An identity that is not an effective user changes nothing by any sequence of these twelve.
  Converging the readers (\<open>reconcile.rs\<close>) and accepting a rollback (\<open>conflicts.rs\<close>) ask for no authority
  and are not among them; resolving a conflict, inviting and approving check theirs in the theories
  of those operations.
\<close>

theorem unauthorised_operations_change_nothing:
  "(\<not> permitted (effective s) (identity_user identity) oper \<longrightarrow>
      (\<exists>e. run_operation env draws identity oper (s, d) = (Inl e, (s, d))))
   \<and> (\<not> bt_contains_key (es_users (effective s)) (identity_user identity) \<longrightarrow>
      fold (\<lambda>(draws, oper) st. snd (run_operation env draws identity oper st)) ops (s, d) = (s, d))"
  using unpermitted_harmless [of s identity oper env draws d] outsiders.state_kept [of identity "(s, d)" env ops]
  by (auto simp: harmless_def outsider_def case_prod_unfold)

theorem unauthorised_operations_change_nothing_witness:
  "\<exists>e. run_operation sample_secrets_env (\<lambda>_. sample_draws) sample_identity (DeleteGroup (GroupId (HashValue [8])))
     (sample_prepared sample_group_report, sample_disk_free) = (Inl e, (sample_prepared sample_group_report, sample_disk_free))"
proof -
  have "\<not> permitted (effective (sample_prepared sample_group_report)) (identity_user sample_identity) (DeleteGroup (GroupId (HashValue [8])))"
    by (simp add: permitted_def sample_prepared_def sample_session_def effective_def sample_group_report_def default_effective_state_def
        bt_contains_key_def bt_get_def)
  with unauthorised_operations_change_nothing show ?thesis by blast
qed

text \<open>
  C13. Operations on principals take effect. When setting a handle, deleting a user, granting or
  deleting a grant, creating or deleting a group, or adding or deleting a member returns, the session
  it committed has a report without issues in which the change is in force: the handle names its
  user, the grant gives its permission to its subject, the group and the membership exist, and a
  deleted user, group, grant or member is gone, with no effective grant or membership left that names
  a deleted user or group. That session is the one returned, except that granting and adding a member
  run convergence on it.
\<close>

theorem operations_take_effect:
  assumes "run_operation env draws identity oper (s, d) = (Inr u, (s', d'))" and "on_principals oper"
  shows "\<exists>s1 d1. vrep_issues (ls_report s1) = [] \<and> in_effect (sec_crypto env) (effective s1) oper
    \<and> (if adds_access oper then \<exists>out. converge_readers env (\<lambda>i. draws (Suc i)) identity (s1, d1) = (Inr out, (s', d'))
       else (s1, d1) = (s', d'))"
  using run_takes_effect [OF assms] unfolding takes_effect_def by blast

theorem operations_take_effect_witness:
  "\<exists>report s' d' r. run_operation sample_secrets_env (\<lambda>_. sample_draws) sample_identity (SetVaultHandle ''ops'')
       (sample_prepared report, sample_disk_free) = (Inr (), (s', d'))
     \<and> bt_get (es_vault_handles (effective s')) (VaultHandleId (HashValue [8])) = Some r \<and> vh_handle r = normalize_handle ''ops''"
proof -
  obtain report s' where run: "run_operation sample_secrets_env (\<lambda>_. sample_draws) sample_identity (SetVaultHandle ''ops'')
     (sample_prepared report, sample_disk_free) = (Inr (), (s', sample_disk_free))"
    using sample_handle_run by blast
  have "derive_vault_handle_id sample_provider ''ops'' = Inr (VaultHandleId (HashValue [8]))"
    by (simp add: derive_vault_handle_id_def derive_hash_def canonical_bytes_def sample_provider_def)
  with operations_take_effect [OF run] run show ?thesis by fastforce
qed

text \<open>
  C14. A deletion cascades. The update that deletes a user appends to the vault its tombstone, then
  one for every membership of the user and then one for every grant to the user, in the order of the
  effective state, all signed with the key of the actor, the first with the next counter and each
  further one with the counter after that; the update that deletes a group does the same with the
  memberships in the group and of the group, and the grants to it.
\<close>

theorem deletion_cascades:
  "(delete_user_update crypto signer user reason vault report = Inr (out, vault') \<longrightarrow>
      out = user \<and> appends signer (user_cascade crypto (vrep_effective report) user reason) vault vault')
   \<and> (delete_group_update crypto signer grp vault report = Inr (out', vault'') \<longrightarrow>
      out' = grp \<and> appends signer (group_cascade crypto (vrep_effective report) grp) vault vault'')"
  using delete_user_appends delete_group_appends by blast

theorem deletion_cascades_witness:
  "\<exists>v. delete_group_update sample_provider (identity_signer sample_prims sample_identity) (GroupId (HashValue [8]))
       sample_secret_vault sample_group_report = Inr (GroupId (HashValue [8]), v)
     \<and> appends (identity_signer sample_prims sample_identity)
         [Some (RecordBodyV1.GroupDeleted \<lparr>gd_id = GroupId (HashValue [8]), gd_counter = 3\<rparr>),
          membership_tombstone sample_provider sample_membership 4] sample_secret_vault v"
proof -
  have "group_cascade sample_provider (vrep_effective sample_group_report) (GroupId (HashValue [8])) =
      [Some (RecordBodyV1.GroupDeleted \<lparr>gd_id = GroupId (HashValue [8]), gd_counter = 3\<rparr>),
       membership_tombstone sample_provider sample_membership 4]"
    by code_simp
  moreover obtain out v where "delete_group_update sample_provider (identity_signer sample_prims sample_identity) (GroupId (HashValue [8]))
       sample_secret_vault sample_group_report = Inr (out, v)"
    using sample_group_update by (auto split: sum.splits)
  ultimately show ?thesis
    using deletion_cascades by metis
qed

end
