(* ===== verification/Thorax_Trust.thy ===== *)
theory Thorax_Trust
  imports Thorax_Principals
begin

text \<open>
  Files: the rest of \<open>crates/thorax-ops/src/trust.rs\<close>, and \<open>accept_rollback\<close> of \<open>conflicts.rs\<close>. What a
  machine remembers of a vault can be lowered on purpose, at one key or altogether, when what looks
  like a rollback is known to be a restore. Creating a vault and checking a merged one belong to the
  same file; the keychain prompt in front of a reset is not modelled.

  The theorems show that accepting a rollback touches one key of one file, and that a reset gets a
  machine out of a suspected rollback: the next session loads as on a fresh machine.
\<close>

section \<open>Outputs\<close>

record AcceptRollbackOutput =
  aro_key :: RecordKey
  aro_remembered_counter :: u64
  aro_accepted_counter :: u64

record InitVaultOutput =
  ivo_paths :: WorkspacePaths
  ivo_root_user_id :: UserId
  ivo_root_signing_public_key_hash :: HashValue
  ivo_vault :: VaultStore
  ivo_ratchet :: Ratchet
  ivo_report :: ValidationReport

record ResetRatchetOutput =
  rro_trusted_root :: HashValue
  rro_dropped_watermarks :: "RecordKey list"
  rro_applied :: bool

record CheckMergedVaultOutput =
  cmo_issues :: "ValidationIssue list"
  cmo_conflicts :: "ConflictReport list"
  cmo_ratchet_checked :: bool

section \<open>Accepting a rollback\<close>

text \<open>The memory with the watermark at one key set.\<close>

definition accept_counter :: "RecordKey \<Rightarrow> u64 \<Rightarrow> Ratchet \<Rightarrow> Ratchet" where
  "accept_counter key counter trust =
     (if counter = 0 then trust\<lparr>watermarks := bt_remove key (watermarks trust), origins := bt_remove key (origins trust)\<rparr>
      else trust\<lparr>watermarks := bt_insert key counter (watermarks trust)\<rparr>)"

definition accept_rollback :: "StoreEnv \<Rightarrow> RecordKey \<Rightarrow> AcceptRollbackOutput SessionOp" where
  "accept_rollback env key =
     op_then (op_read (\<lambda>(s, d). case bt_get (es_conflicted (effective s)) key of
         None \<Rightarrow> Inl (ConflictNotResolvable ''no conflict exists at this key'')
       | Some conflict \<Rightarrow>
           (case cr_kind conflict of
              Tie \<Rightarrow> Inl (ConflictNotResolvable (''only rollback conflicts can be accepted '' @ [CHR 0xE2, CHR 0x80, CHR 0x94]
                       @ '' a tie needs an explicit winner''))
            | Rollback remembered \<Rightarrow> Inr (remembered, cr_counter conflict)))) (\<lambda>(remembered, counter).
     op_then (rewrite_ratchet env (accept_counter key counter)) (\<lambda>_.
     op_then (op_read (\<lambda>(s, d).
         if bt_contains_key (es_conflicted (effective s)) key
         then Inl (OperationNotEffective ''accepting the rollback did not clear the conflict'') else Inr ())) (\<lambda>_.
       op_ok \<lparr>aro_key = key, aro_remembered_counter = remembered, aro_accepted_counter = counter\<rparr>)))"

section \<open>Creating, resetting, checking\<close>

definition init_vault :: "StoreEnv \<Rightarrow> WorkspacePaths \<Rightarrow> RecordSigner \<Rightarrow> InitVaultOutput Op" where
  "init_vault env paths root =
     (let crypto = env_crypto env in
      op_then (op_read (\<lambda>d. if d (vault_path paths) \<noteq> None then Inl (VaultAlreadyInitialized (vault_path paths)) else Inr ())) (\<lambda>_.
      op_then (op_read (\<lambda>_. map_err Hazmat (vault_root_record crypto root))) (\<lambda>root_signed.
      op_then (op_read (\<lambda>_. map_err Hazmat (entry_point_record crypto root (signer_user_id root) 0))) (\<lambda>root_entry_point.
      let vault = append_record (append_record (VaultStore.V1 \<lparr>vs_records = []\<rparr>) root_signed) root_entry_point in
      op_then (op_read (\<lambda>_. map_err OpsError.Core (key_hash crypto (signer_signing_public_key root)))) (\<lambda>root_hash.
      op_then (op_read (\<lambda>_. map_err OpsError.Core (validate_vault crypto vault (ratchet_new root_hash)))) (\<lambda>report.
      op_then (op_read (\<lambda>_. ensure_no_issues report)) (\<lambda>_.
      let ratchet = apply_update (vrep_ratchet_update report) (ratchet_new root_hash) in
      op_then (op_read (\<lambda>d. if d (vault_path paths) \<noteq> None then Inl (VaultAlreadyInitialized (vault_path paths)) else Inr ())) (\<lambda>_.
      op_then (op_store (write_ratchet_atomic env paths ratchet)) (\<lambda>_.
      op_then (op_store (write_vault_atomic env paths vault)) (\<lambda>_.
        op_ok \<lparr>ivo_paths = paths, ivo_root_user_id = signer_user_id root, ivo_root_signing_public_key_hash = root_hash,
               ivo_vault = vault, ivo_ratchet = ratchet, ivo_report = report\<rparr>))))))))))"

definition dropped_watermarks :: "Ratchet \<Rightarrow> Ratchet \<Rightarrow> RecordKey list" where
  "dropped_watermarks existing fresh =
     map fst (filter (\<lambda>(key, counter). get_or_zero (watermarks fresh) key < counter) (watermarks existing))"

definition reset_ratchet :: "StoreEnv \<Rightarrow> WorkspacePaths \<Rightarrow> bool \<Rightarrow> ResetRatchetOutput Op" where
  "reset_ratchet env paths dry_run =
     (let crypto = env_crypto env in
      op_then (op_read (\<lambda>d. map_err Store (read_vault env d paths))) (\<lambda>vault.
      op_then (op_read (\<lambda>_. trusted_root_candidate crypto vault)) (\<lambda>root.
      op_then (op_read (ensure_no_pending_transaction_locked env paths root)) (\<lambda>_.
      op_then (op_read (\<lambda>d. map_err Store (read_vault env d paths))) (\<lambda>vault.
      op_then (op_read (\<lambda>_. trusted_root_candidate crypto vault)) (\<lambda>reread_root.
      if reread_root \<noteq> root then op_err (Store (TrustRootMismatch reread_root root))
      else op_then (op_read (\<lambda>d. map_err Store (read_ratchet_for_root env d paths root))) (\<lambda>found.
      op_then (op_read (\<lambda>_. case found of None \<Rightarrow> Inl (MissingRatchet (ratchet_path paths root)) | Some r \<Rightarrow> Inr r)) (\<lambda>existing.
      op_then (op_read (\<lambda>_. map_err OpsError.Core (validate_vault crypto vault (ratchet_new root)))) (\<lambda>report.
      op_then (op_read (\<lambda>_. ensure_no_issues report)) (\<lambda>_.
      let fresh = apply_update (vrep_ratchet_update report) (ratchet_new root) in
      op_then (if dry_run then op_ok () else op_store (write_ratchet_atomic env paths fresh)) (\<lambda>_.
        op_ok \<lparr>rro_trusted_root = root, rro_dropped_watermarks = dropped_watermarks existing fresh,
               rro_applied = (\<not> dry_run)\<rparr>)))))))))))"

definition check_merged_vault :: "StoreEnv \<Rightarrow> WorkspacePaths \<Rightarrow> VaultStore \<Rightarrow> Disk \<Rightarrow> OpsError + CheckMergedVaultOutput" where
  "check_merged_vault env paths vault d =
     and_then (trusted_root_candidate (env_crypto env) vault) (\<lambda>root.
     and_then (read_strongest_ratchet_optional_locked env paths root d) (\<lambda>found.
     let (ratchet, checked) = (case found of Some r \<Rightarrow> (r, True) | None \<Rightarrow> (ratchet_new root, False)) in
     and_then (map_err OpsError.Core (validate_vault (env_crypto env) vault ratchet)) (\<lambda>report.
       Inr \<lparr>cmo_issues = vrep_issues report, cmo_conflicts = bt_values (es_conflicted (vrep_effective report)),
            cmo_ratchet_checked = checked\<rparr>)))"

definition has_suspected_rollback :: "ValidationReport \<Rightarrow> bool" where
  "has_suspected_rollback report =
     list_ex (\<lambda>conflict. case cr_kind conflict of Rollback _ \<Rightarrow> True | Tie \<Rightarrow> False) (bt_values (es_conflicted (vrep_effective report)))"

section \<open>A ratchet the vault has caught up with\<close>

text \<open>A ratchet that remembers nothing above what the vault shows suspects nothing.\<close>

lemma no_rollback_keys:
  assumes "\<And>k c. (k, c) \<in> set (watermarks r) \<Longrightarrow> c \<le> get_or_zero current k"
  shows "rollback_keys_of r current = []"
proof -
  have "fold (\<lambda>(key, remembered) m. if get_or_zero current key < remembered then bt_insert key remembered m else m) ps m = m"
    if "\<And>k c. (k, c) \<in> set ps \<Longrightarrow> c \<le> get_or_zero current k" for ps :: "(RecordKey \<times> u64) list" and m
    using that by (induction ps) (fastforce simp: not_less)+
  then show ?thesis
    using assms by (simp add: rollback_keys_of_def)
qed

text \<open>The root record has no counter, so nothing is admitted at its key.\<close>

lemma root_key_uncounted: "list_all keyed records \<Longrightarrow> admitted_counters a st d records RecordKey.VaultRoot = {}"
proof -
  have "lww_counter body = None" if "record_key_for body signer = Inr RecordKey.VaultRoot" for body signer
    using that by (cases body) auto
  then show "list_all keyed records \<Longrightarrow> admitted_counters a st d records RecordKey.VaultRoot = {}"
    by (fastforce simp: admitted_counters_def list_all_iff keyed_def)
qed

lemma settle_caught_up:
  assumes settle: "settle_v1 crypto (ratchet_new h) root records = (eff, upd, iss)"
    and level: "\<And>k. watermark_level r k \<le> watermark_level (apply_update upd (ratchet_new h)) k" and wf: "bt_wf (watermarks r)"
    and reach: "\<And>k. k \<noteq> RecordKey.VaultRoot \<Longrightarrow> watermark_level r k = watermark_level (apply_update upd (ratchet_new h)) k"
    and keyed: "list_all keyed records"
  shows "\<exists>upd'. settle_v1 crypto r root records = (eff, upd', iss) \<and> raised_watermarks upd' = []"
proof -
  obtain wm rb eff0 where parts: "settled_rollbacks crypto (ratchet_new h) root records = (wm, rb, eff0)"
    by (metis prod_cases3)
  obtain st d where wm: "wm = admitted_watermarks records st d"
    using settle_v1_parts(6) [OF settle parts] by blast
  note wfs = admitted_watermarks_wf [of records st d, folded wm]
  have fresh: "watermark_level (apply_update upd (ratchet_new h)) k = get_or_zero (fst wm) k" for k
    using updated_watermarks [OF wfs, of "ratchet_new h" k] unfolding settle_v1_parts(2) [OF settle parts]
    by (auto simp: watermark_level_def get_or_zero_def ratchet_new_def bt.get_empty not_less split: option.splits if_splits)
  then have "watermark_level r k \<le> get_or_zero (fst wm) k" for k
    using level [of k] by simp
  then have "c \<le> get_or_zero (fst wm) k" if "(k, c) \<in> set (watermarks r)" for k c
    using that wf_distinct [OF wf] by (metis bt_get_def map_of_is_SomeI option.simps(5) watermark_level_def)
  then have "rollback_keys_of r (fst wm) = []" by (rule no_rollback_keys)
  moreover have "rollback_keys_of (ratchet_new h) (fst wm) = []"
    by (simp add: rollback_keys_of_def ratchet_new_def)
  ultimately have "settle_v1 crypto r root records = (eff, ratchet_update_of r wm, iss)"
    using settle parts by (auto simp: settle_v1_def settled_rollbacks_def Let_def case_prod_beta)
  moreover have "bt_get (raised_watermarks (ratchet_update_of r wm)) k = bt_get [] k" for k
  proof (cases "k = RecordKey.VaultRoot")
    case True
    have "bt_get (fst wm) RecordKey.VaultRoot = None"
      unfolding wm admitted_watermarks_get using root_key_uncounted [OF keyed] by simp
    with True show ?thesis
      by (simp add: update_of_get(1) [OF wfs] bt.get_empty)
  next
    case False
    then have "get_or_zero (watermarks r) k = get_or_zero (fst wm) k"
      using reach fresh by (simp add: watermark_level_def get_or_zero_def)
    then show ?thesis
      by (auto simp: update_of_get(1) [OF wfs] get_or_zero_def bt.get_empty split: option.splits)
  qed
  then have "raised_watermarks (ratchet_update_of r wm) = []"
    by (rule bt.wf_ext [OF update_of_get(2) [OF wfs] bt.wf_empty])
  ultimately show ?thesis by blast
qed

lemma validate_caught_up:
  assumes valid: "validate_vault crypto vault (ratchet_new h) = Inr report" and clean: "vrep_issues report = []"
    and level: "\<And>k. ratchet_level r k \<le> ratchet_level (apply_update (vrep_ratchet_update report) (ratchet_new h)) k"
    and reach: "\<And>k. k \<noteq> Some RecordKey.VaultRoot \<Longrightarrow>
      ratchet_level r k = ratchet_level (apply_update (vrep_ratchet_update report) (ratchet_new h)) k"
    and wf: "bt_wf (watermarks r)" and root: "trusted_root r = h"
  shows "\<exists>report'. validate_vault crypto vault r = Inr report' \<and> vrep_issues report' = []
    \<and> vrep_effective report' = vrep_effective report \<and> raised_watermarks (vrep_ratchet_update report') = []"
proof -
  obtain v1 where v1: "vault = VaultStore.V1 v1" by (cases vault)
  obtain rep where rep: "validate_v1 crypto (ratchet_new h) {} v1 = Inr rep"
    and report: "report = rep\<lparr>vrep_ratchet_update := (vrep_ratchet_update rep)\<lparr>raised_format_version := Some 1\<rparr>\<rparr>"
    using valid clean by (auto simp: validate_vault_def validate_vault_with_verified_def Let_def v1 and_then_Inr_iff ratchet_new_def split: if_splits)
  have version: "ratchet_format_version r \<le> 1"
    using level [of None] by (simp add: ratchet_level_def apply_update_fields report update_claim_def ratchet_new_def)
  have keys: "watermark_level r k \<le> watermark_level (apply_update (vrep_ratchet_update rep) (ratchet_new h)) k" for k
    using level [of "Some k"] by (simp add: ratchet_level_def watermark_level_def apply_update_fields(1) report)
  have same: "watermark_level r k = watermark_level (apply_update (vrep_ratchet_update rep) (ratchet_new h)) k"
    if "k \<noteq> RecordKey.VaultRoot" for k
    using reach [of "Some k"] that by (simp add: ratchet_level_def watermark_level_def apply_update_fields(1) report)
  from rep obtain rep' where "validate_v1 crypto r {} v1 = Inr rep'" "vrep_issues rep' = vrep_issues rep"
      "vrep_effective rep' = vrep_effective rep" "raised_watermarks (vrep_ratchet_update rep') = []"
  proof (cases rule: validate_v1_cases)
    case no_root
    with clean show thesis by (auto simp: report)
  next
    case (root hrs root kr v eff upd iss)
    obtain upd' where "settle_v1 crypto r root (verified_list v) = (eff, upd', iss)" "raised_watermarks upd' = []"
      using settle_caught_up [OF root(5) _ wf _ verified_list_ok(3) [OF root(1,4)]] keys same root(6) by auto
    with root rep show thesis
      by (intro that [of "rep\<lparr>vrep_ratchet_update := upd'\<rparr>"])
         (auto simp: validate_v1_def select_root_def and_then_Inr_iff ratchet_new_def \<open>trusted_root r = h\<close> split: list.splits)
  qed
  with version clean report show ?thesis
    by (simp add: validate_vault_def validate_vault_with_verified_def Let_def v1)
qed

section \<open>A cache that tells the truth\<close>

text \<open>
  A session skips the signature check of the records that its verification cache lists. A list is
  honest when every record of the vault that it names would pass the check; validation with it is
  then validation without it.
\<close>

definition honest_hashes :: "CryptoProvider \<Rightarrow> VaultStore \<Rightarrow> HashValue set \<Rightarrow> bool" where
  "honest_hashes crypto vault verified \<longleftrightarrow>
     (case vault of VaultStore.V1 v1 \<Rightarrow>
        \<forall>sr \<in> set (vs_records v1). \<forall>h \<in> verified. record_hash crypto sr = Inr h \<longrightarrow> check_envelope crypto {} (sr, h) = Inr True)"

definition honest_record :: "CryptoProvider \<Rightarrow> HashValue set \<Rightarrow> HashedRecord \<Rightarrow> bool" where
  "honest_record crypto verified hr \<longleftrightarrow> (snd hr \<in> verified \<longrightarrow> check_envelope crypto {} hr = Inr True)"

lemma honest_check: "honest_record crypto verified hr \<Longrightarrow> check_envelope crypto verified hr = check_envelope crypto {} hr"
  by (auto simp: honest_record_def check_envelope_def)

lemma honest_envelope: "honest_record crypto verified hr \<Longrightarrow> envelope_ok crypto verified hr = envelope_ok crypto {} hr"
  by (auto simp: honest_record_def check_envelope_def envelope_ok_def and_then_Inr_iff)

lemma honest_root_matches:
  "list_all (honest_record crypto verified) hrs \<Longrightarrow> root_matches crypto trusted verified hrs = root_matches crypto trusted {} hrs"
  by (induction hrs) (simp_all add: honest_check Let_def cong: if_cong option.case_cong RecordBodyV1.case_cong)

lemma honest_intro_pass:
  "list_all (\<lambda>b. honest_record crypto verified (fst b)) bodies \<Longrightarrow>
     intro_pass crypto verified bodies intro changed = intro_pass crypto {} bodies intro changed"
  by (induction crypto verified bodies intro changed rule: intro_pass.induct) (simp_all add: honest_envelope)

lemma honest_introduce:
  "list_all (\<lambda>b. honest_record crypto verified (fst b)) bodies \<Longrightarrow>
     introduce crypto verified bodies intro = introduce crypto {} bodies intro"
proof (induction crypto verified bodies intro rule: introduce.induct)
  case (1 crypto verified bodies intro)
  obtain intro' changed where pass: "intro_pass crypto {} bodies intro False = (intro', changed)" by fastforce
  with 1 show ?case
    by (simp add: introduce.simps [of _ _ _ intro] honest_intro_pass)
qed

lemma honest_attested:
  "list_all (honest_record crypto verified) hrs \<Longrightarrow> attested_loop crypto verified user hrs = attested_loop crypto {} user hrs"
  by (induction hrs) (auto simp: honest_envelope split: option.split RecordBodyV1.split)

lemma honest_signing_keys:
  assumes "list_all (honest_record crypto verified) hrs"
  shows "signing_keys crypto verified root hrs = signing_keys crypto {} root hrs"
proof -
  have "list_all (\<lambda>b. honest_record crypto verified (fst b)) (user_bodies crypto hrs)"
    using assms by (auto simp: user_bodies_def list_all_iff map_filter_def split: option.splits RecordBodyV1.splits if_splits)
  then show ?thesis
    by (simp add: signing_keys_def honest_introduce honest_attested [OF assms])
qed

lemma honest_verify_records:
  "list_all (honest_record crypto verified) hrs \<Longrightarrow>
     verify_records crypto verified root kr hrs acc = verify_records crypto {} root kr hrs acc"
  by (induction hrs arbitrary: acc) (simp_all add: honest_check cong: if_cong option.case_cong sum.case_cong)

lemma honest_dedup:
  assumes "dedup_loop crypto {} (vs_records v1) = Inr hrs" and "honest_hashes crypto (VaultStore.V1 v1) verified"
  shows "list_all (honest_record crypto verified) hrs"
  using assms dedup_loop_Inr [OF assms(1)] by (auto simp: honest_hashes_def honest_record_def list_all_iff)

lemma honest_validate:
  assumes "honest_hashes crypto vault verified"
  shows "validate_vault_with_verified crypto vault ratchet verified = validate_vault crypto vault ratchet"
proof -
  obtain v1 where v1: "vault = VaultStore.V1 v1" by (cases vault)
  have "validate_v1 crypto ratchet verified v1 = validate_v1 crypto ratchet {} v1"
  proof (cases "dedup_loop crypto {} (vs_records v1)")
    case (Inr hrs)
    then show ?thesis
      using honest_dedup [OF Inr assms [unfolded v1]]
      by (simp add: validate_v1_def select_root_def honest_root_matches honest_signing_keys honest_verify_records
          cong: if_cong option.case_cong)
  qed (simp add: validate_v1_def)
  then show ?thesis
    by (simp add: validate_vault_def validate_vault_with_verified_def v1)
qed

section \<open>What a reset leaves\<close>

lemma to_records_claim:
  assumes "bt_wf (watermarks r)" and "x \<in> set (to_records r)"
  shows "record_claim x k \<le> ratchet_level r k"
proof (cases k)
  case None
  then show ?thesis
    using assms(2) by (auto simp: set_to_records record_claim_def ratchet_level_def dest: for_key_Some split: if_splits)
next
  case (Some k')
  show ?thesis
  proof (cases "ratchet_record_key x = Some k'")
    case True
    then obtain c where "(k', c) \<in> set (watermarks r)" "ratchet_record_counter x = c"
      using assms(2) by (auto simp: set_to_records for_key_Some split: if_splits)
    then show ?thesis
      using Some True wf_distinct [OF assms(1)]
      by (simp add: record_claim_def ratchet_level_def watermark_level_def bt_get_def)
  qed (simp add: Some record_claim_def)
qed

lemma to_records_reach:
  assumes "k \<noteq> Some RecordKey.VaultRoot" and "0 < ratchet_level r k"
  shows "\<exists>x \<in> set (to_records r). record_claim x k = ratchet_level r k \<and> (\<forall>f. x \<noteq> RatchetRecordV1.TrustedRoot f)"
proof (cases k)
  case None
  then show ?thesis
    using assms(2) by (intro bexI [of _ "RatchetRecordV1.FormatVersion \<lparr>fvr_version = ratchet_format_version r\<rparr>"])
      (auto simp: ratchet_level_def record_claim_def set_to_records)
next
  case (Some k')
  then obtain c where c: "bt_get (watermarks r) k' = Some c" "ratchet_level r k = c"
    using assms(2) by (auto simp: ratchet_level_def watermark_level_def split: option.splits)
  obtain x where x: "for_key k' c (bt_get (origins r) k') = Some x"
    using for_key_ex [of k' c] assms(1) Some by blast
  have "(k', c) \<in> set (watermarks r)"
    using c(1) by (simp add: bt_get_def map_of_SomeD)
  then have "x \<in> set (to_records r)"
    using x by (auto simp: set_to_records)
  then show ?thesis
    using for_key_Some [OF x] c(2) Some by (intro bexI [of _ x]) (auto simp: record_claim_def)
qed

lemma decode_encode_level:
  assumes codec: "canonical_ratchet_codec (env_ratchet env)" and wf: "bt_wf (watermarks r)"
    and enc: "encode_ratchet env r = Inr bytes"
  shows "\<exists>r'. decode_ratchet env path bytes = Inr r' \<and> trusted_root r' = trusted_root r \<and> bt_wf (watermarks r')
    \<and> (\<forall>k. ratchet_level r' k \<le> ratchet_level r k) \<and> (\<forall>k. k \<noteq> Some RecordKey.VaultRoot \<longrightarrow> ratchet_level r' k = ratchet_level r k)"
proof -
  obtain payload where payload: "cord_ser (env_ratchet env) (ratchet_store_of r) = Inr payload"
      "bytes = RATCHET_MAGIC @ payload"
    using enc by (auto simp: encode_ratchet_def and_then_Inr_iff)
  obtain s' where s': "cord_de (env_ratchet env) payload = Inr s'" "same_store (ratchet_store_of r) s'"
    using codec payload(1) unfolding canonical_ratchet_codec_def by blast
  obtain rs where rs: "s' = RatchetStore.V1 \<lparr>rs_records = rs\<rparr>"
    by (cases s') (metis RatchetStoreV1.cases)
  have "set rs = set (rs_records (case ratchet_store_of r of RatchetStore.V1 s \<Rightarrow> s))"
    using s'(2) rs by (auto simp: ratchet_store_of_def)
  from into_ratchet_absorbs [OF this] obtain known where
      known: "set (known @ [RatchetRecordV1.TrustedRoot \<lparr>trr_trusted_root = trusted_root r\<rparr>]) = set (to_records r)"
      "into_ratchet s' = Some ((fold absorb_record known (ratchet_new (trusted_root r)))\<lparr>unknown_records := List.map_filter unknown_record rs\<rparr>)"
    unfolding rs by blast
  let ?r = "fold absorb_record known (ratchet_new (trusted_root r))"
  have "ratchet_level (ratchet_new (trusted_root r)) k = 0" for k
    by (cases k) (simp_all add: ratchet_level_def watermark_level_def ratchet_new_def bt.get_empty)
  then have level: "ratchet_level ?r k = Max (insert 0 ((\<lambda>x. record_claim x k) ` set known))" for k
    by (simp add: absorption.level_fold [of known] list_all_iff)
  have "set known \<subseteq> set (to_records r)" using known(1) by auto
  then have below: "ratchet_level ?r k \<le> ratchet_level r k" for k
    using to_records_claim [OF wf] by (auto simp: level)
  have "ratchet_level r k \<le> ratchet_level ?r k" if ne: "k \<noteq> Some RecordKey.VaultRoot" for k
  proof (cases "0 < ratchet_level r k")
    case True
    obtain x where "x \<in> set (to_records r)" "record_claim x k = ratchet_level r k" "\<And>f. x \<noteq> RatchetRecordV1.TrustedRoot f"
      using to_records_reach [OF ne True] by blast
    then have "ratchet_level r k \<in> (\<lambda>x. record_claim x k) ` set known"
      using known(1) by (metis Un_iff empty_iff empty_set imageI list.simps(15) set_append insert_iff)
    then show ?thesis
      unfolding level by (intro Max_ge) auto
  qed (simp add: word_gt_0)
  with below have "k \<noteq> Some RecordKey.VaultRoot \<longrightarrow> ratchet_level ?r k = ratchet_level r k" for k
    by (auto intro: antisym)
  moreover have "decode_ratchet env path bytes = Inr (?r\<lparr>unknown_records := List.map_filter unknown_record rs\<rparr>)"
    using s'(1) known(2) strip_prefix_Some_iff [of RATCHET_MAGIC bytes payload] payload(2)
    by (simp add: decode_ratchet_def)
  moreover have "bt_wf (watermarks ?r)"
    by (rule absorb_fold_frames) (simp add: ratchet_new_def bt.wf_empty)
  ultimately show ?thesis
    using below by (auto simp: absorb_fold_frames ratchet_new_def)
qed

lemma fresh_ratchet:
  "bt_wf (watermarks (apply_update upd (ratchet_new root)))" "trusted_root (apply_update upd (ratchet_new root)) = root"
  unfolding apply_update_fields by (rule fold_raise_wf) (simp_all add: ratchet_new_def bt.wf_empty)

text \<open>Under a ratchet without watermarks every conflict is a tie.\<close>

lemma materialized_tie: "(k, c) \<in> set (materialize_conflicts crypto records slots) \<Longrightarrow> cr_kind c = Tie"
  by (auto simp: materialize_conflicts_def)

lemma fresh_report_ties:
  assumes "validate_vault crypto vault (ratchet_new h) = Inr report"
  shows "\<not> has_suspected_rollback report"
proof -
  obtain v1 where v1: "vault = VaultStore.V1 v1" by (cases vault)
  obtain rep where rep: "validate_v1 crypto (ratchet_new h) {} v1 = Inr rep" "vrep_effective report = vrep_effective rep"
    using assms by (auto simp: validate_vault_def validate_vault_with_verified_def Let_def v1 and_then_Inr_iff ratchet_new_def split: if_splits)
  from rep(1) show ?thesis
  proof (cases rule: validate_v1_cases)
    case no_root
    with rep show ?thesis by (simp add: has_suspected_rollback_def unresolved_state_def default_effective_state_def)
  next
    case (root hrs root kr v eff upd iss)
    obtain wm rb eff0 where parts: "settled_rollbacks crypto (ratchet_new h) root (verified_list v) = (wm, rb, eff0)"
      by (metis prod_cases3)
    have rb: "rb = []"
      using settle_v1_parts(4) [OF root(5) parts] by (simp add: rollback_keys_of_def ratchet_new_def)
    obtain d where eff0: "eff0 = compute_effective_state crypto
        (user_from_root (selected_root root) (selected_signing_public_key root)) (selected_root_hash root) (verified_list v) d rb"
      using settle_v1_parts(5) [OF root(5) parts] resolved_state by metis
    have "\<exists>slots. es_conflicted eff0 = materialize_conflicts crypto (verified_list v) slots"
      unfolding eff0 by (auto simp: compute_effective_state_def Let_def case_prod_beta)
    then obtain slots where slots: "es_conflicted eff0 = materialize_conflicts crypto (verified_list v) slots" by blast
    have "cr_kind c = Tie" if "(k, c) \<in> set (es_conflicted eff)" for k c
      using that extend_values materialized_tie unfolding settle_v1_parts(1) [OF root(5) parts] rb slots
      by (auto simp: bt_extend_def [of _ "[]"] dest!: extend_values [THEN subsetD])
    with rep root(6) show ?thesis
      by (force simp: has_suspected_rollback_def list_ex_iff)
  qed
qed

lemma reset_ratchet_run:
  assumes vault: "read_vault env d paths = Inr vault" and root: "trusted_root_candidate (env_crypto env) vault = Inr root"
    and quiet: "ensure_no_pending_transaction_locked env paths root d = Inr ()"
    and existing: "read_ratchet_for_root env d paths root = Inr (Some existing)"
    and valid: "validate_vault (env_crypto env) vault (ratchet_new root) = Inr report" and clean: "vrep_issues report = []"
  shows "reset_ratchet env paths dry_run d =
    (let fresh = apply_update (vrep_ratchet_update report) (ratchet_new root) in
     op_then (if dry_run then op_ok () else op_store (write_ratchet_atomic env paths fresh)) (\<lambda>_.
       op_ok \<lparr>rro_trusted_root = root, rro_dropped_watermarks = dropped_watermarks existing fresh, rro_applied = (\<not> dry_run)\<rparr>) d)"
  using assms by (simp add: reset_ratchet_def Let_def ensure_no_issues_def)

lemma recover_quiet:
  assumes "d (join_commit_path paths root) = None" and "d (transaction_path paths root) = None"
  shows "recover_for_root env fault paths root d = (Inr NothingToDo, d)"
proof -
  have "read_transaction (ops_store env) d paths root = Inr None"
    using assms(2) by (simp add: read_transaction_None_iff)
  then show ?thesis
    using assms(1)
    by (simp add: recover_for_root_def read_pending_def join_commit_present_def recover_transaction_if_origin_def recover_join_commit_def
        read_current_file_def read_file_bounded_def op_then_def op_read_def op_ok_def Let_def)
qed

lemma absorb_settled:
  assumes "raised_watermarks (vrep_ratchet_update (ls_report s)) = []"
  shows "absorb_clean_trust_raises env contended (s, d) = (Inr (), (s, d))"
  using assms by (simp add: absorb_clean_trust_raises_def session_simps Let_def op_ok_def)

lemma load_settled:
  assumes vault: "read_vault (ops_store env) d paths = Inr vault" and root: "trusted_root_candidate (ops_crypto env) vault = Inr root"
    and quiet: "d (join_commit_path paths root) = None" "d (transaction_path paths root) = None"
    and r: "d (ratchet_path paths root) = Some b" "length b \<le> MAX_RATCHET_BYTES"
      "decode_ratchet (ops_store env) (ratchet_path paths root) b = Inr r" "trusted_root r = root"
    and report: "validate_vault (ops_crypto env) vault r = Inr report" "raised_watermarks (vrep_ratchet_update report) = []"
    and honest: "\<And>cache. read_trusted_cache (ops_store env) d paths current vault root = Some cache \<Longrightarrow>
      honest_hashes (ops_crypto env) vault (set (Thorax_Store.verified_record_hashes cache))"
  shows "\<exists>s. load env fault paths current contended d = (Inr s, d) \<and> ls_report s = report \<and> ls_ratchet s = r"
proof -
  obtain bytes where bytes: "read_vault_bytes d paths = Inr bytes" "decode_vault (env_vault (ops_store env)) bytes = Inr vault"
    using vault by (auto simp: read_vault_def and_then_Inr_iff)
  have "read_transaction (ops_store env) d paths root = Inr None"
    using quiet(2) by (simp add: read_transaction_None_iff)
  moreover have "read_ratchet_for_root (ops_store env) d paths root = Inr (Some r)"
    using r by (auto simp: read_ratchet_Some_iff)
  ultimately have strongest: "read_strongest_ratchet_locked (ops_store env) paths root d = Inr (r, None)"
    by (simp add: strongest_without_journal)
  have "validate_with (ops_store env) vault r (case read_trusted_cache (ops_store env) d paths current vault root of
      None \<Rightarrow> {} | Some cache \<Rightarrow> set (Thorax_Store.verified_record_hashes cache)) = Inr report"
    using report(1) honest_validate [OF honest]
    by (cases "read_trusted_cache (ops_store env) d paths current vault root") (simp_all add: validate_with_def validate_vault_def)
  then obtain s where s: "load_snapshot (ops_store env) paths current root NothingToDo d = Inr s" "ls_report s = report" "ls_ratchet s = r"
    using bytes strongest
    by (cases "read_trusted_cache (ops_store env) d paths current vault root") (simp_all add: load_snapshot_def decode_vault_file_def)
  have "load env fault paths current contended d = (Inr s, d)"
    using bytes root s(1) absorb_settled [of s] s(2) report(2)
    by (simp add: load_def decode_vault_file_def op_then_def [of "recover_for_root env fault paths root"] recover_quiet [OF quiet])
  with s show ?thesis by blast
qed

section \<open>Rewriting the memory\<close>

text \<open>What a mutation of the stored memory can do: nothing, or a write of that file alone.\<close>

lemma rewrite_ratchet_cases:
  assumes "rewrite_ratchet env mutate (s, d) = (res, (s', d'))"
  obtains (refused) e where "res = Inl e" "d' = d"
  | (rewritten) r where "read_ratchet_for_root env d (ls_paths s) (session_root s) = Inr (Some r)"
      "write_ratchet_atomic env (ls_paths s) (mutate r) d = (Inr (), d')"
proof -
  let ?rest = "\<lambda>s1. op_then (on_disk (op_read (\<lambda>d. map_err Store (read_ratchet_for_root env d (ls_paths s1) (session_root s1))))) (\<lambda>found.
     let trust = mutate (case found of None \<Rightarrow> ratchet_new (session_root s1) | Some r \<Rightarrow> r) in
     op_then (on_disk (op_store (write_ratchet_atomic env (ls_paths s1) trust))) (\<lambda>_.
     op_then (op_read (\<lambda>_. validate_with env (ls_vault s1) trust (Thorax_State.verified_record_hashes (effective s1)))) (\<lambda>report.
       on_self (\<lambda>s. s\<lparr>ls_report := report, ls_ratchet := trust\<rparr>))))"
  consider e where "ensure_no_pending_transaction_locked env (ls_paths s) (session_root s) d = Inl e"
    | "ensure_no_pending_transaction_locked env (ls_paths s) (session_root s) d = Inr ()"
    by (cases "ensure_no_pending_transaction_locked env (ls_paths s) (session_root s) d") auto
  then show thesis
  proof cases
    case (1 e)
    then have "res = Inl e" "d' = d"
      using assms by (auto simp: rewrite_ratchet_def session_simps)
    then show thesis by (rule refused)
  next
    case 2
    then have "op_then (reload_if_stale_locked env) (\<lambda>_. op_then self_get (\<lambda>s1. ?rest s1)) (s, d) = (res, (s', d'))"
      using assms by (simp add: rewrite_ratchet_def session_simps Let_def)
    then show thesis
    proof (cases rule: op_then_cases)
      case (stop e)
      then show thesis using refused reload_effect(1) by blast
    next
      case (go x st1)
      obtain s1 d1 where st1: "st1 = (s1, d1)" by (cases st1)
      note reload = go(1) [unfolded st1]
      obtain r where r: "read_ratchet_for_root env d (ls_paths s) (session_root s) = Inr (Some r)"
        using reload 2
      proof (cases rule: reload_cases)
        case (fresh b)
        then show thesis
          using strongest_without_journal [of env d "ls_paths s" "session_root s"] 2 no_pending_iff [of env "ls_paths s" "session_root s" d]
            read_transaction_None_iff [of env d "ls_paths s" "session_root s"] that by auto
      qed simp
      have "?rest s1 (s1, d) = (res, (s', d'))"
        using go(2) reload_effect [OF reload] by (simp add: st1 session_simps)
      then have rest: "op_then (on_disk (op_store (write_ratchet_atomic env (ls_paths s) (mutate r)))) (\<lambda>_.
         op_then (op_read (\<lambda>_. validate_with env (ls_vault s1) (mutate r) (Thorax_State.verified_record_hashes (effective s1)))) (\<lambda>report.
           on_self (\<lambda>s. s\<lparr>ls_report := report, ls_ratchet := mutate r\<rparr>))) (s1, d) = (res, (s', d'))"
        using reload_effect [OF reload] r by (simp add: session_simps Let_def)
      obtain w dw where w: "write_ratchet_atomic env (ls_paths s) (mutate r) d = (w, dw)" by (meson surj_pair)
      show thesis
      proof (cases w)
        case (Inl e)
        have "dw = d"
          using w Inl write_ratchet_bytes_err [of env "ls_paths s" "trusted_root (mutate r)" _ d]
          by (auto simp: write_ratchet_atomic_def split: sum.splits)
        with rest w Inl refused show thesis by (auto simp: on_disk_then op_store_def)
      next
        case (Inr u)
        have "dw = d'"
          using rest w Inr by (auto simp: on_disk_then op_store_def on_self_def split: sum.splits)
        with rewritten r w Inr show thesis by (auto simp: old.unit.exhaust)
      qed
    qed
  qed
qed

lemma accept_counter_wf:
  assumes "ratchet_wf r" and "key \<noteq> RecordKey.VaultRoot"
  shows "ratchet_wf (accept_counter key counter r)"
  using assms
  by (auto simp: ratchet_wf_def accept_counter_def bt_wf_remove bt.wf_insert bt_get_remove bt.get_insert list_all_iff set_remove)

lemma accept_counter_level:
  "ratchet_level (accept_counter key counter r) k = (if k = Some key then counter else ratchet_level r k)"
  by (cases k) (auto simp: ratchet_level_def watermark_level_def accept_counter_def bt_get_remove bt.get_insert)

lemma accept_counter_frames:
  "trusted_root (accept_counter key counter r) = trusted_root r"
  "unknown_records (accept_counter key counter r) = unknown_records r"
  "k \<noteq> key \<Longrightarrow> bt_get (origins (accept_counter key counter r)) k = bt_get (origins r) k"
  by (simp_all add: accept_counter_def bt_get_remove)

lemma same_ratchet_fields:
  "same_ratchet r r' \<Longrightarrow> origins r' = origins r \<and> set (unknown_records r') = set (unknown_records r)"
  by (cases r; cases r') (simp add: same_ratchet_def)

lemma accept_rollback_run:
  assumes "accept_rollback env key (s, d) = (res, (s', d'))"
  obtains (refused) e where "res = Inl e" "d' = d"
  | (accepted) conflict remembered r where "bt_get (es_conflicted (effective s)) key = Some conflict"
      "cr_kind conflict = Rollback remembered"
      "read_ratchet_for_root env d (ls_paths s) (session_root s) = Inr (Some r)"
      "write_ratchet_atomic env (ls_paths s) (accept_counter key (cr_counter conflict) r) d = (Inr (), d')"
      "\<And>out. res = Inr out \<Longrightarrow> out = \<lparr>aro_key = key, aro_remembered_counter = remembered, aro_accepted_counter = cr_counter conflict\<rparr>
         \<and> \<not> bt_contains_key (es_conflicted (effective s')) key"
proof -
  let ?found = "case bt_get (es_conflicted (effective s)) key of
         None \<Rightarrow> None
       | Some conflict \<Rightarrow> (case cr_kind conflict of Tie \<Rightarrow> None | Rollback remembered \<Rightarrow> Some (conflict, remembered))"
  show thesis
  proof (cases ?found)
    case None
    with assms refused show thesis
      by (auto simp: accept_rollback_def split: option.splits ConflictKind.splits)
  next
    case (Some found)
    obtain conflict remembered where c: "bt_get (es_conflicted (effective s)) key = Some conflict" "cr_kind conflict = Rollback remembered"
      using Some by (auto split: option.splits ConflictKind.splits)
    let ?close = "\<lambda>_. op_then (op_read (\<lambda>(s, d).
         if bt_contains_key (es_conflicted (effective s)) key
         then Inl (OperationNotEffective ''accepting the rollback did not clear the conflict'') else Inr ())) (\<lambda>_.
       op_ok \<lparr>aro_key = key, aro_remembered_counter = remembered, aro_accepted_counter = cr_counter conflict\<rparr>)"
    have "op_then (rewrite_ratchet env (accept_counter key (cr_counter conflict))) ?close (s, d) = (res, (s', d'))"
      using assms c by (simp add: accept_rollback_def)
    then show thesis
    proof (cases rule: op_then_cases)
      case (stop e)
      from stop(1) show thesis
      proof (cases rule: rewrite_ratchet_cases)
        case (refused e)
        with stop(2) that(1) show thesis by blast
      next
        case (rewritten r)
        with c stop(2) that(2) show thesis by blast
      qed
    next
      case (go x st1)
      have ended: "st1 = (s', d')"
        "res = Inr out \<Longrightarrow> out = \<lparr>aro_key = key, aro_remembered_counter = remembered, aro_accepted_counter = cr_counter conflict\<rparr>
           \<and> \<not> bt_contains_key (es_conflicted (effective s')) key" for out
        using go(2) by (cases st1; auto simp: op_ok_def split: if_splits)+
      from go(1) [unfolded ended(1)] show thesis
      proof (cases rule: rewrite_ratchet_cases)
        case (rewritten r)
        with c ended(2) that(2) show thesis by blast
      qed simp
    qed
  qed
qed

section \<open>A machine behind its memory\<close>

text \<open>A codec for two ratchet files, and a machine that remembers a group the vault does not hold.\<close>

definition two_ratchets :: "RatchetStore \<Rightarrow> RatchetStore \<Rightarrow> RatchetStore CordCodec" where
  "two_ratchets a b = \<lparr>cord_ser = (\<lambda>s. if same_store s a then Inr [9] else if same_store s b then Inr [8] else Inl (CordError ''unsupported'')),
     cord_de = (\<lambda>bytes. Inr (if bytes = [8] then b else a))\<rparr>"

lemma two_ratchets_canonical: "canonical_ratchet_codec (two_ratchets a b)"
  by (auto simp: canonical_ratchet_codec_def two_ratchets_def dest: same_store_trans same_store_sym)

definition sample_ahead :: Ratchet where
  "sample_ahead = sample_base\<lparr>watermarks := [(RecordKey.Group (GroupId (HashValue [5])), 5)]\<rparr>"

definition sample_reset_env :: StoreEnv where
  "sample_reset_env = sample_session_env\<lparr>env_ratchet := two_ratchets (ratchet_store_of sample_base) (ratchet_store_of sample_ahead)\<rparr>"

definition sample_reset_disk :: Disk where
  "sample_reset_disk = [vault_path sample_paths \<mapsto> VAULT_MAGIC @ [1],
     ratchet_path sample_paths (trusted_root sample_anchor) \<mapsto> RATCHET_MAGIC @ [8]]"

definition sample_reset_ops :: OpsEnv where
  "sample_reset_ops = \<lparr>ops_store = sample_reset_env, ops_join_commit = ops_join_commit sample_ops\<rparr>"

lemma sample_reset_simps [simp]:
  "env_crypto sample_reset_env = sample_crypto" "env_vault sample_reset_env = env_vault sample_tx_env"
  "env_ratchet sample_reset_env = two_ratchets (ratchet_store_of sample_base) (ratchet_store_of sample_ahead)"
  "trusted_root sample_ahead = trusted_root sample_anchor"
  by (simp_all add: sample_reset_env_def sample_ahead_def)

lemma sample_ahead_decodes: "decode_ratchet sample_reset_env path (RATCHET_MAGIC @ [8]) = Inr sample_ahead"
proof -
  have "into_ratchet (ratchet_store_of sample_ahead) = Some sample_ahead"
    by (simp add: ratchet_store_of_def sample_ahead_def sample_base_def sample_anchor_def ratchet_new_def to_records_def collect_set_def
        set_insert_def map_filter_simps bt_get_def raise_watermark_def bt_entry_def max_def)
  then show ?thesis
    by (simp add: decode_ratchet_def strip_prefix_def two_ratchets_def)
qed

lemma sample_fresh_encodes: "encode_ratchet sample_reset_env sample_base = Inr (RATCHET_MAGIC @ [9])"
  by (simp add: encode_ratchet_def two_ratchets_def ratchet_store_of_def)

lemma sample_fresh:
  "case validate_vault sample_crypto sample_vault_store (ratchet_new (trusted_root sample_anchor)) of
     Inl _ \<Rightarrow> False
   | Inr r \<Rightarrow> vrep_issues r = [] \<and> apply_update (vrep_ratchet_update r) (ratchet_new (trusted_root sample_anchor)) = sample_base"
  by code_simp

lemma sample_ahead_suspected:
  "case validate_vault sample_crypto sample_vault_store sample_ahead of Inl _ \<Rightarrow> False | Inr r \<Rightarrow> has_suspected_rollback r"
  by code_simp

lemma sample_reset_reads:
  "read_ratchet_for_root sample_reset_env sample_reset_disk sample_paths (trusted_root sample_anchor) = Inr (Some sample_ahead)"
  "read_vault_bytes sample_reset_disk sample_paths = Inr (VAULT_MAGIC @ [1])"
  "sample_reset_disk (join_commit_path sample_paths (trusted_root sample_anchor)) = None"
  "sample_reset_disk (transaction_path sample_paths (trusted_root sample_anchor)) = None"
proof -
  note apart = sample_separate [of "trusted_root sample_anchor"]
  show "read_ratchet_for_root sample_reset_env sample_reset_disk sample_paths (trusted_root sample_anchor) = Inr (Some sample_ahead)"
    using sample_lengths(2) [of 8] apart by (simp add: read_ratchet_Some_iff sample_reset_disk_def sample_ahead_decodes separate_def)
  show "read_vault_bytes sample_reset_disk sample_paths = Inr (VAULT_MAGIC @ [1])"
    using sample_lengths(1) [of 1] apart read_vault_bytes_iff [of sample_reset_disk sample_paths "VAULT_MAGIC @ [1]"]
    by (auto simp: sample_reset_disk_def separate_def)
  show "sample_reset_disk (join_commit_path sample_paths (trusted_root sample_anchor)) = None"
    "sample_reset_disk (transaction_path sample_paths (trusted_root sample_anchor)) = None"
    using apart by (auto simp: sample_reset_disk_def separate_def)
qed

lemma sample_uncached:
  "read_trusted_cache sample_reset_env (sample_reset_disk(ratchet_path sample_paths (trusted_root sample_anchor) \<mapsto> b)) sample_paths
     (Some (UserId (HashValue [5]))) vault (trusted_root sample_anchor) = None"
proof -
  have "verification_cache_path sample_paths (trusted_root sample_anchor) (UserId (HashValue [5])) \<notin>
      {ratchet_path sample_paths (trusted_root sample_anchor), vault_path sample_paths}"
    by code_simp
  then show ?thesis
    by (simp add: read_trusted_cache_def read_verification_cache_def read_file_bounded_def sample_reset_disk_def)
qed

abbreviation sample_ahead_key :: RecordKey where
  "sample_ahead_key \<equiv> RecordKey.Group (GroupId (HashValue [5]))"

definition sample_ahead_session :: "ValidationReport \<Rightarrow> LockedSession" where
  "sample_ahead_session report = (sample_session report)\<lparr>ls_ratchet := sample_ahead\<rparr>"

lemma sample_ahead_facts:
  "case validate_vault_with_verified sample_crypto sample_vault_store sample_ahead {} of
     Inl _ \<Rightarrow> False
   | Inr report \<Rightarrow>
       (case bt_get (es_conflicted (vrep_effective report)) sample_ahead_key of
          None \<Rightarrow> False | Some conflict \<Rightarrow> cr_kind conflict = Rollback 5 \<and> cr_counter conflict = 0)
       \<and> (case validate_vault_with_verified sample_crypto sample_vault_store sample_base
              (Thorax_State.verified_record_hashes (vrep_effective report)) of
            Inl _ \<Rightarrow> False | Inr report' \<Rightarrow> \<not> bt_contains_key (es_conflicted (vrep_effective report')) sample_ahead_key)"
  by code_simp

lemma sample_fresh_decodes: "decode_ratchet sample_reset_env path (RATCHET_MAGIC @ [9]) = Inr sample_base"
proof -
  have "into_ratchet (ratchet_store_of sample_base) = Some sample_base"
    by (simp add: ratchet_store_of_def sample_base_def sample_anchor_def ratchet_new_def to_records_def collect_set_def set_insert_def
        map_filter_simps)
  then show ?thesis
    by (simp add: decode_ratchet_def strip_prefix_def two_ratchets_def)
qed

lemma sample_accepts:
  "\<exists>report out s' d'. accept_rollback sample_reset_env sample_ahead_key (sample_ahead_session report, sample_reset_disk) = (Inr out, (s', d'))"
proof -
  let ?root = "trusted_root sample_anchor" and ?env = sample_reset_env
  obtain report report' conflict where report: "validate_vault_with_verified sample_crypto sample_vault_store sample_ahead {} = Inr report"
      "bt_get (es_conflicted (vrep_effective report)) sample_ahead_key = Some conflict" "cr_kind conflict = Rollback 5" "cr_counter conflict = 0"
      "validate_vault_with_verified sample_crypto sample_vault_store sample_base
         (Thorax_State.verified_record_hashes (vrep_effective report)) = Inr report'"
      "\<not> bt_contains_key (es_conflicted (vrep_effective report')) sample_ahead_key"
    using sample_ahead_facts by (auto split: sum.splits option.splits)
  let ?s = "sample_ahead_session report"
  have s: "ls_paths ?s = sample_paths" "session_root ?s = ?root" "effective ?s = vrep_effective report" "ls_ratchet ?s = sample_ahead"
      "ls_vault_bytes ?s = VAULT_MAGIC @ [1]" "ls_vault ?s = sample_vault_store"
    by (simp_all add: sample_ahead_session_def sample_session_def session_root_def effective_def)
  have quiet: "ensure_no_pending_transaction_locked ?env sample_paths ?root sample_reset_disk = Inr ()"
    using sample_reset_reads(3,4) by (simp add: no_pending_iff)
  have strongest: "read_strongest_ratchet_locked ?env sample_paths ?root sample_reset_disk = Inr (sample_ahead, None)"
    using sample_reset_reads(1,4) by (simp add: strongest_without_journal read_transaction_None_iff)
  have accepted: "accept_counter sample_ahead_key 0 sample_ahead = sample_base"
    by (simp add: accept_counter_def sample_ahead_def sample_base_def sample_anchor_def ratchet_new_def bt_remove_def)
  have written: "write_ratchet_atomic ?env sample_paths sample_base sample_reset_disk =
      (Inr (), sample_reset_disk(ratchet_path sample_paths ?root \<mapsto> RATCHET_MAGIC @ [9]))"
    using sample_lengths(2) [of 9]
    by (simp add: write_ratchet_atomic_def sample_fresh_encodes write_ratchet_bytes_ok sample_fresh_decodes)
  have reload: "reload_if_stale_locked ?env (?s, sample_reset_disk) = (Inr False, (?s, sample_reset_disk))"
    using sample_reset_reads(2) strongest s
    by (simp add: reload_if_stale_locked_def session_simps Let_def op_ok_def sample_ahead_session_def sample_session_def session_root_def)
  have "rewrite_ratchet ?env (accept_counter sample_ahead_key 0) (?s, sample_reset_disk) =
      (Inr (), (?s\<lparr>ls_report := report', ls_ratchet := sample_base\<rparr>, sample_reset_disk(ratchet_path sample_paths ?root \<mapsto> RATCHET_MAGIC @ [9])))"
    using quiet s sample_reset_reads(1) report(5)
    by (simp add: rewrite_ratchet_def session_simps op_then_def [of "reload_if_stale_locked ?env"] reload Let_def accepted written
        on_disk_then op_store_def op_read_def validate_with_def on_self_def)
  then have "accept_rollback ?env sample_ahead_key (?s, sample_reset_disk) =
      (Inr \<lparr>aro_key = sample_ahead_key, aro_remembered_counter = 5, aro_accepted_counter = 0\<rparr>,
       (?s\<lparr>ls_report := report', ls_ratchet := sample_base\<rparr>, sample_reset_disk(ratchet_path sample_paths ?root \<mapsto> RATCHET_MAGIC @ [9])))"
    using s(3) report(2-4,6)
    by (simp add: accept_rollback_def op_then_def [of "rewrite_ratchet ?env (accept_counter sample_ahead_key 0)"] effective_def op_ok_def)
  then show ?thesis by blast
qed

section \<open>Properties\<close>

text \<open>
  C17. Accepting a rollback is confined to its key. A run that is refused leaves the disk as it was.
  Any other run was for a key that the session reports as rolled back, and has changed the ratchet
  file of this root and no other: the stored memory holds the counter of the conflict at that key,
  and at every other key, in its format version, in the origins of other keys and in its unknown
  records exactly what it held before. When it returns a value, the key is no longer conflicted.
\<close>

theorem accepting_a_rollback_is_confined:
  assumes codec: "canonical_ratchet_codec (env_ratchet env)" and "key \<noteq> RecordKey.VaultRoot"
    and run: "accept_rollback env key (s, d) = (res, (s', d'))"
  shows "(\<exists>e. res = Inl e) \<and> d' = d
    \<or> (\<exists>conflict remembered r r'. bt_get (es_conflicted (effective s)) key = Some conflict \<and> cr_kind conflict = Rollback remembered
        \<and> read_ratchet_for_root env d (ls_paths s) (session_root s) = Inr (Some r)
        \<and> read_ratchet_for_root env d' (ls_paths s) (session_root s) = Inr (Some r')
        \<and> d'(ratchet_path (ls_paths s) (session_root s) := d (ratchet_path (ls_paths s) (session_root s))) = d
        \<and> ratchet_level r' = (ratchet_level r)(Some key := cr_counter conflict)
        \<and> (bt_get (origins r'))(key := None) = (bt_get (origins r))(key := None)
        \<and> set (unknown_records r') = set (unknown_records r)
        \<and> (case res of Inl _ \<Rightarrow> True | Inr out \<Rightarrow> \<not> bt_contains_key (es_conflicted (effective s')) key))"
  using run
proof (cases rule: accept_rollback_run)
  case (accepted conflict remembered r)
  let ?r = "accept_counter key (cr_counter conflict) r" and ?path = "ratchet_path (ls_paths s) (session_root s)"
  have root: "trusted_root ?r = session_root s"
    using accepted(3) by (auto simp: accept_counter_frames read_ratchet_Some_iff)
  obtain b r' where r': "d' = d(?path \<mapsto> b)" "same_ratchet ?r r'"
      "read_ratchet_for_root env d' (ls_paths s) (session_root s) = Inr (Some r')"
    using write_then_read_ratchet [OF codec accept_counter_wf [OF read_ratchet_wf [OF accepted(3)] assms(2)] accepted(4)] root by auto
  have "ratchet_level r' = (ratchet_level r)(Some key := cr_counter conflict)"
    by (rule ext) (simp add: same_ratchet_level [OF r'(2)] accept_counter_level)
  moreover have "(bt_get (origins r'))(key := None) = (bt_get (origins r))(key := None)"
    using same_ratchet_fields [OF r'(2)] by (auto simp: fun_eq_iff accept_counter_frames)
  moreover have "set (unknown_records r') = set (unknown_records r)"
    using same_ratchet_fields [OF r'(2)] by (simp add: accept_counter_frames)
  moreover have "d'(?path := d ?path) = d"
    using r'(1) by auto
  ultimately show ?thesis
    using accepted(1-3,5) r'(3) by (auto split: sum.splits)
qed blast

theorem accepting_a_rollback_is_confined_witness:
  "\<exists>report out s' d' r'. accept_rollback sample_reset_env sample_ahead_key (sample_ahead_session report, sample_reset_disk) = (Inr out, (s', d'))
     \<and> read_ratchet_for_root sample_reset_env d' sample_paths (trusted_root sample_anchor) = Inr (Some r')
     \<and> \<not> bt_contains_key (es_conflicted (effective s')) sample_ahead_key"
proof -
  obtain report out s' d' where run:
      "accept_rollback sample_reset_env sample_ahead_key (sample_ahead_session report, sample_reset_disk) = (Inr out, (s', d'))"
    using sample_accepts by blast
  have codec: "canonical_ratchet_codec (env_ratchet sample_reset_env)"
    by (simp add: two_ratchets_canonical)
  have s: "ls_paths (sample_ahead_session report) = sample_paths" "session_root (sample_ahead_session report) = trusted_root sample_anchor"
    by (simp_all add: sample_ahead_session_def sample_session_def session_root_def)
  from accepting_a_rollback_is_confined [OF codec _ run] have
      "\<exists>r'. read_ratchet_for_root sample_reset_env d' sample_paths (trusted_root sample_anchor) = Inr (Some r')
        \<and> \<not> bt_contains_key (es_conflicted (effective s')) sample_ahead_key"
    by (auto simp: s)
  with run show ?thesis by blast
qed

text \<open>
  C16. A reset gets a machine out of a suspected rollback. When the vault and the ratchet of its root
  are there and can be read, no transaction is pending, the vault validates without issues for a
  machine that remembers nothing, and the fresh memory encodes within its limit, the reset returns
  and replaces the ratchet file and nothing else. The next session then loads, for every user or
  none: it has nothing to recover and nothing to absorb, leaves the disk as it is, and has the state
  of a fresh machine, no issues and no suspected rollback. The verification cache it may use must
  list no record of the vault whose signature does not verify. A dry run reports the same and
  changes nothing.
\<close>

theorem reset_recovers:
  assumes "separate paths root" and codec: "canonical_ratchet_codec (env_ratchet (ops_store env))"
    and vault: "read_vault (ops_store env) d paths = Inr vault" and root: "trusted_root_candidate (ops_crypto env) vault = Inr root"
    and quiet: "d (join_commit_path paths root) = None" "d (transaction_path paths root) = None"
    and existing: "read_ratchet_for_root (ops_store env) d paths root = Inr (Some existing)"
    and valid: "validate_vault (ops_crypto env) vault (ratchet_new root) = Inr report" "vrep_issues report = []"
    and enc: "encode_ratchet (ops_store env) (apply_update (vrep_ratchet_update report) (ratchet_new root)) = Inr b" "length b \<le> MAX_RATCHET_BYTES"
    and honest: "\<And>cache. read_trusted_cache (ops_store env) (d(ratchet_path paths root \<mapsto> b)) paths current vault root = Some cache \<Longrightarrow>
      honest_hashes (ops_crypto env) vault (set (Thorax_Store.verified_record_hashes cache))"
  shows "\<exists>out s. reset_ratchet (ops_store env) paths False d = (Inr out, d(ratchet_path paths root \<mapsto> b)) \<and> rro_applied out
      \<and> load env fault paths current contended (d(ratchet_path paths root \<mapsto> b)) = (Inr s, d(ratchet_path paths root \<mapsto> b))
      \<and> vrep_issues (ls_report s) = [] \<and> vrep_effective (ls_report s) = vrep_effective report
      \<and> \<not> has_suspected_rollback (ls_report s)
      \<and> reset_ratchet (ops_store env) paths True d = (Inr (out\<lparr>rro_applied := False\<rparr>), d)"
proof -
  let ?fresh = "apply_update (vrep_ratchet_update report) (ratchet_new root)" and ?d = "d(ratchet_path paths root \<mapsto> b)"
    and ?env = "ops_store env"
  obtain r where r: "decode_ratchet ?env (ratchet_path paths root) b = Inr r" "trusted_root r = root" "bt_wf (watermarks r)"
      "\<And>k. ratchet_level r k \<le> ratchet_level ?fresh k"
      "\<And>k. k \<noteq> Some RecordKey.VaultRoot \<Longrightarrow> ratchet_level r k = ratchet_level ?fresh k"
    using decode_encode_level [OF codec fresh_ratchet(1) enc(1), of "ratchet_path paths root"] by (auto simp: fresh_ratchet(2))
  have "write_ratchet_atomic ?env paths ?fresh d = (Inr (), ?d)"
    using enc r by (simp add: write_ratchet_atomic_def fresh_ratchet(2) write_ratchet_bytes_ok)
  then have run: "reset_ratchet ?env paths dry_run d =
     (Inr \<lparr>rro_trusted_root = root, rro_dropped_watermarks = dropped_watermarks existing ?fresh, rro_applied = (\<not> dry_run)\<rparr>,
      if dry_run then d else ?d)" for dry_run
    using reset_ratchet_run [OF vault root _ existing valid, of dry_run] quiet
    by (simp add: no_pending_iff Let_def op_store_then op_ok_def)
  obtain report' where report': "validate_vault (ops_crypto env) vault r = Inr report'" "vrep_issues report' = []"
      "vrep_effective report' = vrep_effective report" "raised_watermarks (vrep_ratchet_update report') = []"
    using validate_caught_up [OF valid r(4,5,3,2)] by blast
  have "read_vault ?env ?d paths = Inr vault"
    using vault assms(1) by (simp add: read_vault_def read_vault_bytes_def read_file_bounded_def separate_def)
  then obtain s where "load env fault paths current contended ?d = (Inr s, ?d)" "ls_report s = report'"
    using load_settled [of env ?d paths vault root b r report' current fault contended] root quiet enc(2) r(1,2) report'(1,4) honest by auto
  moreover have "\<not> has_suspected_rollback report'"
    using fresh_report_ties [OF valid(1)] report'(3) by (simp add: has_suspected_rollback_def)
  ultimately show ?thesis
    using run report' by simp
qed

theorem reset_recovers_witness:
  "(\<exists>report. validate_vault sample_crypto sample_vault_store sample_ahead = Inr report \<and> has_suspected_rollback report)
   \<and> read_ratchet_for_root sample_reset_env sample_reset_disk sample_paths (trusted_root sample_anchor) = Inr (Some sample_ahead)
   \<and> (\<exists>out s d. reset_ratchet sample_reset_env sample_paths False sample_reset_disk = (Inr out, d)
       \<and> load sample_reset_ops None sample_paths (Some (UserId (HashValue [5]))) False d = (Inr s, d)
       \<and> \<not> has_suspected_rollback (ls_report s))"
proof -
  obtain report where report: "validate_vault sample_crypto sample_vault_store (ratchet_new (trusted_root sample_anchor)) = Inr report"
      "vrep_issues report = []" "apply_update (vrep_ratchet_update report) (ratchet_new (trusted_root sample_anchor)) = sample_base"
    using sample_fresh by (auto split: sum.splits)
  have vault: "read_vault sample_reset_env sample_reset_disk sample_paths = Inr sample_vault_store"
    using sample_reset_reads(2) sample_vault_decodes by (simp add: read_vault_def)
  have "\<exists>out s d. reset_ratchet sample_reset_env sample_paths False sample_reset_disk = (Inr out, d)
      \<and> load sample_reset_ops None sample_paths (Some (UserId (HashValue [5]))) False d = (Inr s, d)
      \<and> \<not> has_suspected_rollback (ls_report s)"
    using reset_recovers [OF sample_separate, where env = sample_reset_ops and d = sample_reset_disk and vault = sample_vault_store
        and existing = sample_ahead and report = report and b = "RATCHET_MAGIC @ [9]" and root = "trusted_root sample_anchor"
        and current = "Some (UserId (HashValue [5]))" and fault = None and contended = False] vault
      sample_reset_reads(3,4,1) report sample_candidate_root sample_fresh_encodes sample_lengths(2) [of 9] two_ratchets_canonical sample_uncached
    by (auto simp: sample_reset_ops_def simp del: trusted_root_candidate.simps)
  with sample_reset_reads(1) sample_ahead_suspected show ?thesis
    by (auto split: sum.splits)
qed

end
