(* ===== verification/Thorax_Conflicts.thy ===== *)
theory Thorax_Conflicts
  imports Thorax_Trust
begin

text \<open>
  File: \<open>crates/thorax-ops/src/conflicts.rs\<close>. A conflict is a key without a winner, a tie or a
  suspected rollback. It is resolved by signing one of its candidates again, above everything this
  machine has seen; a secret is decrypted and sealed again for its current readers. Accepting a
  rollback is in \<open>Thorax_Trust\<close>.

  The theorem shows that a resolution picks a candidate of a reported conflict, is authorised, and
  leaves a record of the identity in force and the key out of dispute; for a secret, that every
  reader then reads the value of the candidate.
\<close>

section \<open>Output\<close>

record ResolveConflictOutput =
  rco_key :: RecordKey
  rco_counter :: u64
  rco_record_hash :: HashValue

section \<open>Finding and judging a candidate\<close>

fun find_candidate :: "CryptoProvider \<Rightarrow> HashValue \<Rightarrow> VaultRecordV1 list \<Rightarrow> CoreError + VaultRecordV1 option" where
  "find_candidate crypto pick [] = Inr None"
| "find_candidate crypto pick (candidate # candidates) =
     and_then (record_hash crypto candidate) (\<lambda>h.
       if h = pick then Inr (Some candidate) else find_candidate crypto pick candidates)"

fun find_in_conflicts ::
  "CryptoProvider \<Rightarrow> HashValue \<Rightarrow> ConflictReport list \<Rightarrow> OpsError + ConflictReport \<times> VaultRecordV1" where
  "find_in_conflicts crypto pick [] = Inl (ConflictCandidateNotFound pick)"
| "find_in_conflicts crypto pick (conflict # conflicts) =
     and_then (map_err OpsError.Core (find_candidate crypto pick (cr_candidates conflict))) (\<lambda>found.
       case found of
         Some candidate \<Rightarrow> Inr (conflict, candidate)
       | None \<Rightarrow> find_in_conflicts crypto pick conflicts)"

definition find_conflict_candidate ::
  "EffectiveState \<Rightarrow> CryptoProvider \<Rightarrow> HashValue \<Rightarrow> OpsError + ConflictReport \<times> VaultRecordV1" where
  "find_conflict_candidate st crypto pick = find_in_conflicts crypto pick (bt_values (es_conflicted st))"

definition ensure_can_resolve_conflict ::
  "EffectiveState \<Rightarrow> UserId \<Rightarrow> ConflictReport \<Rightarrow> RecordBodyV1 \<Rightarrow> OpsError + unit" where
  "ensure_can_resolve_conflict st resolver conflict candidate_body =
     and_then (map_err OpsError.Core (record_key_for candidate_body resolver)) (\<lambda>resolved_key.
       if resolved_key \<noteq> cr_key conflict
       then Inl (ConflictNotResolvable ''this record can only be re-signed by its own user'')
       else case candidate_body of
         RecordBodyV1.Secret r \<Rightarrow> ensure_can_write_secret st resolver (secret_selector r)
       | RecordBodyV1.SecretDeleted r \<Rightarrow> ensure_can_write_secret st resolver (sd_selector r)
       | RecordBodyV1.Grant r \<Rightarrow> ensure_can_create_permission st resolver (grant_permission r)
       | RecordBodyV1.GrantDeleted r \<Rightarrow> ensure_can_create_permission st resolver (grd_permission r)
       | RecordBodyV1.GroupMember r \<Rightarrow>
           and_then (ensure_administer st resolver) (\<lambda>_. ensure_can_confer_group st resolver (gm_group_id r))
       | RecordBodyV1.EntryPoint r \<Rightarrow> Inr ()
       | RecordBodyV1.VaultRoot r \<Rightarrow> Inl (ConflictNotResolvable ''the root record cannot conflict'')
       | _ \<Rightarrow> ensure_administer st resolver)"

text \<open>Whether the bumped record is in force, by the content of the chosen body.\<close>

definition resolution_won :: "EffectiveState \<Rightarrow> RecordBodyV1 \<Rightarrow> ResolveConflictOutput \<Rightarrow> bool" where
  "resolution_won st chosen out =
     (case chosen of
        RecordBodyV1.Secret _ \<Rightarrow> secret_record_is_current st (rco_record_hash out)
      | RecordBodyV1.SecretDeleted _ \<Rightarrow> secret_record_is_current st (rco_record_hash out)
      | RecordBodyV1.User r \<Rightarrow>
          (case bt_get (es_users st) (user_id r) of None \<Rightarrow> False
           | Some user \<Rightarrow> user_signing_public_key user = user_signing_public_key r \<and> user_hpke_public_key user = user_hpke_public_key r)
      | RecordBodyV1.UserDeleted r \<Rightarrow> \<not> bt_contains_key (es_users st) (ud_id r) \<and> ud_id r \<in> es_deleted_users st
      | RecordBodyV1.Group r \<Rightarrow>
          (case bt_get (es_groups st) (group_id r) of None \<Rightarrow> False
           | Some grp \<Rightarrow> group_handle grp = group_handle r \<and> group_seed grp = group_seed r)
      | RecordBodyV1.GroupDeleted r \<Rightarrow> \<not> bt_contains_key (es_groups st) (gd_id r) \<and> gd_id r \<in> es_deleted_groups st
      | RecordBodyV1.GroupMember r \<Rightarrow>
          (case bt_get (es_memberships st) (gm_id r) of None \<Rightarrow> False
           | Some member \<Rightarrow> gm_group_id member = gm_group_id r \<and> gm_member_id member = gm_member_id r)
      | RecordBodyV1.GroupMemberDeleted r \<Rightarrow> \<not> bt_contains_key (es_memberships st) (gmd_id r)
      | RecordBodyV1.Grant r \<Rightarrow>
          (case bt_get (es_grants st) (grant_id r) of None \<Rightarrow> False
           | Some grant \<Rightarrow> grant_subject_id grant = grant_subject_id r \<and> grant_permission grant = grant_permission r)
      | RecordBodyV1.GrantDeleted r \<Rightarrow> \<not> bt_contains_key (es_grants st) (grd_id r) \<and> grd_id r \<in> es_deleted_grants st
      | RecordBodyV1.UserHandle r \<Rightarrow>
          (case bt_get (es_handles st) (uh_id r) of None \<Rightarrow> False
           | Some h \<Rightarrow> uh_handle h = uh_handle r \<and> uh_user_id h = uh_user_id r)
      | RecordBodyV1.VaultHandle r \<Rightarrow>
          (case bt_get (es_vault_handles st) (vh_id r) of None \<Rightarrow> False | Some h \<Rightarrow> vh_handle h = vh_handle r)
      | RecordBodyV1.EntryPoint r \<Rightarrow>
          (case rco_key out of
             RecordKey.EntryPoint user \<Rightarrow>
               (case bt_get (es_entry_points st) user of None \<Rightarrow> False
                | Some entry \<Rightarrow> ep_trusted_root_user_id entry = ep_trusted_root_user_id r \<and> ep_counter entry = rco_counter out)
           | _ \<Rightarrow> False)
      | RecordBodyV1.VaultRoot _ \<Rightarrow> False)"

definition ensure_resolution_effective ::
  "EffectiveState \<Rightarrow> RecordBodyV1 \<Rightarrow> ResolveConflictOutput \<Rightarrow> OpsError + unit" where
  "ensure_resolution_effective st chosen out =
     effective_or ''conflict resolution did not become the effective record'' (resolution_won st chosen out)"

section \<open>Resolving and revealing\<close>

definition resolve_secret_conflict ::
  "SecretsEnv \<Rightarrow> Draws \<Rightarrow> Identity \<Rightarrow> VaultRecordV1 \<Rightarrow> SecretRecordV1 \<Rightarrow> ResolveConflictOutput SessionOp" where
  "resolve_secret_conflict env draws identity candidate val =
     (let signer = identity_signer (sec_prims env) identity; crypto = sec_crypto env in
      op_then (op_read (\<lambda>(s, d). effective_trusted_root (effective s))) (\<lambda>root.
      op_then (op_read (\<lambda>_. decrypt_secret_record env identity candidate val root)) (\<lambda>opened.
      op_then (op_read (\<lambda>_. map_err OpsError.Core (derive_secret_id crypto (sp_selector opened)))) (\<lambda>secret.
      commit_record (sec_store env) (draw_fault draws) (draw_seed draws)
        (\<lambda>pre_report counter.
           and_then (seal_secret_payload env draws (vrep_effective pre_report)
                       \<lparr>ctx_record_key = RecordKey.Secret secret, ctx_signer_key = signer_signing_public_key signer,
                        ctx_counter = counter, ctx_secret_id = secret, ctx_selector = sp_selector opened\<rparr>
                       (to_value opened)) (\<lambda>sealed.
           and_then (map_err Hazmat (secret_record crypto signer (sp_selector opened) sealed counter)) (\<lambda>sr.
           and_then (map_err OpsError.Core (record_hash crypto sr)) (\<lambda>hash.
             Inr (sr, \<lparr>rco_key = RecordKey.Secret secret, rco_counter = counter, rco_record_hash = hash\<rparr>)))))
        (\<lambda>out _ report. effective_or ''conflict resolution did not become the effective record''
           (secret_record_is_current (vrep_effective report) (rco_record_hash out)))))))"

text \<open>Signing a body again above everything seen.\<close>

definition resign :: "SecretsEnv \<Rightarrow> Draws \<Rightarrow> Identity \<Rightarrow> RecordKey \<Rightarrow> RecordBodyV1 \<Rightarrow> ResolveConflictOutput SessionOp" where
  "resign env draws identity key body =
     commit_record (sec_store env) (draw_fault draws) (draw_seed draws)
       (\<lambda>_ counter.
          case with_lww_counter body counter of
            None \<Rightarrow> Inl (ConflictNotResolvable ''the root record is not LWW-resolved'')
          | Some bumped \<Rightarrow>
              and_then (map_err Hazmat (signed_payload (sec_crypto env) (identity_signer (sec_prims env) identity)
                  (record_payload bumped))) (\<lambda>sr.
              and_then (map_err OpsError.Core (record_hash (sec_crypto env) sr)) (\<lambda>hash.
                Inr (sr, \<lparr>rco_key = key, rco_counter = counter, rco_record_hash = hash\<rparr>))))
       (\<lambda>out _ report. ensure_resolution_effective (vrep_effective report) body out)"

definition resolve_conflict :: "SecretsEnv \<Rightarrow> Draws \<Rightarrow> Identity \<Rightarrow> HashValue \<Rightarrow> ResolveConflictOutput SessionOp" where
  "resolve_conflict env draws identity pick =
     (let crypto = sec_crypto env in
      op_then (op_read (\<lambda>(s, d). find_conflict_candidate (effective s) crypto pick)) (\<lambda>(conflict, candidate).
      op_then (op_read (\<lambda>_. case known (rec_body candidate) of
          None \<Rightarrow> Inl (ConflictNotResolvable ''candidate body is not readable by this build'') | Some body \<Rightarrow> Inr body)) (\<lambda>body.
      op_then (op_read (\<lambda>(s, d). ensure_can_resolve_conflict (effective s) (identity_user identity) conflict body)) (\<lambda>_.
        case body of
          RecordBodyV1.Secret val \<Rightarrow> resolve_secret_conflict env draws identity candidate val
        | _ \<Rightarrow> resign env draws identity (cr_key conflict) body))))"

definition revealable ::
  "SecretsEnv \<Rightarrow> EffectiveState \<Rightarrow> UserId \<Rightarrow> HashValue \<Rightarrow> OpsError + HashValue \<times> VaultRecordV1 \<times> SecretRecordV1" where
  "revealable env st user pick =
     and_then (find_conflict_candidate st (sec_crypto env) pick) (\<lambda>(_, candidate).
       case known (rec_body candidate) of
         Some (RecordBodyV1.Secret val) \<Rightarrow>
           if es_authority_unresolved st \<or> \<not> can_read (authority_for_user st user) (secret_selector val)
           then Inl (SecretNotDecryptable Unauthorized)
           else Inr (pick, candidate, val)
       | _ \<Rightarrow> Inl (ConflictNotResolvable ''only secret-value candidates can be revealed''))"

definition reveal_conflict_candidates ::
  "SecretsEnv \<Rightarrow> LockedSession \<Rightarrow> Identity \<Rightarrow> HashValue list \<Rightarrow> OpsError + (HashValue \<times> SecretPlaintext) list" where
  "reveal_conflict_candidates env s identity picks =
     and_then (collect_results (revealable env (effective s) (identity_user identity)) picks) (\<lambda>candidates.
       if candidates = [] then Inr []
       else and_then (effective_trusted_root (effective s)) (\<lambda>root.
         collect_results (\<lambda>(pick, candidate, val).
           and_then (decrypt_secret_record env identity candidate val root) (\<lambda>plaintext. Inr (pick, plaintext))) candidates))"

section \<open>Resolving a conflict\<close>

lemma find_candidate_Inr:
  "find_candidate crypto pick candidates = Inr (Some candidate) \<Longrightarrow> candidate \<in> set candidates \<and> record_hash crypto candidate = Inr pick"
  by (induction candidates) (auto simp: and_then_Inr_iff split: if_splits)

lemma find_in_conflicts_Inr:
  "find_in_conflicts crypto pick conflicts = Inr (conflict, candidate) \<Longrightarrow>
     conflict \<in> set conflicts \<and> candidate \<in> set (cr_candidates conflict) \<and> record_hash crypto candidate = Inr pick"
  by (induction conflicts) (auto simp: and_then_Inr_iff dest: find_candidate_Inr split: option.splits)

text \<open>A key that a report lists as conflicted carries nothing in that report.\<close>

definition unsettled :: "EffectiveState \<Rightarrow> RecordKey \<Rightarrow> bool" where
  "unsettled st key \<longleftrightarrow>
     (case key of
        RecordKey.Grant k \<Rightarrow> bt_get (es_grants st) k = None
      | RecordKey.Group k \<Rightarrow> bt_get (es_groups st) k = None
      | RecordKey.GroupMember k \<Rightarrow> bt_get (es_memberships st) k = None
      | RecordKey.User k \<Rightarrow> es_root_user_id st \<noteq> Some k \<longrightarrow> bt_get (es_users st) k = None
      | RecordKey.UserHandle k \<Rightarrow> bt_get (es_handles st) k = None
      | RecordKey.VaultHandle k \<Rightarrow> bt_get (es_vault_handles st) k = None
      | RecordKey.EntryPoint k \<Rightarrow> bt_get (es_entry_points st) k = None
      | _ \<Rightarrow> True)"

interpretation secret_site: lww_site "classify_secret_write st" RecordKey.Secret
  for st
  by unfold_locales (auto simp: classify_secret_write_def keyed_def elim!: secret_record_identity.elims split: option.splits if_splits)

lemma materialized_keys: "fst ` set (materialize_conflicts crypto records slots) = fst ` set slots"
  by (force simp: materialize_conflicts_def)

lemma report_conflict_unsettled:
  assumes valid: "validate_with env (VaultStore.V1 vault) ratchet verified = Inr report"
    and conflict: "bt_contains_key (es_conflicted (vrep_effective report)) key"
  shows "unsettled (vrep_effective report) key"
  using valid
proof (cases rule: validate_with_cases)
  case unresolved
  with conflict show ?thesis
    by (simp add: unresolved_state_def default_effective_state_def bt_contains_key_def bt_get_def)
next
  case (settled hrs root kr v eff upd iss)
  let ?records = "verified_list v" and ?crypto = "env_crypto env"
  obtain wm rb eff0 where parts: "settled_rollbacks ?crypto ratchet root ?records = (wm, rb, eff0)"
    by (metis prod_cases3)
  obtain d where eff0: "eff0 = compute_effective_state ?crypto
      (user_from_root (selected_root root) (selected_signing_public_key root)) (selected_root_hash root) ?records d rb"
    using settle_v1_parts(5) [OF settled(4) parts] resolved_state by metis
  note keyed = verified_list_ok(3) [OF settled(1,3)] and frames = settled_frames [OF settled(4) parts]
  show ?thesis
  proof (cases "\<exists>k. key = RecordKey.Secret k")
    case True
    then show ?thesis by (auto simp: unsettled_def)
  next
    case False
    then have tie: "bt_get (lww_conflicted (lww_resolution ?records rb (classify_secret_write eff0))) key = None"
      using site_conflict_kind [OF secret_site.lww_site_axioms keyed] by metis
    have "bt_contains_key (es_conflicted eff) key"
      using conflict by (simp add: settled(5))
    moreover have "key \<notin> fst ` set (lww_conflicted (lww_resolution ?records rb (classify_secret_write eff0)))"
      using tie by (simp add: bt_get_def map_of_eq_None_iff)
    moreover have "fst ` set (map (\<lambda>(k, c). (k, rollback_report ?crypto ratchet ?records wm k c)) rb) = fst ` set rb"
      by force
    ultimately have "bt_contains_key (es_conflicted eff0) key \<or> bt_contains_key rb key"
      by (simp add: settle_v1_parts(1) [OF settled(4) parts] extended_keys contains_key_iff materialized_keys del: set_map)
    then have "bt_get (es_conflicted eff0) key \<noteq> None \<or> bt_contains_key rb key"
      by (simp add: bt_contains_key_def)
    from disputed_inert [OF keyed this [unfolded eff0]]
    show ?thesis
      using frames by (auto simp: unsettled_def settled(5) eff0 compute_effective_state_def Let_def case_prod_beta split: RecordKey.splits)
  qed
qed

text \<open>The kinds of body whose check sees that the key is settled: content, at any key but the root user's.\<close>

definition settling :: "EffectiveState \<Rightarrow> RecordBodyV1 \<Rightarrow> bool" where
  "settling st body \<longleftrightarrow>
     (case body of
        RecordBodyV1.UserDeleted _ \<Rightarrow> False
      | RecordBodyV1.GroupDeleted _ \<Rightarrow> False
      | RecordBodyV1.GrantDeleted _ \<Rightarrow> False
      | RecordBodyV1.GroupMemberDeleted _ \<Rightarrow> False
      | RecordBodyV1.User r \<Rightarrow> es_root_user_id st \<noteq> Some (user_id r)
      | _ \<Rightarrow> True)"

lemma won_settled:
  assumes "resolution_won st body out" and "settling st body" and "record_key_for body user = Inr key" and "rco_key out = key"
    and "\<And>r. body \<noteq> RecordBodyV1.Secret r" "\<And>r. body \<noteq> RecordBodyV1.SecretDeleted r"
  shows "\<not> unsettled st key"
  using assms
  by (cases body) (auto simp: resolution_won_def settling_def unsettled_def split: option.splits)

lemma resolve_conflict_Inr:
  assumes "resolve_conflict env draws identity pick (s, d) = (Inr out, (s', d'))"
  obtains conflict candidate body where "conflict \<in> set (bt_values (es_conflicted (effective s)))"
    "candidate \<in> set (cr_candidates conflict)" "record_hash (sec_crypto env) candidate = Inr pick"
    "known (rec_body candidate) = Some body"
    "ensure_can_resolve_conflict (effective s) (identity_user identity) conflict body = Inr ()"
    "(case body of RecordBodyV1.Secret val \<Rightarrow> resolve_secret_conflict env draws identity candidate val
      | _ \<Rightarrow> resign env draws identity (cr_key conflict) body) (s, d) = (Inr out, (s', d'))"
proof -
  obtain conflict candidate where found: "find_conflict_candidate (effective s) (sec_crypto env) pick = Inr (conflict, candidate)"
    using assms by (cases "find_conflict_candidate (effective s) (sec_crypto env) pick") (auto simp: resolve_conflict_def Let_def)
  obtain body where body: "known (rec_body candidate) = Some body"
    using assms found by (cases "known (rec_body candidate)") (auto simp: resolve_conflict_def Let_def)
  have allowed: "ensure_can_resolve_conflict (effective s) (identity_user identity) conflict body = Inr ()"
    using assms found body
    by (cases "ensure_can_resolve_conflict (effective s) (identity_user identity) conflict body") (auto simp: resolve_conflict_def Let_def)
  show thesis
    using that [of conflict candidate body] find_in_conflicts_Inr [OF found [unfolded find_conflict_candidate_def]] assms found body allowed
    by (simp add: resolve_conflict_def Let_def)
qed

text \<open>What a resolution leaves: a record signed by the identity that is in force, and no issue.\<close>

definition resolved :: "SecretsEnv \<Rightarrow> Identity \<Rightarrow> RecordBodyV1 \<Rightarrow> ResolveConflictOutput \<Rightarrow> LockedSession \<Rightarrow> bool" where
  "resolved env identity body out s \<longleftrightarrow>
     (\<exists>sr \<in> set (vault_records_of (ls_vault s)). record_hash (sec_crypto env) sr = Inr (rco_record_hash out)
        \<and> rec_signing_public_key sr = identity_signing_public_key identity)
     \<and> vrep_issues (ls_report s) = [] \<and> resolution_won (effective s) body out
     \<and> (settling (effective s) body \<longrightarrow> \<not> bt_contains_key (es_conflicted (effective s)) (rco_key out))"

lemma decrypted_selector:
  "decrypt_secret_record env identity sr val root = Inr opened \<Longrightarrow> sp_selector opened = secret_selector val"
  by (auto simp: decrypt_secret_record_def and_then_Inr_iff split: option.splits)

lemma commit_record_published:
  assumes "commit_record env fault seed build is_effective (s, d) = (Inr out, (s', d'))"
  obtains report counter sr r verified where "build report counter = Inr (sr, out)" "sr \<in> set (vault_records_of (ls_vault s'))"
    "\<exists>h. is_effective out h (ls_report s') = Inr ()" "vrep_issues (ls_report s') = []"
    "validate_with env (ls_vault s') r verified = Inr (ls_report s')"
proof (rule commit_record_Inr [OF assms], goal_cases)
  case (1 base counter sr h r verified)
  show thesis
    using that [OF 1(2) _ _ 1(8,9)] append_record_mem [of sr "ls_vault base"] 1(6,7) by auto
qed

text \<open>
  A reader for whom a value that is sealed in a session should read back: the laws of the primitives
  and the serialiser, draws of the right length, a session that is current and whose report is the
  validation of its vault, and an identity among the readers that holds the key of its user record.
\<close>

definition entitled_reader :: "SecretsEnv \<Rightarrow> Draws \<Rightarrow> LockedSession \<Rightarrow> Disk \<Rightarrow> SecretSelectorV1 \<Rightarrow> Identity \<Rightarrow> bool" where
  "entitled_reader env draws s d selector reader \<longleftrightarrow>
     aead_law (sec_prims env) \<and> hpke_law (sec_prims env) (keys_hpke (identity_keys reader)) \<and> value_codec_law (sec_value env)
     \<and> length (content_key_bytes (draw_key draws)) = CONTENT_KEY_LEN \<and> length (content_nonce_bytes (draw_nonce draws)) = CONTENT_NONCE_LEN
     \<and> sound_session (sec_store env) s \<and> up_to_date (sec_store env) s d
     \<and> identity_user reader \<in> set (current_reader_entries (effective s) selector)
     \<and> map_option user_hpke_public_key (bt_get (es_users (effective s)) (identity_user reader)) \<in>
         {None, Some (hpke_public_key_bytes (keys_hpke (identity_keys reader)))}"

text \<open>
  The chosen value is in force: the candidate decrypts for the resolver, and every entitled reader
  finds the value it decrypts to in the session that is left.
\<close>

definition value_in_force ::
  "SecretsEnv \<Rightarrow> Draws \<Rightarrow> Identity \<Rightarrow> LockedSession \<Rightarrow> Disk \<Rightarrow> VaultRecordV1 \<Rightarrow> SecretRecordV1 \<Rightarrow> LockedSession \<Rightarrow> bool" where
  "value_in_force env draws identity s d candidate val s' \<longleftrightarrow>
     (\<exists>root opened. effective_trusted_root (effective s) = Inr root \<and> decrypt_secret_record env identity candidate val root = Inr opened
        \<and> (\<forall>reader. entitled_reader env draws s d (secret_selector val) reader \<longrightarrow>
             (\<exists>p. decrypt_secret_from_report env (ls_report s') reader (secret_selector val) = Inr p
                \<and> shows_value p (secret_selector val) (to_value opened))))"

lemma resolve_secret_conflict_resolves:
  assumes run: "resolve_secret_conflict env draws identity candidate val (s, d) = (Inr out, (s', d'))"
    and inj: "inj_on (record_hash (sec_crypto env)) (set (vault_records_of (ls_vault s')))"
  shows "resolved env identity (RecordBodyV1.Secret val) out s'"
    and "value_in_force env draws identity s d candidate val s'"
    and "\<exists>i. derive_secret_id (sec_crypto env) (secret_selector val) = Inr i \<and> rco_key out = RecordKey.Secret i"
proof -
  let ?signer = "identity_signer (sec_prims env) identity"
  obtain root where root: "effective_trusted_root (effective s) = Inr root"
    using run by (cases "effective_trusted_root (effective s)") (auto simp: resolve_secret_conflict_def Let_def)
  obtain opened where opened: "decrypt_secret_record env identity candidate val root = Inr opened"
    using run root by (cases "decrypt_secret_record env identity candidate val root") (auto simp: resolve_secret_conflict_def Let_def)
  obtain i where i: "derive_secret_id (sec_crypto env) (sp_selector opened) = Inr i"
    using run root opened by (cases "derive_secret_id (sec_crypto env) (sp_selector opened)") (auto simp: resolve_secret_conflict_def Let_def)
  note selector = decrypted_selector [OF opened]
  let ?build = "\<lambda>(pre_report :: ValidationReport) counter.
           and_then (seal_secret_payload env draws (vrep_effective pre_report)
                       \<lparr>ctx_record_key = RecordKey.Secret i, ctx_signer_key = signer_signing_public_key ?signer,
                        ctx_counter = counter, ctx_secret_id = i, ctx_selector = sp_selector opened\<rparr>
                       (to_value opened)) (\<lambda>sealed.
           and_then (map_err Hazmat (secret_record (sec_crypto env) ?signer (sp_selector opened) sealed counter)) (\<lambda>sr.
           and_then (map_err OpsError.Core (record_hash (sec_crypto env) sr)) (\<lambda>hash.
             Inr (sr, \<lparr>rco_key = RecordKey.Secret i, rco_counter = counter, rco_record_hash = hash\<rparr>))))"
  have "commit_record (sec_store env) (draw_fault draws) (draw_seed draws) ?build
      (\<lambda>out _ report. effective_or ''conflict resolution did not become the effective record''
           (secret_record_is_current (vrep_effective report) (rco_record_hash out))) (s, d) = (Inr out, (s', d'))"
    using run root opened i by (simp add: resolve_secret_conflict_def Let_def)
  then obtain base :: LockedSession and counter sr h r verified where c: "?build (ls_report base) counter = Inr (sr, out)"
    "counter = max (next_counter (effective base)) (rollback_counter_floor (effective base))" "counter \<le> MAX_LWW_COUNTER"
    "record_hash (sec_crypto env) sr = Inr h" "ls_vault s' = append_record (ls_vault base) sr"
    "effective_or ''conflict resolution did not become the effective record''
       (secret_record_is_current (vrep_effective (ls_report s')) (rco_record_hash out)) = Inr ()"
    "vrep_issues (ls_report s') = []" "validate_with (sec_store env) (ls_vault s') r verified = Inr (ls_report s')"
    "trusted_root r = session_root base" "up_to_date (sec_store env) s d \<longrightarrow> (\<exists>p. base = s\<lparr>ls_pending_transaction := p\<rparr>)"
  proof (rule commit_record_Inr, goal_cases)
    case (1 base counter sr h r verified)
    show thesis by (rule 1(1) [OF 1(2-10)]) (use 1(11) in blast)
  qed
  have mem: "sr \<in> set (vault_records_of (ls_vault s'))"
    unfolding c(5) by (rule append_record_mem)
  have current: "secret_record_is_current (vrep_effective (ls_report s')) (rco_record_hash out)"
    using c(6) by simp
  obtain sealed where sealed: "seal_secret_payload env draws (vrep_effective (ls_report base))
        \<lparr>ctx_record_key = RecordKey.Secret i, ctx_signer_key = signer_signing_public_key ?signer, ctx_counter = counter, ctx_secret_id = i,
         ctx_selector = secret_selector val\<rparr> (to_value opened) = Inr sealed"
    "secret_record (sec_crypto env) ?signer (secret_selector val) sealed counter = Inr sr"
    "record_hash (sec_crypto env) sr = Inr (rco_record_hash out)" "rco_key out = RecordKey.Secret i"
    using c(1) by (auto simp: and_then_Inr_iff selector)
  note body = secret_record_Inr [OF sealed(2) i [unfolded selector]]
  have "bt_get (es_conflicted (effective s')) (RecordKey.Secret i) = None"
    using current_is_winner(1) [OF c(8) current inj mem sealed(3) body(1)] by (simp add: effective_def)
  then show "resolved env identity (RecordBodyV1.Secret val) out s'"
    using mem c(7) sealed body(2) current by (auto simp: resolved_def resolution_won_def bt_contains_key_def identity_signer_def effective_def)
  show "\<exists>i. derive_secret_id (sec_crypto env) (secret_selector val) = Inr i \<and> rco_key out = RecordKey.Secret i"
    using i selector sealed(4) by simp
  have "\<exists>p. decrypt_secret_from_report env (ls_report s') reader (secret_selector val) = Inr p
      \<and> shows_value p (secret_selector val) (to_value opened)"
    if fit: "entitled_reader env draws s d (secret_selector val) reader" for reader
  proof -
    obtain p where base: "base = s\<lparr>ls_pending_transaction := p\<rparr>" using fit c(10) by (auto simp: entitled_reader_def)
    then have same: "vrep_effective (ls_report base) = effective s" "session_root base = session_root s"
      by (simp_all add: effective_def session_root_def)
    from fit written_value_reads [OF _ _ _ _ _ _ _ _ i [unfolded selector] sealed(1) [unfolded same, folded body(2)] body(1) sealed(3)
        mem current c(7,8) c(9) [unfolded same] inj, of reader]
    show ?thesis by (auto simp: entitled_reader_def)
  qed
  with root opened show "value_in_force env draws identity s d candidate val s'"
    by (auto simp: value_in_force_def)
qed

lemma resigned:
  assumes "with_lww_counter body counter = Some bumped"
  shows "record_key_for bumped user = record_key_for body user" "secret_record_identity bumped = secret_record_identity body"
    "lww_counter bumped = Some counter"
  using assms by (cases body; auto)+

lemma resign_resolves:
  assumes run: "resign env draws identity key body (s, d) = (Inr out, (s', d'))"
    and inj: "inj_on (record_hash (sec_crypto env)) (set (vault_records_of (ls_vault s')))"
    and key: "record_key_for body (identity_user identity) = Inr key" and "\<And>r. body \<noteq> RecordBodyV1.Secret r"
  shows "resolved env identity body out s'"
proof -
  obtain report counter sr r verified where built:
      "(case with_lww_counter body counter of
          None \<Rightarrow> Inl (ConflictNotResolvable ''the root record is not LWW-resolved'')
        | Some bumped \<Rightarrow>
            and_then (map_err Hazmat (signed_payload (sec_crypto env) (identity_signer (sec_prims env) identity)
                (record_payload bumped))) (\<lambda>sr.
            and_then (map_err OpsError.Core (record_hash (sec_crypto env) sr)) (\<lambda>hash.
              Inr (sr, \<lparr>rco_key = key, rco_counter = counter, rco_record_hash = hash\<rparr>)))) = Inr (sr, out)"
      and mem: "sr \<in> set (vault_records_of (ls_vault s'))"
      and check: "\<exists>h::HashValue. ensure_resolution_effective (vrep_effective (ls_report s')) body out = Inr ()"
      and clean: "vrep_issues (ls_report s') = []"
      and valid: "validate_with (sec_store env) (ls_vault s') r verified = Inr (ls_report s')"
    using run [unfolded resign_def] by (rule commit_record_published)
  obtain bumped where c: "with_lww_counter body counter = Some bumped"
    "signed_payload (sec_crypto env) (identity_signer (sec_prims env) identity) (record_payload bumped) = Inr sr"
    "record_hash (sec_crypto env) sr = Inr (rco_record_hash out)" "rco_key out = key"
    using built by (auto simp: and_then_Inr_iff split: option.splits)
  have won: "resolution_won (effective s') body out"
    using check by (simp add: ensure_resolution_effective_def effective_def)
  note signed = signed_payload_Inr [OF c(2)]
  obtain v1 where v1: "ls_vault s' = VaultStore.V1 v1" by (cases "ls_vault s'")
  have "\<not> bt_contains_key (es_conflicted (effective s')) key" if "settling (effective s') body"
  proof (cases "\<exists>r. body = RecordBodyV1.SecretDeleted r")
    case True
    then obtain r' where r': "body = RecordBodyV1.SecretDeleted r'" by blast
    have "bt_get (es_conflicted (vrep_effective (ls_report s'))) (RecordKey.Secret (sd_id r')) = None"
      using current_is_winner(1) [OF valid _ inj mem c(3), of bumped "sd_id r'" "sd_selector r'"] won signed(1) resigned(2) [OF c(1)]
      by (simp add: r' resolution_won_def effective_def record_payload_def)
    then show ?thesis
      using key by (simp add: r' bt_contains_key_def effective_def)
  next
    case False
    then have "\<not> unsettled (effective s') key"
      using won_settled [OF won that key c(4)] assms(4) by blast
    then show ?thesis
      using report_conflict_unsettled [OF valid [unfolded v1]] by (auto simp: effective_def)
  qed
  then show ?thesis
    using mem c(3,4) clean won signed(2) by (auto simp: resolved_def identity_signer_def)
qed

lemma resign_key:
  assumes "resign env draws identity key body (s, d) = (Inr out, (s', d'))"
  shows "rco_key out = key"
  using assms [unfolded resign_def]
  by (rule commit_record_published) (auto simp: and_then_Inr_iff split: option.splits)

section \<open>A conflict to resolve\<close>

text \<open>
  A vault with a secret at counter 1, on a machine that remembers counter 5 at its key. The
  serialiser tells the record from its successor. The root user resolves for the one value there is.
\<close>

fun counting_serialize :: "CordValue \<Rightarrow> CordError + Bytes" where
  "counting_serialize (CvRecord r) =
     (case rec_body r of
        Known (RecordBodyV1.Secret v) \<Rightarrow> Inr (if secret_counter v = 1 then [13] else [14])
      | _ \<Rightarrow> sample_serialize (CvRecord r))"
| "counting_serialize v = sample_serialize v"

definition counting_provider :: CryptoProvider where
  "counting_provider = sample_provider\<lparr>cord_serialize := counting_serialize\<rparr>"

definition conflict_env :: SecretsEnv where
  "conflict_env = sample_secrets_env\<lparr>sec_store := (sec_store sample_secrets_env)\<lparr>env_crypto := counting_provider\<rparr>\<rparr>"

definition conflict_secret :: SecretRecordV1 where
  "conflict_secret = \<lparr>secret_id = SecretId (HashValue [6]), secret_selector = sample_selector,
     secret_sealed = \<lparr>sealed_nonce = replicate 12 0, sealed_ciphertext = [42],
       recipient_slots = [\<lparr>recipient_id = UserId (HashValue [5]), hpke_encapsulated_key = [], wrapped_content_key = replicate 32 0\<rparr>]\<rparr>,
     secret_counter = 1\<rparr>"

definition conflict_candidate :: VaultRecordV1 where
  "conflict_candidate = \<lparr>rec_body = Known (RecordBodyV1.Secret conflict_secret), rec_signing_public_key = [1], rec_signature = []\<rparr>"

definition conflict_sealed :: SealedPayloadV1 where
  "conflict_sealed = \<lparr>sealed_nonce = replicate 12 0, sealed_ciphertext = SEALED_VALUE_V1_MAGIC @ [9],
     recipient_slots = [\<lparr>recipient_id = UserId (HashValue [5]), hpke_encapsulated_key = [], wrapped_content_key = replicate 32 0\<rparr>]\<rparr>"

definition conflict_successor :: VaultRecordV1 where
  "conflict_successor = \<lparr>rec_body = Known (RecordBodyV1.Secret (conflict_secret\<lparr>secret_sealed := conflict_sealed, secret_counter := 6\<rparr>)),
     rec_signing_public_key = [1], rec_signature = [1]\<rparr>"

definition conflict_opened :: SecretPlaintext where
  "conflict_opened = \<lparr>sp_selector = sample_selector, sp_plaintext = [42], sp_fields = []\<rparr>"

definition conflict_vault :: VaultStore where
  "conflict_vault = append_record sample_secret_vault conflict_candidate"

definition conflict_ratchet :: Ratchet where
  "conflict_ratchet = (ratchet_new (HashValue [7]))\<lparr>watermarks := [(RecordKey.Secret (SecretId (HashValue [6])), 5)]\<rparr>"

definition conflict_session :: "ValidationReport \<Rightarrow> LockedSession" where
  "conflict_session report = (sample_prepared report)\<lparr>ls_vault := conflict_vault, ls_ratchet := conflict_ratchet\<rparr>"

abbreviation conflict_build :: "ValidationReport \<Rightarrow> u64 \<Rightarrow> OpsError + VaultRecordV1 \<times> ResolveConflictOutput" where
  "conflict_build \<equiv> (\<lambda>pre_report counter.
     and_then (seal_secret_payload conflict_env sample_draws (vrep_effective pre_report)
                 \<lparr>ctx_record_key = RecordKey.Secret (SecretId (HashValue [6])), ctx_signer_key = [1],
                  ctx_counter = counter, ctx_secret_id = SecretId (HashValue [6]), ctx_selector = sample_selector\<rparr> (from_primary [42])) (\<lambda>sealed.
     and_then (map_err Hazmat (secret_record counting_provider (identity_signer sample_prims sample_identity) sample_selector sealed counter)) (\<lambda>sr.
     and_then (map_err OpsError.Core (record_hash counting_provider sr)) (\<lambda>hash.
       Inr (sr, \<lparr>rco_key = RecordKey.Secret (SecretId (HashValue [6])), rco_counter = counter, rco_record_hash = hash\<rparr>)))))"

abbreviation conflict_effective :: "ResolveConflictOutput \<Rightarrow> HashValue \<Rightarrow> ValidationReport \<Rightarrow> OpsError + unit" where
  "conflict_effective \<equiv> (\<lambda>out _ report. effective_or ''conflict resolution did not become the effective record''
     (secret_record_is_current (vrep_effective report) (rco_record_hash out)))"

lemma conflict_fields [simp]:
  "sec_prims conflict_env = sample_prims" "env_crypto (sec_store conflict_env) = counting_provider"
  "sec_value conflict_env = single_codec (from_primary [42])"
  "env_vault (sec_store conflict_env) = \<lparr>cord_ser = (\<lambda>_. Inr [9]), cord_de = (\<lambda>_. Inl (CordError []))\<rparr>"
  by (simp_all add: conflict_env_def)

lemma conflict_facts:
  "case validate_vault counting_provider conflict_vault conflict_ratchet of
     Inl _ \<Rightarrow> False
   | Inr report \<Rightarrow> vrep_issues report = []
       \<and> effective_trusted_root (vrep_effective report) = Inr (HashValue [7])
       \<and> current_reader_entries (vrep_effective report) sample_selector = [UserId (HashValue [5])]
       \<and> map_option user_hpke_public_key (bt_get (es_users (vrep_effective report)) (UserId (HashValue [5]))) = Some [2]
       \<and> max (next_counter (vrep_effective report)) (rollback_counter_floor (vrep_effective report)) = 6
       \<and> map cr_candidates (bt_values (es_conflicted (vrep_effective report))) = [[conflict_candidate]]
       \<and> (case find_conflict_candidate (vrep_effective report) counting_provider (HashValue [13]) of
            Inl _ \<Rightarrow> False
          | Inr (conflict, candidate) \<Rightarrow> cr_kind conflict = Rollback 5
              \<and> ensure_can_resolve_conflict (vrep_effective report) (UserId (HashValue [5])) conflict
                  (RecordBodyV1.Secret conflict_secret) = Inr ())"
  by code_simp

lemma conflict_settles:
  "case validate_vault counting_provider conflict_vault conflict_ratchet of
     Inl _ \<Rightarrow> False
   | Inr report \<Rightarrow>
       (case validate_vault_with_verified counting_provider (append_record conflict_vault conflict_successor)
              (apply_update (vrep_ratchet_update report) conflict_ratchet) (Thorax_State.verified_record_hashes (vrep_effective report)) of
          Inl _ \<Rightarrow> False
        | Inr post \<Rightarrow> vrep_issues post = [] \<and> secret_record_is_current (vrep_effective post) (HashValue [14]))"
  by code_simp

lemma conflict_hashes:
  "record_hash counting_provider conflict_successor = Inr (HashValue [14])" "record_hash counting_provider conflict_candidate = Inr (HashValue [13])"
  "distinct (map (record_hash counting_provider) (vault_records_of (append_record conflict_vault conflict_successor)))"
  by code_simp+

lemma conflict_seals:
  assumes "effective_trusted_root st = Inr (HashValue [7])" "current_reader_entries st sample_selector = [UserId (HashValue [5])]"
    and "map_option user_hpke_public_key (bt_get (es_users st) (UserId (HashValue [5]))) = Some [2]"
  shows "seal_secret_payload conflict_env sample_draws st
      \<lparr>ctx_record_key = RecordKey.Secret (SecretId (HashValue [6])), ctx_signer_key = [1], ctx_counter = counter,
       ctx_secret_id = SecretId (HashValue [6]), ctx_selector = sample_selector\<rparr> (from_primary [42]) = Inr conflict_sealed"
  using assms
  by (auto simp: seal_secret_payload_def recipient_slot_binding_bytes_def secret_content_aad_bytes_def wrap_content_key_def seal_content_def
      sample_draws_def sample_prims_def conflict_env_def sample_secrets_env_def single_codec_def conflict_sealed_def hpke_seal_def
      hpke_public_key_from_bytes_def)

lemma conflict_signs:
  "secret_record counting_provider (identity_signer sample_prims sample_identity) sample_selector conflict_sealed 6 = Inr conflict_successor"
  by code_simp

lemma conflict_opens:
  "decrypt_secret_record conflict_env sample_identity conflict_candidate conflict_secret (HashValue [7]) = Inr conflict_opened"
  "to_value conflict_opened = from_primary [42]" "sp_selector conflict_opened = sample_selector"
  by code_simp+

lemma conflict_id: "derive_secret_id counting_provider sample_selector = Inr (SecretId (HashValue [6]))"
  by (simp add: derive_secret_id_def derive_hash_def canonical_bytes_def counting_provider_def sample_provider_def)

definition conflict_report :: "ValidationReport \<Rightarrow> bool" where
  "conflict_report report \<longleftrightarrow> validate_vault counting_provider conflict_vault conflict_ratchet = Inr report"

lemma conflict_session_fields [simp]:
  "ls_report (conflict_session report) = report" "effective (conflict_session report) = vrep_effective report"
  "ls_vault (conflict_session report) = conflict_vault" "ls_ratchet (conflict_session report) = conflict_ratchet"
  "ls_persistence (conflict_session report) = Prepared" "session_root (conflict_session report) = HashValue [7]"
  by (simp_all add: conflict_session_def sample_prepared_def sample_session_def effective_def session_root_def conflict_ratchet_def ratchet_new_def)

lemma conflict_encodes:
  "encode_vault (env_vault (sec_store conflict_env)) (append_record conflict_vault conflict_successor) = Inr (VAULT_MAGIC @ [9])"
  by (simp add: encode_vault_def MAX_VAULT_RECORDS_def usize_saturating_add_def Let_def MAX_VAULT_BYTES_def VAULT_MAGIC_def
      conflict_vault_def sample_secret_vault_def append_record_def)

lemma conflict_commits:
  assumes "conflict_report report"
  obtains s' :: LockedSession where "commit_record (sec_store conflict_env) None [] conflict_build conflict_effective
      (conflict_session report, sample_disk_free) =
        (Inr \<lparr>rco_key = RecordKey.Secret (SecretId (HashValue [6])), rco_counter = 6, rco_record_hash = HashValue [14]\<rparr>, (s', sample_disk_free))"
    "ls_vault s' = append_record conflict_vault conflict_successor"
proof -
  let ?s = "conflict_session report" and ?v = "append_record conflict_vault conflict_successor"
    and ?r = "apply_update (vrep_ratchet_update report) conflict_ratchet"
    and ?out = "\<lparr>rco_key = RecordKey.Secret (SecretId (HashValue [6])), rco_counter = 6, rco_record_hash = HashValue [14]\<rparr>"
  note facts = conflict_facts [unfolded assms [unfolded conflict_report_def] sum.case]
  obtain post where post: "validate_vault_with_verified counting_provider ?v ?r (Thorax_State.verified_record_hashes (vrep_effective report)) = Inr post"
    "vrep_issues post = []" "secret_record_is_current (vrep_effective post) (HashValue [14])"
    using conflict_settles [unfolded assms [unfolded conflict_report_def] sum.case] by (auto split: sum.splits)
  let ?nx = "\<lparr>suc_output = (?out, HashValue [14]), suc_vault = ?v, suc_ratchet = apply_update (vrep_ratchet_update post) ?r, suc_report = post\<rparr>"
  have built: "conflict_build report 6 = Inr (conflict_successor, ?out)"
    using facts by (simp add: conflict_seals conflict_signs conflict_hashes)
  have counter: "max (next_counter (vrep_effective report)) (rollback_counter_floor (vrep_effective report)) = 6"
    using facts by simp
  have "record_update (sec_store conflict_env) conflict_build conflict_vault report = Inr ((?out, HashValue [14]), ?v)"
    unfolding record_update_def counter Let_def built by (simp add: MAX_LWW_COUNTER_def conflict_hashes)
  then have "successor (sec_store conflict_env) (record_update (sec_store conflict_env) conflict_build) (record_check conflict_effective) ?s = Inr ?nx"
    using post by (simp add: successor_def Let_def validate_with_def ensure_no_issues_def record_check_def effective_or_def)
  from prepared_commit_record [OF _ _ this] facts show thesis
    using that conflict_encodes by simp
qed

lemma conflict_run:
  assumes "conflict_report report"
  obtains s' :: LockedSession where "resolve_conflict conflict_env sample_draws sample_identity (HashValue [13]) (conflict_session report, sample_disk_free) =
      (Inr \<lparr>rco_key = RecordKey.Secret (SecretId (HashValue [6])), rco_counter = 6, rco_record_hash = HashValue [14]\<rparr>, (s', sample_disk_free))"
    "inj_on (record_hash counting_provider) (set (vault_records_of (ls_vault s')))"
proof -
  note facts = conflict_facts [unfolded assms [unfolded conflict_report_def] sum.case]
  let ?s = "conflict_session report"
  obtain s' :: LockedSession where commit: "commit_record (sec_store conflict_env) None [] conflict_build conflict_effective (?s, sample_disk_free) =
        (Inr \<lparr>rco_key = RecordKey.Secret (SecretId (HashValue [6])), rco_counter = 6, rco_record_hash = HashValue [14]\<rparr>, (s', sample_disk_free))"
    "ls_vault s' = append_record conflict_vault conflict_successor"
    using assms by (rule conflict_commits)
  obtain conflict candidate where c: "find_conflict_candidate (vrep_effective report) counting_provider (HashValue [13]) = Inr (conflict, candidate)"
    "ensure_can_resolve_conflict (vrep_effective report) (UserId (HashValue [5])) conflict (RecordBodyV1.Secret conflict_secret) = Inr ()"
    using facts by (auto split: sum.splits)
  then have candidate: "candidate = conflict_candidate"
    using find_in_conflicts_Inr [OF c(1) [unfolded find_conflict_candidate_def]] facts by auto
  have "resolve_secret_conflict conflict_env sample_draws sample_identity conflict_candidate conflict_secret (?s, sample_disk_free) =
      (Inr \<lparr>rco_key = RecordKey.Secret (SecretId (HashValue [6])), rco_counter = 6, rco_record_hash = HashValue [14]\<rparr>, (s', sample_disk_free))"
    using facts commit(1) conflict_opens conflict_id
    by (simp add: resolve_secret_conflict_def Let_def sample_draws_def identity_signer_def sample_identity_def)
  moreover have "known (rec_body conflict_candidate) = Some (RecordBodyV1.Secret conflict_secret)" "identity_user sample_identity = UserId (HashValue [5])"
    by (simp_all add: conflict_candidate_def sample_identity_def)
  ultimately have "resolve_conflict conflict_env sample_draws sample_identity (HashValue [13]) (?s, sample_disk_free) =
      (Inr \<lparr>rco_key = RecordKey.Secret (SecretId (HashValue [6])), rco_counter = 6, rco_record_hash = HashValue [14]\<rparr>, (s', sample_disk_free))"
    using c candidate by (simp add: resolve_conflict_def)
  moreover have "inj_on (record_hash counting_provider) (set (vault_records_of (ls_vault s')))"
    using conflict_hashes(3) commit(2) by (simp add: distinct_map)
  ultimately show thesis by (rule that)
qed

lemma conflict_reader:
  assumes "conflict_report report"
  shows "entitled_reader conflict_env sample_draws (conflict_session report) sample_disk_free sample_selector sample_identity"
proof -
  note facts = conflict_facts [unfolded assms [unfolded conflict_report_def] sum.case]
  have "sound_session (sec_store conflict_env) (conflict_session report)"
    unfolding sound_session_def using assms
    by (intro exI [of _ conflict_ratchet] exI [of _ "{}"])
      (simp add: conflict_report_def validate_with_def validate_vault_def conflict_ratchet_def ratchet_new_def)
  moreover have "identity_user sample_identity = UserId (HashValue [5])"
    by (simp add: sample_identity_def)
  ultimately show ?thesis
    using facts sample_laws by (auto simp: entitled_reader_def up_to_date_def sample_hpke_key)
qed

section \<open>Properties\<close>

text \<open>
  C15. Resolving ends the conflict. When it returns, the picked hash was a candidate of a conflict
  the session reported, its body is readable and the identity had the authority that a write of this
  body needs; the vault left in the session holds a record of the output's hash signed by the
  identity, validates without issues, and has the chosen content in force. For a secret the content
  is the value itself: the candidate decrypts for the identity, and in the session that is left every
  reader of the selector finds the primary value and the fields that the candidate decrypted to,
  given the laws of the primitives and a current session. Unless the choice was a deletion or the
  root user's own record, the key is out of dispute. The key is that of the conflict, for a secret
  the one derived from its selector. Records are told apart by their hashes.
\<close>

theorem resolution_ends_the_conflict:
  assumes run: "resolve_conflict env draws identity pick (s, d) = (Inr out, (s', d'))"
    and inj: "inj_on (record_hash (sec_crypto env)) (set (vault_records_of (ls_vault s')))"
  shows "\<exists>conflict candidate body. conflict \<in> set (bt_values (es_conflicted (effective s)))
    \<and> candidate \<in> set (cr_candidates conflict) \<and> record_hash (sec_crypto env) candidate = Inr pick
    \<and> known (rec_body candidate) = Some body
    \<and> ensure_can_resolve_conflict (effective s) (identity_user identity) conflict body = Inr ()
    \<and> resolved env identity body out s'
    \<and> (case body of
         RecordBodyV1.Secret val \<Rightarrow> value_in_force env draws identity s d candidate val s'
           \<and> (\<exists>i. derive_secret_id (sec_crypto env) (secret_selector val) = Inr i \<and> rco_key out = RecordKey.Secret i)
       | _ \<Rightarrow> rco_key out = cr_key conflict)"
proof -
  obtain conflict candidate body where found: "conflict \<in> set (bt_values (es_conflicted (effective s)))"
    "candidate \<in> set (cr_candidates conflict)" "record_hash (sec_crypto env) candidate = Inr pick"
    "known (rec_body candidate) = Some body"
    "ensure_can_resolve_conflict (effective s) (identity_user identity) conflict body = Inr ()"
    and rest: "(case body of RecordBodyV1.Secret val \<Rightarrow> resolve_secret_conflict env draws identity candidate val
      | _ \<Rightarrow> resign env draws identity (cr_key conflict) body) (s, d) = (Inr out, (s', d'))"
    using run by (rule resolve_conflict_Inr)
  have key: "record_key_for body (identity_user identity) = Inr (cr_key conflict)"
    using found(5) by (auto simp: ensure_can_resolve_conflict_def and_then_Inr_iff split: if_splits)
  have "resolved env identity body out s' \<and> (case body of
         RecordBodyV1.Secret val \<Rightarrow> value_in_force env draws identity s d candidate val s'
           \<and> (\<exists>i. derive_secret_id (sec_crypto env) (secret_selector val) = Inr i \<and> rco_key out = RecordKey.Secret i)
       | _ \<Rightarrow> rco_key out = cr_key conflict)"
  proof (cases "\<exists>val. body = RecordBodyV1.Secret val")
    case True
    then show ?thesis using rest inj resolve_secret_conflict_resolves by auto
  next
    case False
    then have "resign env draws identity (cr_key conflict) body (s, d) = (Inr out, (s', d'))"
      using rest by (cases body) auto
    with resign_resolves [OF this inj key] False show ?thesis
      by (auto simp: resign_key split: RecordBodyV1.splits)
  qed
  with found show ?thesis by blast
qed

theorem resolution_ends_the_conflict_witness:
  "\<exists>report out s' p. resolve_conflict conflict_env sample_draws sample_identity (HashValue [13])
       (conflict_session report, sample_disk_free) = (Inr out, (s', sample_disk_free))
    \<and> resolved conflict_env sample_identity (RecordBodyV1.Secret conflict_secret) out s'
    \<and> decrypt_secret_from_report conflict_env (ls_report s') sample_identity sample_selector = Inr p \<and> sp_plaintext p = [42]"
proof -
  obtain report where report: "conflict_report report"
    using conflict_facts by (auto simp: conflict_report_def split: sum.splits)
  note facts = conflict_facts [unfolded report [unfolded conflict_report_def] sum.case]
  obtain out and s' :: LockedSession where run: "resolve_conflict conflict_env sample_draws sample_identity (HashValue [13])
       (conflict_session report, sample_disk_free) = (Inr out, (s', sample_disk_free))"
    and inj: "inj_on (record_hash (sec_crypto conflict_env)) (set (vault_records_of (ls_vault s')))"
    by (rule conflict_run [OF report]) simp
  obtain conflict candidate body where r: "conflict \<in> set (bt_values (es_conflicted (vrep_effective report)))"
      "candidate \<in> set (cr_candidates conflict)" "known (rec_body candidate) = Some body" "resolved conflict_env sample_identity body out s'"
      "case body of RecordBodyV1.Secret val \<Rightarrow> value_in_force conflict_env sample_draws sample_identity (conflict_session report) sample_disk_free candidate val s'
           \<and> (\<exists>i. derive_secret_id (sec_crypto conflict_env) (secret_selector val) = Inr i \<and> rco_key out = RecordKey.Secret i)
         | _ \<Rightarrow> rco_key out = cr_key conflict"
    using resolution_ends_the_conflict [OF run inj] unfolding conflict_session_fields by blast
  have "map cr_candidates (bt_values (es_conflicted (vrep_effective report))) = [[conflict_candidate]]"
    using facts by simp
  then have candidate: "candidate = conflict_candidate" using r(1,2) by auto
  then have body: "body = RecordBodyV1.Secret conflict_secret" using r(3) by (simp add: conflict_candidate_def)
  have selector: "secret_selector conflict_secret = sample_selector" by (simp add: conflict_secret_def)
  have "\<exists>p. decrypt_secret_from_report conflict_env (ls_report s') sample_identity sample_selector = Inr p \<and> shows_value p sample_selector (from_primary [42])"
    using r(5) conflict_reader [OF report] conflict_opens facts unfolding candidate body
    by (auto simp: value_in_force_def selector)
  with run r(4) body show ?thesis
    by (auto simp: shows_value_def from_primary_def)
qed

end
