(* ===== verification/Thorax_Invite.thy ===== *)
theory Thorax_Invite
  imports Thorax_Trust
begin

text \<open>
  File: \<open>crates/thorax-ops/src/invite.rs\<close>. An invitation is prepared on a copy of the session: the new
  user, its handle, its grants and the resealed secrets are written there, and the invitation carries
  the issuer's rollback memory. Committing it publishes the whole copy at once. Claiming seeds the
  memory of a fresh machine from the invitation, validates the vault against it and stores the
  result. The keychain that receives the identity is a parameter, as is the master seed drawn for it.

  The theorems show that preparing touches neither the session nor the disk, and that whoever claims
  an invitation on a fresh machine holds a vault at least as new as what the issuer had seen.
\<close>

section \<open>Inviting\<close>

record InviteUserOutput =
  iuo_user_id :: UserId
  iuo_invite :: InvitationMaterial
  iuo_handle :: "UserHandleId option"
  iuo_grants :: "GrantId list"
  iuo_reconcile :: ReconcileOutput

record PreparedInviteUser =
  piu_projected :: LockedSession
  piu_expected_vault_bytes :: Bytes
  piu_expected_ratchet_bytes :: Bytes
  piu_output :: InviteUserOutput

definition piu_invite :: "PreparedInviteUser \<Rightarrow> InvitationMaterial" where
  "piu_invite prepared = iuo_invite (piu_output prepared)"

text \<open>The memory without its scope, as it travels.\<close>

definition rollback_baseline_of :: "Ratchet \<Rightarrow> RatchetBaselineV1" where
  "rollback_baseline_of ratchet =
     \<lparr>baseline_records = filter (\<lambda>r. case r of RatchetRecordV1.TrustedRoot _ \<Rightarrow> False | _ \<Rightarrow> True) (to_records ratchet)\<rparr>"

definition generate_identity :: "Primitives \<Rightarrow> CryptoProvider \<Rightarrow> Bytes \<Rightarrow> CryptoError + Identity" where
  "generate_identity prims crypto drawn = from_master_seed prims crypto drawn"

fun grant_all ::
  "StoreEnv \<Rightarrow> (nat \<Rightarrow> Draws) \<Rightarrow> (nat \<Rightarrow> IdSeed) \<Rightarrow> RecordSigner \<Rightarrow> UserId \<Rightarrow> nat \<Rightarrow> GrantPermissionV1 list \<Rightarrow> GrantId list SessionOp" where
  "grant_all env draws seeds admin user i [] = op_ok []"
| "grant_all env draws seeds admin user i (permission # permissions) =
     op_then (locked_grant_permission env (draws i) admin (PrincipalRefV1.User user) permission (seeds i)) (\<lambda>grant.
     op_then (grant_all env draws seeds admin user (Suc i) permissions) (\<lambda>grants. op_ok (grant # grants)))"

text \<open>What is done to the copy. Each step has its own draws.\<close>

definition project_invite ::
  "SecretsEnv \<Rightarrow> (nat \<Rightarrow> nat \<Rightarrow> Draws) \<Rightarrow> (nat \<Rightarrow> IdSeed) \<Rightarrow> Identity \<Rightarrow> Identity \<Rightarrow> string option \<Rightarrow> GrantPermissionV1 list
     \<Rightarrow> (UserHandleId option \<times> GrantId list \<times> ReconcileOutput) SessionOp" where
  "project_invite env draws seeds identity invited handle permissions =
     (let store = sec_store env; admin = identity_signer (sec_prims env) identity; user = identity_user invited in
      op_then (locked_add_user store (draws 0 0) admin (identity_signer (sec_prims env) invited)) (\<lambda>_.
      op_then (case handle of
          None \<Rightarrow> op_ok None
        | Some h \<Rightarrow> op_then (locked_set_user_handle store (draws 1 0) admin h user) (\<lambda>i. op_ok (Some i))) (\<lambda>handle_id.
      op_then (grant_all store (draws 2) seeds admin user 0 permissions) (\<lambda>grants.
      op_then (if grants = [] then op_ok \<lparr>encrypted = [], needs_rotation = []\<rparr> else converge_readers env (draws 3) identity) (\<lambda>reconcile.
        op_ok (handle_id, grants, reconcile))))))"

text \<open>Running a method on the prepared copy of the session, which stays as it is.\<close>

definition on_copy :: "'a SessionOp \<Rightarrow> ('a \<times> LockedSession) SessionOp" where
  "on_copy m = (\<lambda>(s, d). case m (prepared_clone s, d) of
     (Inl e, (_, d1)) \<Rightarrow> (Inl e, (s, d1))
   | (Inr x, (p, d1)) \<Rightarrow> (Inr (x, p), (s, d1)))"

definition ensure_all_creatable :: "EffectiveState \<Rightarrow> UserId \<Rightarrow> GrantPermissionV1 list \<Rightarrow> OpsError + unit" where
  "ensure_all_creatable st user permissions =
     fold (\<lambda>permission acc. and_then acc (\<lambda>_. ensure_can_create_permission st user permission)) permissions (Inr ())"

definition prepare_invite_user ::
  "SecretsEnv \<Rightarrow> (nat \<Rightarrow> nat \<Rightarrow> Draws) \<Rightarrow> (nat \<Rightarrow> IdSeed) \<Rightarrow> Bytes \<Rightarrow> Identity \<Rightarrow> string option \<Rightarrow> GrantPermissionV1 list
     \<Rightarrow> PreparedInviteUser SessionOp" where
  "prepare_invite_user env draws seeds drawn identity handle permissions =
     op_then (op_read (\<lambda>(s, d). ensure_administer (effective s) (identity_user identity))) (\<lambda>_.
     op_then (op_read (\<lambda>(s, d). ensure_all_creatable (effective s) (identity_user identity) permissions)) (\<lambda>_.
     op_then (op_read (\<lambda>_. case handle of None \<Rightarrow> Inr None | Some h \<Rightarrow> map_sum id Some (normalize_user_handle h))) (\<lambda>handle.
     op_then self_get (\<lambda>s.
     op_then (op_read (\<lambda>_. map_err Store (encode_ratchet (sec_store env) (ls_ratchet s)))) (\<lambda>expected_ratchet_bytes.
     op_then (op_read (\<lambda>_. map_err OpsError.Crypto (generate_identity (sec_prims env) (sec_crypto env) drawn))) (\<lambda>invited.
     op_then (on_copy (project_invite env draws seeds identity invited handle permissions)) (\<lambda>((handle_id, grants, reconcile), projected).
       op_ok \<lparr>piu_projected = projected, piu_expected_vault_bytes = ls_vault_bytes s,
         piu_expected_ratchet_bytes = expected_ratchet_bytes,
         piu_output = \<lparr>iuo_user_id = identity_user invited,
           iuo_invite = \<lparr>im_master_seed = identity_master_seed invited, im_trusted_root = trusted_root (ls_ratchet s),
             im_rollback_baseline = Some (rollback_baseline_of (ls_ratchet s))\<rparr>,
           iuo_handle = handle_id, iuo_grants = grants, iuo_reconcile = reconcile\<rparr>\<rparr>)))))))"

definition commit_invite_user ::
  "StoreEnv \<Rightarrow> TestFaultPoint option \<Rightarrow> Bytes \<Rightarrow> PreparedInviteUser \<Rightarrow> InviteUserOutput SessionOp" where
  "commit_invite_user env fault seed prepared =
     op_then (commit_prepared env fault seed (piu_projected prepared) ''invite user'' (piu_expected_vault_bytes prepared)
       (piu_expected_ratchet_bytes prepared)) (\<lambda>_. op_ok (piu_output prepared))"

definition invite_user ::
  "SecretsEnv \<Rightarrow> (nat \<Rightarrow> nat \<Rightarrow> Draws) \<Rightarrow> (nat \<Rightarrow> IdSeed) \<Rightarrow> Bytes \<Rightarrow> TestFaultPoint option \<Rightarrow> Bytes \<Rightarrow> Identity \<Rightarrow> string option
     \<Rightarrow> GrantPermissionV1 list \<Rightarrow> InviteUserOutput SessionOp" where
  "invite_user env draws seeds drawn fault seed identity handle permissions =
     op_then (prepare_invite_user env draws seeds drawn identity handle permissions) (commit_invite_user (sec_store env) fault seed)"

section \<open>Claiming\<close>

record 'r ClaimInviteOutput =
  cio_user_id :: UserId
  cio_trusted_root :: HashValue
  cio_stored :: 'r
  cio_report :: ValidationReport
  cio_rollback_protected :: bool

definition seed_ratchet_from_baseline :: "HashValue \<Rightarrow> RatchetBaselineV1 \<Rightarrow> Ratchet" where
  "seed_ratchet_from_baseline root baseline = fold absorb_record (baseline_records baseline) (ratchet_new root)"

definition seed_ratchet_from_optional_baseline :: "HashValue \<Rightarrow> RatchetBaselineV1 option \<Rightarrow> Ratchet" where
  "seed_ratchet_from_optional_baseline root baseline =
     (case baseline of Some b \<Rightarrow> seed_ratchet_from_baseline root b | None \<Rightarrow> ratchet_new root)"

text \<open>What both ways of claiming check of a vault under a seeded ratchet, and what they store.\<close>

definition accept_vault :: "StoreEnv \<Rightarrow> WorkspacePaths \<Rightarrow> UserId \<Rightarrow> VaultStore \<Rightarrow> Ratchet \<Rightarrow> ValidationReport Op" where
  "accept_vault env paths user vault ratchet =
     op_then (op_read (\<lambda>_. map_err OpsError.Core (validate_vault (env_crypto env) vault ratchet))) (\<lambda>report.
     if has_suspected_rollback report then op_err ClaimRolledBack
     else op_then (op_read (\<lambda>_. ensure_no_issues report)) (\<lambda>_.
     if \<not> bt_contains_key (es_users (vrep_effective report)) user then op_err (ClaimNotAMember user)
     else op_then (op_store (write_ratchet_atomic env paths (apply_update (vrep_ratchet_update report) ratchet))) (\<lambda>_.
       op_ok report)))"

definition claim_invite_with_keychain ::
  "StoreEnv \<Rightarrow> Primitives \<Rightarrow> (HashValue \<Rightarrow> Identity \<Rightarrow> OpsError + 'r) \<Rightarrow> WorkspacePaths \<Rightarrow> InvitationMaterial
     \<Rightarrow> 'r ClaimInviteOutput Op" where
  "claim_invite_with_keychain env prims save_identity paths invitation =
     op_then (op_read (\<lambda>_. map_err OpsError.Crypto (from_master_seed prims (env_crypto env) (im_master_seed invitation)))) (\<lambda>identity.
     op_then (op_read (\<lambda>d. map_err Store (read_vault env d paths))) (\<lambda>vault.
     op_then (op_read (\<lambda>_. trusted_root_candidate (env_crypto env) vault)) (\<lambda>root.
     if im_trusted_root invitation \<noteq> root then op_err InviteRootMismatch
     else op_then (op_read (ensure_no_pending_transaction_locked env paths root)) (\<lambda>_.
     op_then (op_read (\<lambda>d. map_err Store (read_ratchet_for_root env d paths root))) (\<lambda>existing.
     let rollback_protected = existing \<noteq> None \<or> has_rollback_baseline invitation;
         ratchet = (case existing of Some r \<Rightarrow> r | None \<Rightarrow> seed_ratchet_from_optional_baseline root (im_rollback_baseline invitation)) in
     op_then (accept_vault env paths (identity_user identity) vault ratchet) (\<lambda>report.
     op_then (op_read (\<lambda>_. save_identity root identity)) (\<lambda>stored.
       op_ok \<lparr>cio_user_id = identity_user identity, cio_trusted_root = root, cio_stored = stored, cio_report = report,
         cio_rollback_protected = rollback_protected\<rparr>)))))))"

definition ensure_ratchet_from_invite ::
  "StoreEnv \<Rightarrow> Primitives \<Rightarrow> WorkspacePaths \<Rightarrow> InvitationMaterial \<Rightarrow> unit Op" where
  "ensure_ratchet_from_invite env prims paths invitation =
     op_then (op_read (\<lambda>_. map_err OpsError.Crypto (from_master_seed prims (env_crypto env) (im_master_seed invitation)))) (\<lambda>identity.
     op_then (op_read (\<lambda>d. map_err Store (read_vault env d paths))) (\<lambda>vault.
     op_then (op_read (\<lambda>_. trusted_root_candidate (env_crypto env) vault)) (\<lambda>root.
     if im_trusted_root invitation \<noteq> root then op_err InviteRootMismatch
     else op_then (op_read (ensure_no_pending_transaction_locked env paths root)) (\<lambda>_.
     op_then (op_read (\<lambda>d. map_err Store (read_ratchet_for_root env d paths root))) (\<lambda>existing.
     if existing \<noteq> None then op_ok ()
     else case im_rollback_baseline invitation of
         None \<Rightarrow> op_err InviteRollbackBaselineRequired
       | Some baseline \<Rightarrow>
           op_then (accept_vault env paths (identity_user identity) vault (seed_ratchet_from_baseline root baseline)) (\<lambda>_.
             op_ok ()))))))"

section \<open>Working on a copy\<close>

named_theorems in_memory_intros \<open>operations that stay on a prepared session\<close>

definition in_memory :: "'a SessionOp \<Rightarrow> bool" where
  "in_memory m \<longleftrightarrow> (\<forall>s d res s' d'. ls_persistence s = Prepared \<longrightarrow> m (s, d) = (res, (s', d')) \<longrightarrow>
     d' = d \<and> ls_persistence s' = Prepared)"

lemma in_memory_read [in_memory_intros]: "in_memory (op_read g)"
  by (auto simp: in_memory_def op_read_def)

lemma in_memory_ok [in_memory_intros]: "in_memory (op_ok x)"
  by (auto simp: in_memory_def op_ok_def)

lemma in_memory_self [in_memory_intros]: "in_memory self_get"
  unfolding self_get_def by (rule in_memory_read)

lemma in_memory_then [in_memory_intros]: "in_memory m \<Longrightarrow> (\<And>x. in_memory (f x)) \<Longrightarrow> in_memory (op_then m f)"
  unfolding in_memory_def by (clarify, erule op_then_cases) (metis surj_pair)+

lemma in_memory_if [in_memory_intros]: "in_memory m \<Longrightarrow> in_memory m' \<Longrightarrow> in_memory (if c then m else m')"
  by simp

lemma in_memory_option [in_memory_intros]:
  "in_memory m \<Longrightarrow> (\<And>x. in_memory (f x)) \<Longrightarrow> in_memory (case o' of None \<Rightarrow> m | Some x \<Rightarrow> f x)"
  by (cases o') auto

lemma in_memory_prod [in_memory_intros]: "(\<And>x y. in_memory (f x y)) \<Longrightarrow> in_memory (case p of (x, y) \<Rightarrow> f x y)"
  by (cases p) auto

lemma in_memory_commit [in_memory_intros]: "in_memory (commit env fault seed update check)"
  unfolding in_memory_def commit_def apply_prepared_mutation_def
  by (auto simp: session_simps op_ok_def split: sum.splits)

lemma in_memory_commit_record [in_memory_intros]: "in_memory (commit_record env fault seed build is_effective)"
  unfolding commit_record_def by (intro in_memory_intros)

lemma in_memory_locked [in_memory_intros]:
  "in_memory (locked_add_user env draws admin user)"
  "in_memory (locked_set_user_handle env draws admin h u)"
  "in_memory (locked_grant_permission env draws admin subject permission sd)"
  "in_memory (converge_readers senv drawn identity)"
  unfolding locked_add_user_def locked_set_user_handle_def locked_grant_permission_def converge_readers_def Let_def
  by (intro in_memory_intros)+

lemma in_memory_grants [in_memory_intros]: "in_memory (grant_all env draws seeds admin user i permissions)"
  by (induction permissions arbitrary: i) (auto intro!: in_memory_intros)

lemma in_memory_project: "in_memory (project_invite env draws seeds identity invited handle permissions)"
  unfolding project_invite_def Let_def by (intro in_memory_intros)

lemma on_copy_cases:
  assumes "on_copy m (s, d) = (res, st)" and "in_memory m"
  shows "st = (s, d)" and "res = Inr (x, p) \<Longrightarrow> m (prepared_clone s, d) = (Inr x, (p, d))"
proof -
  obtain r p' d1 where m: "m (prepared_clone s, d) = (r, (p', d1))" by (metis surj_pair)
  then have "d1 = d"
    using assms(2) [unfolded in_memory_def, rule_format, OF _ m] by (simp add: prepared_clone_def)
  with m assms(1) show "st = (s, d)" and "res = Inr (x, p) \<Longrightarrow> m (prepared_clone s, d) = (Inr x, (p, d))"
    by (auto simp: on_copy_def split: sum.splits)
qed

text \<open>What a preparation returns: the images it expects, and an invitation with the issuer's memory.\<close>

definition invited_by :: "SecretsEnv \<Rightarrow> Bytes \<Rightarrow> LockedSession \<Rightarrow> PreparedInviteUser \<Rightarrow> bool" where
  "invited_by env drawn s prepared \<longleftrightarrow>
     (\<exists>invited er. generate_identity (sec_prims env) (sec_crypto env) drawn = Inr invited
      \<and> encode_ratchet (sec_store env) (ls_ratchet s) = Inr er
      \<and> piu_expected_vault_bytes prepared = ls_vault_bytes s \<and> piu_expected_ratchet_bytes prepared = er
      \<and> iuo_user_id (piu_output prepared) = identity_user invited
      \<and> piu_invite prepared = \<lparr>im_master_seed = identity_master_seed invited, im_trusted_root = trusted_root (ls_ratchet s),
             im_rollback_baseline = Some (rollback_baseline_of (ls_ratchet s))\<rparr>)"

lemma prepare_invite_outcome:
  assumes "prepare_invite_user env draws seeds drawn identity handle permissions (s, d) = (res, st)"
  shows "st = (s, d) \<and> (\<forall>prepared. res = Inr prepared \<longrightarrow> invited_by env drawn s prepared)"
proof (cases "\<exists>h er invited. ensure_administer (effective s) (identity_user identity) = Inr ()
      \<and> ensure_all_creatable (effective s) (identity_user identity) permissions = Inr ()
      \<and> (case handle of None \<Rightarrow> Inr None | Some h \<Rightarrow> map_sum id Some (normalize_user_handle h)) = Inr h
      \<and> encode_ratchet (sec_store env) (ls_ratchet s) = Inr er
      \<and> generate_identity (sec_prims env) (sec_crypto env) drawn = Inr invited")
  case False
  then show ?thesis
    using assms by (auto simp: prepare_invite_user_def self_get_then split: sum.splits)
next
  case True
  then obtain h er invited where ok: "ensure_administer (effective s) (identity_user identity) = Inr ()"
    "ensure_all_creatable (effective s) (identity_user identity) permissions = Inr ()"
    "(case handle of None \<Rightarrow> Inr None | Some h \<Rightarrow> map_sum id Some (normalize_user_handle h)) = Inr h"
    "encode_ratchet (sec_store env) (ls_ratchet s) = Inr er"
    "generate_identity (sec_prims env) (sec_crypto env) drawn = Inr invited" by blast
  obtain res1 st1 where copy: "on_copy (project_invite env draws seeds identity invited h permissions) (s, d) = (res1, st1)"
    by (metis surj_pair)
  have "st1 = (s, d)" by (rule on_copy_cases(1) [OF copy in_memory_project])
  with assms ok copy show ?thesis
    by (cases res1) (auto simp: prepare_invite_user_def self_get_then op_then_def [of "on_copy _"] op_ok_def piu_invite_def invited_by_def
        split: prod.splits)
qed

section \<open>Claiming what was issued\<close>

lemma baseline_seeds_memory:
  assumes "ratchet_wf r"
  shows "seed_ratchet_from_baseline (trusted_root r) (rollback_baseline_of r) = r\<lparr>unknown_records := []\<rparr>"
proof -
  let ?root = "RatchetRecordV1.TrustedRoot \<lparr>trr_trusted_root = trusted_root r\<rparr>"
  have "x \<in> set (baseline_records (rollback_baseline_of r) @ [?root]) \<longleftrightarrow> x \<in> set (to_records r)" for x
    using to_records_root [of _ r] by (cases x) (auto simp: rollback_baseline_of_def)
  then have "set (baseline_records (rollback_baseline_of r) @ [?root]) = set (to_records r)" by (rule set_eqI)
  from absorb_restores [OF assms this] show ?thesis
    by (simp add: seed_ratchet_from_baseline_def)
qed

text \<open>A report without suspicion: the vault shows what the ratchet remembers.\<close>

lemma unsuspected_vault_is_current:
  assumes valid: "validate_vault crypto vault r = Inr report" and clean: "vrep_issues report = []" "\<not> has_suspected_rollback report"
    and wf: "bt_wf (watermarks r)" and c: "bt_get (watermarks r) k = Some c" "0 < c"
  shows "\<exists>w \<in> set (es_verified_records (vrep_effective report)). vr_key w = k \<and> c \<le> counter_of w"
proof (rule ccontr)
  assume none: "\<not> ?thesis"
  obtain v1 where v1: "vault = VaultStore.V1 v1" by (cases vault)
  obtain rep where rep: "validate_v1 crypto r {} v1 = Inr rep" "vrep_effective report = vrep_effective rep" "vrep_issues report = vrep_issues rep"
    using valid clean by (auto simp: validate_vault_def validate_vault_with_verified_def Let_def v1 and_then_Inr_iff split: if_splits)
  from rep(1) show False
  proof (cases rule: validate_v1_cases)
    case no_root
    with rep(3) clean(1) show False by auto
  next
    case (root hrs root kr v eff upd iss)
    obtain wm rb eff0 where parts: "settled_rollbacks crypto r root (verified_list v) = (wm, rb, eff0)"
      by (metis prod_cases3)
    obtain st d where wm: "wm = admitted_watermarks (verified_list v) st d"
      using settle_v1_parts(6) [OF root(5) parts] by blast
    have "counter_of w < c" if "w \<in> set (verified_list v)" "vr_key w = k" for w
      using none that rep(2) root(6) settled_frames(11) [OF root(5) parts] by (auto simp: not_le)
    then have "bt_get rb k = Some c"
      using settle_v1_parts(4) [OF root(5) parts] rollback_keys_get [OF wf] c watermark_below [of "verified_list v" k c] wm by simp
    then have "bt_get (es_conflicted eff) k = Some (rollback_report crypto r (verified_list v) wm k c)"
      by (rule rollback_report_get [OF root(5) parts])
    then have "rollback_report crypto r (verified_list v) wm k c \<in> set (bt_values (es_conflicted eff))"
      by (auto simp: bt_get_def dest!: map_of_SomeD intro: rev_image_eqI)
    moreover have "cr_kind (rollback_report crypto r (verified_list v) wm k c) = Rollback c"
      by (simp add: rollback_report_def Let_def)
    ultimately show False
      using clean(2) rep(2) root(6) by (force simp: has_suspected_rollback_def list_ex_iff)
  qed
qed

lemma raise_grows: "watermark_level r k \<le> watermark_level (raise_watermark k' c r) k"
  by (auto simp: watermark_level_def raise_watermark_def bt_entry_def bt.get_insert split: option.splits)

lemma update_grows: "ratchet_level r k \<le> ratchet_level (apply_update u r) k"
proof (cases k)
  case (Some k')
  have "watermark_level r k' \<le> watermark_level (fold (\<lambda>(k, c). raise_watermark k c) ps r) k'" for ps
    by (induction ps arbitrary: r) (auto intro: order_trans [OF raise_grows])
  with Some show ?thesis
    by (simp add: ratchet_level_def watermark_level_def apply_update_fields)
qed (simp add: ratchet_level_def apply_update_fields)

lemma accept_vault_Inr:
  assumes "accept_vault env paths user vault r d = (Inr report, d')"
  shows "validate_vault (env_crypto env) vault r = Inr report" and "\<not> has_suspected_rollback report" and "vrep_issues report = []"
    and "bt_contains_key (es_users (vrep_effective report)) user"
    and "write_ratchet_atomic env paths (apply_update (vrep_ratchet_update report) r) d = (Inr (), d')"
proof -
  obtain report0 where "validate_vault (env_crypto env) vault r = Inr report0"
    using assms by (auto simp: accept_vault_def split: sum.splits)
  with assms show "validate_vault (env_crypto env) vault r = Inr report" "\<not> has_suspected_rollback report" "vrep_issues report = []"
    "bt_contains_key (es_users (vrep_effective report)) user"
    "write_ratchet_atomic env paths (apply_update (vrep_ratchet_update report) r) d = (Inr (), d')"
    by (auto simp: accept_vault_def op_err_def op_ok_def ensure_no_issues_def op_store_then split: if_splits prod.splits sum.splits)
qed


lemma commit_prepared_effect:
  assumes sep: "separate (ls_paths s) (session_root s)"
    and run: "commit_prepared env fault seed prepared operation ev er (s, d) = (res, (s', d'))"
  shows "s' = s \<and> (\<exists>e. res = Inl e) \<and> (d' = d \<or> d' (transaction_path (ls_paths s) (session_root s)) \<noteq> None
      \<and> (\<forall>path. path \<notin> {vault_path (ls_paths s), ratchet_path (ls_paths s) (session_root s), transaction_path (ls_paths s) (session_root s)}
           \<longrightarrow> d' path = d path))
    \<or> res = Inr () \<and> session_root s = session_root prepared \<and> ls_vault_bytes s = ev \<and> encode_ratchet env (ls_ratchet s) = Inr er
      \<and> d (vault_path (ls_paths s)) = Some ev \<and> d (ratchet_path (ls_paths s) (session_root s)) = Some er
      \<and> s' = prepared\<lparr>ls_persistence := Live\<rparr>
      \<and> (\<exists>nr. encode_ratchet env (ls_ratchet prepared) = Inr nr
           \<and> d' = after_images (ls_paths s) (session_root s) (ls_vault_bytes prepared) nr d)"
proof (cases "ls_persistence prepared = Prepared \<and> session_root prepared = session_root s \<and> ls_vault_bytes s = ev
    \<and> encode_ratchet env (ls_ratchet s) = Inr er \<and> ensure_no_pending_transaction_locked env (ls_paths s) (session_root s) d = Inr ()
    \<and> (\<exists>nr. encode_ratchet env (ls_ratchet prepared) = Inr nr)")
  case False
  then have "s' = s \<and> (\<exists>e. res = Inl e) \<and> d' = d"
    using run by (auto simp: commit_prepared_def session_simps Let_def op_err_def split: sum.splits if_splits) metis
  then show ?thesis by blast
next
  case True
  then obtain nr where nr: "encode_ratchet env (ls_ratchet prepared) = Inr nr" by blast
  obtain out d1 where out: "commit_after_images_locked env fault seed (ls_paths s) (session_root s) operation ev er
      (ls_vault_bytes prepared) nr d = (out, d1)" by (metis surj_pair)
  have eq: "res = out \<and> d' = d1 \<and> s' = (case out of Inl _ \<Rightarrow> s | Inr _ \<Rightarrow> prepared\<lparr>ls_persistence := Live\<rparr>)"
    using run True nr out by (cases out) (auto simp: commit_prepared_def session_simps Let_def on_disk_then op_read_def [of "ensure_no_pending_transaction_locked _ _ _"] on_self_def)
  show ?thesis
    using commit_after_images_effect [OF sep out] eq True nr by auto
qed

lemma prepare_authority:
  assumes "prepare_invite_user env draws seeds drawn identity handle permissions (s, d) = (Inr prepared, st)"
  shows "ensure_administer (effective s) (identity_user identity) = Inr ()"
    and "ensure_all_creatable (effective s) (identity_user identity) permissions = Inr ()"
  using assms by (auto simp: prepare_invite_user_def split: sum.splits)

lemma all_creatable: "ensure_all_creatable st user permissions = Inr () \<longleftrightarrow>
    (\<forall>p \<in> set permissions. ensure_can_create_permission st user p = Inr ())"
proof -
  have "fold (\<lambda>p acc. and_then acc (\<lambda>_. ensure_can_create_permission st user p)) permissions acc = Inr () \<longleftrightarrow>
      acc = Inr () \<and> (\<forall>p \<in> set permissions. ensure_can_create_permission st user p = Inr ())" for acc :: "OpsError + unit"
    by (induction permissions arbitrary: acc) (auto simp: and_then_Inr_iff)
  then show ?thesis by (simp add: ensure_all_creatable_def)
qed

lemma claim_Inr:
  assumes "claim_invite_with_keychain env prims save_identity paths invitation d = (Inr out, d')"
  obtains identity vault existing where "from_master_seed prims (env_crypto env) (im_master_seed invitation) = Inr identity"
    "read_vault env d paths = Inr vault" "trusted_root_candidate (env_crypto env) vault = Inr (im_trusted_root invitation)"
    "read_ratchet_for_root env d paths (im_trusted_root invitation) = Inr existing"
    "accept_vault env paths (identity_user identity) vault
       (case existing of Some r \<Rightarrow> r | None \<Rightarrow> seed_ratchet_from_optional_baseline (im_trusted_root invitation) (im_rollback_baseline invitation)) d
       = (Inr (cio_report out), d')"
    "cio_user_id out = identity_user identity" "cio_trusted_root out = im_trusted_root invitation"
    "cio_rollback_protected out \<longleftrightarrow> existing \<noteq> None \<or> has_rollback_baseline invitation"
proof -
  obtain identity vault where a: "from_master_seed prims (env_crypto env) (im_master_seed invitation) = Inr identity"
      "read_vault env d paths = Inr vault"
    using assms by (auto simp: claim_invite_with_keychain_def split: sum.splits)
  have b: "trusted_root_candidate (env_crypto env) vault = Inr (im_trusted_root invitation)"
      "ensure_no_pending_transaction_locked env paths (im_trusted_root invitation) d = Inr ()"
    using assms a by (auto simp: claim_invite_with_keychain_def op_err_def split: sum.splits if_splits)
  obtain existing where c: "read_ratchet_for_root env d paths (im_trusted_root invitation) = Inr existing"
    using assms a b by (auto simp: claim_invite_with_keychain_def split: sum.splits)
  let ?r = "case existing of Some r \<Rightarrow> r | None \<Rightarrow> seed_ratchet_from_optional_baseline (im_trusted_root invitation) (im_rollback_baseline invitation)"
  obtain report dr where acc: "accept_vault env paths (identity_user identity) vault ?r d = (report, dr)" by (metis surj_pair)
  show thesis
    using assms a b c acc
    by (intro that [OF a b(1) c]; cases report)
       (auto simp: claim_invite_with_keychain_def op_then_def [of "accept_vault _ _ _ _ _"] Let_def op_ok_def split: sum.splits)
qed

lemma write_keeps_level:
  assumes codec: "canonical_ratchet_codec (env_ratchet env)" and wf: "bt_wf (watermarks r)"
    and run: "write_ratchet_atomic env paths r d = (Inr (), d')"
  obtains b r' where "d' = d(ratchet_path paths (trusted_root r) \<mapsto> b)"
    "read_ratchet_for_root env d' paths (trusted_root r) = Inr (Some r')"
    "\<And>k. k \<noteq> Some RecordKey.VaultRoot \<Longrightarrow> ratchet_level r' k = ratchet_level r k"
proof -
  obtain b where b: "encode_ratchet env r = Inr b" "length b \<le> MAX_RATCHET_BYTES" "d' = d(ratchet_path paths (trusted_root r) \<mapsto> b)"
    using run by (auto simp: write_ratchet_atomic_def write_ratchet_bytes_ok split: sum.splits)
  with decode_encode_level [OF codec wf b(1), of "ratchet_path paths (trusted_root r)"] that show thesis
    by (auto simp: read_ratchet_Some_iff)
qed

lemma seeded_level:
  "ratchet_wf r \<Longrightarrow> ratchet_level (r\<lparr>unknown_records := []\<rparr>) k = ratchet_level r k"
  by (cases k) (simp_all add: ratchet_level_def watermark_level_def)

section \<open>An invitation to prepare and to claim\<close>

fun invite_serialize :: "CordValue \<Rightarrow> CordError + Bytes" where
  "invite_serialize (CvBody _) = Inr [2]"
| "invite_serialize (CvRecord r) =
     (case rec_body r of
        Known (RecordBodyV1.User _) \<Rightarrow> Inr [3]
      | Known (RecordBodyV1.EntryPoint _) \<Rightarrow> Inr [4]
      | Known (RecordBodyV1.Group _) \<Rightarrow> Inr [9]
      | _ \<Rightarrow> Inr [5])"
| "invite_serialize (CvUserIdInput i) = Inr (6 # take 1 (uii_signing_public_key i))"
| "invite_serialize (CvBytes b) = Inr (7 # take 1 b)"
| "invite_serialize _ = Inr [8]"

definition invite_prims :: Primitives where
  "invite_prims = sample_prims\<lparr>hkdf_expand := (\<lambda>_ _ _ _. Some (replicate 32 3)), ed25519_public := take 1,
     hpke_derive_keypair := (\<lambda>b. (take 1 b, take 1 b))\<rparr>"

definition invite_provider :: CryptoProvider where
  "invite_provider = \<lparr>cord_serialize = invite_serialize, crypto_hash = (\<lambda>domain b. HashValue
       (if domain = TRANSACTION_HASH_DOMAIN then take 32 (rev b @ replicate 32 0) else b)), verify_signature = (\<lambda>_ _ _ _. True)\<rparr>"

definition invite_admin :: Identity where
  "invite_admin = sample_identity\<lparr>identity_user := UserId (HashValue [6, 1])\<rparr>"

definition invite_vault :: VaultStore where
  "invite_vault = VaultStore.V1 \<lparr>vs_records =
     [\<lparr>rec_body = Known (RecordBodyV1.VaultRoot \<lparr>root_id = UserId (HashValue [6, 1]), root_hpke_public_key = [2]\<rparr>),
        rec_signing_public_key = [1], rec_signature = []\<rparr>,
      \<lparr>rec_body = Known (RecordBodyV1.Group \<lparr>group_id = GroupId (HashValue [8]), group_seed = IdSeed [], group_handle = ''ops'', group_counter = 1\<rparr>),
        rec_signing_public_key = [1], rec_signature = []\<rparr>]\<rparr>"

definition invite_after :: VaultStore where
  "invite_after = append_record (append_record invite_vault
     \<lparr>rec_body = Known (RecordBodyV1.User \<lparr>user_id = UserId (HashValue [6, 3]), user_signing_public_key = [3],
        user_hpke_public_key = [3], user_counter = 2\<rparr>), rec_signing_public_key = [1], rec_signature = [1]\<rparr>)
     \<lparr>rec_body = Known (RecordBodyV1.EntryPoint \<lparr>ep_trusted_root_user_id = UserId (HashValue [6, 1]), ep_hpke_public_key = [3], ep_counter = 2\<rparr>),
        rec_signing_public_key = [3], rec_signature = [1]\<rparr>"

definition invite_ratchet :: Ratchet where
  "invite_ratchet = \<lparr>trusted_root = HashValue [7, 1], watermarks = [(RecordKey.Group (GroupId (HashValue [8])), 1)], origins = [],
     ratchet_format_version = 1, unknown_records = []\<rparr>"

definition invite_ratchet_after :: Ratchet where
  "invite_ratchet_after = invite_ratchet\<lparr>watermarks := [(RecordKey.EntryPoint (UserId (HashValue [6, 3])), 2),
     (RecordKey.User (UserId (HashValue [6, 3])), 2), (RecordKey.Group (GroupId (HashValue [8])), 1)]\<rparr>"

definition invite_tx :: TransactionV1 where
  "invite_tx = new_transaction invite_provider (replicate 32 0) (HashValue [7, 1]) (Unix (str_bytes ''/w/.thorax/vault.cord''))
     ''invite user'' (VAULT_MAGIC @ [1]) (RATCHET_MAGIC @ [9]) (VAULT_MAGIC @ [2]) (RATCHET_MAGIC @ [8])"

definition invite_env :: SecretsEnv where
  "invite_env = sample_secrets_env\<lparr>sec_prims := invite_prims, sec_store := sample_tx_env\<lparr>env_crypto := invite_provider,
     env_vault := \<lparr>cord_ser = (\<lambda>v. Inr (if length (vault_records_of v) = 2 then [1] else [2])),
       cord_de = (\<lambda>b. Inr (if b = [1] then invite_vault else invite_after))\<rparr>,
     env_ratchet := two_ratchets (ratchet_store_of invite_ratchet) (ratchet_store_of invite_ratchet_after),
     env_transaction := single_codec (TransactionStore.V1 invite_tx)\<rparr>\<rparr>"

definition invite_session :: "ValidationReport \<Rightarrow> LockedSession" where
  "invite_session report = (sample_session report)\<lparr>ls_vault := invite_vault, ls_ratchet := invite_ratchet\<rparr>"

definition invite_disk :: Disk where
  "invite_disk = [vault_path sample_paths \<mapsto> VAULT_MAGIC @ [1], ratchet_path sample_paths (HashValue [7, 1]) \<mapsto> RATCHET_MAGIC @ [9]]"

definition invite_fresh_disk :: Disk where
  "invite_fresh_disk = [vault_path sample_paths \<mapsto> VAULT_MAGIC @ [2]]"

definition invite_guest :: Identity where
  "invite_guest = \<lparr>identity_user = UserId (HashValue [6, 3]), identity_keys = \<lparr>keys_signing = \<lparr>signing_secret = replicate 32 3\<rparr>,
       keys_hpke = \<lparr>hpke_private_key = [3], hpke_public_key_bytes = [3]\<rparr>\<rparr>,
     identity_signing_public_key = [3], identity_hpke_public_key = [3], identity_master_seed = replicate 32 0\<rparr>"

definition invite_update :: "UserId Update" where
  "invite_update = (\<lambda>vault report.
     let counter = next_counter (vrep_effective report) in
     and_then (map_err Hazmat (user_record invite_provider (identity_signer invite_prims invite_admin) [3] [3] counter)) (\<lambda>added.
     case es_root_user_id (vrep_effective report) of
       None \<Rightarrow> Inl MissingEffectiveRoot
     | Some root_user \<Rightarrow>
         and_then (map_err Hazmat (entry_point_record invite_provider (identity_signer invite_prims invite_guest) root_user counter)) (\<lambda>entry.
           Inr (UserId (HashValue [6, 3]), append_record (append_record vault added) entry))))"

definition invite_check :: "UserId Check" where
  "invite_check = (\<lambda>uid report. effective_or ''user is not active''
     (case bt_get (es_users (vrep_effective report)) uid of
        None \<Rightarrow> False
      | Some r \<Rightarrow> user_id r = uid \<and> user_signing_public_key r = [3] \<and> user_hpke_public_key r = [3]))"

lemma invite_env_simps [simp]:
  "sec_prims invite_env = invite_prims" "env_crypto (sec_store invite_env) = invite_provider"
  "env_transaction (sec_store invite_env) = single_codec (TransactionStore.V1 invite_tx)"
  "env_ratchet (sec_store invite_env) = two_ratchets (ratchet_store_of invite_ratchet) (ratchet_store_of invite_ratchet_after)"
  "trusted_root invite_ratchet = HashValue [7, 1]" "trusted_root invite_ratchet_after = HashValue [7, 1]"
  by (simp_all add: invite_env_def invite_ratchet_def invite_ratchet_after_def)

lemma invite_facts:
  "case validate_vault invite_provider invite_vault invite_ratchet of
     Inl _ \<Rightarrow> False
   | Inr report \<Rightarrow> vrep_issues report = [] \<and> ensure_administer (vrep_effective report) (identity_user invite_admin) = Inr ()
       \<and> (case successor (sec_store invite_env) invite_update invite_check (invite_session report) of
            Inl _ \<Rightarrow> False
          | Inr nx \<Rightarrow> suc_vault nx = invite_after \<and> suc_ratchet nx = invite_ratchet_after)"
  by code_simp

lemma invite_claimed:
  "case validate_vault invite_provider invite_after invite_ratchet of
     Inl _ \<Rightarrow> False
   | Inr report \<Rightarrow> vrep_issues report = [] \<and> \<not> has_suspected_rollback report
       \<and> bt_contains_key (es_users (vrep_effective report)) (UserId (HashValue [6, 3]))
       \<and> apply_update (vrep_ratchet_update report) invite_ratchet = invite_ratchet_after"
  by code_simp

lemma invite_identities:
  "from_master_seed invite_prims invite_provider (replicate 32 0) = Inr invite_guest"
  "ensure_identity_consistent invite_provider (identity_signer invite_prims invite_admin) = Inr (UserId (HashValue [6, 1]))"
  "ensure_identity_consistent invite_provider (identity_signer invite_prims invite_guest) = Inr (UserId (HashValue [6, 3]))"
  "trusted_root_candidate invite_provider invite_after = Inr (HashValue [7, 1])"
  by code_simp+

lemma invite_ratchets:
  "encode_ratchet (sec_store invite_env) invite_ratchet = Inr (RATCHET_MAGIC @ [9])"
  "encode_ratchet (sec_store invite_env) invite_ratchet_after = Inr (RATCHET_MAGIC @ [8])"
  "decode_ratchet (sec_store invite_env) path (RATCHET_MAGIC @ [8]) = Inr invite_ratchet_after"
proof -
  have "into_ratchet (ratchet_store_of invite_ratchet_after) = Some invite_ratchet_after" by code_simp
  then show "decode_ratchet (sec_store invite_env) path (RATCHET_MAGIC @ [8]) = Inr invite_ratchet_after"
    by (simp add: decode_ratchet_def strip_prefix_def two_ratchets_def)
  have "\<not> same_store (ratchet_store_of invite_ratchet_after) (ratchet_store_of invite_ratchet)" by code_simp
  then show "encode_ratchet (sec_store invite_env) invite_ratchet = Inr (RATCHET_MAGIC @ [9])"
    "encode_ratchet (sec_store invite_env) invite_ratchet_after = Inr (RATCHET_MAGIC @ [8])"
    by (simp_all add: encode_ratchet_def two_ratchets_def ratchet_store_of_def)
qed

lemma invite_vaults:
  "encode_vault (env_vault (sec_store invite_env)) invite_after = Inr (VAULT_MAGIC @ [2])"
  "decode_vault (env_vault (sec_store invite_env)) (VAULT_MAGIC @ [2]) = Inr invite_after"
proof -
  have "length (vault_records_of invite_after) = 4" by code_simp
  then obtain v where v: "invite_after = VaultStore.V1 v" "length (vs_records v) = 4" by (metis VaultStore.case VaultStore.exhaust)
  show "encode_vault (env_vault (sec_store invite_env)) invite_after = Inr (VAULT_MAGIC @ [2])"
    "decode_vault (env_vault (sec_store invite_env)) (VAULT_MAGIC @ [2]) = Inr invite_after"
    using sample_lengths(1) [of 2]
    by (simp_all add: v encode_vault_accepts MAX_VAULT_RECORDS_def invite_env_def decode_vault_def decode_vault_with_limits_def strip_prefix_def
        del: append.simps)
qed

definition invite_projected :: "ValidationReport \<Rightarrow> ValidationReport \<Rightarrow> LockedSession" where
  "invite_projected report report' = (prepared_clone (invite_session report))\<lparr>ls_vault_bytes := VAULT_MAGIC @ [2],
     ls_vault := invite_after, ls_ratchet := invite_ratchet_after, ls_report := report'\<rparr>"

abbreviation invite_prepare :: "PreparedInviteUser SessionOp" where
  "invite_prepare \<equiv> prepare_invite_user invite_env (\<lambda>_ _. sample_draws) (\<lambda>_. IdSeed []) (replicate 32 0) invite_admin None []"

lemma invite_prepared:
  "\<exists>report report' prepared. invite_prepare (invite_session report, d) = (Inr prepared, (invite_session report, d))
     \<and> piu_projected prepared = invite_projected report report' \<and> piu_expected_vault_bytes prepared = VAULT_MAGIC @ [1]
     \<and> piu_expected_ratchet_bytes prepared = RATCHET_MAGIC @ [9] \<and> iuo_user_id (piu_output prepared) = UserId (HashValue [6, 3])
     \<and> piu_invite prepared = \<lparr>im_master_seed = replicate 32 0, im_trusted_root = HashValue [7, 1],
         im_rollback_baseline = Some (rollback_baseline_of invite_ratchet)\<rparr>"
proof -
  obtain report nx where report: "vrep_issues report = []" "ensure_administer (vrep_effective report) (UserId (HashValue [6, 1])) = Inr ()"
    and nx: "successor (sec_store invite_env) invite_update invite_check (invite_session report) = Inr nx"
      "suc_vault nx = invite_after" "suc_ratchet nx = invite_ratchet_after"
    using invite_facts by (auto simp: invite_admin_def split: sum.splits)
  let ?s = "invite_session report"
  have s: "effective ?s = vrep_effective report" "ls_ratchet ?s = invite_ratchet" "ls_vault_bytes ?s = VAULT_MAGIC @ [1]"
    by (simp_all add: invite_session_def sample_session_def effective_def)
  have "successor (sec_store invite_env) invite_update invite_check (prepared_clone ?s) = Inr nx"
    using nx(1) by (simp add: successor_def prepared_clone_def effective_def)
  with nx(2,3) have "commit (sec_store invite_env) None [] invite_update invite_check (prepared_clone ?s, d) =
      (Inr (suc_output nx), (invite_projected report (suc_report nx), d))"
    using prepared_commit [of "prepared_clone ?s" "sec_store invite_env" invite_update invite_check nx "VAULT_MAGIC @ [2]" None "[]" d]
      invite_vaults(1) report(1)
    by (simp add: invite_projected_def prepared_clone_def) (simp add: invite_session_def sample_session_def)
  moreover have "signer_signing_public_key (identity_signer invite_prims invite_guest) = [3]"
    "signer_hpke_public_key (identity_signer invite_prims invite_guest) = [3]"
    by (simp_all add: identity_signer_def invite_guest_def)
  ultimately have add: "locked_add_user (sec_store invite_env) sample_draws (identity_signer invite_prims invite_admin)
      (identity_signer invite_prims invite_guest) (prepared_clone ?s, d) = (Inr (suc_output nx), (invite_projected report (suc_report nx), d))"
    using invite_identities
    by (simp add: locked_add_user_def Let_def invite_update_def invite_check_def sample_draws_def cong: option.case_cong)
  have "on_copy (project_invite invite_env (\<lambda>_ _. sample_draws) (\<lambda>_. IdSeed []) invite_admin invite_guest None []) (?s, d) =
      (Inr ((None, [], \<lparr>encrypted = [], needs_rotation = []\<rparr>), invite_projected report (suc_report nx)), (?s, d))"
    by (simp add: on_copy_def project_invite_def Let_def op_then_def add op_ok_def)
  then show ?thesis
    using report(2) s invite_ratchets(1) invite_identities(1)
    by (intro exI [of _ report] exI [of _ "suc_report nx"])
      (simp add: prepare_invite_user_def ensure_all_creatable_def self_get_then op_then_def [of "on_copy _"] op_ok_def piu_invite_def
        generate_identity_def invite_admin_def, simp add: invite_guest_def)
qed

lemma invite_commits:
  assumes "piu_projected prepared = invite_projected report report'" "piu_expected_vault_bytes prepared = VAULT_MAGIC @ [1]"
    "piu_expected_ratchet_bytes prepared = RATCHET_MAGIC @ [9]"
  shows "\<exists>s' d'. commit_invite_user (sec_store invite_env) None (replicate 32 0) prepared (invite_session report, invite_disk) =
    (Inr (piu_output prepared), (s', d'))"
proof -
  let ?env = "sec_store invite_env" and ?root = "HashValue [7, 1]"
  have "native_canonical ?env (vault_path sample_paths) = Inr (Unix (str_bytes ''/w/.thorax/vault.cord''))"
    using sample_origin by (simp add: native_canonical_def invite_env_def)
  moreover have "validate_transaction ?env sample_paths invite_tx = Inr invite_ratchet_after"
    using invite_identities(4)
    by (simp add: validate_transaction_def invite_tx_def new_transaction_def invite_vaults invite_ratchets del: trusted_root_candidate.simps)
  moreover have "validate_shape TRANSACTION_FILE invite_tx = Inr ()"
    using sample_lengths
    by (simp add: validate_shape_def TRANSACTION_ID_BYTES_def MAX_TRANSACTION_OPERATION_BYTES_def file_hash_def invite_provider_def
        invite_tx_def new_transaction_def TRANSACTION_HASH_DOMAIN_def min_def)
  then have "encode_transaction ?env invite_tx = Inr (TRANSACTION_MAGIC @ [9])"
    by (simp add: encode_transaction_def single_codec_def MAX_TRANSACTION_BYTES_def MAX_VAULT_BYTES_def TRANSACTION_MAGIC_def str_bytes_def)
  ultimately have ready: "commit_ready ?env (replicate 32 0) sample_paths ?root ''invite user''
     (VAULT_MAGIC @ [1]) (RATCHET_MAGIC @ [9]) (VAULT_MAGIC @ [2]) (RATCHET_MAGIC @ [8]) invite_disk"
    using sample_separate [of ?root] sample_lengths
    by (auto simp: commit_ready_def invite_disk_def separate_def invite_tx_def)
  have "commit_after_images_locked ?env None (replicate 32 0) sample_paths ?root ''invite user''
     (VAULT_MAGIC @ [1]) (RATCHET_MAGIC @ [9]) (VAULT_MAGIC @ [2]) (RATCHET_MAGIC @ [8]) invite_disk =
     (Inr (), after_images sample_paths ?root (VAULT_MAGIC @ [2]) (RATCHET_MAGIC @ [8]) invite_disk)"
    using commit_atomic [of sample_paths ?root "\<lparr>ops_store = ?env, ops_join_commit = no_codec\<rparr>"
        "VAULT_MAGIC @ [1]" "VAULT_MAGIC @ [2]" "RATCHET_MAGIC @ [9]" "RATCHET_MAGIC @ [8]" "replicate 32 0" "''invite user''"
        invite_disk, OF sample_separate]
      ready single_codec_faithful [of "TransactionStore.V1 invite_tx"] by (simp add: file_hash_def invite_provider_def)
  moreover have "ensure_no_pending_transaction_locked ?env sample_paths ?root invite_disk = Inr ()"
    using sample_separate [of ?root] by (auto simp: no_pending_iff invite_disk_def separate_def)
  moreover have "ls_paths (invite_session report) = sample_paths" "session_root (invite_session report) = ?root"
    "session_root (invite_projected report report') = ?root" "ls_vault_bytes (invite_session report) = VAULT_MAGIC @ [1]"
    "ls_ratchet (invite_session report) = invite_ratchet"
    by (simp_all add: invite_session_def sample_session_def session_root_def invite_projected_def prepared_clone_def)
  moreover have "ls_persistence (invite_projected report report') = Prepared" "ls_ratchet (invite_projected report report') = invite_ratchet_after"
    "ls_vault_bytes (invite_projected report report') = VAULT_MAGIC @ [2]"
    by (simp_all add: invite_projected_def prepared_clone_def)
  ultimately show ?thesis
    using assms invite_ratchets
    by (simp add: commit_invite_user_def commit_prepared_def op_then_def [of "op_then _ _"] session_simps Let_def on_disk_then
        op_read_def [of "ensure_no_pending_transaction_locked _ _ _"] on_self_def op_ok_def)
qed

lemma invite_claims:
  assumes "invitation = \<lparr>im_master_seed = replicate 32 0, im_trusted_root = HashValue [7, 1],
      im_rollback_baseline = Some (rollback_baseline_of invite_ratchet)\<rparr>"
  shows "\<exists>out d'. claim_invite_with_keychain (sec_store invite_env) invite_prims (\<lambda>_ _. Inr ()) sample_paths invitation invite_fresh_disk =
    (Inr out, d')"
    and "read_ratchet_for_root (sec_store invite_env) invite_fresh_disk sample_paths (HashValue [7, 1]) = Inr None"
proof -
  let ?env = "sec_store invite_env" and ?root = "HashValue [7, 1]"
  note apart = sample_separate [of ?root]
  obtain report where report: "validate_vault invite_provider invite_after invite_ratchet = Inr report" "vrep_issues report = []"
      "\<not> has_suspected_rollback report" "bt_contains_key (es_users (vrep_effective report)) (UserId (HashValue [6, 3]))"
      "apply_update (vrep_ratchet_update report) invite_ratchet = invite_ratchet_after"
    using invite_claimed by (auto split: sum.splits)
  have "read_vault_bytes invite_fresh_disk sample_paths = Inr (VAULT_MAGIC @ [2])"
    using sample_lengths(1) [of 2] by (auto simp: read_vault_bytes_iff invite_fresh_disk_def)
  then have vault: "read_vault ?env invite_fresh_disk sample_paths = Inr invite_after"
    by (simp add: read_vault_def invite_vaults)
  show none: "read_ratchet_for_root ?env invite_fresh_disk sample_paths ?root = Inr None"
    using apart by (auto simp: read_ratchet_for_root_def read_ratchet_at_def read_current_file_def read_file_bounded_def invite_fresh_disk_def separate_def)
  have quiet: "ensure_no_pending_transaction_locked ?env sample_paths ?root invite_fresh_disk = Inr ()"
    using apart by (auto simp: no_pending_iff invite_fresh_disk_def separate_def)
  have "ratchet_wf invite_ratchet"
    by (simp add: ratchet_wf_def invite_ratchet_def bt_wf_def bt_get_def)
  then have seed: "seed_ratchet_from_baseline ?root (rollback_baseline_of invite_ratchet) = invite_ratchet"
    using baseline_seeds_memory [of invite_ratchet] by (simp add: invite_ratchet_def)
  have "write_ratchet_atomic ?env sample_paths invite_ratchet_after invite_fresh_disk =
      (Inr (), invite_fresh_disk(ratchet_path sample_paths ?root \<mapsto> RATCHET_MAGIC @ [8]))"
    using sample_lengths(2) [of 8] by (simp add: write_ratchet_atomic_def invite_ratchets write_ratchet_bytes_ok)
  then have "accept_vault ?env sample_paths (UserId (HashValue [6, 3])) invite_after invite_ratchet invite_fresh_disk =
      (Inr report, invite_fresh_disk(ratchet_path sample_paths ?root \<mapsto> RATCHET_MAGIC @ [8]))"
    using report by (simp add: accept_vault_def ensure_no_issues_def op_store_then op_ok_def)
  then show "\<exists>out d'. claim_invite_with_keychain ?env invite_prims (\<lambda>_ _. Inr ()) sample_paths invitation invite_fresh_disk = (Inr out, d')"
    using assms vault invite_identities(1,4) quiet none seed
    by (simp add: claim_invite_with_keychain_def Let_def seed_ratchet_from_optional_baseline_def op_then_def [of "accept_vault _ _ _ _ _"]
        op_ok_def invite_guest_def del: trusted_root_candidate.simps)
qed

section \<open>Properties\<close>

text \<open>
  C19. An invitation is published whole or not at all. Preparing one leaves session and disk as they
  were and asks for administration and for the right to create every permission it gives. When its
  commit returns a value, that is the prepared output, the vault and the ratchet on the disk were
  still the ones it was prepared from, and both were replaced by those of the prepared copy, which
  the session now is. When the commit fails the session is unchanged, and either so is the disk, or
  a journal is pending from which the transaction is completed, with nothing changed beside it and
  the two files.
\<close>

theorem invitation_is_published_whole:
  assumes prep: "prepare_invite_user env draws seeds drawn identity handle permissions (s, d) = (Inr prepared, st)"
    and sep: "separate (ls_paths s1) (session_root s1)"
    and run: "commit_invite_user (sec_store env) fault seed prepared (s1, d1) = (res, (s', d'))"
  shows "st = (s, d) \<and> ensure_administer (effective s) (identity_user identity) = Inr ()
    \<and> (\<forall>p \<in> set permissions. ensure_can_create_permission (effective s) (identity_user identity) p = Inr ())
    \<and> (case res of
        Inl e \<Rightarrow> s' = s1 \<and> (d' = d1 \<or> d' (transaction_path (ls_paths s1) (session_root s1)) \<noteq> None
          \<and> (\<forall>path. path \<notin> {vault_path (ls_paths s1), ratchet_path (ls_paths s1) (session_root s1),
               transaction_path (ls_paths s1) (session_root s1)} \<longrightarrow> d' path = d1 path))
      | Inr out \<Rightarrow> out = piu_output prepared \<and> s' = (piu_projected prepared)\<lparr>ls_persistence := Live\<rparr>
          \<and> d1 (vault_path (ls_paths s1)) = Some (ls_vault_bytes s)
          \<and> map_option Inr (d1 (ratchet_path (ls_paths s1) (session_root s1))) = Some (encode_ratchet (sec_store env) (ls_ratchet s))
          \<and> (\<exists>nr. encode_ratchet (sec_store env) (ls_ratchet s') = Inr nr
               \<and> d' = after_images (ls_paths s1) (session_root s1) (ls_vault_bytes s') nr d1))"
proof -
  let ?p = "piu_projected prepared"
  have by_s: "st = (s, d)" "invited_by env drawn s prepared"
    using prepare_invite_outcome [OF prep] by auto
  have "\<exists>res0. commit_prepared (sec_store env) fault seed ?p ''invite user'' (piu_expected_vault_bytes prepared)
       (piu_expected_ratchet_bytes prepared) (s1, d1) = (res0, (s', d'))
     \<and> res = (case res0 of Inl e \<Rightarrow> Inl e | Inr _ \<Rightarrow> Inr (piu_output prepared))"
    using run unfolding commit_invite_user_def by (cases rule: op_then_cases) (auto simp: op_ok_def)
  then obtain res0 where run0: "commit_prepared (sec_store env) fault seed ?p ''invite user'' (piu_expected_vault_bytes prepared)
       (piu_expected_ratchet_bytes prepared) (s1, d1) = (res0, (s', d'))"
     and res: "res = (case res0 of Inl e \<Rightarrow> Inl e | Inr _ \<Rightarrow> Inr (piu_output prepared))" by blast
  show ?thesis
    using commit_prepared_effect [OF sep run0] by_s prepare_authority [OF prep] res
    by (auto simp: all_creatable invited_by_def)
qed

theorem invitation_is_published_whole_witness:
  "\<exists>report prepared s' d'. invite_prepare (invite_session report, invite_disk) = (Inr prepared, (invite_session report, invite_disk))
     \<and> commit_invite_user (sec_store invite_env) None (replicate 32 0) prepared (invite_session report, invite_disk) =
         (Inr (piu_output prepared), (s', d'))
     \<and> d' = after_images sample_paths (HashValue [7, 1]) (VAULT_MAGIC @ [2]) (RATCHET_MAGIC @ [8]) invite_disk"
proof -
  obtain report report' prepared where p: "invite_prepare (invite_session report, invite_disk) = (Inr prepared, (invite_session report, invite_disk))"
      "piu_projected prepared = invite_projected report report'" "piu_expected_vault_bytes prepared = VAULT_MAGIC @ [1]"
      "piu_expected_ratchet_bytes prepared = RATCHET_MAGIC @ [9]"
    using invite_prepared by metis
  obtain s' d' where run: "commit_invite_user (sec_store invite_env) None (replicate 32 0) prepared (invite_session report, invite_disk) =
         (Inr (piu_output prepared), (s', d'))"
    using invite_commits [OF p(2-4)] by blast
  have s: "ls_paths (invite_session report) = sample_paths" "session_root (invite_session report) = HashValue [7, 1]"
    by (simp_all add: invite_session_def sample_session_def session_root_def)
  have "d' = after_images sample_paths (HashValue [7, 1]) (VAULT_MAGIC @ [2]) (RATCHET_MAGIC @ [8]) invite_disk"
    using invitation_is_published_whole [OF p(1) _ run] sample_separate invite_ratchets(2) by (auto simp: s p(2) invite_projected_def)
  with p(1) run show ?thesis by blast
qed

text \<open>
  C18. An invitation carries the rollback memory of its issuer. Whoever claims a prepared invitation
  on a machine that has no ratchet for the root holds a vault with the root of the issuer, without
  issues or suspected rollbacks, in which the invited user is effective, and which shows at every
  key that the issuer has seen a verified record with a counter at least as high. Only the ratchet
  file is written, and what is read back from it remembers at least what the issuer remembers.
\<close>

theorem invitation_carries_rollback_memory:
  assumes prep: "prepare_invite_user env draws seeds drawn identity handle permissions (s, d) = (Inr prepared, st)"
    and wf: "ratchet_wf (ls_ratchet s)" and codec: "canonical_ratchet_codec (env_ratchet (sec_store env))"
    and claim: "claim_invite_with_keychain (sec_store env) (sec_prims env) save_identity paths (piu_invite prepared) d1 = (Inr out, d')"
    and fresh: "read_ratchet_for_root (sec_store env) d1 paths (session_root s) = Inr None"
  shows "cio_trusted_root out = session_root s \<and> cio_user_id out = iuo_user_id (piu_output prepared) \<and> cio_rollback_protected out
    \<and> vrep_issues (cio_report out) = [] \<and> \<not> has_suspected_rollback (cio_report out)
    \<and> bt_contains_key (es_users (vrep_effective (cio_report out))) (cio_user_id out)
    \<and> (\<forall>k c. bt_get (watermarks (ls_ratchet s)) k = Some c \<longrightarrow> 0 < c \<longrightarrow>
         (\<exists>w \<in> set (es_verified_records (vrep_effective (cio_report out))). vr_key w = k \<and> c \<le> counter_of w))
    \<and> (\<exists>b r. d' = d1(ratchet_path paths (session_root s) \<mapsto> b)
         \<and> read_ratchet_for_root (sec_store env) d' paths (session_root s) = Inr (Some r)
         \<and> (\<forall>k. ratchet_level (ls_ratchet s) k \<le> ratchet_level r k))"
proof -
  let ?r = "ls_ratchet s" and ?root = "session_root s"
  have inv: "im_trusted_root (piu_invite prepared) = ?root" "has_rollback_baseline (piu_invite prepared)"
      "seed_ratchet_from_optional_baseline ?root (im_rollback_baseline (piu_invite prepared)) = ?r\<lparr>unknown_records := []\<rparr>"
    using prepare_invite_outcome [OF prep] baseline_seeds_memory [OF wf]
    by (auto simp: invited_by_def session_root_def has_rollback_baseline_def seed_ratchet_from_optional_baseline_def)
  from claim obtain invited vault existing where c: "from_master_seed (sec_prims env) (sec_crypto env) (im_master_seed (piu_invite prepared)) = Inr invited"
    "read_ratchet_for_root (sec_store env) d1 paths ?root = Inr existing"
    "accept_vault (sec_store env) paths (identity_user invited) vault
       (case existing of Some r \<Rightarrow> r | None \<Rightarrow> ?r\<lparr>unknown_records := []\<rparr>) d1 = (Inr (cio_report out), d')"
    "cio_user_id out = identity_user invited" "cio_trusted_root out = ?root" "cio_rollback_protected out"
    by (rule claim_Inr) (auto simp: inv cong: option.case_cong)
  have user: "iuo_user_id (piu_output prepared) = identity_user invited"
    using prepare_invite_outcome [OF prep] c(1)
    by (auto simp: invited_by_def generate_identity_def from_master_seed_def and_then_Inr_iff Let_def)
  from c(3) have acc: "accept_vault (sec_store env) paths (identity_user invited) vault (?r\<lparr>unknown_records := []\<rparr>) d1 = (Inr (cio_report out), d')"
    using c(2) fresh by simp
  note got = accept_vault_Inr [OF acc]
  have seen: "\<exists>w \<in> set (es_verified_records (vrep_effective (cio_report out))). vr_key w = k \<and> c \<le> counter_of w"
    if "bt_get (watermarks ?r) k = Some c" "0 < c" for k c
    using unsuspected_vault_is_current [OF got(1,3,2), of k c] wf that by (simp add: ratchet_wf_def)
  let ?u = "apply_update (vrep_ratchet_update (cio_report out)) (?r\<lparr>unknown_records := []\<rparr>)"
  have u: "bt_wf (watermarks ?u)" "trusted_root ?u = ?root"
    unfolding apply_update_fields using wf by (auto intro!: fold_raise_wf simp: ratchet_wf_def session_root_def)
  obtain b r' where stored: "d' = d1(ratchet_path paths ?root \<mapsto> b)"
      "read_ratchet_for_root (sec_store env) d' paths ?root = Inr (Some r')"
      "\<And>k. k \<noteq> Some RecordKey.VaultRoot \<Longrightarrow> ratchet_level r' k = ratchet_level ?u k"
    by (rule write_keeps_level [OF codec u(1) got(5), unfolded u(2)]) blast
  have "ratchet_level ?r k \<le> ratchet_level r' k" for k
  proof (cases "k = Some RecordKey.VaultRoot")
    case True
    then show ?thesis using wf by (simp add: ratchet_level_def watermark_level_def ratchet_wf_def)
  next
    case False
    with stored(3) show ?thesis
      using update_grows [of "?r\<lparr>unknown_records := []\<rparr>" k] by (simp add: seeded_level [OF wf])
  qed
  moreover have "bt_contains_key (es_users (vrep_effective (cio_report out))) (cio_user_id out)"
    using got(4) c(4) by simp
  ultimately show ?thesis
    using stored(1,2) seen got(2,3) c(4-6) user by simp blast
qed

theorem invitation_carries_rollback_memory_witness:
  "\<exists>report prepared out d' w. invite_prepare (invite_session report, invite_disk) = (Inr prepared, (invite_session report, invite_disk))
     \<and> claim_invite_with_keychain (sec_store invite_env) (sec_prims invite_env) (\<lambda>_ _. Inr ()) sample_paths (piu_invite prepared)
         invite_fresh_disk = (Inr out, d')
     \<and> cio_user_id out = UserId (HashValue [6, 3])
     \<and> w \<in> set (es_verified_records (vrep_effective (cio_report out)))
     \<and> vr_key w = RecordKey.Group (GroupId (HashValue [8])) \<and> 1 \<le> counter_of w"
proof -
  obtain report report' prepared where p: "invite_prepare (invite_session report, invite_disk) = (Inr prepared, (invite_session report, invite_disk))"
      "iuo_user_id (piu_output prepared) = UserId (HashValue [6, 3])"
      "piu_invite prepared = \<lparr>im_master_seed = replicate 32 0, im_trusted_root = HashValue [7, 1],
         im_rollback_baseline = Some (rollback_baseline_of invite_ratchet)\<rparr>"
    using invite_prepared by metis
  obtain out d' where claim: "claim_invite_with_keychain (sec_store invite_env) (sec_prims invite_env) (\<lambda>_ _. Inr ()) sample_paths
      (piu_invite prepared) invite_fresh_disk = (Inr out, d')"
    using invite_claims(1) [OF p(3)] by auto
  have s: "ls_ratchet (invite_session report) = invite_ratchet" "session_root (invite_session report) = HashValue [7, 1]"
    by (simp_all add: invite_session_def sample_session_def session_root_def)
  have wf: "ratchet_wf (ls_ratchet (invite_session report))"
    by (simp add: s ratchet_wf_def invite_ratchet_def bt_wf_def bt_get_def)
  have codec: "canonical_ratchet_codec (env_ratchet (sec_store invite_env))"
    by (simp add: two_ratchets_canonical)
  have fresh: "read_ratchet_for_root (sec_store invite_env) invite_fresh_disk sample_paths (session_root (invite_session report)) = Inr None"
    using invite_claims(2) [OF p(3)] by (simp add: s)
  note shown = invitation_carries_rollback_memory [OF p(1) wf codec claim fresh]
  have "bt_get (watermarks (ls_ratchet (invite_session report))) (RecordKey.Group (GroupId (HashValue [8]))) = Some 1"
    by (simp add: s invite_ratchet_def bt_get_def)
  then obtain w where "w \<in> set (es_verified_records (vrep_effective (cio_report out)))"
      "vr_key w = RecordKey.Group (GroupId (HashValue [8]))" "1 \<le> counter_of w"
    using shown by force
  moreover have "cio_user_id out = UserId (HashValue [6, 3])" using shown p(2) by simp
  ultimately show ?thesis using p(1) claim by blast
qed

end
