(* ===== verification/Thorax_Join.thy ===== *)
theory Thorax_Join
  imports Thorax_Invite
begin

text \<open>
  File: the rest of \<open>crates/thorax-ops/src/enrollment.rs\<close>. A machine that wants to join signs a
  candidate; an administrator plans an approval, which validates the vault with the new records
  without touching the disk, seals the rollback memory to the candidate and signs the result; the
  plan is committed as one transaction; the candidate opens the memory it was sent. The serialisers
  of the two signed messages and of the memory, and the random draws, are parameters.

  The theorems show that a created candidate is valid and, when approved, receives exactly the memory
  of the approver, and that an approval gives nothing but what was approved: the user, the grants and
  the secrets that these make readable, with the values they had.
\<close>

section \<open>Candidates\<close>

record JoinEnv =
  je_secrets :: SecretsEnv
  je_candidate :: "JoinCandidateMessageV1 \<Rightarrow> CordError + Bytes"
  je_approval :: "JoinApprovalMessageV1 \<Rightarrow> CordError + Bytes"
  je_baseline :: "RatchetBaselineV1 CordCodec"

abbreviation je_crypto :: "JoinEnv \<Rightarrow> CryptoProvider" where
  "je_crypto env \<equiv> sec_crypto (je_secrets env)"

abbreviation je_prims :: "JoinEnv \<Rightarrow> Primitives" where
  "je_prims env \<equiv> sec_prims (je_secrets env)"

definition JOIN_BASELINE_INFO :: Bytes where
  "JOIN_BASELINE_INFO = str_bytes ''thorax.join-baseline.v1''"

record JoinApprovalPlan =
  jap_approval :: JoinApprovalV1
  jap_expected_vault_bytes :: Bytes
  jap_expected_ratchet :: Ratchet
  jap_next_vault_bytes :: Bytes
  jap_next_ratchet :: Ratchet
  jap_has_vault_mutation :: bool

text \<open>\<open>derive(Ord)\<close> of a selector: the tuple first, then the labels.\<close>

definition selector_rank :: "SecretSelectorV1 \<Rightarrow> string list \<times> (string \<times> string) list" where
  "selector_rank selector = (sel_tuple selector, map (\<lambda>l. (label_key l, label_value l)) (sel_labels selector))"

definition strictly_increasing :: "SecretSelectorV1 list \<Rightarrow> bool" where
  "strictly_increasing selectors = list_all (\<lambda>(a, b). selector_rank a < selector_rank b) (zip selectors (tl selectors))"

definition candidate_bytes :: "JoinEnv \<Rightarrow> JoinCandidateV1 \<Rightarrow> OpsError + Bytes" where
  "candidate_bytes env candidate = map_err OpsError.Core (join_candidate_message (je_candidate env) candidate)"

definition approval_bytes :: "JoinEnv \<Rightarrow> JoinApprovalV1 \<Rightarrow> OpsError + Bytes" where
  "approval_bytes env approval = map_err OpsError.Core (join_approval_message (je_approval env) approval)"

definition create_join_candidate ::
  "JoinEnv \<Rightarrow> Identity \<Rightarrow> JoinPurposeV1 \<Rightarrow> Bytes \<Rightarrow> HashValue \<Rightarrow> UserId \<Rightarrow> DeploymentContextV1 \<Rightarrow> SecretSelectorV1 list
     \<Rightarrow> OpsError + JoinCandidateV1" where
  "create_join_candidate env identity purpose request_id root root_user deployment suggested =
     (let signer = identity_signer (je_prims env) identity in
      and_then (case purpose of
          Enroll \<Rightarrow> map_sum Hazmat Some (entry_point_record (je_crypto env) signer root_user 0)
        | RestoreTrust \<Rightarrow> Inr None) (\<lambda>entry.
      let candidate = \<lparr>jc_purpose = purpose, jc_request_id = request_id, jc_trusted_root = root, jc_trusted_root_user_id = root_user,
            jc_deployment = deployment, jc_user_id = identity_user identity,
            jc_signing_public_key = identity_signing_public_key identity, jc_hpke_public_key = identity_hpke_public_key identity,
            jc_suggested_selectors = remdups_adj (sort_key selector_rank suggested), jc_entry_point = entry, jc_proof = []\<rparr> in
      and_then (candidate_bytes env candidate) (\<lambda>message.
        Inr (candidate\<lparr>jc_proof := signer_sign signer JOIN_CANDIDATE_PROOF_DOMAIN message\<rparr>))))"

definition validate_candidate_entry_point :: "JoinEnv \<Rightarrow> JoinCandidateV1 \<Rightarrow> VaultRecordV1 \<Rightarrow> OpsError + unit" where
  "validate_candidate_entry_point env candidate entry =
     (if rec_signing_public_key entry \<noteq> jc_signing_public_key candidate
      then Inl (InvalidJoinCandidate ''entry point signing key differs from the candidate'')
      else case known (rec_body entry) of
        Some (RecordBodyV1.EntryPoint body) \<Rightarrow>
          if ep_trusted_root_user_id body \<noteq> jc_trusted_root_user_id candidate
             \<or> ep_hpke_public_key body \<noteq> jc_hpke_public_key candidate \<or> ep_counter body \<noteq> 0
          then Inl (InvalidJoinCandidate ''entry point bindings differ from the candidate'')
          else and_then (map_err OpsError.Core (signed_record_message (je_crypto env) entry)) (\<lambda>message.
            if \<not> verify_signature (je_crypto env) ''thorax.signed.v1'' (rec_signing_public_key entry) message (rec_signature entry)
            then Inl (InvalidJoinCandidate ''entry point signature is invalid'') else Inr ())
      | _ \<Rightarrow> Inl (InvalidJoinCandidate ''entry point artifact has the wrong record type''))"

definition validate_join_candidate :: "JoinEnv \<Rightarrow> JoinCandidateV1 \<Rightarrow> OpsError + unit" where
  "validate_join_candidate env candidate =
     (if length (jc_request_id candidate) \<noteq> 32 then Inl (InvalidJoinCandidate ''request ID must contain 32 bytes'')
      else and_then (map_err OpsError.Core (derive_user_id (je_crypto env) (jc_signing_public_key candidate) (jc_hpke_public_key candidate))) (\<lambda>derived.
      if derived \<noteq> jc_user_id candidate then Inl (InvalidJoinCandidate ''user ID does not match the public keys'')
      else if \<not> strictly_increasing (jc_suggested_selectors candidate)
      then Inl (InvalidJoinCandidate ''suggested selectors are not canonical'')
      else and_then (candidate_bytes env candidate) (\<lambda>message.
      if \<not> verify_signature (je_crypto env) JOIN_CANDIDATE_PROOF_DOMAIN (jc_signing_public_key candidate) message (jc_proof candidate)
      then Inl (InvalidJoinCandidate ''proof is invalid'')
      else case (jc_purpose candidate, jc_entry_point candidate) of
          (Enroll, Some entry) \<Rightarrow> validate_candidate_entry_point env candidate entry
        | (Enroll, None) \<Rightarrow> Inl (InvalidJoinCandidate ''enrollment has no entry point'')
        | (RestoreTrust, None) \<Rightarrow> Inr ()
        | (RestoreTrust, Some _) \<Rightarrow> Inl (InvalidJoinCandidate ''trust restoration carries an entry point''))))"

section \<open>Approvals\<close>

text \<open>The conditions on the purpose of a candidate.\<close>

fun check_join_grants :: "EffectiveState \<Rightarrow> UserId \<Rightarrow> GrantPermissionV1 list \<Rightarrow> OpsError + unit" where
  "check_join_grants st admin [] = Inr ()"
| "check_join_grants st admin (permission # permissions) =
     (case permission of
        ReadKeyspace _ \<Rightarrow>
          and_then (ensure_can_create_permission st admin permission) (\<lambda>_. check_join_grants st admin permissions)
      | _ \<Rightarrow> Inl (InvalidJoinCandidate ''Kubernetes identities may receive read grants only''))"

definition check_join_purpose ::
  "EffectiveState \<Rightarrow> UserId \<Rightarrow> JoinCandidateV1 \<Rightarrow> GrantPermissionV1 list \<Rightarrow> UserId option \<Rightarrow> OpsError + unit" where
  "check_join_purpose st admin candidate grants replaces =
     (case jc_purpose candidate of
        Enroll \<Rightarrow>
          if bt_contains_key (es_users st) (jc_user_id candidate)
          then Inl (InvalidJoinCandidate ''candidate is already a member'') else check_join_grants st admin grants
      | RestoreTrust \<Rightarrow>
          if \<not> bt_contains_key (es_users st) (jc_user_id candidate)
          then Inl (InvalidJoinCandidate ''trust restoration identity is not a current member'')
          else if grants \<noteq> [] \<or> replaces \<noteq> None
          then Inl (InvalidJoinCandidate ''trust restoration cannot mutate authority'') else Inr ())"

fun append_join_grants ::
  "CryptoProvider \<Rightarrow> RecordSigner \<Rightarrow> (nat \<Rightarrow> IdSeed) \<Rightarrow> UserId \<Rightarrow> u64 \<Rightarrow> nat \<Rightarrow> GrantPermissionV1 list \<Rightarrow> VaultStore \<Rightarrow> OpsError + VaultStore" where
  "append_join_grants crypto signer seeds user counter i [] vault = Inr vault"
| "append_join_grants crypto signer seeds user counter i (permission # permissions) vault =
     and_then (map_err Hazmat (grant_record crypto signer (PrincipalRefV1.User user) permission (seeds i) counter)) (\<lambda>sr.
       append_join_grants crypto signer seeds user counter (Suc i) permissions (append_record vault sr))"

fun reseal_selectors ::
  "SecretsEnv \<Rightarrow> (nat \<Rightarrow> Draws) \<Rightarrow> Identity \<Rightarrow> ValidationReport \<Rightarrow> u64 \<Rightarrow> nat \<Rightarrow> SecretSelectorV1 list \<Rightarrow> VaultStore \<Rightarrow> OpsError + VaultStore" where
  "reseal_selectors env draws identity report counter i [] vault = Inr vault"
| "reseal_selectors env draws identity report counter i (selector # selectors) vault =
     (let signer = identity_signer (sec_prims env) identity; crypto = sec_crypto env in
      and_then (decrypt_secret_from_report env report identity selector) (\<lambda>plaintext.
      and_then (map_err OpsError.Core (derive_secret_id crypto selector)) (\<lambda>secret_id.
      and_then (seal_secret_payload env (draws i) (vrep_effective report)
                  \<lparr>ctx_record_key = RecordKey.Secret secret_id, ctx_signer_key = signer_signing_public_key signer,
                   ctx_counter = counter, ctx_secret_id = secret_id, ctx_selector = selector\<rparr> (to_value plaintext)) (\<lambda>sealed.
      and_then (map_err Hazmat (secret_record crypto signer selector sealed counter)) (\<lambda>sr.
        reseal_selectors env draws identity report counter (Suc i) selectors (append_record vault sr))))))"

definition join_counter :: "EffectiveState \<Rightarrow> u64" where
  "join_counter st = max (next_counter st) (rollback_counter_floor st)"

definition validated :: "SecretsEnv \<Rightarrow> VaultStore \<Rightarrow> Ratchet \<Rightarrow> OpsError + ValidationReport" where
  "validated env vault ratchet =
     and_then (map_err OpsError.Core (validate_vault (sec_crypto env) vault ratchet)) (\<lambda>report.
     and_then (ensure_no_issues report) (\<lambda>_. Inr report))"

definition readable_selectors :: "EffectiveState \<Rightarrow> UserId \<Rightarrow> SecretSelectorV1 list" where
  "readable_selectors st user =
     filter (can_read (authority_for_user st user)) (map (\<lambda>active. secret_selector (as_value active)) (secret_records st))"

text \<open>The vault with the candidate enrolled, and the report on it.\<close>

definition enroll ::
  "SecretsEnv \<Rightarrow> (nat \<Rightarrow> Draws) \<Rightarrow> (nat \<Rightarrow> IdSeed) \<Rightarrow> Identity \<Rightarrow> LockedSession \<Rightarrow> JoinCandidateV1 \<Rightarrow> GrantPermissionV1 list
     \<Rightarrow> OpsError + VaultStore \<times> ValidationReport" where
  "enroll env draws seeds identity s candidate grants =
     (let crypto = sec_crypto env; signer = identity_signer (sec_prims env) identity; counter = join_counter (effective s) in
      and_then (map_err Hazmat (user_record crypto signer (jc_signing_public_key candidate) (jc_hpke_public_key candidate) counter)) (\<lambda>user.
      case jc_entry_point candidate of
        None \<Rightarrow> Inl (InvalidJoinCandidate ''enrollment has no entry point'')
      | Some entry \<Rightarrow>
          and_then (append_join_grants crypto signer seeds (jc_user_id candidate) counter 0 grants
                      (append_record (append_record (ls_vault s) user) entry)) (\<lambda>vault.
          and_then (validated env vault (ls_ratchet s)) (\<lambda>report.
          let selectors = readable_selectors (vrep_effective report) (jc_user_id candidate) in
          if selectors = [] then Inr (vault, report)
          else and_then (reseal_selectors env draws identity report (join_counter (vrep_effective report)) 0 selectors vault) (\<lambda>vault.
               and_then (validated env vault (ls_ratchet s)) (\<lambda>report. Inr (vault, report)))))))"

definition plan_join_approval ::
  "JoinEnv \<Rightarrow> (nat \<Rightarrow> Draws) \<Rightarrow> (nat \<Rightarrow> IdSeed) \<Rightarrow> Bytes \<Rightarrow> Identity \<Rightarrow> LockedSession \<Rightarrow> JoinCandidateV1 \<Rightarrow> GrantPermissionV1 list
     \<Rightarrow> UserId option \<Rightarrow> OpsError + JoinApprovalPlan" where
  "plan_join_approval env draws seeds rng identity s candidate grants replaces =
     (let signer = identity_signer (je_prims env) identity; codec = env_vault (sec_store (je_secrets env)) in
      and_then (ensure_valid s) (\<lambda>_.
      and_then (validate_join_candidate env candidate) (\<lambda>_.
      if es_root_signing_public_key_hash (effective s) \<noteq> Some (jc_trusted_root candidate)
         \<or> es_root_user_id (effective s) \<noteq> Some (jc_trusted_root_user_id candidate)
      then Inl JoinRootMismatch
      else and_then (ensure_administer (effective s) (identity_user identity)) (\<lambda>_.
      and_then (check_join_purpose (effective s) (identity_user identity) candidate grants replaces) (\<lambda>_.
      and_then (map_err OpsError.Core (encode_vault codec (ls_vault s))) (\<lambda>expected_vault_bytes.
      let has_vault_mutation = (jc_purpose candidate = Enroll) in
      and_then (if has_vault_mutation then enroll (je_secrets env) draws seeds identity s candidate grants
                else Inr (ls_vault s, ls_report s)) (\<lambda>(next_vault, post_report).
      and_then (candidate_bytes env candidate) (\<lambda>message.
      and_then (map_err OpsError.Core (baseline_bytes (je_baseline env) (rollback_baseline_of (ls_ratchet s)))) (\<lambda>baseline.
      and_then (map_err OpsError.Crypto (hpke_seal (je_prims env) rng (jc_hpke_public_key candidate) JOIN_BASELINE_INFO message baseline)) (\<lambda>sealed.
      let approval = \<lparr>ja_purpose = jc_purpose candidate, ja_request_id = jc_request_id candidate, ja_trusted_root = jc_trusted_root candidate,
            ja_deployment = jc_deployment candidate, ja_user_id = jc_user_id candidate, ja_approved_grants = grants,
            ja_encrypted_baseline = \<lparr>eb_encapsulated_key = encapsulated_key sealed, eb_ciphertext = hpke_ciphertext sealed\<rparr>,
            ja_replaces_user_id = replaces, ja_approving_admin = identity_user identity,
            ja_approving_signing_public_key = identity_signing_public_key identity, ja_signature = []\<rparr> in
      and_then (approval_bytes env approval) (\<lambda>approval_message.
      and_then (map_err OpsError.Core (encode_vault codec next_vault)) (\<lambda>next_vault_bytes.
        Inr \<lparr>jap_approval = approval\<lparr>ja_signature := signer_sign signer JOIN_APPROVAL_SIGNATURE_DOMAIN approval_message\<rparr>,
             jap_expected_vault_bytes = expected_vault_bytes, jap_expected_ratchet = ls_ratchet s,
             jap_next_vault_bytes = next_vault_bytes,
             jap_next_ratchet = apply_update (vrep_ratchet_update post_report) (ls_ratchet s),
             jap_has_vault_mutation = has_vault_mutation\<rparr>))))))))))))"

definition commit_join_approval_plan ::
  "StoreEnv \<Rightarrow> TestFaultPoint option \<Rightarrow> Bytes \<Rightarrow> WorkspacePaths \<Rightarrow> JoinApprovalPlan \<Rightarrow> unit Op" where
  "commit_join_approval_plan env fault seed paths plan =
     (let root = trusted_root (jap_next_ratchet plan) in
      op_then (op_read (\<lambda>d. map_err Store (read_vault_bytes d paths))) (\<lambda>current.
      if current \<noteq> jap_expected_vault_bytes plan then op_err JoinPlanStale
      else if \<not> jap_has_vault_mutation plan then op_ok ()
      else op_then (op_read (\<lambda>d. map_err Store (read_ratchet_for_root env d paths root))) (\<lambda>found.
      op_then (op_read (\<lambda>_. case found of None \<Rightarrow> Inl (MissingRatchet (ratchet_path paths root)) | Some r \<Rightarrow> Inr r)) (\<lambda>current_ratchet.
      if current_ratchet \<noteq> jap_expected_ratchet plan then op_err JoinPlanStale
      else op_then (op_read (\<lambda>_. map_err Store (encode_ratchet env (jap_expected_ratchet plan)))) (\<lambda>expected_ratchet_bytes.
      op_then (op_read (\<lambda>_. map_err Store (encode_ratchet env (jap_next_ratchet plan)))) (\<lambda>next_ratchet_bytes.
        commit_after_images_locked env fault seed paths root ''approve join'' (jap_expected_vault_bytes plan) expected_ratchet_bytes
          (jap_next_vault_bytes plan) next_ratchet_bytes))))))"

section \<open>Opening an approval\<close>

definition validate_approval_bindings :: "JoinEnv \<Rightarrow> JoinCandidateV1 \<Rightarrow> JoinApprovalV1 \<Rightarrow> OpsError + unit" where
  "validate_approval_bindings env candidate approval =
     and_then (validate_join_candidate env candidate) (\<lambda>_.
     if ja_purpose approval \<noteq> jc_purpose candidate \<or> ja_request_id approval \<noteq> jc_request_id candidate
        \<or> ja_trusted_root approval \<noteq> jc_trusted_root candidate \<or> ja_deployment approval \<noteq> jc_deployment candidate
        \<or> ja_user_id approval \<noteq> jc_user_id candidate
     then Inl JoinApprovalMismatch
     else if ja_purpose approval = RestoreTrust \<and> (ja_approved_grants approval \<noteq> [] \<or> ja_replaces_user_id approval \<noteq> None)
     then Inl JoinApprovalMismatch
     else and_then (approval_bytes env approval) (\<lambda>message.
       if \<not> verify_signature (je_crypto env) JOIN_APPROVAL_SIGNATURE_DOMAIN (ja_approving_signing_public_key approval) message
             (ja_signature approval)
       then Inl JoinApprovalMismatch else Inr ()))"

definition open_join_baseline ::
  "JoinEnv \<Rightarrow> Identity \<Rightarrow> JoinCandidateV1 \<Rightarrow> JoinApprovalV1 \<Rightarrow> OpsError + RatchetBaselineV1" where
  "open_join_baseline env identity candidate approval =
     and_then (validate_approval_bindings env candidate approval) (\<lambda>_.
     and_then (candidate_bytes env candidate) (\<lambda>message.
     and_then (map_err OpsError.Crypto (hpke_open (je_prims env) (keys_hpke (identity_keys identity))
                 (eb_encapsulated_key (ja_encrypted_baseline approval)) JOIN_BASELINE_INFO message
                 (eb_ciphertext (ja_encrypted_baseline approval)))) (\<lambda>opened.
       map_err OpsError.Core (baseline_from_bytes (je_baseline env) opened))))"

section \<open>What a candidate proves\<close>

text \<open>What signing and the provider promise: a signature of an identity verifies under its key.\<close>

definition signs_for :: "JoinEnv \<Rightarrow> Identity \<Rightarrow> bool" where
  "signs_for env identity \<longleftrightarrow> (\<forall>domain message. verify_signature (je_crypto env) domain (identity_signing_public_key identity) message
     (signer_sign (identity_signer (je_prims env) identity) domain message))"

lemma selector_rank_inject: "selector_rank a = selector_rank b \<longleftrightarrow> a = b"
proof
  assume "selector_rank a = selector_rank b"
  moreover have "inj (\<lambda>l :: SecretLabelV1. (label_key l, label_value l))"
    by (rule injI) (metis SecretLabelV1.equality old.unit.exhaust prod.inject)
  ultimately show "a = b"
    by (auto simp: selector_rank_def inj_map_eq_map intro!: SecretSelectorV1.equality)
qed simp

lemma strictly_increasingI: "sorted_wrt (<) (map selector_rank xs) \<Longrightarrow> strictly_increasing xs"
proof (induction xs)
  case (Cons x xs)
  then show ?case by (cases xs) (auto simp: strictly_increasing_def)
qed (simp add: strictly_increasing_def)

lemma canonical_selectors: "strictly_increasing (remdups_adj (sort_key selector_rank xs))"
proof -
  have "map selector_rank (remdups_adj (sort_key selector_rank xs)) = remdups_adj (map selector_rank (sort_key selector_rank xs))"
    by (rule remdups_adj_map_injective [symmetric]) (simp add: inj_on_def selector_rank_inject)
  moreover have "sorted_wrt (<) \<dots>"
    by (rule strict_remdups_adj) simp
  ultimately show ?thesis
    by (intro strictly_increasingI) simp
qed

lemma candidate_bytes_proof [simp]: "candidate_bytes env (candidate\<lparr>jc_proof := p\<rparr>) = candidate_bytes env candidate"
  by (simp add: candidate_bytes_def join_candidate_message_def candidate_message_def)

lemma approval_bytes_signature [simp]: "approval_bytes env (approval\<lparr>ja_signature := p\<rparr>) = approval_bytes env approval"
  by (simp add: approval_bytes_def join_approval_message_def approval_message_def)

lemma from_master_seed_Inr:
  assumes "from_master_seed prims crypto seed = Inr identity"
  shows "derive_user_id crypto (identity_signing_public_key identity) (identity_hpke_public_key identity) = Inr (identity_user identity)"
    and "identity_hpke_public_key identity = hpke_public_key_bytes (keys_hpke (identity_keys identity))"
  using assms by (auto simp: from_master_seed_def and_then_Inr_iff Let_def)

lemma signer_fields [simp]:
  "signer_signing_public_key (identity_signer prims identity) = identity_signing_public_key identity"
  "signer_hpke_public_key (identity_signer prims identity) = identity_hpke_public_key identity"
  "signer_user_id (identity_signer prims identity) = identity_user identity"
  by (simp_all add: identity_signer_def)

lemma entry_point_valid:
  assumes "entry_point_record (je_crypto env) (identity_signer (je_prims env) identity) root_user 0 = Inr entry" and "signs_for env identity"
    and "jc_signing_public_key candidate = identity_signing_public_key identity" "jc_hpke_public_key candidate = identity_hpke_public_key identity"
      "jc_trusted_root_user_id candidate = root_user"
  shows "validate_candidate_entry_point env candidate entry = Inr ()"
  using assms
  by (auto simp: entry_point_record_def entry_point_record_payload_def record_payload_def signed_payload_def and_then_Inr_iff Let_def
      validate_candidate_entry_point_def signs_for_def signed_record_message_def)

lemma created_candidate:
  assumes "create_join_candidate env identity purpose request_id root root_user deployment suggested = Inr candidate"
  shows "jc_signing_public_key candidate = identity_signing_public_key identity" "jc_hpke_public_key candidate = identity_hpke_public_key identity"
    "jc_user_id candidate = identity_user identity" "jc_purpose candidate = purpose" "jc_request_id candidate = request_id"
    "jc_trusted_root candidate = root"
  using assms by (auto simp: create_join_candidate_def and_then_Inr_iff Let_def)

lemma created_candidate_valid:
  assumes created: "create_join_candidate env identity purpose request_id root root_user deployment suggested = Inr candidate"
    and identity: "from_master_seed (je_prims env) (je_crypto env) seed = Inr identity" and signs: "signs_for env identity"
    and "length request_id = 32"
  shows "validate_join_candidate env candidate = Inr ()"
proof -
  obtain entry message where parts: "(case purpose of
          Enroll \<Rightarrow> map_sum Hazmat Some (entry_point_record (je_crypto env) (identity_signer (je_prims env) identity) root_user 0)
        | RestoreTrust \<Rightarrow> Inr None) = Inr entry"
      "candidate_bytes env candidate = Inr message"
      "jc_proof candidate = signer_sign (identity_signer (je_prims env) identity) JOIN_CANDIDATE_PROOF_DOMAIN message"
      "jc_trusted_root_user_id candidate = root_user" "jc_entry_point candidate = entry"
      "jc_suggested_selectors candidate = remdups_adj (sort_key selector_rank suggested)"
    using created by (auto simp: create_join_candidate_def and_then_Inr_iff Let_def candidate_bytes_def join_candidate_message_def
        candidate_message_def)
  have entry: "case (purpose, entry) of (Enroll, Some e) \<Rightarrow> validate_candidate_entry_point env candidate e = Inr ()
      | (Enroll, None) \<Rightarrow> False | (RestoreTrust, None) \<Rightarrow> True | (RestoreTrust, Some _) \<Rightarrow> False"
    using parts(1) entry_point_valid [OF _ signs created_candidate(1,2) [OF created] parts(4)]
    by (auto simp: map_sum_def split: JoinPurposeV1.splits sum.splits option.splits)
  show ?thesis
    using assms(4) entry parts from_master_seed_Inr(1) [OF identity] signs canonical_selectors [of suggested]
    by (auto simp: validate_join_candidate_def created_candidate [OF created] signs_for_def
        split: JoinPurposeV1.splits option.splits)
qed

section \<open>What a plan contains\<close>

lemma check_join_grants_Inr:
  "check_join_grants st admin grants = Inr () \<Longrightarrow>
     \<forall>p \<in> set grants. (\<exists>k. p = ReadKeyspace k) \<and> ensure_can_create_permission st admin p = Inr ()"
  by (induction grants) (auto simp: and_then_Inr_iff split: GrantPermissionV1.splits)

text \<open>What enrolling a candidate may add to the vault of the session it was planned on.\<close>

definition join_record :: "Bytes \<Rightarrow> JoinCandidateV1 \<Rightarrow> GrantPermissionV1 list \<Rightarrow> VaultRecordV1 \<Rightarrow> bool" where
  "join_record admin_key candidate grants sr \<longleftrightarrow>
     jc_entry_point candidate = Some sr
     \<or> rec_signing_public_key sr = admin_key
       \<and> (case known (rec_body sr) of
            Some (RecordBodyV1.User u) \<Rightarrow> user_id u = jc_user_id candidate
              \<and> user_signing_public_key u = jc_signing_public_key candidate \<and> user_hpke_public_key u = jc_hpke_public_key candidate
          | Some (RecordBodyV1.Grant g) \<Rightarrow> grant_subject_id g = PrincipalRefV1.User (jc_user_id candidate) \<and> grant_permission g \<in> set grants
          | _ \<Rightarrow> False)"

text \<open>
  A secret that is sealed again for a new reader: the value that the administrator decrypts from the
  report on the vault with the grants, sealed for the readers of that report, at the position of the
  secret, above every counter the report has seen.
\<close>

definition resealed :: "SecretsEnv \<Rightarrow> (nat \<Rightarrow> Draws) \<Rightarrow> Identity \<Rightarrow> ValidationReport \<Rightarrow> nat \<times> SecretSelectorV1 \<Rightarrow> VaultRecordV1 \<Rightarrow> bool" where
  "resealed env draws identity report entry sr \<longleftrightarrow>
     (\<exists>plaintext secret sealed. decrypt_secret_from_report env report identity (snd entry) = Inr plaintext
        \<and> derive_secret_id (sec_crypto env) (snd entry) = Inr secret
        \<and> seal_secret_payload env (draws (fst entry)) (vrep_effective report)
            \<lparr>ctx_record_key = RecordKey.Secret secret, ctx_signer_key = identity_signing_public_key identity,
             ctx_counter = join_counter (vrep_effective report), ctx_secret_id = secret, ctx_selector = snd entry\<rparr> (to_value plaintext) = Inr sealed
        \<and> rec_signing_public_key sr = identity_signing_public_key identity
        \<and> known (rec_body sr) = Some (RecordBodyV1.Secret \<lparr>secret_id = secret, secret_selector = snd entry, secret_sealed = sealed,
             secret_counter = join_counter (vrep_effective report)\<rparr>))"

text \<open>One record for every secret that a user can read in a report, in the order of the report, and no other.\<close>

definition reseals_for ::
  "SecretsEnv \<Rightarrow> (nat \<Rightarrow> Draws) \<Rightarrow> Identity \<Rightarrow> ValidationReport \<Rightarrow> UserId \<Rightarrow> VaultStore \<Rightarrow> VaultStore \<Rightarrow> bool" where
  "reseals_for env draws identity report user vault vault' \<longleftrightarrow>
     (\<exists>added. set (vault_records_of vault') = set (vault_records_of vault) \<union> set added
        \<and> list_all2 (resealed env draws identity report) (enumerate 0 (readable_selectors (vrep_effective report) user)) added)"

definition extends_by :: "(VaultRecordV1 \<Rightarrow> bool) \<Rightarrow> VaultStore \<Rightarrow> VaultStore \<Rightarrow> bool" where
  "extends_by P vault vault' \<longleftrightarrow> set (vault_records_of vault) \<subseteq> set (vault_records_of vault')
     \<and> (\<forall>sr \<in> set (vault_records_of vault') - set (vault_records_of vault). P sr)"

lemma extends_refl: "extends_by P v v"
  by (simp add: extends_by_def)

lemma extends_append: "extends_by P v v' \<Longrightarrow> P sr \<Longrightarrow> extends_by P v (append_record v' sr)"
  by (auto simp: extends_by_def append_record_def split: VaultStore.splits)

lemma append_join_grants_extends:
  assumes "append_join_grants crypto signer seeds (jc_user_id candidate) counter i permissions v' = Inr v''"
    and "set permissions \<subseteq> set grants" and "extends_by (join_record (signer_signing_public_key signer) candidate grants) v v'"
  shows "extends_by (join_record (signer_signing_public_key signer) candidate grants) v v''"
  using assms
proof (induction permissions arbitrary: i v')
  case (Cons permission permissions)
  then obtain sr gid where sr: "signed_payload crypto signer (record_payload (RecordBodyV1.Grant
        \<lparr>grant_id = gid, grant_seed = seeds i, grant_subject_id = PrincipalRefV1.User (jc_user_id candidate),
         grant_permission = permission, grant_counter = counter\<rparr>)) = Inr sr"
      "append_join_grants crypto signer seeds (jc_user_id candidate) counter (Suc i) permissions (append_record v' sr) = Inr v''"
    by (auto simp: and_then_Inr_iff grant_record_def grant_record_payload_def)
  have "join_record (signer_signing_public_key signer) candidate grants sr"
    using signed_known [OF sr(1)] Cons.prems(2) by (simp add: join_record_def)
  then show ?case
    using Cons.IH [OF sr(2)] Cons.prems(2,3) by (simp add: extends_append)
qed simp

lemma reseal_selectors_added:
  assumes "reseal_selectors env draws identity report (join_counter (vrep_effective report)) i selectors v = Inr v'"
  shows "\<exists>added. set (vault_records_of v') = set (vault_records_of v) \<union> set added
    \<and> list_all2 (resealed env draws identity report) (enumerate i selectors) added"
  using assms
proof (induction selectors arbitrary: i v)
  case (Cons selector selectors)
  let ?counter = "join_counter (vrep_effective report)" and ?signer = "identity_signer (sec_prims env) identity"
  from Cons.prems obtain plaintext secret sealed sr where sr: "decrypt_secret_from_report env report identity selector = Inr plaintext"
      "derive_secret_id (sec_crypto env) selector = Inr secret"
      "seal_secret_payload env (draws i) (vrep_effective report)
         \<lparr>ctx_record_key = RecordKey.Secret secret, ctx_signer_key = identity_signing_public_key identity, ctx_counter = ?counter,
          ctx_secret_id = secret, ctx_selector = selector\<rparr> (to_value plaintext) = Inr sealed"
      "secret_record (sec_crypto env) ?signer selector sealed ?counter = Inr sr"
      "reseal_selectors env draws identity report ?counter (Suc i) selectors (append_record v sr) = Inr v'"
    by (auto simp: and_then_Inr_iff Let_def)
  have "resealed env draws identity report (i, selector) sr"
    using sr(1-3) secret_record_Inr [OF sr(4,2)] by (simp add: resealed_def)
  moreover obtain added where "set (vault_records_of v') = set (vault_records_of (append_record v sr)) \<union> set added"
      "list_all2 (resealed env draws identity report) (enumerate (Suc i) selectors) added"
    using Cons.IH [OF sr(5)] by blast
  ultimately show ?case
    by (intro exI [of _ "sr # added"]) (auto simp: append_record_def split: VaultStore.splits if_splits)
qed simp

lemma enroll_Inr:
  assumes run: "enroll env draws seeds identity s candidate grants = Inr (vault, report)"
    and id: "derive_user_id (sec_crypto env) (jc_signing_public_key candidate) (jc_hpke_public_key candidate) = Inr (jc_user_id candidate)"
  shows "\<exists>v1 r1. extends_by (join_record (identity_signing_public_key identity) candidate grants) (ls_vault s) v1
      \<and> validate_vault (sec_crypto env) v1 (ls_ratchet s) = Inr r1 \<and> vrep_issues r1 = []
      \<and> reseals_for env draws identity r1 (jc_user_id candidate) v1 vault"
    and "validate_vault (sec_crypto env) vault (ls_ratchet s) = Inr report" and "vrep_issues report = []"
proof -
  let ?signer = "identity_signer (sec_prims env) identity" and ?counter = "join_counter (effective s)"
  let ?P = "join_record (identity_signing_public_key identity) candidate grants"
  obtain user entry v1 r1 where parts:
      "user_record (sec_crypto env) ?signer (jc_signing_public_key candidate) (jc_hpke_public_key candidate) ?counter = Inr user"
      "jc_entry_point candidate = Some entry"
      "append_join_grants (sec_crypto env) ?signer seeds (jc_user_id candidate) ?counter 0 grants
         (append_record (append_record (ls_vault s) user) entry) = Inr v1"
      "validated env v1 (ls_ratchet s) = Inr r1"
    using run by (auto simp: enroll_def and_then_Inr_iff Let_def split: option.splits)
  have "?P user"
    using parts(1) id signed_known(1,2) [of "sec_crypto env" ?signer _ user]
    by (fastforce simp: user_record_def user_record_payload_def and_then_Inr_iff join_record_def)
  moreover have "?P entry"
    using parts(2) by (simp add: join_record_def)
  ultimately have v1: "extends_by ?P (ls_vault s) v1"
    using append_join_grants_extends [OF parts(3), of grants "ls_vault s"] by (simp add: extends_append extends_refl)
  have "validated env vault (ls_ratchet s) = Inr report \<and> reseals_for env draws identity r1 (jc_user_id candidate) v1 vault"
    using run parts reseal_selectors_added [of env draws identity r1 0 _ v1 vault]
    by (auto simp: enroll_def Let_def and_then_Inr_iff reseals_for_def split: if_splits)
  with v1 parts(4) show "\<exists>v1 r1. extends_by ?P (ls_vault s) v1 \<and> validate_vault (sec_crypto env) v1 (ls_ratchet s) = Inr r1 \<and> vrep_issues r1 = []
      \<and> reseals_for env draws identity r1 (jc_user_id candidate) v1 vault"
    "validate_vault (sec_crypto env) vault (ls_ratchet s) = Inr report" "vrep_issues report = []"
    by (auto simp: validated_def and_then_Inr_iff ensure_no_issues_def split: if_splits)
qed

lemma plan_Inr:
  assumes "plan_join_approval env draws seeds rng identity s candidate grants replaces = Inr plan"
  obtains vault report message baseline sealed amessage where
    "vrep_issues (ls_report s) = []" "validate_join_candidate env candidate = Inr ()"
    "es_root_signing_public_key_hash (effective s) = Some (jc_trusted_root candidate)"
    "ensure_administer (effective s) (identity_user identity) = Inr ()"
    "check_join_purpose (effective s) (identity_user identity) candidate grants replaces = Inr ()"
    "encode_vault (env_vault (sec_store (je_secrets env))) (ls_vault s) = Inr (jap_expected_vault_bytes plan)"
    "if jc_purpose candidate = Enroll then enroll (je_secrets env) draws seeds identity s candidate grants = Inr (vault, report)
     else vault = ls_vault s \<and> report = ls_report s"
    "encode_vault (env_vault (sec_store (je_secrets env))) vault = Inr (jap_next_vault_bytes plan)"
    "candidate_bytes env candidate = Inr message"
    "cord_ser (je_baseline env) (rollback_baseline_of (ls_ratchet s)) = Inr baseline"
    "hpke_seal (je_prims env) rng (jc_hpke_public_key candidate) JOIN_BASELINE_INFO message baseline = Inr sealed"
    "approval_bytes env (jap_approval plan) = Inr amessage"
    "jap_approval plan = \<lparr>ja_purpose = jc_purpose candidate, ja_request_id = jc_request_id candidate, ja_trusted_root = jc_trusted_root candidate,
            ja_deployment = jc_deployment candidate, ja_user_id = jc_user_id candidate, ja_approved_grants = grants,
            ja_encrypted_baseline = \<lparr>eb_encapsulated_key = encapsulated_key sealed, eb_ciphertext = hpke_ciphertext sealed\<rparr>,
            ja_replaces_user_id = replaces, ja_approving_admin = identity_user identity,
            ja_approving_signing_public_key = identity_signing_public_key identity,
            ja_signature = signer_sign (identity_signer (je_prims env) identity) JOIN_APPROVAL_SIGNATURE_DOMAIN amessage\<rparr>"
    "jap_expected_ratchet plan = ls_ratchet s" "jap_next_ratchet plan = apply_update (vrep_ratchet_update report) (ls_ratchet s)"
    "jap_has_vault_mutation plan = (jc_purpose candidate = Enroll)"
proof -
  have guards: "vrep_issues (ls_report s) = []" "validate_join_candidate env candidate = Inr ()"
    "es_root_signing_public_key_hash (effective s) = Some (jc_trusted_root candidate)"
    "es_root_user_id (effective s) = Some (jc_trusted_root_user_id candidate)"
    "ensure_administer (effective s) (identity_user identity) = Inr ()"
    "check_join_purpose (effective s) (identity_user identity) candidate grants replaces = Inr ()"
    using assms by (auto simp: plan_join_approval_def Let_def and_then_Inr_iff ensure_valid_def ensure_no_issues_def split: if_splits)
  obtain expected where expected: "encode_vault (env_vault (sec_store (je_secrets env))) (ls_vault s) = Inr expected"
    using assms guards by (auto simp: plan_join_approval_def Let_def and_then_Inr_iff ensure_valid_def ensure_no_issues_def)
  obtain vault report where vault: "(if jc_purpose candidate = Enroll then enroll (je_secrets env) draws seeds identity s candidate grants
                else Inr (ls_vault s, ls_report s)) = Inr (vault, report)"
    using assms guards expected by (auto simp: plan_join_approval_def Let_def and_then_Inr_iff ensure_valid_def ensure_no_issues_def)
  define approval where "approval sealed = \<lparr>ja_purpose = jc_purpose candidate, ja_request_id = jc_request_id candidate,
            ja_trusted_root = jc_trusted_root candidate, ja_deployment = jc_deployment candidate, ja_user_id = jc_user_id candidate,
            ja_approved_grants = grants,
            ja_encrypted_baseline = \<lparr>eb_encapsulated_key = encapsulated_key sealed, eb_ciphertext = hpke_ciphertext sealed\<rparr>,
            ja_replaces_user_id = replaces, ja_approving_admin = identity_user identity,
            ja_approving_signing_public_key = identity_signing_public_key identity, ja_signature = []\<rparr>" for sealed :: HpkeSealed
  obtain message baseline sealed amessage nb where rest: "candidate_bytes env candidate = Inr message"
      "cord_ser (je_baseline env) (rollback_baseline_of (ls_ratchet s)) = Inr baseline"
      "hpke_seal (je_prims env) rng (jc_hpke_public_key candidate) JOIN_BASELINE_INFO message baseline = Inr sealed"
      "approval_bytes env (approval sealed) = Inr amessage" "encode_vault (env_vault (sec_store (je_secrets env))) vault = Inr nb"
      "plan = \<lparr>jap_approval = (approval sealed)\<lparr>ja_signature := signer_sign (identity_signer (je_prims env) identity)
                 JOIN_APPROVAL_SIGNATURE_DOMAIN amessage\<rparr>,
             jap_expected_vault_bytes = expected, jap_expected_ratchet = ls_ratchet s, jap_next_vault_bytes = nb,
             jap_next_ratchet = apply_update (vrep_ratchet_update report) (ls_ratchet s),
             jap_has_vault_mutation = (jc_purpose candidate = Enroll)\<rparr>"
    using assms guards expected vault unfolding approval_def
    by (auto simp: plan_join_approval_def Let_def and_then_Inr_iff ensure_valid_def ensure_no_issues_def baseline_bytes_def)
  from rest(4) have "approval_bytes env (jap_approval plan) = Inr amessage"
    unfolding rest(6) by (simp del: JoinApprovalV1.update_convs)
  then show thesis
    using guards expected vault rest
    by (intro that [of vault report message baseline sealed amessage]) (auto simp: approval_def split: if_splits)
qed

lemma hpke_opens:
  assumes "hpke_law prims keys" and "hpke_seal prims rng (hpke_public_key_bytes keys) info aad m = Inr w"
  shows "hpke_open prims keys (encapsulated_key w) info aad (hpke_ciphertext w) = Inr m"
proof -
  obtain e c where "hpke_single_shot_seal prims rng (hpke_public_key_bytes keys) (hpke_info info) m aad = Inr (e, c)"
    "w = \<lparr>encapsulated_key = e, hpke_ciphertext = c\<rparr>"
    using assms(2) by (auto simp: hpke_seal_def hpke_public_key_from_bytes_def and_then_Inr_iff split: if_splits)
  then show ?thesis
    using assms(1) unfolding hpke_law_def by (auto simp: hpke_open_def hpke_encapped_key_from_bytes_def)
qed

text \<open>The identity behind a valid candidate opens every approval that was planned for it.\<close>

lemma approval_opens:
  assumes created: "create_join_candidate env guest purpose request_id root root_user deployment suggested = Inr candidate"
    and guest: "from_master_seed (je_prims env) (je_crypto env) seed = Inr guest" and valid: "validate_join_candidate env candidate = Inr ()"
    and plan: "plan_join_approval env draws seeds rng admin s candidate grants replaces = Inr plan"
    and signs: "signs_for env admin" and hpke: "hpke_law (je_prims env) (keys_hpke (identity_keys guest))"
    and codec: "faithful_codec (je_baseline env)" and wf: "ratchet_wf (ls_ratchet s)"
  shows "\<exists>baseline. open_join_baseline env guest candidate (jap_approval plan) = Inr baseline
    \<and> seed_ratchet_from_baseline (session_root s) baseline = (ls_ratchet s)\<lparr>unknown_records := []\<rparr>
    \<and> ja_trusted_root (jap_approval plan) = root \<and> ja_user_id (jap_approval plan) = identity_user guest
    \<and> ja_approved_grants (jap_approval plan) = grants"
proof -
  from plan obtain message baseline sealed amessage where p: "candidate_bytes env candidate = Inr message"
    "cord_ser (je_baseline env) (rollback_baseline_of (ls_ratchet s)) = Inr baseline"
    "hpke_seal (je_prims env) rng (jc_hpke_public_key candidate) JOIN_BASELINE_INFO message baseline = Inr sealed"
    "approval_bytes env (jap_approval plan) = Inr amessage"
    "jap_approval plan = \<lparr>ja_purpose = jc_purpose candidate, ja_request_id = jc_request_id candidate, ja_trusted_root = jc_trusted_root candidate,
            ja_deployment = jc_deployment candidate, ja_user_id = jc_user_id candidate, ja_approved_grants = grants,
            ja_encrypted_baseline = \<lparr>eb_encapsulated_key = encapsulated_key sealed, eb_ciphertext = hpke_ciphertext sealed\<rparr>,
            ja_replaces_user_id = replaces, ja_approving_admin = identity_user admin,
            ja_approving_signing_public_key = identity_signing_public_key admin,
            ja_signature = signer_sign (identity_signer (je_prims env) admin) JOIN_APPROVAL_SIGNATURE_DOMAIN amessage\<rparr>"
    "check_join_purpose (effective s) (identity_user admin) candidate grants replaces = Inr ()"
    by (rule plan_Inr) blast
  have "jc_purpose candidate = RestoreTrust \<Longrightarrow> grants = [] \<and> replaces = None"
    using p(6) by (auto simp: check_join_purpose_def split: if_splits)
  then have bound: "validate_approval_bindings env candidate (jap_approval plan) = Inr ()"
    using p(4,5) valid signs by (auto simp: validate_approval_bindings_def signs_for_def)
  have "hpke_open (je_prims env) (keys_hpke (identity_keys guest)) (encapsulated_key sealed) JOIN_BASELINE_INFO message (hpke_ciphertext sealed) =
      Inr baseline"
    using hpke_opens [OF hpke] p(3) created_candidate(2) [OF created] from_master_seed_Inr(2) [OF guest] by simp
  moreover have "cord_de (je_baseline env) baseline = Inr (rollback_baseline_of (ls_ratchet s))"
    using codec p(2) by (simp add: faithful_codec_def)
  ultimately have "open_join_baseline env guest candidate (jap_approval plan) = Inr (rollback_baseline_of (ls_ratchet s))"
    using bound p(1) by (simp add: open_join_baseline_def p(5) baseline_from_bytes_def)
  then show ?thesis
    using baseline_seeds_memory [OF wf] p(5) created_candidate [OF created] by (simp add: session_root_def)
qed

text \<open>What committing a plan does to the disk.\<close>

lemma commit_plan_effect:
  assumes sep: "separate paths (trusted_root (jap_next_ratchet plan))"
    and run: "commit_join_approval_plan env fault seed paths plan d = (res, d')"
  defines "root \<equiv> trusted_root (jap_next_ratchet plan)"
  shows "(\<exists>e. res = Inl e) \<and> (d' = d \<or> jap_has_vault_mutation plan \<and> d' (transaction_path paths root) \<noteq> None
        \<and> (\<forall>path. path \<notin> {vault_path paths, ratchet_path paths root, transaction_path paths root} \<longrightarrow> d' path = d path))
    \<or> res = Inr () \<and> d (vault_path paths) = Some (jap_expected_vault_bytes plan)
      \<and> (if jap_has_vault_mutation plan
         then read_ratchet_for_root env d paths root = Inr (Some (jap_expected_ratchet plan))
           \<and> (\<exists>nr. encode_ratchet env (jap_next_ratchet plan) = Inr nr
                \<and> d' = after_images paths root (jap_next_vault_bytes plan) nr d)
         else d' = d)"
proof (cases "read_vault_bytes d paths = Inr (jap_expected_vault_bytes plan) \<and> jap_has_vault_mutation plan
    \<and> read_ratchet_for_root env d paths root = Inr (Some (jap_expected_ratchet plan))
    \<and> (\<exists>er nr. encode_ratchet env (jap_expected_ratchet plan) = Inr er \<and> encode_ratchet env (jap_next_ratchet plan) = Inr nr)")
  case False
  then have "d' = d \<and> ((\<exists>e. res = Inl e) \<or> res = Inr () \<and> \<not> jap_has_vault_mutation plan
      \<and> read_vault_bytes d paths = Inr (jap_expected_vault_bytes plan))"
    using run by (auto simp: commit_join_approval_plan_def Let_def root_def [symmetric] op_err_def op_ok_def split: sum.splits if_splits option.splits)
  then show ?thesis by (auto simp: read_vault_bytes_iff)
next
  case True
  then obtain er nr where enc: "encode_ratchet env (jap_expected_ratchet plan) = Inr er" "encode_ratchet env (jap_next_ratchet plan) = Inr nr"
    by blast
  have "commit_after_images_locked env fault seed paths root ''approve join'' (jap_expected_vault_bytes plan) er
      (jap_next_vault_bytes plan) nr d = (res, d')"
    using run True enc by (simp add: commit_join_approval_plan_def Let_def root_def [symmetric])
  from commit_after_images_effect [OF sep [folded root_def] this] True enc show ?thesis by auto
qed

section \<open>A candidate to approve\<close>

definition join_serialize :: "CordValue \<Rightarrow> CordError + Bytes" where
  "join_serialize v =
     (case v of
        CvRecord r \<Rightarrow> (case rec_body r of Known (RecordBodyV1.Grant _) \<Rightarrow> Inr [10] | _ \<Rightarrow> invite_serialize v)
      | _ \<Rightarrow> invite_serialize v)"

definition join_provider :: CryptoProvider where
  "join_provider = invite_provider\<lparr>cord_serialize := join_serialize\<rparr>"

definition join_deployment :: DeploymentContextV1 where
  "join_deployment = \<lparr>deploy_namespace = ''db'', deploy_vault_name = ''payments'', deploy_vault_uid = ''uid''\<rparr>"

definition join_grants :: "GrantPermissionV1 list" where
  "join_grants = [ReadKeyspace keyspace_all]"

definition join_entry :: VaultRecordV1 where
  "join_entry = \<lparr>rec_body = Known (RecordBodyV1.EntryPoint \<lparr>ep_trusted_root_user_id = UserId (HashValue [6, 1]),
     ep_hpke_public_key = [3], ep_counter = 0\<rparr>), rec_signing_public_key = [3], rec_signature = [1]\<rparr>"

definition join_after :: VaultStore where
  "join_after = append_record (append_record (append_record invite_vault
     \<lparr>rec_body = Known (RecordBodyV1.User \<lparr>user_id = UserId (HashValue [6, 3]), user_signing_public_key = [3],
        user_hpke_public_key = [3], user_counter = 2\<rparr>), rec_signing_public_key = [1], rec_signature = [1]\<rparr>)
     join_entry)
     \<lparr>rec_body = Known (RecordBodyV1.Grant \<lparr>grant_id = GrantId (HashValue [8]), grant_seed = IdSeed [],
        grant_subject_id = PrincipalRefV1.User (UserId (HashValue [6, 3])), grant_permission = ReadKeyspace keyspace_all,
        grant_counter = 2\<rparr>), rec_signing_public_key = [1], rec_signature = [1]\<rparr>"

definition join_ratchet :: Ratchet where
  "join_ratchet = invite_ratchet\<lparr>watermarks := [(RecordKey.User (UserId (HashValue [6, 3])), 2),
     (RecordKey.Group (GroupId (HashValue [8])), 1), (RecordKey.Grant (GrantId (HashValue [8])), 2)]\<rparr>"

definition join_tx :: TransactionV1 where
  "join_tx = new_transaction join_provider (replicate 32 0) (HashValue [7, 1]) (Unix (str_bytes ''/w/.thorax/vault.cord''))
     ''approve join'' (VAULT_MAGIC @ [1]) (RATCHET_MAGIC @ [9]) (VAULT_MAGIC @ [2]) (RATCHET_MAGIC @ [8])"

definition join_env :: JoinEnv where
  "join_env = \<lparr>je_secrets = invite_env\<lparr>sec_store := (sec_store invite_env)\<lparr>env_crypto := join_provider,
       env_vault := \<lparr>cord_ser = (\<lambda>v. Inr (if length (vault_records_of v) = 2 then [1] else [2])),
         cord_de = (\<lambda>b. Inr (if b = [1] then invite_vault else join_after))\<rparr>,
       env_ratchet := two_ratchets (ratchet_store_of invite_ratchet) (ratchet_store_of join_ratchet),
       env_transaction := single_codec (TransactionStore.V1 join_tx)\<rparr>\<rparr>,
     je_candidate = (\<lambda>_. Inr [1]), je_approval = (\<lambda>_. Inr [2]), je_baseline = single_codec (rollback_baseline_of invite_ratchet)\<rparr>"

definition join_candidate :: JoinCandidateV1 where
  "join_candidate = \<lparr>jc_purpose = Enroll, jc_request_id = replicate 32 9, jc_trusted_root = HashValue [7, 1],
     jc_trusted_root_user_id = UserId (HashValue [6, 1]), jc_deployment = join_deployment, jc_user_id = UserId (HashValue [6, 3]),
     jc_signing_public_key = [3], jc_hpke_public_key = [3], jc_suggested_selectors = [],
     jc_entry_point = Some join_entry, jc_proof = [1]\<rparr>"

lemma join_env_simps [simp]:
  "je_prims join_env = invite_prims" "je_crypto join_env = join_provider"
  "env_transaction (sec_store (je_secrets join_env)) = single_codec (TransactionStore.V1 join_tx)"
  "env_ratchet (sec_store (je_secrets join_env)) = two_ratchets (ratchet_store_of invite_ratchet) (ratchet_store_of join_ratchet)"
  "je_candidate join_env = (\<lambda>_. Inr [1])" "je_approval join_env = (\<lambda>_. Inr [2])"
  "je_baseline join_env = single_codec (rollback_baseline_of invite_ratchet)"
  "trusted_root join_ratchet = HashValue [7, 1]"
  by (simp_all add: join_env_def join_ratchet_def)

lemma join_created:
  "create_join_candidate join_env invite_guest Enroll (replicate 32 9) (HashValue [7, 1]) (UserId (HashValue [6, 1])) join_deployment []
     = Inr join_candidate"
  by code_simp

lemma join_valid: "validate_join_candidate join_env join_candidate = Inr ()"
  by code_simp

lemma join_facts:
  "case validate_vault join_provider invite_vault invite_ratchet of
     Inl _ \<Rightarrow> False
   | Inr report \<Rightarrow> vrep_issues report = [] \<and> ensure_administer (vrep_effective report) (identity_user invite_admin) = Inr ()
       \<and> es_root_signing_public_key_hash (vrep_effective report) = Some (HashValue [7, 1])
       \<and> es_root_user_id (vrep_effective report) = Some (UserId (HashValue [6, 1]))
       \<and> check_join_purpose (vrep_effective report) (identity_user invite_admin) join_candidate join_grants None = Inr ()
       \<and> join_counter (vrep_effective report) = 2"
  by code_simp

lemma join_validated:
  "case validate_vault join_provider join_after invite_ratchet of
     Inl _ \<Rightarrow> False
   | Inr report \<Rightarrow> vrep_issues report = [] \<and> readable_selectors (vrep_effective report) (UserId (HashValue [6, 3])) = []
       \<and> apply_update (vrep_ratchet_update report) invite_ratchet = join_ratchet"
  by code_simp

lemma join_records:
  "case user_record join_provider (identity_signer invite_prims invite_admin) [3] [3] 2 of
     Inl _ \<Rightarrow> False
   | Inr user \<Rightarrow> append_join_grants join_provider (identity_signer invite_prims invite_admin) (\<lambda>_. IdSeed []) (UserId (HashValue [6, 3])) 2 0 join_grants
       (append_record (append_record invite_vault user) join_entry) = Inr join_after"
  by code_simp

lemma join_enrolls:
  assumes "join_counter (vrep_effective report) = 2"
  shows "\<exists>post. enroll (je_secrets join_env) draws (\<lambda>_. IdSeed []) invite_admin (invite_session report) join_candidate join_grants = Inr (join_after, post)
    \<and> apply_update (vrep_ratchet_update post) invite_ratchet = join_ratchet"
proof -
  obtain user where user: "user_record join_provider (identity_signer invite_prims invite_admin) [3] [3] 2 = Inr user"
      "append_join_grants join_provider (identity_signer invite_prims invite_admin) (\<lambda>_. IdSeed []) (UserId (HashValue [6, 3])) 2 0 join_grants
         (append_record (append_record invite_vault user) join_entry) = Inr join_after"
    using join_records by (auto split: sum.splits)
  obtain post where post: "validate_vault join_provider join_after invite_ratchet = Inr post" "vrep_issues post = []"
      "readable_selectors (vrep_effective post) (UserId (HashValue [6, 3])) = []" "apply_update (vrep_ratchet_update post) invite_ratchet = join_ratchet"
    using join_validated by (auto split: sum.splits)
  have "effective (invite_session report) = vrep_effective report" "ls_vault (invite_session report) = invite_vault"
      "ls_ratchet (invite_session report) = invite_ratchet" "jc_signing_public_key join_candidate = [3]" "jc_hpke_public_key join_candidate = [3]"
      "jc_user_id join_candidate = UserId (HashValue [6, 3])" "jc_entry_point join_candidate = Some join_entry"
    by (simp_all add: invite_session_def sample_session_def effective_def join_candidate_def)
  with assms user post show ?thesis
    by (simp add: enroll_def validated_def ensure_no_issues_def)
qed

lemma join_identity: "from_master_seed invite_prims join_provider (replicate 32 0) = Inr invite_guest"
  by code_simp

lemma join_ratchets:
  "encode_ratchet (sec_store (je_secrets join_env)) invite_ratchet = Inr (RATCHET_MAGIC @ [9])"
  "encode_ratchet (sec_store (je_secrets join_env)) join_ratchet = Inr (RATCHET_MAGIC @ [8])"
  "decode_ratchet (sec_store (je_secrets join_env)) path (RATCHET_MAGIC @ [9]) = Inr invite_ratchet"
  "decode_ratchet (sec_store (je_secrets join_env)) path (RATCHET_MAGIC @ [8]) = Inr join_ratchet"
proof -
  have "into_ratchet (ratchet_store_of invite_ratchet) = Some invite_ratchet" "into_ratchet (ratchet_store_of join_ratchet) = Some join_ratchet"
    by code_simp+
  then show "decode_ratchet (sec_store (je_secrets join_env)) path (RATCHET_MAGIC @ [9]) = Inr invite_ratchet"
    "decode_ratchet (sec_store (je_secrets join_env)) path (RATCHET_MAGIC @ [8]) = Inr join_ratchet"
    by (simp_all add: decode_ratchet_def strip_prefix_def two_ratchets_def)
  have "\<not> same_store (ratchet_store_of join_ratchet) (ratchet_store_of invite_ratchet)" by code_simp
  then show "encode_ratchet (sec_store (je_secrets join_env)) invite_ratchet = Inr (RATCHET_MAGIC @ [9])"
    "encode_ratchet (sec_store (je_secrets join_env)) join_ratchet = Inr (RATCHET_MAGIC @ [8])"
    by (simp_all add: encode_ratchet_def two_ratchets_def ratchet_store_of_def)
qed

lemma join_vaults:
  "encode_vault (env_vault (sec_store (je_secrets join_env))) invite_vault = Inr (VAULT_MAGIC @ [1])"
  "encode_vault (env_vault (sec_store (je_secrets join_env))) join_after = Inr (VAULT_MAGIC @ [2])"
  "decode_vault (env_vault (sec_store (je_secrets join_env))) (VAULT_MAGIC @ [2]) = Inr join_after"
  "trusted_root_candidate join_provider join_after = Inr (HashValue [7, 1])"
proof -
  have "length (vault_records_of invite_vault) = 2" "length (vault_records_of join_after) = 5" by code_simp+
  then obtain u v where v: "invite_vault = VaultStore.V1 u" "length (vs_records u) = 2" "join_after = VaultStore.V1 v" "length (vs_records v) = 5"
    by (metis VaultStore.case VaultStore.exhaust)
  show "encode_vault (env_vault (sec_store (je_secrets join_env))) invite_vault = Inr (VAULT_MAGIC @ [1])"
    "encode_vault (env_vault (sec_store (je_secrets join_env))) join_after = Inr (VAULT_MAGIC @ [2])"
    "decode_vault (env_vault (sec_store (je_secrets join_env))) (VAULT_MAGIC @ [2]) = Inr join_after"
    using sample_lengths(1) [of 2] sample_lengths(1) [of 1]
    by (simp_all add: v encode_vault_accepts MAX_VAULT_RECORDS_def join_env_def decode_vault_def decode_vault_with_limits_def strip_prefix_def
        del: append.simps)
qed code_simp

abbreviation join_plan :: "ValidationReport \<Rightarrow> OpsError + JoinApprovalPlan" where
  "join_plan report \<equiv> plan_join_approval join_env (\<lambda>_. sample_draws) (\<lambda>_. IdSeed []) [5] invite_admin (invite_session report) join_candidate
     join_grants None"

lemma join_planned:
  "\<exists>report plan. join_plan report = Inr plan \<and> jap_expected_vault_bytes plan = VAULT_MAGIC @ [1] \<and> jap_next_vault_bytes plan = VAULT_MAGIC @ [2]
     \<and> jap_expected_ratchet plan = invite_ratchet \<and> jap_next_ratchet plan = join_ratchet \<and> jap_has_vault_mutation plan"
proof -
  obtain report :: ValidationReport where r: "vrep_issues report = []" "ensure_administer (vrep_effective report) (identity_user invite_admin) = Inr ()"
      "es_root_signing_public_key_hash (vrep_effective report) = Some (HashValue [7, 1])"
      "es_root_user_id (vrep_effective report) = Some (UserId (HashValue [6, 1]))"
      "check_join_purpose (vrep_effective report) (identity_user invite_admin) join_candidate join_grants None = Inr ()"
      "join_counter (vrep_effective report) = 2"
    using join_facts by (auto split: sum.splits)
  obtain post where e: "enroll (je_secrets join_env) (\<lambda>_. sample_draws) (\<lambda>_. IdSeed []) invite_admin (invite_session report) join_candidate join_grants
         = Inr (join_after, post)" "apply_update (vrep_ratchet_update post) invite_ratchet = join_ratchet"
    using join_enrolls [OF r(6)] by blast
  have s: "effective (invite_session report) = vrep_effective report" "ls_vault (invite_session report) = invite_vault"
      "ls_ratchet (invite_session report) = invite_ratchet" "ls_report (invite_session report) = report"
    by (simp_all add: invite_session_def sample_session_def effective_def)
  have c: "jc_purpose join_candidate = Enroll" "jc_trusted_root join_candidate = HashValue [7, 1]"
      "jc_trusted_root_user_id join_candidate = UserId (HashValue [6, 1])"
    by (simp_all add: join_candidate_def)
  have "hpke_public_valid invite_prims = (\<lambda>_. True)" "hpke_single_shot_seal invite_prims = (\<lambda>rng _ _ m _. Inr (rng, m))"
    by (simp_all add: invite_prims_def sample_prims_def)
  then show ?thesis
    using r(1-5) e join_valid join_vaults(1,2)
    by (intro exI [of _ report])
       (simp add: plan_join_approval_def Let_def s c ensure_valid_def ensure_no_issues_def candidate_bytes_def join_candidate_message_def
        approval_bytes_def join_approval_message_def baseline_bytes_def single_codec_def hpke_seal_def hpke_public_key_from_bytes_def)
qed

lemma join_commits:
  assumes "jap_expected_vault_bytes plan = VAULT_MAGIC @ [1]" "jap_next_vault_bytes plan = VAULT_MAGIC @ [2]"
    "jap_expected_ratchet plan = invite_ratchet" "jap_next_ratchet plan = join_ratchet" "jap_has_vault_mutation plan"
  shows "commit_join_approval_plan (sec_store (je_secrets join_env)) None (replicate 32 0) sample_paths plan invite_disk =
    (Inr (), after_images sample_paths (HashValue [7, 1]) (VAULT_MAGIC @ [2]) (RATCHET_MAGIC @ [8]) invite_disk)"
proof -
  let ?env = "sec_store (je_secrets join_env)" and ?root = "HashValue [7, 1]"
  have "native_canonical ?env (vault_path sample_paths) = Inr (Unix (str_bytes ''/w/.thorax/vault.cord''))"
    using sample_origin by (simp add: native_canonical_def join_env_def invite_env_def)
  moreover have "validate_transaction ?env sample_paths join_tx = Inr join_ratchet"
    using join_vaults(4)
    by (simp add: validate_transaction_def join_tx_def new_transaction_def join_vaults join_ratchets del: trusted_root_candidate.simps)
  moreover have "validate_shape TRANSACTION_FILE join_tx = Inr ()"
    using sample_lengths
    by (simp add: validate_shape_def TRANSACTION_ID_BYTES_def MAX_TRANSACTION_OPERATION_BYTES_def file_hash_def join_provider_def
        invite_provider_def join_tx_def new_transaction_def TRANSACTION_HASH_DOMAIN_def min_def)
  then have "encode_transaction ?env join_tx = Inr (TRANSACTION_MAGIC @ [9])"
    by (simp add: encode_transaction_def single_codec_def MAX_TRANSACTION_BYTES_def MAX_VAULT_BYTES_def TRANSACTION_MAGIC_def str_bytes_def)
  ultimately have ready: "commit_ready ?env (replicate 32 0) sample_paths ?root ''approve join''
     (VAULT_MAGIC @ [1]) (RATCHET_MAGIC @ [9]) (VAULT_MAGIC @ [2]) (RATCHET_MAGIC @ [8]) invite_disk"
    using sample_separate [of ?root] sample_lengths
    by (auto simp: commit_ready_def invite_disk_def separate_def join_tx_def)
  have "commit_after_images_locked ?env None (replicate 32 0) sample_paths ?root ''approve join''
     (VAULT_MAGIC @ [1]) (RATCHET_MAGIC @ [9]) (VAULT_MAGIC @ [2]) (RATCHET_MAGIC @ [8]) invite_disk =
     (Inr (), after_images sample_paths ?root (VAULT_MAGIC @ [2]) (RATCHET_MAGIC @ [8]) invite_disk)"
    using commit_atomic [of sample_paths ?root "\<lparr>ops_store = ?env, ops_join_commit = no_codec\<rparr>"
        "VAULT_MAGIC @ [1]" "VAULT_MAGIC @ [2]" "RATCHET_MAGIC @ [9]" "RATCHET_MAGIC @ [8]" "replicate 32 0" "''approve join''"
        invite_disk, OF sample_separate]
      ready single_codec_faithful [of "TransactionStore.V1 join_tx"] by (simp add: file_hash_def join_provider_def invite_provider_def)
  moreover have "read_vault_bytes invite_disk sample_paths = Inr (VAULT_MAGIC @ [1])"
    using sample_lengths(1) [of 1] sample_separate [of ?root] by (auto simp: read_vault_bytes_iff invite_disk_def separate_def)
  moreover have "read_ratchet_for_root ?env invite_disk sample_paths ?root = Inr (Some invite_ratchet)"
    using sample_lengths(2) [of 9] sample_separate [of ?root]
    by (simp add: read_ratchet_Some_iff invite_disk_def join_ratchets separate_def)
  ultimately show ?thesis
    using assms by (simp add: commit_join_approval_plan_def Let_def join_ratchets)
qed

lemma join_signs: "signs_for join_env identity"
  by (simp add: signs_for_def join_provider_def invite_provider_def)

section \<open>Properties\<close>

text \<open>
  C21. A created candidate is valid, and an approved one receives the memory of its approver. A
  candidate that an identity has created, for any purpose and any suggested selectors, passes
  validation. When an administrator plans its approval, whatever the session, the grants and the
  draws, that identity opens the approval, and the ratchet seeded from what it finds is the one of
  the approver's session, without the records of unknown kinds; the approval names the root, the user
  and the approved grants. The signatures of both verify, the key exchange opens what it sealed, and
  the serialiser of the memory reads back what it wrote.
\<close>

theorem approved_candidate_receives_rollback_memory:
  assumes created: "create_join_candidate env guest purpose request_id root root_user deployment suggested = Inr candidate"
    and guest: "from_master_seed (je_prims env) (je_crypto env) seed = Inr guest" and "length request_id = 32"
    and signs: "signs_for env guest"
  shows "validate_join_candidate env candidate = Inr ()
    \<and> (\<forall>admin s draws seeds rng grants replaces plan.
        plan_join_approval env draws seeds rng admin s candidate grants replaces = Inr plan
        \<and> signs_for env admin \<and> hpke_law (je_prims env) (keys_hpke (identity_keys guest))
        \<and> faithful_codec (je_baseline env) \<and> ratchet_wf (ls_ratchet s) \<longrightarrow>
        (\<exists>baseline. open_join_baseline env guest candidate (jap_approval plan) = Inr baseline
          \<and> seed_ratchet_from_baseline (session_root s) baseline = (ls_ratchet s)\<lparr>unknown_records := []\<rparr>
          \<and> ja_trusted_root (jap_approval plan) = root \<and> ja_user_id (jap_approval plan) = identity_user guest
          \<and> ja_approved_grants (jap_approval plan) = grants))"
  using created_candidate_valid [OF created guest signs assms(3)] approval_opens [OF created guest] by blast

theorem approved_candidate_receives_rollback_memory_witness:
  "validate_join_candidate join_env join_candidate = Inr ()
   \<and> (\<exists>report plan baseline. join_plan report = Inr plan \<and> open_join_baseline join_env invite_guest join_candidate (jap_approval plan) = Inr baseline
     \<and> seed_ratchet_from_baseline (HashValue [7, 1]) baseline = invite_ratchet)"
proof -
  obtain report plan where plan: "join_plan report = Inr plan"
    using join_planned by blast
  have guest: "from_master_seed (je_prims join_env) (je_crypto join_env) (replicate 32 0) = Inr invite_guest"
    using join_identity by simp
  have s: "ls_ratchet (invite_session report) = invite_ratchet" "session_root (invite_session report) = HashValue [7, 1]"
    by (simp_all add: invite_session_def sample_session_def session_root_def)
  have wf: "ratchet_wf (ls_ratchet (invite_session report))"
    by (simp add: s ratchet_wf_def invite_ratchet_def bt_wf_def bt_get_def)
  have hpke: "hpke_law (je_prims join_env) (keys_hpke (identity_keys invite_guest))"
    by (simp add: hpke_law_def invite_prims_def sample_prims_def)
  have codec: "faithful_codec (je_baseline join_env)"
    by (simp add: single_codec_faithful)
  have "invite_ratchet\<lparr>unknown_records := []\<rparr> = invite_ratchet"
    by (simp add: invite_ratchet_def)
  with approved_candidate_receives_rollback_memory [OF join_created guest _ join_signs] plan hpke codec wf join_signs show ?thesis
    by (fastforce simp: s)
qed

text \<open>
  C20. An approval gives nothing but what was approved. A plan exists only for an administrator who may
  create every grant, and the grants only give read access. A commit that returns found the vault of
  the session on the disk; for a restoration of trust it changes nothing, and for an enrolment, of a
  user who was not a member, it found the ratchet of the session and replaced vault and ratchet at
  once. The vault keeps all records and adds, first, the candidate's own entry point and, with the
  key of the administrator, the user record of the candidate and approved grants to it; that vault
  validates without issues. Then it adds exactly one record for every secret the candidate can read
  in the report on it: the value that the administrator decrypts there, sealed again for the readers
  of that report. The result validates without issues. A commit that fails leaves the disk or a
  pending journal.
\<close>

theorem join_approval_is_confined:
  assumes plan: "plan_join_approval env draws seeds rng admin s candidate grants replaces = Inr plan"
    and sep: "separate paths (session_root s)"
    and run: "commit_join_approval_plan (sec_store (je_secrets env)) fault seed paths plan d = (res, d')"
  shows "ensure_administer (effective s) (identity_user admin) = Inr ()
    \<and> (\<forall>p \<in> set grants. (\<exists>k. p = ReadKeyspace k) \<and> ensure_can_create_permission (effective s) (identity_user admin) p = Inr ())
    \<and> (case res of
        Inl e \<Rightarrow> d' = d \<or> jc_purpose candidate = Enroll \<and> d' (transaction_path paths (session_root s)) \<noteq> None
          \<and> (\<forall>path. path \<notin> {vault_path paths, ratchet_path paths (session_root s), transaction_path paths (session_root s)}
               \<longrightarrow> d' path = d path)
      | Inr _ \<Rightarrow> map_option Inr (d (vault_path paths)) = Some (encode_vault (env_vault (sec_store (je_secrets env))) (ls_vault s))
          \<and> (if jc_purpose candidate = RestoreTrust then d' = d
             else \<not> bt_contains_key (es_users (effective s)) (jc_user_id candidate)
               \<and> read_ratchet_for_root (sec_store (je_secrets env)) d paths (session_root s) = Inr (Some (ls_ratchet s))
               \<and> (\<exists>v1 r1 vault report bytes nr. extends_by (join_record (identity_signing_public_key admin) candidate grants) (ls_vault s) v1
                    \<and> validate_vault (je_crypto env) v1 (ls_ratchet s) = Inr r1 \<and> vrep_issues r1 = []
                    \<and> reseals_for (je_secrets env) draws admin r1 (jc_user_id candidate) v1 vault
                    \<and> validate_vault (je_crypto env) vault (ls_ratchet s) = Inr report \<and> vrep_issues report = []
                    \<and> encode_vault (env_vault (sec_store (je_secrets env))) vault = Inr bytes
                    \<and> encode_ratchet (sec_store (je_secrets env)) (apply_update (vrep_ratchet_update report) (ls_ratchet s)) = Inr nr
                    \<and> d' = after_images paths (session_root s) bytes nr d)))"
  (is "_ \<and> _ \<and> ?outcome")
proof -
  from plan obtain vault report where p: "validate_join_candidate env candidate = Inr ()"
    "ensure_administer (effective s) (identity_user admin) = Inr ()"
    "check_join_purpose (effective s) (identity_user admin) candidate grants replaces = Inr ()"
    "encode_vault (env_vault (sec_store (je_secrets env))) (ls_vault s) = Inr (jap_expected_vault_bytes plan)"
    "if jc_purpose candidate = Enroll then enroll (je_secrets env) draws seeds admin s candidate grants = Inr (vault, report)
     else vault = ls_vault s \<and> report = ls_report s"
    "encode_vault (env_vault (sec_store (je_secrets env))) vault = Inr (jap_next_vault_bytes plan)"
    "jap_expected_ratchet plan = ls_ratchet s" "jap_next_ratchet plan = apply_update (vrep_ratchet_update report) (ls_ratchet s)"
    "jap_has_vault_mutation plan = (jc_purpose candidate = Enroll)"
    by (rule plan_Inr) blast
  have root: "trusted_root (jap_next_ratchet plan) = session_root s"
    by (simp add: p(8) apply_update_fields session_root_def)
  have id: "derive_user_id (je_crypto env) (jc_signing_public_key candidate) (jc_hpke_public_key candidate) = Inr (jc_user_id candidate)"
    using p(1) by (auto simp: validate_join_candidate_def and_then_Inr_iff split: if_splits)
  have grants: "\<forall>p \<in> set grants. (\<exists>k. p = ReadKeyspace k) \<and> ensure_can_create_permission (effective s) (identity_user admin) p = Inr ()"
    using p(3) check_join_grants_Inr by (auto simp: check_join_purpose_def split: JoinPurposeV1.splits if_splits)
  have enrolled: "\<not> bt_contains_key (es_users (effective s)) (jc_user_id candidate)"
      "\<exists>v1 r1. extends_by (join_record (identity_signing_public_key admin) candidate grants) (ls_vault s) v1
         \<and> validate_vault (je_crypto env) v1 (ls_ratchet s) = Inr r1 \<and> vrep_issues r1 = []
         \<and> reseals_for (je_secrets env) draws admin r1 (jc_user_id candidate) v1 vault"
      "validate_vault (je_crypto env) vault (ls_ratchet s) = Inr report" "vrep_issues report = []" if "jc_purpose candidate = Enroll"
    using that p(3,5) enroll_Inr [OF _ id, of draws seeds admin s grants vault report] by (auto simp: check_join_purpose_def split: if_splits)
  have purpose: "jc_purpose candidate = RestoreTrust \<longleftrightarrow> jc_purpose candidate \<noteq> Enroll"
    by (cases "jc_purpose candidate") auto
  note effect = commit_plan_effect [OF sep [folded root] run, unfolded root p(7,9)]
  show ?thesis
  proof (intro conjI p(2) grants)
    show ?outcome
      using effect p(4,6,8) enrolled purpose by (cases "jc_purpose candidate = Enroll") (auto split: sum.splits, blast+)
  qed
qed

theorem join_approval_is_confined_witness:
  "\<exists>report plan v1 r1 vault bytes. join_plan report = Inr plan
     \<and> commit_join_approval_plan (sec_store (je_secrets join_env)) None (replicate 32 0) sample_paths plan invite_disk =
         (Inr (), after_images sample_paths (HashValue [7, 1]) (VAULT_MAGIC @ [2]) (RATCHET_MAGIC @ [8]) invite_disk)
     \<and> extends_by (join_record [1] join_candidate join_grants) invite_vault v1
     \<and> validate_vault join_provider v1 invite_ratchet = Inr r1 \<and> vrep_issues r1 = []
     \<and> reseals_for (je_secrets join_env) (\<lambda>_. sample_draws) invite_admin r1 (UserId (HashValue [6, 3])) v1 vault
     \<and> encode_vault (env_vault (sec_store (je_secrets join_env))) vault = Inr bytes"
proof -
  obtain report plan where plan: "join_plan report = Inr plan" "jap_expected_vault_bytes plan = VAULT_MAGIC @ [1]"
      "jap_next_vault_bytes plan = VAULT_MAGIC @ [2]" "jap_expected_ratchet plan = invite_ratchet" "jap_next_ratchet plan = join_ratchet"
      "jap_has_vault_mutation plan"
    using join_planned by blast
  note run = join_commits [OF plan(2-6)]
  have s: "ls_vault (invite_session report) = invite_vault" "session_root (invite_session report) = HashValue [7, 1]"
      "jc_purpose join_candidate = Enroll" "identity_signing_public_key invite_admin = [1]" "jc_user_id join_candidate = UserId (HashValue [6, 3])"
      "ls_ratchet (invite_session report) = invite_ratchet"
    by (simp_all add: invite_session_def sample_session_def session_root_def join_candidate_def invite_admin_def sample_identity_def)
  from join_approval_is_confined [OF plan(1) _ run] sample_separate
  obtain v1 r1 vault bytes where "extends_by (join_record [1] join_candidate join_grants) invite_vault v1"
      "validate_vault join_provider v1 invite_ratchet = Inr r1" "vrep_issues r1 = []"
      "reseals_for (je_secrets join_env) (\<lambda>_. sample_draws) invite_admin r1 (UserId (HashValue [6, 3])) v1 vault"
      "encode_vault (env_vault (sec_store (je_secrets join_env))) vault = Inr bytes"
    by (auto simp: s)
  with plan(1) run show ?thesis by blast
qed

end
