(* ===== verification/Thorax_Release.thy ===== *)
theory Thorax_Release
  imports Thorax_Transaction Thorax_Provider
begin

text \<open>
  The signed releases of \<open>crates/thorax-update\<close>: versions and their epochs, the release manifest and
  its validation (\<open>manifest.rs\<close>), its signature and the check of an artifact (\<open>verify.rs\<close>), and the bounded downloads
  (\<open>download.rs\<close>).

  The network, the clock and the parser of timestamps, decompression and the replacement of the
  running binary are fields of the environment; so are the texts of errors of other crates.

  The lemmas show that a version is its text, and that an epoch is a faithful number for a version.
\<close>

section \<open>Versions\<close>

declare decimal.simps [simp del]

record Version =
  v_major :: u64
  v_minor :: u64
  v_patch :: u64

datatype VerifyError =
    InvalidSignature
  | UnexpectedPublicKey
  | BadSignature string
  | BadPublicKey string
  | Cord string
  | ArtifactSize u64 u64
  | ArtifactHash string

datatype StateError =
    Rollback string u64 u64
  | Equivocation u64
  | InvalidState string
  | LockTimeout string
  | NoStateDirectory
  | Io string

datatype ManifestError =
    UnsupportedPlatform string string
  | BadVersion string string
  | Network string
  | Verify VerifyError
  | ReleaseState StateError
  | MissingArtifact string string
  | DuplicatePlatformArtifact string string
  | UnsupportedArtifactFormat string
  | EpochMismatch string u64 u64
  | BadPublishedAt string string
  | PublishedInFuture string
  | InvalidManifest string
  | OlderThanCurrent string string

definition is_ascii_digit :: "char \<Rightarrow> bool" where
  "is_ascii_digit c \<longleftrightarrow> 48 \<le> (of_char c :: nat) \<and> (of_char c :: nat) \<le> 57"

definition digits_value :: "string \<Rightarrow> int" where
  "digits_value s = foldl (\<lambda>n c. 10 * n + (int (of_char c) - 48)) 0 s"

text \<open>\<open>str::parse::<u64>\<close>, which also takes a leading plus sign.\<close>

definition parse_u64 :: "string \<Rightarrow> u64 option" where
  "parse_u64 s =
     (let digits = (if s \<noteq> [] \<and> hd s = CHR ''+'' then tl s else s) in
      if digits \<noteq> [] \<and> list_all is_ascii_digit digits \<and> digits_value digits < 2 ^ 64
      then Some (of_int (digits_value digits)) else None)"

definition checked_mul :: "u64 \<Rightarrow> u64 \<Rightarrow> u64 option" where
  "checked_mul a b = (if uint a * uint b < 2 ^ 64 then Some (a * b) else None)"

definition checked_add :: "u64 \<Rightarrow> u64 \<Rightarrow> u64 option" where
  "checked_add a b = (if uint a + uint b < 2 ^ 64 then Some (a + b) else None)"

fun splitn :: "nat \<Rightarrow> char \<Rightarrow> string \<Rightarrow> string list" where
  "splitn 0 c s = []"
| "splitn (Suc 0) c s = [s]"
| "splitn (Suc n) c s =
     (if c \<in> set s then takeWhile (\<lambda>x. x \<noteq> c) s # splitn n c (tl (dropWhile (\<lambda>x. x \<noteq> c) s)) else [s])"

definition parse_version_component :: "string \<Rightarrow> string \<Rightarrow> string \<Rightarrow> ManifestError + u64" where
  "parse_version_component raw name component =
     (if component = [] \<or> \<not> list_all is_ascii_digit component
      then Inl (BadVersion raw (name @ '' version is not an unsigned decimal integer''))
      else if length component > 1 \<and> hd component = CHR ''0''
      then Inl (BadVersion raw (name @ '' version has a leading zero''))
      else case parse_u64 component of
        None \<Rightarrow> Inl (BadVersion raw (name @ '' version is not a valid integer: number too large to fit in target type''))
      | Some n \<Rightarrow> Inr n)"

definition parse_version :: "string \<Rightarrow> ManifestError + Version" where
  "parse_version text =
     (let s = str_trim text; parts = splitn 3 (CHR ''.'') s in
      if length parts \<noteq> 3
      then Inl (BadVersion s ''expected exactly 3 dot-separated components (major.minor.patch)'')
      else and_then (parse_version_component s ''major'' (parts ! 0)) (\<lambda>major.
           and_then (parse_version_component s ''minor'' (parts ! 1)) (\<lambda>minor.
           and_then (parse_version_component s ''patch'' (parts ! 2)) (\<lambda>patch.
             Inr \<lparr>v_major = major, v_minor = minor, v_patch = patch\<rparr>))))"

definition version_text :: "Version \<Rightarrow> string" where
  "version_text v = decimal (unat (v_major v)) @ ''.'' @ decimal (unat (v_minor v)) @ ''.'' @ decimal (unat (v_patch v))"

definition version_less :: "Version \<Rightarrow> Version \<Rightarrow> bool" where
  "version_less a b \<longleftrightarrow>
     v_major a < v_major b
     \<or> v_major a = v_major b \<and> (v_minor a < v_minor b \<or> v_minor a = v_minor b \<and> v_patch a < v_patch b)"

definition release_epoch :: "Version \<Rightarrow> ManifestError + u64" where
  "release_epoch v =
     (if v_minor v \<ge> 1000 \<or> v_patch v \<ge> 1000
      then Inl (BadVersion (version_text v) ''minor and patch components must be below 1000'')
      else case Option.bind (checked_mul (v_major v) 1000000) (\<lambda>value.
                Option.bind (checked_add value (v_minor v * 1000)) (\<lambda>value. checked_add value (v_patch v))) of
        None \<Rightarrow> Inl (BadVersion (version_text v) ''derived release epoch overflows u64'')
      | Some epoch \<Rightarrow> Inr epoch)"

definition parse_latest_version :: "string \<Rightarrow> ManifestError + Version" where
  "parse_latest_version body = parse_version (str_trim body)"

definition derive_release_epoch :: "string \<Rightarrow> ManifestError + u64" where
  "derive_release_epoch text = and_then (parse_version text) release_epoch"

definition version_from_epoch :: "u64 \<Rightarrow> string" where
  "version_from_epoch epoch =
     (let major = epoch div 1000000; remainder = epoch mod 1000000; minor = remainder div 1000; patch = remainder mod 1000 in
      decimal (unat major) @ ''.'' @ decimal (unat minor) @ ''.'' @ decimal (unat patch))"

section \<open>Release manifests\<close>

record ArtifactTargetV1 =
  at_triple :: string
  at_os :: string
  at_arch :: string
  at_abi :: "string option"

record ReleaseArtifactV1 =
  ra_name :: string
  ra_kind :: string
  ra_format :: string
  ra_url :: "string option"
  ra_target :: ArtifactTargetV1
  ra_size :: u64
  ra_sha256 :: Bytes

record ReleaseSourceV1 =
  src_tag :: string
  src_commit :: string
  src_workflow_run_id :: string

record ReleaseKeyV1 =
  rk_role :: string
  rk_public_key :: Bytes

record ReleaseManifestV1 =
  rm_version :: string
  rm_release_epoch :: u64
  rm_published_at :: string
  rm_source :: ReleaseSourceV1
  rm_artifacts :: "ReleaseArtifactV1 list"
  rm_keys :: "ReleaseKeyV1 list"

datatype ReleaseManifest = V1 ReleaseManifestV1

record SignedReleaseManifest =
  sm_body :: ReleaseManifest
  sm_signing_public_key :: Bytes
  sm_signature :: Bytes

record AcceptedReleaseV1 =
  acc_version :: string
  acc_epoch :: u64
  acc_signed_manifest_sha256 :: "Bytes option"

record UpdateStateV1 =
  highest_seen :: "AcceptedReleaseV1 option"
  highest_installed :: "AcceptedReleaseV1 option"

datatype UpdateStateStore = V1 UpdateStateV1

record ValidatedReleaseManifest =
  vm_manifest :: ReleaseManifestV1
  vm_accepted :: AcceptedReleaseV1

record CurrentTarget =
  ct_triple :: string
  ct_os :: string
  ct_arch :: string
  ct_abi :: "string option"

text \<open>
  What the component takes from outside. \<open>ue_get\<close> answers a request made with two timeouts (connect and
  global, in milliseconds) with what each read of the body returns; \<open>ue_gunzip\<close> is the first so many
  bytes of the decompressed stream; \<open>ue_replace\<close> says how replacing the running binary fails, if it
  does. \<open>ue_lock_busy\<close> says that another process keeps the lock for as long as one waits for it.
\<close>

record UpdateEnv =
  ue_prims :: Primitives
  ue_pubkey :: Bytes
  ue_body :: "ReleaseManifest \<Rightarrow> CordError + Bytes"
  ue_signed :: "SignedReleaseManifest CordCodec"
  ue_state :: "UpdateStateStore CordCodec"
  ue_os :: string
  ue_arch :: string
  ue_rfc3339 :: "string \<Rightarrow> string + int"
  ue_now :: int
  ue_debug :: "string \<Rightarrow> string"
  ue_ed25519_error :: string
  ue_current :: Version
  ue_head :: "nat \<times> nat \<Rightarrow> string \<Rightarrow> u64 option"
  ue_get :: "nat \<times> nat \<Rightarrow> string \<Rightarrow> string + (string + Bytes) list"
  ue_gunzip :: "nat \<Rightarrow> Bytes \<Rightarrow> string + Bytes"
  ue_replace :: "Bytes \<Rightarrow> string option"
  ue_var :: "string \<Rightarrow> string option"
  ue_lock_busy :: bool

primrec cord_text :: "CordError \<Rightarrow> string" where
  "cord_text (CordError text) = text"

definition REPO :: string where
  "REPO = ''backbone-hq/thorax''"

definition MANIFEST_FILE :: string where
  "MANIFEST_FILE = ''MANIFEST.cord''"

definition CLI_ARTIFACT_KIND :: string where
  "CLI_ARTIFACT_KIND = ''thorax-cli''"

definition MAX_MANIFEST_ARTIFACTS :: nat where
  "MAX_MANIFEST_ARTIFACTS = 4096"

definition MAX_MANIFEST_KEYS :: nat where
  "MAX_MANIFEST_KEYS = 64"

definition MAX_MANIFEST_FIELD_BYTES :: nat where
  "MAX_MANIFEST_FIELD_BYTES = 4096"

definition MAX_ARTIFACT_BYTES :: nat where
  "MAX_ARTIFACT_BYTES = 512 * 1024 * 1024"

definition MAX_EXTRACTED_BINARY_BYTES :: nat where
  "MAX_EXTRACTED_BINARY_BYTES = 512 * 1024 * 1024"

definition RELEASE_MANIFEST_DOMAIN :: string where
  "RELEASE_MANIFEST_DOMAIN = ''thorax.release-manifest.v1''"

primrec manifest_v1 :: "ReleaseManifest \<Rightarrow> ReleaseManifestV1" where
  "manifest_v1 (ReleaseManifest.V1 m) = m"

definition detect_target :: "UpdateEnv \<Rightarrow> ManifestError + CurrentTarget" where
  "detect_target env =
     (let os = ue_os env; arch = ue_arch env;
          target = (\<lambda>triple abi. Inr \<lparr>ct_triple = triple, ct_os = os, ct_arch = arch, ct_abi = Some abi\<rparr>) in
      if os = ''linux'' \<and> arch = ''x86_64'' then target ''x86_64-unknown-linux-gnu'' ''gnu''
      else if os = ''linux'' \<and> arch = ''aarch64'' then target ''aarch64-unknown-linux-gnu'' ''gnu''
      else if os = ''macos'' \<and> arch = ''x86_64'' then target ''x86_64-apple-darwin'' ''darwin''
      else if os = ''macos'' \<and> arch = ''aarch64'' then target ''aarch64-apple-darwin'' ''darwin''
      else if os = ''windows'' \<and> arch = ''x86_64'' then target ''x86_64-pc-windows-msvc'' ''msvc''
      else if os = ''windows'' \<and> arch = ''aarch64'' then target ''aarch64-pc-windows-msvc'' ''msvc''
      else Inl (UnsupportedPlatform os arch))"

definition cli_artifact_for_current_platform :: "UpdateEnv \<Rightarrow> ReleaseManifestV1 \<Rightarrow> ManifestError + ReleaseArtifactV1" where
  "cli_artifact_for_current_platform env manifest =
     and_then (detect_target env) (\<lambda>target.
     case filter (\<lambda>a. ra_kind a = CLI_ARTIFACT_KIND \<and> at_triple (ra_target a) = ct_triple target) (rm_artifacts manifest) of
       [] \<Rightarrow> Inl (MissingArtifact CLI_ARTIFACT_KIND (ct_triple target))
     | [artifact] \<Rightarrow>
         if ra_format artifact \<in> {''raw'', ''binary'', ''gz'', ''gzip''} then Inr artifact
         else Inl (UnsupportedArtifactFormat (ra_format artifact))
     | _ \<Rightarrow> Inl (DuplicatePlatformArtifact CLI_ARTIFACT_KIND (ct_triple target)))"

definition asset_url :: "string \<Rightarrow> string \<Rightarrow> string" where
  "asset_url owner_repo filename = ''https://github.com/'' @ owner_repo @ ''/releases/latest/download/'' @ filename"

definition for_current_platform :: "UpdateEnv \<Rightarrow> string \<Rightarrow> ManifestError + string \<times> CurrentTarget" where
  "for_current_platform env repo = and_then (detect_target env) (\<lambda>platform. Inr (asset_url repo MANIFEST_FILE, platform))"

definition artifact_url :: "string \<Rightarrow> ReleaseArtifactV1 \<Rightarrow> string" where
  "artifact_url owner_repo artifact = (case ra_url artifact of Some url \<Rightarrow> url | None \<Rightarrow> asset_url owner_repo (ra_name artifact))"

definition bounded_field :: "string \<Rightarrow> string \<Rightarrow> nat \<Rightarrow> ManifestError + unit" where
  "bounded_field name text limit =
     (if text = [] \<or> length text > limit
      then Inl (InvalidManifest (name @ '' is empty or exceeds '' @ decimal limit @ '' bytes'')) else Inr ())"

definition bounded_optional_field :: "string \<Rightarrow> string \<Rightarrow> nat \<Rightarrow> ManifestError + unit" where
  "bounded_optional_field name text limit =
     (if length text > limit then Inl (InvalidManifest (name @ '' exceeds '' @ decimal limit @ '' bytes'')) else Inr ())"

definition check_artifact :: "UpdateEnv \<Rightarrow> string set \<Rightarrow> ReleaseArtifactV1 \<Rightarrow> ManifestError + unit" where
  "check_artifact env names artifact =
     (let target = ra_target artifact in
      and_then (bounded_field ''artifact name'' (ra_name artifact) 255) (\<lambda>_.
      and_then (bounded_field ''artifact kind'' (ra_kind artifact) 128) (\<lambda>_.
      and_then (bounded_field ''artifact format'' (ra_format artifact) 64) (\<lambda>_.
      and_then (bounded_optional_field ''artifact target triple'' (at_triple target) 255) (\<lambda>_.
      and_then (bounded_optional_field ''artifact target OS'' (at_os target) 64) (\<lambda>_.
      and_then (bounded_optional_field ''artifact target architecture'' (at_arch target) 64) (\<lambda>_.
      and_then (case at_abi target of Some abi \<Rightarrow> bounded_optional_field ''artifact target ABI'' abi 64 | None \<Rightarrow> Inr ()) (\<lambda>_.
      and_then (case ra_url artifact of Some url \<Rightarrow> bounded_field ''artifact URL'' url MAX_MANIFEST_FIELD_BYTES | None \<Rightarrow> Inr ()) (\<lambda>_.
      if ra_name artifact \<in> names
      then Inl (InvalidManifest (''duplicate artifact name '' @ ue_debug env (ra_name artifact)))
      else if ra_size artifact = 0 \<or> unat (ra_size artifact) > MAX_ARTIFACT_BYTES
      then Inl (InvalidManifest (''artifact '' @ ue_debug env (ra_name artifact) @ '' has an invalid size''))
      else if length (ra_sha256 artifact) \<noteq> 32
      then Inl (InvalidManifest (''artifact '' @ ue_debug env (ra_name artifact) @ '' SHA-256 is not 32 bytes''))
      else Inr ())))))))))"

fun check_artifacts :: "UpdateEnv \<Rightarrow> string set \<Rightarrow> ReleaseArtifactV1 list \<Rightarrow> ManifestError + unit" where
  "check_artifacts env names [] = Inr ()"
| "check_artifacts env names (artifact # artifacts) =
     and_then (check_artifact env names artifact) (\<lambda>_. check_artifacts env (insert (ra_name artifact) names) artifacts)"

definition check_release_key :: "ReleaseKeyV1 \<Rightarrow> ManifestError + unit" where
  "check_release_key key =
     and_then (bounded_field ''release key role'' (rk_role key) 128) (\<lambda>_.
     if rk_public_key key = [] \<or> length (rk_public_key key) > MAX_MANIFEST_FIELD_BYTES
     then Inl (InvalidManifest ''release public key is empty or too large'') else Inr ())"

text \<open>Instants are nanoseconds; a day is what the clock of a release may be ahead.\<close>

definition validate_complete_manifest :: "UpdateEnv \<Rightarrow> ReleaseManifestV1 \<Rightarrow> ManifestError + unit" where
  "validate_complete_manifest env manifest =
     and_then (parse_version (rm_version manifest)) (\<lambda>version.
     and_then (release_epoch version) (\<lambda>derived.
     if rm_release_epoch manifest \<noteq> derived
     then Inl (EpochMismatch (rm_version manifest) (rm_release_epoch manifest) derived)
     else and_then (map_err (BadPublishedAt (rm_published_at manifest)) (ue_rfc3339 env (rm_published_at manifest))) (\<lambda>published.
     if published > ue_now env + 24 * 3600 * 1000000000 then Inl (PublishedInFuture (rm_published_at manifest))
     else and_then (bounded_field ''version'' (rm_version manifest) 64) (\<lambda>_.
     and_then (bounded_field ''published_at'' (rm_published_at manifest) 128) (\<lambda>_.
     and_then (bounded_field ''source tag'' (src_tag (rm_source manifest)) MAX_MANIFEST_FIELD_BYTES) (\<lambda>_.
     and_then (bounded_field ''source commit'' (src_commit (rm_source manifest)) MAX_MANIFEST_FIELD_BYTES) (\<lambda>_.
     and_then (bounded_field ''workflow run ID'' (src_workflow_run_id (rm_source manifest)) MAX_MANIFEST_FIELD_BYTES) (\<lambda>_.
     if rm_artifacts manifest = [] \<or> length (rm_artifacts manifest) > MAX_MANIFEST_ARTIFACTS
     then Inl (InvalidManifest ''artifact list is empty or exceeds the supported maximum'')
     else if length (rm_keys manifest) > MAX_MANIFEST_KEYS
     then Inl (InvalidManifest ''release key list exceeds the supported maximum'')
     else and_then (check_artifacts env {} (rm_artifacts manifest)) (\<lambda>_.
     and_then (collect_results check_release_key (rm_keys manifest)) (\<lambda>_.
     and_then (cli_artifact_for_current_platform env manifest) (\<lambda>_. Inr ())))))))))))"

section \<open>Verification\<close>

definition manifest_body_bytes :: "UpdateEnv \<Rightarrow> ReleaseManifest \<Rightarrow> VerifyError + Bytes" where
  "manifest_body_bytes env body = map_err (\<lambda>e. VerifyError.Cord (cord_text e)) (ue_body env body)"

definition manifest_signature_message :: "Bytes \<Rightarrow> Bytes" where
  "manifest_signature_message body_bytes = signature_transcript RELEASE_MANIFEST_DOMAIN body_bytes"

definition signed_manifest_bytes :: "UpdateEnv \<Rightarrow> SignedReleaseManifest \<Rightarrow> VerifyError + Bytes" where
  "signed_manifest_bytes env sm = map_err (\<lambda>e. VerifyError.Cord (cord_text e)) (cord_ser (ue_signed env) sm)"

definition verify_manifest_signature :: "UpdateEnv \<Rightarrow> SignedReleaseManifest \<Rightarrow> Bytes \<Rightarrow> VerifyError + unit" where
  "verify_manifest_signature env sm expected_public_key =
     (if sm_signing_public_key sm \<noteq> expected_public_key then Inl UnexpectedPublicKey
      else if \<not> ed25519_public_valid (ue_prims env) expected_public_key then Inl (BadPublicKey (ue_ed25519_error env))
      else if length (sm_signature sm) \<noteq> ED25519_SIGNATURE_LEN then Inl (BadSignature (ue_ed25519_error env))
      else and_then (manifest_body_bytes env (sm_body sm)) (\<lambda>body_bytes.
        if ed25519_verify_strict (ue_prims env) expected_public_key (manifest_signature_message body_bytes) (sm_signature sm)
        then Inr () else Inl VerifyError.InvalidSignature))"

definition verify_signed_manifest_with_key :: "UpdateEnv \<Rightarrow> Bytes \<Rightarrow> Bytes \<Rightarrow> VerifyError + ReleaseManifest" where
  "verify_signed_manifest_with_key env bytes expected_public_key =
     and_then (map_err (\<lambda>e. VerifyError.Cord (cord_text e)) (cord_de (ue_signed env) bytes)) (\<lambda>sm.
     and_then (verify_manifest_signature env sm expected_public_key) (\<lambda>_. Inr (sm_body sm)))"

definition verify_signed_manifest :: "UpdateEnv \<Rightarrow> Bytes \<Rightarrow> VerifyError + ReleaseManifest" where
  "verify_signed_manifest env bytes = verify_signed_manifest_with_key env bytes (ue_pubkey env)"

definition verify_artifact_bytes :: "UpdateEnv \<Rightarrow> ReleaseArtifactV1 \<Rightarrow> Bytes \<Rightarrow> VerifyError + unit" where
  "verify_artifact_bytes env artifact bytes =
     (if of_nat (length bytes) \<noteq> ra_size artifact then Inl (ArtifactSize (ra_size artifact) (of_nat (length bytes)))
      else if sha256 (ue_prims env) bytes \<noteq> ra_sha256 artifact then Inl (ArtifactHash (ra_name artifact)) else Inr ())"


definition verify_signed_archive :: "UpdateEnv \<Rightarrow> Bytes \<Rightarrow> Bytes \<Rightarrow> VerifyError + unit" where
  "verify_signed_archive env data signature_bytes =
     (if length signature_bytes \<noteq> ED25519_SIGNATURE_LEN then Inl (BadSignature (ue_ed25519_error env))
      else if \<not> ed25519_public_valid (ue_prims env) (ue_pubkey env) then Inl (BadPublicKey (ue_ed25519_error env))
      else if ed25519_verify_strict (ue_prims env) (ue_pubkey env) (sha256 (ue_prims env) data) signature_bytes
      then Inr () else Inl VerifyError.InvalidSignature)"

primrec verify_error_text :: "VerifyError \<Rightarrow> string" where
  "verify_error_text InvalidSignature = ''invalid Ed25519 signature (public key mismatch or tampered data)''"
| "verify_error_text UnexpectedPublicKey = ''manifest was signed by an unexpected public key''"
| "verify_error_text (BadSignature e) = ''invalid signature format: '' @ e"
| "verify_error_text (BadPublicKey e) = ''invalid public key: '' @ e"
| "verify_error_text (Cord e) = ''cord encode/decode error: '' @ e"
| "verify_error_text (ArtifactSize expected actual) =
     ''artifact size mismatch: expected '' @ decimal (unat expected) @ '', got '' @ decimal (unat actual)"
| "verify_error_text (ArtifactHash artifact) = ''artifact hash mismatch for '' @ artifact"

section \<open>Downloads\<close>

datatype DownloadError =
    Http string string
  | TooLarge nat

primrec download_error_text :: "DownloadError \<Rightarrow> string" where
  "download_error_text (Http url detail) = ''failed to download '' @ url @ '': '' @ detail"
| "download_error_text (TooLarge limit) = ''download exceeds the supported maximum of '' @ decimal limit @ '' bytes''"

definition MAX_MANIFEST_BYTES :: nat where
  "MAX_MANIFEST_BYTES = 1024 * 1024"

definition agent :: "nat \<times> nat" where
  "agent = (30000, 120000)"

fun read_chunks :: "string \<Rightarrow> nat \<Rightarrow> Bytes \<Rightarrow> (string + Bytes) list \<Rightarrow> DownloadError + Bytes" where
  "read_chunks url limit buf [] = Inr buf"
| "read_chunks url limit buf (Inl e # reads) = Inl (Http url (''read error: '' @ e))"
| "read_chunks url limit buf (Inr chunk # reads) =
     (if chunk = [] then Inr buf
      else if length buf + length chunk > limit then Inl (TooLarge limit)
      else read_chunks url limit (buf @ chunk) reads)"

definition download_with_progress_bounded :: "UpdateEnv \<Rightarrow> string \<Rightarrow> nat \<Rightarrow> DownloadError + Bytes" where
  "download_with_progress_bounded env url limit =
     (case ue_get env agent url of
        Inl e \<Rightarrow> Inl (Http url e)
      | Inr reads \<Rightarrow>
          if (case ue_head env agent url of None \<Rightarrow> False | Some head_size \<Rightarrow> unat head_size > limit)
          then Inl (TooLarge limit) else read_chunks url limit [] reads)"

definition download_with_progress :: "UpdateEnv \<Rightarrow> string \<Rightarrow> DownloadError + Bytes" where
  "download_with_progress env url = download_with_progress_bounded env url MAX_ARTIFACT_BYTES"

text \<open>\<open>read_to_end\<close> on a reader limited by \<open>take\<close>.\<close>

fun read_to_end :: "nat \<Rightarrow> (string + Bytes) list \<Rightarrow> string + Bytes" where
  "read_to_end limit [] = Inr []"
| "read_to_end limit (r # reads) =
     (if limit = 0 then Inr []
      else case r of
        Inl e \<Rightarrow> Inl e
      | Inr chunk \<Rightarrow>
          if chunk = [] then Inr []
          else and_then (read_to_end (limit - length chunk) reads) (\<lambda>rest. Inr (take limit chunk @ rest)))"

definition download_small_with_agent :: "UpdateEnv \<Rightarrow> string \<Rightarrow> nat \<times> nat \<Rightarrow> nat \<Rightarrow> DownloadError + Bytes" where
  "download_small_with_agent env url agent' limit =
     (case ue_get env agent' url of
        Inl e \<Rightarrow> Inl (Http url e)
      | Inr reads \<Rightarrow>
          (case read_to_end (limit + 1) reads of
             Inl e \<Rightarrow> Inl (Http url (''read error: '' @ e))
           | Inr buf \<Rightarrow> if length buf > limit then Inl (TooLarge limit) else Inr buf))"

definition download_small :: "UpdateEnv \<Rightarrow> string \<Rightarrow> DownloadError + Bytes" where
  "download_small env url = download_small_with_agent env url agent MAX_MANIFEST_BYTES"

definition download_small_with_timeout :: "UpdateEnv \<Rightarrow> string \<Rightarrow> nat \<Rightarrow> nat \<Rightarrow> DownloadError + Bytes" where
  "download_small_with_timeout env url connect global = download_small_with_agent env url (connect, global) MAX_MANIFEST_BYTES"

section \<open>Epochs and versions\<close>

lemma digit_of_char [simp]: "k < 10 \<Longrightarrow> (of_char (char_of (48 + k :: nat)) :: nat) = 48 + k"
  by (simp add: of_char_of)

lemma decimal_digits: "list_all is_ascii_digit (decimal n) \<and> decimal n \<noteq> []"
proof (induction n rule: decimal.induct)
  case (1 n)
  then show ?case by (subst decimal.simps, subst (2) decimal.simps) (simp add: is_ascii_digit_def [of "char_of _"] mod_less_divisor less_Suc_eq_le [symmetric])
qed

lemma digits_value_snoc: "digits_value (s @ [c]) = 10 * digits_value s + (int (of_char c) - 48)"
  by (simp add: digits_value_def)

lemma digits_value_decimal: "digits_value (decimal n) = int n"
proof (induction n rule: decimal.induct)
  case (1 n)
  show ?case
  proof (cases "n < 10")
    case True
    then show ?thesis by (subst decimal.simps) (simp add: digits_value_def)
  next
    case False
    then show ?thesis using 1 by (subst decimal.simps) (simp add: digits_value_snoc of_nat_div of_nat_mod)
  qed
qed

lemma decimal_no_leading_zero: "0 < n \<Longrightarrow> hd (decimal n) \<noteq> CHR ''0''"
proof (induction n rule: decimal.induct)
  case (1 n)
  show ?case
  proof (cases "n < 10")
    case True
    then have "(of_char (char_of (48 + n)) :: nat) \<noteq> of_char (CHR ''0'')"
      using 1(2) by (subst digit_of_char) simp_all
    then have "char_of (48 + n) \<noteq> CHR ''0''" by metis
    then show ?thesis using True by (subst decimal.simps) simp
  next
    case False
    then show ?thesis using 1 decimal_digits [of "n div 10"] by (subst decimal.simps) simp
  qed
qed

lemma digits_value_nonneg: "list_all is_ascii_digit s \<Longrightarrow> 0 \<le> digits_value s"
proof (induction s rule: rev_induct)
  case (snoc c s)
  then have "48 \<le> int (of_char c)" by (simp add: is_ascii_digit_def)
  with snoc show ?case by (simp add: digits_value_snoc)
qed (simp add: digits_value_def)

lemma digit_char: "is_ascii_digit c \<Longrightarrow> \<exists>k < 10. c = char_of (48 + k :: nat)"
  by (rule exI [of _ "of_char c - 48"]) (auto simp: is_ascii_digit_def)

text \<open>A text of digits without a leading zero is the decimal of its value.\<close>

lemma decimal_digits_value:
  assumes "list_all is_ascii_digit s" and "s \<noteq> []" and "length s > 1 \<Longrightarrow> hd s \<noteq> CHR ''0''"
  shows "decimal (nat (digits_value s)) = s"
  using assms
proof (induction s rule: rev_induct)
  case (snoc c s)
  obtain k where k: "k < 10" "c = char_of (48 + k :: nat)"
    using digit_char [of c] snoc.prems by auto
  show ?case
  proof (cases "s = []")
    case True
    then show ?thesis using k by (subst decimal.simps) (simp add: digits_value_def)
  next
    case False
    have hd: "hd s \<noteq> CHR ''0''" using snoc.prems(3) False by (cases s) auto
    have IH: "decimal (nat (digits_value s)) = s"
      using snoc hd False by auto
    have pos: "0 < digits_value s"
    proof (rule ccontr)
      assume "\<not> 0 < digits_value s"
      then have "s = [char_of (48 :: nat)]" using IH by (simp add: decimal.simps)
      then show False using hd char_of_char [where 'a = nat and c = "CHR ''0''"] by simp
    qed
    have "nat (digits_value (s @ [c])) = 10 * nat (digits_value s) + k"
      using k pos by (simp add: digits_value_snoc nat_add_distrib nat_mult_distrib)
    then show ?thesis using IH k pos by (subst decimal.simps) simp
  qed
qed simp

lemma parse_component_iff:
  "parse_version_component raw name s = Inr w \<longleftrightarrow> s = decimal (unat w)"
proof
  assume "parse_version_component raw name s = Inr w"
  then have s: "list_all is_ascii_digit s" "s \<noteq> []" "length s > 1 \<Longrightarrow> hd s \<noteq> CHR ''0''"
    and p: "parse_u64 s = Some w"
    by (auto simp: parse_version_component_def split: if_splits option.splits)
  have "hd s \<noteq> CHR ''+''"
    using s(1,2) by (cases s) (auto simp: is_ascii_digit_def)
  then have "w = of_int (digits_value s)" "digits_value s < 2 ^ 64"
    using p s(2) by (auto simp: parse_u64_def Let_def split: if_splits)
  then have "unat w = nat (digits_value s)"
    using digits_value_nonneg [OF s(1)] by (simp add: unat_eq_nat_uint uint_word_of_int_eq take_bit_int_eq_self)
  then show "s = decimal (unat w)"
    using decimal_digits_value [OF s] by simp
next
  assume s: "s = decimal (unat w)"
  have d: "list_all is_ascii_digit s" "s \<noteq> []" using s decimal_digits by auto
  have plus: "hd s \<noteq> CHR ''+''" using d by (cases s) (auto simp: is_ascii_digit_def)
  have "hd s \<noteq> CHR ''0''" if "length s > 1"
  proof (cases "unat w = 0")
    case True then show ?thesis using that s by (simp add: decimal.simps)
  next
    case False then show ?thesis using s decimal_no_leading_zero by simp
  qed
  moreover have "parse_u64 s = Some w"
    using plus d s unsigned_less [where w = w and 'a = int] by (auto simp: parse_u64_def Let_def digits_value_decimal)
  ultimately show "parse_version_component raw name s = Inr w"
    using d by (auto simp: parse_version_component_def)
qed


lemma splitn_Suc_Suc:
  "splitn (Suc (Suc n)) c s =
     (if c \<in> set s then takeWhile (\<lambda>x. x \<noteq> c) s # splitn (Suc n) c (tl (dropWhile (\<lambda>x. x \<noteq> c) s)) else [s])"
  by simp

lemma splitn_3_iff:
  "splitn 3 c s = [x, y, z] \<longleftrightarrow> s = x @ c # y @ c # z \<and> c \<notin> set x \<and> c \<notin> set y"
proof -
  have step: "c \<in> set s \<Longrightarrow> s = takeWhile (\<lambda>x. x \<noteq> c) s @ c # tl (dropWhile (\<lambda>x. x \<noteq> c) s)" for s
    by (induction s) auto
  have cut: "takeWhile (\<lambda>x. x \<noteq> c) (x @ c # t) = x" "tl (dropWhile (\<lambda>x. x \<noteq> c) (x @ c # t)) = t" if "c \<notin> set x" for x t
    using that by (induction x) auto
  have no: "c \<notin> set (takeWhile (\<lambda>x. x \<noteq> c) s)" for s
    by (auto dest: set_takeWhileD)
  show ?thesis
  proof
    assume "splitn 3 c s = [x, y, z]"
    then show "s = x @ c # y @ c # z \<and> c \<notin> set x \<and> c \<notin> set y"
      using step [of s] step [of "tl (dropWhile (\<lambda>x. x \<noteq> c) s)"] no
      by (auto simp: numeral_3_eq_3 split: if_splits)
  next
    assume "s = x @ c # y @ c # z \<and> c \<notin> set x \<and> c \<notin> set y"
    then show "splitn 3 c s = [x, y, z]"
      by (simp add: numeral_3_eq_3 cut)
  qed
qed

lemma splitn_3_length: "length (splitn 3 c s) = 3 \<longleftrightarrow> (\<exists>x y z. splitn 3 c s = [x, y, z])"
  by (auto simp: length_Suc_conv numeral_3_eq_3 simp del: splitn.simps)

lemma decimal_no_dot: "CHR ''.'' \<notin> set (decimal n)"
  using decimal_digits [of n] by (auto simp: list_all_iff is_ascii_digit_def)

lemma version_text_split: "splitn 3 (CHR ''.'') (version_text v) =
    [decimal (unat (v_major v)), decimal (unat (v_minor v)), decimal (unat (v_patch v))]"
  by (simp add: splitn_3_iff version_text_def decimal_no_dot)

lemma parse_version_iff: "parse_version text = Inr v \<longleftrightarrow> str_trim text = version_text v"
proof
  assume p: "parse_version text = Inr v"
  then obtain x y z where parts: "splitn 3 (CHR ''.'') (str_trim text) = [x, y, z]"
    using splitn_3_length by (auto simp: parse_version_def Let_def split: if_splits)
  then have "x = decimal (unat (v_major v))" "y = decimal (unat (v_minor v))" "z = decimal (unat (v_patch v))"
    using p by (auto simp: parse_version_def Let_def and_then_Inr_iff parse_component_iff)
  then show "str_trim text = version_text v"
    using parts by (simp add: splitn_3_iff version_text_def)
next
  assume "str_trim text = version_text v"
  then show "parse_version text = Inr v"
    by (simp add: parse_version_def Let_def version_text_split parse_component_iff [THEN iffD2])
qed

lemma checked_arith:
  "checked_mul a b = Some c \<longleftrightarrow> uint c = uint a * uint b"
  "checked_add a b = Some c \<longleftrightarrow> uint c = uint a + uint b"
proof -
  have bound: "uint c < 2 ^ 64" "0 \<le> uint c"
    using unsigned_less [where w = c and 'a = int] by simp_all
  have "uint a * uint b < 2 ^ 64 \<Longrightarrow> uint (a * b) = uint a * uint b"
    by (simp add: uint_word_arith_bintrs take_bit_int_eq_self)
  then show "checked_mul a b = Some c \<longleftrightarrow> uint c = uint a * uint b"
    using bound by (auto simp: checked_mul_def word_uint_eq_iff)
  have "uint a + uint b < 2 ^ 64 \<Longrightarrow> uint (a + b) = uint a + uint b"
    by (simp add: uint_word_arith_bintrs take_bit_int_eq_self)
  then show "checked_add a b = Some c \<longleftrightarrow> uint c = uint a + uint b"
    using bound by (auto simp: checked_add_def word_uint_eq_iff)
qed

lemma option_to_result: "(case m of None \<Rightarrow> Inl e | Some x \<Rightarrow> Inr x) = Inr y \<longleftrightarrow> m = Some y"
  by (cases m) simp_all

lemma mixed_radix:
  fixes a b c e :: int
  assumes "0 \<le> b" "b < 1000" "0 \<le> c" "c < 1000"
  shows "e = a * 1000000 + b * 1000 + c \<longleftrightarrow> a = e div 1000000 \<and> b = e mod 1000000 div 1000 \<and> c = e mod 1000000 mod 1000"
proof
  assume e: "e = a * 1000000 + b * 1000 + c"
  have low: "0 \<le> b * 1000 + c" "b * 1000 + c < 1000000" using assms by linarith+
  have "e div 1000000 = a" "e mod 1000000 = b * 1000 + c"
    using div_mult_self3 [of 1000000 "b * 1000 + c" a] mod_mult_self3 [of a 1000000 "b * 1000 + c"] low
    by (simp_all add: e add.assoc div_pos_pos_trivial mod_pos_pos_trivial del: mod_mult_self3)
  moreover have "(b * 1000 + c) div 1000 = b" "(b * 1000 + c) mod 1000 = c"
    using assms by (simp_all add: div_pos_pos_trivial mod_pos_pos_trivial)
  ultimately show "a = e div 1000000 \<and> b = e mod 1000000 div 1000 \<and> c = e mod 1000000 mod 1000"
    by simp
next
  assume "a = e div 1000000 \<and> b = e mod 1000000 div 1000 \<and> c = e mod 1000000 mod 1000"
  then show "e = a * 1000000 + b * 1000 + c"
    using div_mult_mod_eq [of e 1000000] div_mult_mod_eq [of "e mod 1000000" 1000] by linarith
qed

lemma mixed_radix_less:
  fixes a b c a' b' c' :: int
  assumes "0 \<le> b" "b < 1000" "0 \<le> c" "c < 1000" "0 \<le> b'" "b' < 1000" "0 \<le> c'" "c' < 1000"
  shows "a * 1000000 + b * 1000 + c < a' * 1000000 + b' * 1000 + c' \<longleftrightarrow> a < a' \<or> a = a' \<and> (b < b' \<or> b = b' \<and> c < c')"
  using assms by (cases "a < a'"; cases "a = a'"; cases "b < b'"; cases "b = b'") auto

lemma release_epoch_iff:
  "release_epoch v = Inr e \<longleftrightarrow>
     v_minor v < 1000 \<and> v_patch v < 1000 \<and> uint e = uint (v_major v) * 1000000 + uint (v_minor v) * 1000 + uint (v_patch v)"
proof -
  have minor: "uint (v_minor v * 1000) = uint (v_minor v) * 1000" if "v_minor v < 1000"
    using that by (simp add: word_less_def uint_word_arith_bintrs take_bit_int_eq_self)
  have up: "\<exists>w :: u64. uint w = n" if "0 \<le> n" "n \<le> uint e" for n
    using that unsigned_less [where w = e and 'a = int] by (intro exI [of _ "of_int n"]) (simp add: uint_word_of_int_eq take_bit_int_eq_self)
  show ?thesis
  proof (cases "v_minor v < 1000 \<and> v_patch v < 1000")
    case True
    then have "release_epoch v = Inr e \<longleftrightarrow>
        (\<exists>(a :: u64) (b :: u64). uint a = uint (v_major v) * 1000000 \<and> uint b = uint a + uint (v_minor v * 1000) \<and> uint e = uint b + uint (v_patch v))"
      by (simp add: release_epoch_def not_le [symmetric] checked_arith bind_eq_Some_conv option_to_result)
    also have "\<dots> \<longleftrightarrow> uint e = uint (v_major v) * 1000000 + uint (v_minor v) * 1000 + uint (v_patch v)"
    proof
      assume e: "uint e = uint (v_major v) * 1000000 + uint (v_minor v) * 1000 + uint (v_patch v)"
      obtain a b :: u64 where "uint a = uint (v_major v) * 1000000" "uint b = uint (v_major v) * 1000000 + uint (v_minor v) * 1000"
        using up [of "uint (v_major v) * 1000000"] up [of "uint (v_major v) * 1000000 + uint (v_minor v) * 1000"] by (auto simp: e)
      then show "\<exists>(a :: u64) (b :: u64). uint a = uint (v_major v) * 1000000 \<and> uint b = uint a + uint (v_minor v * 1000) \<and> uint e = uint b + uint (v_patch v)"
        using e minor True by (intro exI [of _ a] exI [of _ b]) simp
    qed (use minor True in auto)
    finally show ?thesis using True by simp
  next
    case False
    then show ?thesis by (auto simp: release_epoch_def not_le)
  qed
qed

definition epoch_version :: "u64 \<Rightarrow> Version" where
  "epoch_version e = \<lparr>v_major = e div 1000000, v_minor = e mod 1000000 div 1000, v_patch = e mod 1000000 mod 1000\<rparr>"

lemma version_from_epoch_text: "version_from_epoch e = version_text (epoch_version e)"
  by (simp add: version_from_epoch_def version_text_def epoch_version_def Let_def)

lemma release_epoch_epoch_version: "release_epoch v = Inr e \<longleftrightarrow> v = epoch_version e"
proof -
  have u: "uint (e div 1000000) = uint e div 1000000" "uint (e mod 1000000 div 1000) = uint e mod 1000000 div 1000"
    "uint (e mod 1000000 mod 1000) = uint e mod 1000000 mod 1000"
    by (simp_all add: uint_div uint_mod)
  have "v = epoch_version e \<longleftrightarrow> uint (v_major v) = uint e div 1000000 \<and> uint (v_minor v) = uint e mod 1000000 div 1000
      \<and> uint (v_patch v) = uint e mod 1000000 mod 1000"
    by (cases v) (simp add: epoch_version_def word_uint_eq_iff u)
  also have "\<dots> \<longleftrightarrow> v_minor v < 1000 \<and> v_patch v < 1000 \<and>
      uint e = uint (v_major v) * 1000000 + uint (v_minor v) * 1000 + uint (v_patch v)"
    using mixed_radix [of "uint (v_minor v)" "uint (v_patch v)" "uint e" "uint (v_major v)"]
    by (auto simp: word_less_def)
  finally show ?thesis by (simp add: release_epoch_iff)
qed

lemma version_text_inject: "version_text v = version_text w \<longleftrightarrow> v = w"
proof
  assume "version_text v = version_text w"
  then have "decimal (unat (v_major v)) = decimal (unat (v_major w))" "decimal (unat (v_minor v)) = decimal (unat (v_minor w))"
      "decimal (unat (v_patch v)) = decimal (unat (v_patch w))"
    using version_text_split [of v] version_text_split [of w] by simp_all
  then have "unat (v_major v) = unat (v_major w)" "unat (v_minor v) = unat (v_minor w)" "unat (v_patch v) = unat (v_patch w)"
    by (metis digits_value_decimal of_nat_eq_iff)+
  then show "v = w" by (cases v; cases w) (simp add: word_unat_eq_iff)
qed simp

lemma version_text_trim: "str_trim (version_text v) = version_text v"
proof (rule trim_plain)
  show "\<forall>c \<in> set (version_text v). \<not> is_continuation c \<and> \<not> is_whitespace [c]"
    using decimal_digits by (fastforce simp: version_text_def list_all_iff is_ascii_digit_def is_continuation_def is_whitespace_def Let_def)
qed

lemma epoch_less_iff:
  assumes "release_epoch v = Inr e" and "release_epoch w = Inr f"
  shows "version_less v w \<longleftrightarrow> e < f"
  using assms mixed_radix_less [of "uint (v_minor v)" "uint (v_patch v)" "uint (v_minor w)" "uint (v_patch w)" "uint (v_major v)" "uint (v_major w)"]
  by (auto simp: release_epoch_iff version_less_def word_less_def word_uint_eq_iff)

lemma derive_release_epoch_iff: "derive_release_epoch text = Inr e \<longleftrightarrow> str_trim text = version_from_epoch e"
  by (simp add: derive_release_epoch_def and_then_Inr_iff parse_version_iff release_epoch_epoch_version version_from_epoch_text)


text \<open>
  C24. A release epoch is a faithful number for a version. A text parses to a version exactly when, trimmed, it is
  the text of that version: signs, leading zeros, a fourth component or an overflowing number are
  refused. It has the epoch \<open>e\<close> exactly when, trimmed, it is the version that the migration of old
  markers writes for \<open>e\<close>, so every 64-bit number is the epoch of one version, and the checked
  multiplication and additions never give a wrapped number. The order of the epochs is the order of the versions, and
  equal epochs have equal versions.
\<close>

theorem epochs_number_versions:
  "(parse_version text = Inr v \<longleftrightarrow> str_trim text = version_text v)
   \<and> (derive_release_epoch text = Inr e \<longleftrightarrow> str_trim text = version_from_epoch e)
   \<and> derive_release_epoch (version_from_epoch e) = Inr e
   \<and> (release_epoch v = Inr e \<and> release_epoch w = Inr f \<longrightarrow> (version_less v w \<longleftrightarrow> e < f) \<and> (v = w \<longleftrightarrow> e = f))"
proof (intro conjI impI)
  show "derive_release_epoch (version_from_epoch e) = Inr e"
    by (simp add: derive_release_epoch_iff version_from_epoch_text version_text_trim)
  assume vw: "release_epoch v = Inr e \<and> release_epoch w = Inr f"
  then show "version_less v w \<longleftrightarrow> e < f"
    by (simp add: epoch_less_iff)
  show "v = w \<longleftrightarrow> e = f"
    by (metis vw release_epoch_epoch_version sum.inject(2))
qed (simp_all add: parse_version_iff derive_release_epoch_iff)

theorem epochs_number_versions_witness:
  "release_epoch \<lparr>v_major = 2, v_minor = 34, v_patch = 56\<rparr> = Inr 2034056
   \<and> release_epoch \<lparr>v_major = 2, v_minor = 35, v_patch = 0\<rparr> = Inr 2035000
   \<and> version_less \<lparr>v_major = 2, v_minor = 34, v_patch = 56\<rparr> \<lparr>v_major = 2, v_minor = 35, v_patch = 0\<rparr>
   \<and> derive_release_epoch '' 2.34.56'' = Inr 2034056 \<and> version_from_epoch 2034056 = ''2.34.56''"
proof -
  have "release_epoch \<lparr>v_major = 2, v_minor = 34, v_patch = 56\<rparr> = Inr 2034056"
    "release_epoch \<lparr>v_major = 2, v_minor = 35, v_patch = 0\<rparr> = Inr 2035000"
    by (simp_all add: release_epoch_iff)
  moreover have "version_from_epoch 2034056 = ''2.34.56''"
    by code_simp
  moreover have "str_trim '' 2.34.56'' = ''2.34.56''"
    by code_simp
  ultimately show ?thesis
    using epochs_number_versions [of "'' 2.34.56''" "\<lparr>v_major = 2, v_minor = 34, v_patch = 56\<rparr>" 2034056
        "\<lparr>v_major = 2, v_minor = 35, v_patch = 0\<rparr>" 2035000] by auto
qed

end
