(* ===== verification/Thorax_Update.thy ===== *)
theory Thorax_Update
  imports Thorax_Release
begin

text \<open>
  The self-update of \<open>crates/thorax-update\<close>: the memory of releases seen and installed with its
  migration from the older marker files (\<open>state.rs\<close>), accepting a signed manifest (\<open>manifest.rs\<close>), the update itself
  and the passive notice (\<open>lib.rs\<close>). The disk of
  this component is the one state directory of the user, so the base directory of the source
  appears only in the errors of its lock: its state file, the directory of the old markers, the cache of the passive check and
  the binary that runs. Reading and writing these files succeeds, apart from a missing or an oversized one.

  The theorems show that the memory of releases never goes back, whatever operations run, and that an
  update installs nothing but a signed and newer release.
\<close>

section \<open>The memory of releases\<close>

text \<open>
  The disk of this component: the state file, the directory of the old markers (a name that is not
  UTF-8 is \<open>None\<close>), the cache of the passive check with the time it was written, and the binary that
  runs.
\<close>

record LegacyEntry =
  le_name :: "string option"
  le_is_file :: bool

record UpdateDisk =
  ud_state :: "Bytes option"
  ud_legacy :: "LegacyEntry list option"
  ud_passive :: "(Bytes \<times> int) option"
  ud_binary :: Bytes

type_synonym ('e, 'a) UpdateOp = "UpdateDisk \<Rightarrow> ('e + 'a) \<times> UpdateDisk"

definition upd_read :: "(UpdateDisk \<Rightarrow> 'e + 'a) \<Rightarrow> ('e, 'a) UpdateOp" where
  "upd_read f d = (f d, d)"

definition upd_set :: "(UpdateDisk \<Rightarrow> UpdateDisk) \<Rightarrow> ('e, unit) UpdateOp" where
  "upd_set f d = (Inr (), f d)"

definition upd_then :: "('e, 'a) UpdateOp \<Rightarrow> ('a \<Rightarrow> ('e, 'b) UpdateOp) \<Rightarrow> ('e, 'b) UpdateOp" where
  "upd_then m f d = (case m d of (Inl e, d1) \<Rightarrow> (Inl e, d1) | (Inr x, d1) \<Rightarrow> f x d1)"

definition upd_err :: "('e \<Rightarrow> 'f) \<Rightarrow> ('e, 'a) UpdateOp \<Rightarrow> ('f, 'a) UpdateOp" where
  "upd_err f m d = (map_err f (fst (m d)), snd (m d))"

definition UPDATE_STATE_FILE :: string where
  "UPDATE_STATE_FILE = ''update-state.cord''"

definition UPDATE_STATE_LOCK_FILE :: string where
  "UPDATE_STATE_LOCK_FILE = ''update-state.lock''"

definition UPDATE_STATE_MAGIC :: Bytes where
  "UPDATE_STATE_MAGIC = str_bytes ''thorax-update-state'' @ [0]"

definition MAX_UPDATE_STATE_BYTES :: nat where
  "MAX_UPDATE_STATE_BYTES = 64 * 1024"

definition update_state_base :: "UpdateEnv \<Rightarrow> StateError + string" where
  "update_state_base env =
     (case ue_var env ''THORAX_UPDATE_STATE_DIR'' of
        Some path \<Rightarrow> Inr path
      | None \<Rightarrow>
          if ue_os env = ''windows''
          then (case ue_var env ''APPDATA'' of Some path \<Rightarrow> Inr (path @ ''/Thorax'') | None \<Rightarrow> Inl NoStateDirectory)
          else (case ue_var env ''XDG_STATE_HOME'' of
                  Some path \<Rightarrow> Inr (path @ ''/thorax'')
                | None \<Rightarrow> (case ue_var env ''HOME'' of Some path \<Rightarrow> Inr (path @ ''/.local/state/thorax'') | None \<Rightarrow> Inl NoStateDirectory)))"

definition acquire_lock :: "UpdateEnv \<Rightarrow> string \<Rightarrow> StateError + unit" where
  "acquire_lock env base = (if ue_lock_busy env then Inl (LockTimeout (base @ ''/'' @ UPDATE_STATE_LOCK_FILE)) else Inr ())"

text \<open>\<open>read_bounded\<close> on a regular file; a missing file is \<open>None\<close>.\<close>

definition read_bounded :: "Bytes option \<Rightarrow> nat \<Rightarrow> string + Bytes option" where
  "read_bounded file limit =
     (case file of None \<Rightarrow> Inr None
      | Some bytes \<Rightarrow> if length bytes > limit then Inl ''file is too large'' else Inr (Some bytes))"

definition validate_release :: "AcceptedReleaseV1 \<Rightarrow> StateError + unit" where
  "validate_release release =
     (if acc_version release = [] \<or> length (acc_version release) > 64
      then Inl (InvalidState ''release version is empty or too long'')
      else if (case acc_signed_manifest_sha256 release of None \<Rightarrow> False | Some h \<Rightarrow> length h \<noteq> 32)
      then Inl (InvalidState ''signed manifest hash must be 32 bytes'')
      else Inr ())"

definition validate_state :: "UpdateStateV1 \<Rightarrow> StateError + unit" where
  "validate_state state =
     and_then (case highest_seen state of None \<Rightarrow> Inr () | Some release \<Rightarrow> validate_release release) (\<lambda>_.
     case highest_installed state of None \<Rightarrow> Inr ()
     | Some release \<Rightarrow>
         and_then (validate_release release) (\<lambda>_.
         case highest_seen state of
           None \<Rightarrow> Inl (InvalidState ''installed release exists without a seen release'')
         | Some seen \<Rightarrow>
             if acc_epoch release > acc_epoch seen then Inl (InvalidState ''installed release is newer than seen release'')
             else Inr ()))"

primrec store_v1 :: "UpdateStateStore \<Rightarrow> UpdateStateV1" where
  "store_v1 (UpdateStateStore.V1 state) = state"

definition read_state_file :: "UpdateEnv \<Rightarrow> UpdateDisk \<Rightarrow> StateError + UpdateStateV1 option" where
  "read_state_file env d =
     and_then (map_err Io (read_bounded (ud_state d) MAX_UPDATE_STATE_BYTES)) (\<lambda>file.
     case file of None \<Rightarrow> Inr None
     | Some bytes \<Rightarrow>
         (case strip_prefix UPDATE_STATE_MAGIC bytes of
            None \<Rightarrow> Inl (InvalidState ''missing update-state magic'')
          | Some payload \<Rightarrow>
              and_then (map_err (\<lambda>e. InvalidState (cord_text e)) (cord_de (ue_state env) payload)) (\<lambda>store.
              and_then (validate_state (store_v1 store)) (\<lambda>_. Inr (Some (store_v1 store))))))"

definition write_state :: "UpdateEnv \<Rightarrow> UpdateStateV1 \<Rightarrow> (StateError, unit) UpdateOp" where
  "write_state env state =
     upd_then (upd_read (\<lambda>_. validate_state state)) (\<lambda>_.
     upd_then (upd_read (\<lambda>_. map_err (\<lambda>e. InvalidState (cord_text e)) (cord_ser (ue_state env) (UpdateStateStore.V1 state)))) (\<lambda>payload.
     let bytes = UPDATE_STATE_MAGIC @ payload in
     if length bytes > MAX_UPDATE_STATE_BYTES then upd_read (\<lambda>_. Inl (InvalidState ''encoded update state exceeds 64 KiB''))
     else upd_then (upd_set (\<lambda>d. d\<lparr>ud_state := Some bytes\<rparr>)) (\<lambda>_.
     upd_then (upd_read (\<lambda>d. map_err Io (read_bounded (ud_state d) MAX_UPDATE_STATE_BYTES))) (\<lambda>reopened.
     if reopened \<noteq> Some bytes then upd_read (\<lambda>_. Inl (InvalidState ''update-state bytes differed after atomic write''))
     else upd_then (upd_read (read_state_file env)) (\<lambda>decoded.
     case decoded of
       None \<Rightarrow> upd_read (\<lambda>_. Inl (InvalidState ''update state disappeared after atomic write''))
     | Some value \<Rightarrow>
         if value \<noteq> state then upd_read (\<lambda>_. Inl (InvalidState ''update-state value differed after atomic write''))
         else upd_read (\<lambda>_. Inr ()))))))"

definition advance ::
  "AcceptedReleaseV1 option \<Rightarrow> AcceptedReleaseV1 \<Rightarrow> string \<Rightarrow> StateError + AcceptedReleaseV1 option \<times> bool" where
  "advance current offered field =
     (case current of None \<Rightarrow> Inr (Some offered, True)
      | Some remembered \<Rightarrow>
          if acc_epoch offered < acc_epoch remembered then Inl (Rollback field (acc_epoch offered) (acc_epoch remembered))
          else if acc_epoch offered > acc_epoch remembered then Inr (Some offered, True)
          else if acc_version offered \<noteq> acc_version remembered then Inl (Equivocation (acc_epoch offered))
          else case (acc_signed_manifest_sha256 remembered, acc_signed_manifest_sha256 offered) of
            (Some existing, Some incoming) \<Rightarrow>
              if existing \<noteq> incoming then Inl (Equivocation (acc_epoch offered)) else Inr (Some remembered, False)
          | (None, Some incoming) \<Rightarrow> Inr (Some (remembered\<lparr>acc_signed_manifest_sha256 := Some incoming\<rparr>), True)
          | _ \<Rightarrow> Inr (Some remembered, False))"

text \<open>The epoch a marker stands for: a regular file whose name is a number.\<close>

definition marker_epoch :: "LegacyEntry \<Rightarrow> u64 option" where
  "marker_epoch entry =
     (case le_name entry of None \<Rightarrow> None
      | Some name \<Rightarrow> (case parse_u64 name of None \<Rightarrow> None | Some epoch \<Rightarrow> if le_is_file entry then Some epoch else None))"

definition highest_marker :: "LegacyEntry list \<Rightarrow> u64 option" where
  "highest_marker entries =
     fold (\<lambda>epoch highest. Some (case highest of None \<Rightarrow> epoch | Some value \<Rightarrow> max value epoch))
       (List.map_filter marker_epoch entries) None"

definition migrate_legacy_locked :: "UpdateEnv \<Rightarrow> (StateError, UpdateStateV1) UpdateOp" where
  "migrate_legacy_locked env d =
     (case ud_legacy d of None \<Rightarrow> (Inr \<lparr>highest_seen = None, highest_installed = None\<rparr>, d)
      | Some entries \<Rightarrow>
          let state = \<lparr>highest_seen = map_option (\<lambda>epoch.
                \<lparr>acc_version = version_from_epoch epoch, acc_epoch = epoch, acc_signed_manifest_sha256 = None\<rparr>)
                (highest_marker entries), highest_installed = None\<rparr> in
          if highest_marker entries = None then (Inr state, d)
          else upd_then (write_state env state) (\<lambda>_.
               upd_then (upd_set (\<lambda>d. let left = filter (\<lambda>e. marker_epoch e = None) entries in
                  d\<lparr>ud_legacy := if left = [] then None else Some left\<rparr>)) (\<lambda>_.
               upd_read (\<lambda>_. Inr state))) d)"

definition load_or_migrate_locked :: "UpdateEnv \<Rightarrow> (StateError, UpdateStateV1) UpdateOp" where
  "load_or_migrate_locked env =
     upd_then (upd_read (read_state_file env)) (\<lambda>found.
     case found of Some state \<Rightarrow> upd_read (\<lambda>_. Inr state) | None \<Rightarrow> migrate_legacy_locked env)"

definition accept_seen_in :: "UpdateEnv \<Rightarrow> string \<Rightarrow> AcceptedReleaseV1 \<Rightarrow> (StateError, unit) UpdateOp" where
  "accept_seen_in env base release =
     upd_then (upd_read (\<lambda>_. validate_release release)) (\<lambda>_.
     upd_then (upd_read (\<lambda>_. acquire_lock env base)) (\<lambda>_.
     upd_then (load_or_migrate_locked env) (\<lambda>state.
     upd_then (upd_read (\<lambda>_. advance (highest_seen state) release ''seen'')) (\<lambda>(seen, changed).
     if changed then write_state env (state\<lparr>highest_seen := seen\<rparr>) else upd_read (\<lambda>_. Inr ())))))"

definition record_installed_in :: "UpdateEnv \<Rightarrow> string \<Rightarrow> AcceptedReleaseV1 \<Rightarrow> (StateError, unit) UpdateOp" where
  "record_installed_in env base release =
     upd_then (upd_read (\<lambda>_. validate_release release)) (\<lambda>_.
     upd_then (upd_read (\<lambda>_. acquire_lock env base)) (\<lambda>_.
     upd_then (load_or_migrate_locked env) (\<lambda>state.
     upd_then (upd_read (\<lambda>_.
        if (case highest_seen state of None \<Rightarrow> True | Some seen \<Rightarrow> acc_epoch release \<ge> acc_epoch seen)
        then advance (highest_seen state) release ''seen'' else Inr (highest_seen state, False))) (\<lambda>(seen, changed_seen).
     upd_then (upd_read (\<lambda>_. advance (highest_installed state) release ''installed'')) (\<lambda>(installed, changed).
     if changed_seen \<or> changed then write_state env (state\<lparr>highest_seen := seen, highest_installed := installed\<rparr>)
     else upd_read (\<lambda>_. Inr ()))))))"

definition accept_seen :: "UpdateEnv \<Rightarrow> AcceptedReleaseV1 \<Rightarrow> (StateError, unit) UpdateOp" where
  "accept_seen env release = upd_then (upd_read (\<lambda>_. update_state_base env)) (\<lambda>base. accept_seen_in env base release)"

definition record_installed :: "UpdateEnv \<Rightarrow> AcceptedReleaseV1 \<Rightarrow> (StateError, unit) UpdateOp" where
  "record_installed env release = upd_then (upd_read (\<lambda>_. update_state_base env)) (\<lambda>base. record_installed_in env base release)"

definition read_update_state :: "UpdateEnv \<Rightarrow> (StateError, UpdateStateV1) UpdateOp" where
  "read_update_state env =
     upd_then (upd_read (\<lambda>_. update_state_base env)) (\<lambda>base.
     upd_then (upd_read (\<lambda>_. acquire_lock env base)) (\<lambda>_. load_or_migrate_locked env))"

section \<open>The cache of the passive check\<close>

text \<open>\<open>String::from_utf8\<close>: well-formed UTF-8 by the table of the Unicode standard.\<close>

definition utf8_continuations :: "nat \<Rightarrow> Bytes \<Rightarrow> bool" where
  "utf8_continuations n bs \<longleftrightarrow> n \<le> length bs \<and> list_all (\<lambda>b. 0x80 \<le> b \<and> b \<le> 0xBF) (take n bs)"

definition utf8_second :: "u8 \<Rightarrow> u8 \<Rightarrow> bool" where
  "utf8_second b c \<longleftrightarrow>
     (b = 0xE0 \<longrightarrow> 0xA0 \<le> c) \<and> (b = 0xED \<longrightarrow> c \<le> 0x9F) \<and> (b = 0xF0 \<longrightarrow> 0x90 \<le> c) \<and> (b = 0xF4 \<longrightarrow> c \<le> 0x8F)"

function is_utf8 :: "Bytes \<Rightarrow> bool" where
  "is_utf8 [] = True"
| "is_utf8 (b # bs) =
     (if b < 0x80 then is_utf8 bs
      else let n = (if 0xC2 \<le> b \<and> b \<le> 0xDF then 1 else if 0xE0 \<le> b \<and> b \<le> 0xEF then 2
                    else if 0xF0 \<le> b \<and> b \<le> 0xF4 then 3 else 0) in
           n \<noteq> 0 \<and> utf8_continuations n bs \<and> utf8_second b (hd bs) \<and> is_utf8 (drop n bs))"
  by pat_completeness auto
termination by (relation "measure length") auto

definition from_utf8 :: "Bytes \<Rightarrow> string option" where
  "from_utf8 bytes = (if is_utf8 bytes then Some (map (\<lambda>b. char_of (unat b)) bytes) else None)"

definition MAX_PASSIVE_CACHE_BYTES :: nat where
  "MAX_PASSIVE_CACHE_BYTES = 4 * 1024"

definition read_passive_cache_at :: "UpdateEnv \<Rightarrow> UpdateDisk \<Rightarrow> int \<Rightarrow> string option" where
  "read_passive_cache_at env d max_age =
     (case ud_passive d of None \<Rightarrow> None
      | Some (bytes, modified) \<Rightarrow>
          if length bytes > MAX_PASSIVE_CACHE_BYTES then None
          else if modified > ue_now env then None
          else if ue_now env - modified > max_age then None
          else from_utf8 bytes)"

definition read_passive_cache :: "UpdateEnv \<Rightarrow> UpdateDisk \<Rightarrow> int \<Rightarrow> string option" where
  "read_passive_cache env d max_age =
     (case update_state_base env of Inl _ \<Rightarrow> None | Inr _ \<Rightarrow> read_passive_cache_at env d max_age)"

definition write_passive_cache_in :: "UpdateEnv \<Rightarrow> string \<Rightarrow> (StateError, unit) UpdateOp" where
  "write_passive_cache_in env text =
     (if length text > MAX_PASSIVE_CACHE_BYTES then upd_read (\<lambda>_. Inl (InvalidState ''passive update cache exceeds 4 KiB''))
      else upd_then (upd_set (\<lambda>d. d\<lparr>ud_passive := Some (str_bytes text, ue_now env)\<rparr>)) (\<lambda>_.
      upd_then (upd_read (\<lambda>d. map_err Io (read_bounded (map_option fst (ud_passive d)) MAX_PASSIVE_CACHE_BYTES))) (\<lambda>reopened.
      if reopened \<noteq> Some (str_bytes text)
      then upd_read (\<lambda>_. Inl (InvalidState ''passive update cache differed after atomic write''))
      else upd_read (\<lambda>_. Inr ()))))"

definition write_passive_cache :: "UpdateEnv \<Rightarrow> string \<Rightarrow> (StateError, unit) UpdateOp" where
  "write_passive_cache env text =
     upd_then (upd_read (\<lambda>_. update_state_base env)) (\<lambda>_. write_passive_cache_in env text)"

section \<open>Accepting a manifest\<close>

definition accept_signed_manifest_bytes :: "UpdateEnv \<Rightarrow> Bytes \<Rightarrow> (ManifestError, ValidatedReleaseManifest) UpdateOp" where
  "accept_signed_manifest_bytes env bytes =
     upd_then (upd_read (\<lambda>_. map_err ManifestError.Verify (verify_signed_manifest env bytes))) (\<lambda>body.
     let manifest = manifest_v1 body in
     upd_then (upd_read (\<lambda>_. validate_complete_manifest env manifest)) (\<lambda>_.
     let release = \<lparr>acc_version = rm_version manifest, acc_epoch = rm_release_epoch manifest,
                    acc_signed_manifest_sha256 = Some (sha256 (ue_prims env) bytes)\<rparr> in
     upd_then (upd_err ReleaseState (accept_seen env release)) (\<lambda>_.
     upd_read (\<lambda>_. Inr \<lparr>vm_manifest = manifest, vm_accepted = release\<rparr>))))"

definition fetch_latest_manifest :: "UpdateEnv \<Rightarrow> string \<Rightarrow> (ManifestError, ValidatedReleaseManifest) UpdateOp" where
  "fetch_latest_manifest env repo =
     upd_then (upd_read (\<lambda>_. map_err (\<lambda>e. Network (download_error_text e)) (download_small env (asset_url repo MANIFEST_FILE))))
       (accept_signed_manifest_bytes env)"

definition fetch_latest_manifest_with_timeout ::
  "UpdateEnv \<Rightarrow> string \<Rightarrow> nat \<Rightarrow> nat \<Rightarrow> (ManifestError, ValidatedReleaseManifest) UpdateOp" where
  "fetch_latest_manifest_with_timeout env repo connect global =
     upd_then (upd_read (\<lambda>_. map_err (\<lambda>e. Network (download_error_text e))
         (download_small_with_timeout env (asset_url repo MANIFEST_FILE) connect global)))
       (accept_signed_manifest_bytes env)"

definition fetch_latest_version :: "UpdateEnv \<Rightarrow> string \<Rightarrow> (ManifestError, Version) UpdateOp" where
  "fetch_latest_version env repo =
     upd_then (fetch_latest_manifest env repo) (\<lambda>validated. upd_read (\<lambda>_. parse_version (rm_version (vm_manifest validated))))"

section \<open>The update\<close>

datatype UpdateError =
    Manifest ManifestError
  | State StateError
  | Download string DownloadError
  | Verify string
  | Io string string
  | UnsupportedArtifactFormat string
  | ArtifactTooLarge u64 u64

datatype UpdateOutcome =
    UpToDate Version
  | Available Version Version
  | Updated Version Version

definition extract_installable_artifact :: "UpdateEnv \<Rightarrow> ReleaseArtifactV1 \<Rightarrow> Bytes \<Rightarrow> UpdateError + Bytes" where
  "extract_installable_artifact env artifact artifact_bytes =
     (if ra_format artifact \<in> {''raw'', ''binary''} then Inr artifact_bytes
      else if ra_format artifact \<in> {''gz'', ''gzip''}
      then (case ue_gunzip env (MAX_EXTRACTED_BINARY_BYTES + 1) artifact_bytes of
              Inl e \<Rightarrow> Inl (UpdateError.Io ''decompress'' e)
            | Inr binary \<Rightarrow>
                if length binary > MAX_EXTRACTED_BINARY_BYTES
                then Inl (ArtifactTooLarge (of_nat (length binary)) (of_nat MAX_EXTRACTED_BINARY_BYTES))
                else Inr binary)
      else Inl (UpdateError.UnsupportedArtifactFormat (ra_format artifact)))"

definition self_replace :: "UpdateEnv \<Rightarrow> Bytes \<Rightarrow> (UpdateError, unit) UpdateOp" where
  "self_replace env binary d =
     (case ue_replace env binary of
        Some e \<Rightarrow> (Inl (UpdateError.Io ''replace binary'' e), d)
      | None \<Rightarrow> (Inr (), d\<lparr>ud_binary := binary\<rparr>))"

definition update :: "UpdateEnv \<Rightarrow> bool \<Rightarrow> string option \<Rightarrow> (UpdateError, UpdateOutcome) UpdateOp" where
  "update env check_only repo_opt =
     (let repo = (case repo_opt of None \<Rightarrow> REPO | Some r \<Rightarrow> r); current = ue_current env in
      upd_then (upd_err Manifest (fetch_latest_manifest env repo)) (\<lambda>validated.
      let manifest = vm_manifest validated in
      upd_then (upd_read (\<lambda>_. map_err Manifest (parse_version (rm_version manifest)))) (\<lambda>latest.
      if version_less latest current
      then upd_read (\<lambda>_. Inl (Manifest (OlderThanCurrent (version_text latest) (version_text current))))
      else if latest = current
      then upd_then (upd_err State (record_installed env (vm_accepted validated))) (\<lambda>_. upd_read (\<lambda>_. Inr (UpToDate current)))
      else if check_only then upd_read (\<lambda>_. Inr (Available current latest))
      else upd_then (upd_read (\<lambda>_. map_err Manifest (cli_artifact_for_current_platform env manifest))) (\<lambda>artifact.
      if unat (ra_size artifact) > MAX_ARTIFACT_BYTES
      then upd_read (\<lambda>_. Inl (ArtifactTooLarge (ra_size artifact) (of_nat MAX_ARTIFACT_BYTES)))
      else upd_then (upd_read (\<lambda>_. map_err (Download ''binary download'')
             (download_with_progress_bounded env (artifact_url repo artifact) (unat (ra_size artifact))))) (\<lambda>artifact_bytes.
      upd_then (upd_read (\<lambda>_. map_err (\<lambda>e. UpdateError.Verify (verify_error_text e)) (verify_artifact_bytes env artifact artifact_bytes))) (\<lambda>_.
      upd_then (upd_read (\<lambda>_. extract_installable_artifact env artifact artifact_bytes)) (\<lambda>binary.
      upd_then (self_replace env binary) (\<lambda>_.
      upd_then (upd_err State (record_installed env (vm_accepted validated))) (\<lambda>_.
      upd_read (\<lambda>_. Inr (Updated current latest)))))))))))"

definition env_flag :: "UpdateEnv \<Rightarrow> string \<Rightarrow> bool" where
  "env_flag env name \<longleftrightarrow> (case ue_var env name of None \<Rightarrow> False | Some text \<Rightarrow> text \<in> {''1'', ''true'', ''TRUE'', ''yes'', ''YES''})"

definition passive_check_disabled :: "UpdateEnv \<Rightarrow> bool" where
  "passive_check_disabled env \<longleftrightarrow> env_flag env ''THORAX_NO_SELF_UPDATE'' \<or> env_flag env ''CI''"

definition passive_update_notice :: "UpdateEnv \<Rightarrow> string option \<Rightarrow> UpdateDisk \<Rightarrow> string option \<times> UpdateDisk" where
  "passive_update_notice env repo_opt d =
     (if passive_check_disabled env then (None, d)
      else case read_passive_cache env d (24 * 60 * 60 * 1000000000) of
        Some text \<Rightarrow> (if text = [] then None else Some text, d)
      | None \<Rightarrow>
          let repo = (case repo_opt of None \<Rightarrow> REPO | Some r \<Rightarrow> r);
              (fetched, d1) = fetch_latest_manifest_with_timeout env repo 500 2000 d;
              notice = (case fetched of Inl _ \<Rightarrow> []
                | Inr validated \<Rightarrow>
                    (case parse_version (rm_version (vm_manifest validated)) of Inl _ \<Rightarrow> []
                     | Inr latest \<Rightarrow>
                         if version_less (ue_current env) latest
                         then ''update available: '' @ version_text (ue_current env) @ '' -> '' @ version_text latest @ ''; run `thorax update`''
                         else []));
              d2 = snd (write_passive_cache env notice d1) in
          (if notice = [] then None else Some notice, d2))"

section \<open>The memory never goes back\<close>

definition remembers :: "AcceptedReleaseV1 option \<Rightarrow> AcceptedReleaseV1 option \<Rightarrow> bool" where
  "remembers before after \<longleftrightarrow>
     (case before of None \<Rightarrow> True
      | Some x \<Rightarrow> (case after of None \<Rightarrow> False
          | Some y \<Rightarrow> acc_epoch x < acc_epoch y
              \<or> acc_epoch x = acc_epoch y \<and> acc_version x = acc_version y
                \<and> (acc_signed_manifest_sha256 x = None \<or> acc_signed_manifest_sha256 x = acc_signed_manifest_sha256 y)))"

definition state_remembers :: "UpdateStateV1 \<Rightarrow> UpdateStateV1 \<Rightarrow> bool" where
  "state_remembers s t \<longleftrightarrow> remembers (highest_seen s) (highest_seen t) \<and> remembers (highest_installed s) (highest_installed t)"

text \<open>The memory on a disk: what loading it returns, the migration of the old markers included.\<close>

definition memory :: "UpdateEnv \<Rightarrow> UpdateDisk \<Rightarrow> StateError + UpdateStateV1" where
  "memory env d = fst (load_or_migrate_locked env d)"

text \<open>
  What happens to the disk: the operations of the component, whatever they return and in whatever
  environment they run (another clock, another network), and the removal of old markers, which may be cut short after the state
  file is written.
\<close>

definition same_codec :: "UpdateEnv \<Rightarrow> UpdateEnv \<Rightarrow> bool" where
  "same_codec env env' \<longleftrightarrow> ue_state env' = ue_state env"

inductive update_step :: "UpdateEnv \<Rightarrow> UpdateDisk \<Rightarrow> UpdateDisk \<Rightarrow> bool" for env where
  see: "same_codec env e \<Longrightarrow> update_step env d (snd (accept_seen e release d))"
| install: "same_codec env e \<Longrightarrow> update_step env d (snd (record_installed e release d))"
| query: "same_codec env e \<Longrightarrow> update_step env d (snd (read_update_state e d))"
| accept: "same_codec env e \<Longrightarrow> update_step env d (snd (accept_signed_manifest_bytes e bytes d))"
| run: "same_codec env e \<Longrightarrow> update_step env d (snd (update e check_only repo d))"
| notice: "same_codec env e \<Longrightarrow> update_step env d (snd (passive_update_notice e repo d))"
| markers: "ud_state d = Some b \<Longrightarrow> update_step env d (d\<lparr>ud_legacy := l\<rparr>)"

lemma remembers_refl [simp]: "remembers x x"
  by (simp add: remembers_def split: option.splits)

lemma remembers_None [simp]: "remembers None x"
  by (simp add: remembers_def)

lemma remembers_trans: "remembers x y \<Longrightarrow> remembers y z \<Longrightarrow> remembers x z"
  by (auto simp: remembers_def split: option.splits)

lemma state_remembers_trans: "state_remembers s t \<Longrightarrow> state_remembers t u \<Longrightarrow> state_remembers s u"
  by (auto simp: state_remembers_def intro: remembers_trans)

lemma advance_remembers: "advance current offered f = Inr (after, changed) \<Longrightarrow> remembers current after"
  by (auto simp: advance_def remembers_def split: option.splits if_splits)

lemma advance_reaches:
  assumes "advance current offered f = Inr (after, changed)"
  shows "\<exists>y. after = Some y \<and> acc_epoch y = acc_epoch offered \<and> acc_version y = acc_version offered"
  using assms by (auto simp: advance_def split: option.splits if_splits)

lemma advance_unchanged: "advance current offered f = Inr (after, False) \<Longrightarrow> after = current"
  by (auto simp: advance_def split: option.splits if_splits)

text \<open>Offering releases one after another, errors ignored, is a rollback memory of the epoch.\<close>

definition note_seen :: "AcceptedReleaseV1 \<Rightarrow> AcceptedReleaseV1 option \<Rightarrow> AcceptedReleaseV1 option" where
  "note_seen release current = (case advance current release ''seen'' of Inl _ \<Rightarrow> current | Inr (after, _) \<Rightarrow> after)"

definition seen_epoch :: "AcceptedReleaseV1 option \<Rightarrow> unit \<Rightarrow> u64" where
  "seen_epoch current k = (case current of None \<Rightarrow> 0 | Some release \<Rightarrow> acc_epoch release)"

interpretation seen: rollback_memory note_seen seen_epoch "\<lambda>release k. acc_epoch release" "\<lambda>_. True"
  by unfold_locales (auto simp: note_seen_def seen_epoch_def advance_def max_def word_le_def word_less_def word_uint_eq_iff split: option.split)

lemma offered_order_irrelevant:
  "set releases = set releases' \<Longrightarrow> seen_epoch (fold note_seen releases current) () = seen_epoch (fold note_seen releases' current) ()"
  by (rule seen.level_fold_order) (simp_all add: list_all_iff)

lemmas upd_defs = upd_then_def upd_read_def upd_set_def upd_err_def

lemma read_after_write:
  assumes codec: "faithful_codec (ue_state env)" and ser: "cord_ser (ue_state env) (UpdateStateStore.V1 s) = Inr payload"
    and valid: "validate_state s = Inr ()" and len: "length (UPDATE_STATE_MAGIC @ payload) \<le> MAX_UPDATE_STATE_BYTES"
    and stored: "ud_state d = Some (UPDATE_STATE_MAGIC @ payload)"
  shows "read_state_file env d = Inr (Some s)"
proof -
  have "cord_de (ue_state env) payload = Inr (UpdateStateStore.V1 s)"
    using codec ser by (simp add: faithful_codec_def)
  then show ?thesis
    using valid len stored by (simp add: read_state_file_def read_bounded_def strip_prefix_def)
qed

lemma write_state_ok:
  assumes codec: "faithful_codec (ue_state env)" and ser: "cord_ser (ue_state env) (UpdateStateStore.V1 s) = Inr payload"
    and valid: "validate_state s = Inr ()" and len: "length (UPDATE_STATE_MAGIC @ payload) \<le> MAX_UPDATE_STATE_BYTES"
  shows "write_state env s d = (Inr (), d\<lparr>ud_state := Some (UPDATE_STATE_MAGIC @ payload)\<rparr>)"
  using ser valid len read_after_write [OF assms, of "d\<lparr>ud_state := Some (UPDATE_STATE_MAGIC @ payload)\<rparr>"]
  by (simp add: write_state_def upd_defs Let_def read_bounded_def)

text \<open>Writing the state either changes nothing or leaves a file that reads back as it.\<close>

lemma write_state_outcome:
  assumes "faithful_codec (ue_state env)"
  obtains e where "write_state env s d = (Inl e, d)"
  | b where "write_state env s d = (Inr (), d\<lparr>ud_state := Some b\<rparr>)"
      "\<And>d'. ud_state d' = Some b \<Longrightarrow> read_state_file env d' = Inr (Some s)" "validate_state s = Inr ()"
proof (cases "validate_state s")
  case (Inr u)
  then have valid: "validate_state s = Inr ()" by simp
  show ?thesis
  proof (cases "cord_ser (ue_state env) (UpdateStateStore.V1 s)")
    case (Inl e)
    with valid show ?thesis by (intro that(1)) (simp add: write_state_def upd_defs)
  next
    case (Inr payload)
    show ?thesis
    proof (cases "length (UPDATE_STATE_MAGIC @ payload) > MAX_UPDATE_STATE_BYTES")
      case True
      with valid Inr show ?thesis by (intro that(1)) (simp add: write_state_def upd_defs Let_def)
    next
      case False
      with write_state_ok [OF assms Inr valid] read_after_write [OF assms Inr valid] valid
      show ?thesis by (intro that(2)) auto
    qed
  qed
qed (auto simp: write_state_def upd_defs intro: that(1))

lemma memory_of_file: "read_state_file env d = Inr (Some s) \<Longrightarrow> load_or_migrate_locked env d = (Inr s, d)"
  by (simp add: load_or_migrate_locked_def upd_defs)

text \<open>Loading twice gives the same memory, and the second time nothing is written.\<close>

lemma validate_default: "validate_state \<lparr>highest_seen = None, highest_installed = None\<rparr> = Inr ()"
  by (simp add: validate_state_def)

lemma read_state_file_valid: "read_state_file env d = Inr (Some s) \<Longrightarrow> validate_state s = Inr ()"
  by (auto simp: read_state_file_def and_then_Inr_iff split: option.splits)

lemma migrate_outcome:
  assumes codec: "faithful_codec (ue_state env)" and none: "read_state_file env d = Inr None"
  obtains e where "migrate_legacy_locked env d = (Inl e, d)"
  | "migrate_legacy_locked env d = (Inr \<lparr>highest_seen = None, highest_installed = None\<rparr>, d)"
  | s b l where "migrate_legacy_locked env d = (Inr s, d\<lparr>ud_state := Some b, ud_legacy := l\<rparr>)"
      "\<And>d'. ud_state d' = Some b \<Longrightarrow> read_state_file env d' = Inr (Some s)"
proof (cases "ud_legacy d")
  case None
  then show ?thesis by (intro that(2)) (simp add: migrate_legacy_locked_def)
next
  case (Some entries)
  define s where "s = \<lparr>highest_seen = map_option (\<lambda>epoch.
    \<lparr>acc_version = version_from_epoch epoch, acc_epoch = epoch, acc_signed_manifest_sha256 = None\<rparr>)
    (highest_marker entries), highest_installed = None\<rparr>"
  show ?thesis
  proof (cases "highest_marker entries")
    case None
    then show ?thesis using Some by (intro that(2)) (simp add: migrate_legacy_locked_def)
  next
    case (Some epoch)
    show ?thesis
    proof (rule write_state_outcome [OF codec, of s d])
      fix e assume "write_state env s d = (Inl e, d)"
      then show ?thesis
        using \<open>ud_legacy d = Some entries\<close> Some by (intro that(1) [of e]) (simp add: migrate_legacy_locked_def s_def Let_def upd_then_def)
    next
      fix b assume "write_state env s d = (Inr (), d\<lparr>ud_state := Some b\<rparr>)"
        and reads: "\<And>d'. ud_state d' = Some b \<Longrightarrow> read_state_file env d' = Inr (Some s)"
      then show ?thesis
        using \<open>ud_legacy d = Some entries\<close> Some
        by (intro that(3) [OF _ reads]) (simp_all add: migrate_legacy_locked_def s_def Let_def upd_defs)
    qed
  qed
qed

text \<open>Loading twice gives the same memory, and the first time only the files of the memory are written.\<close>

lemma load_outcome:
  assumes codec: "faithful_codec (ue_state env)"
  obtains e where "load_or_migrate_locked env d = (Inl e, d)"
  | s where "load_or_migrate_locked env d = (Inr s, d)" "validate_state s = Inr ()"
  | s b l where "load_or_migrate_locked env d = (Inr s, d\<lparr>ud_state := Some b, ud_legacy := l\<rparr>)" "validate_state s = Inr ()"
      "\<And>d'. ud_state d' = Some b \<Longrightarrow> load_or_migrate_locked env d' = (Inr s, d')"
proof (cases "read_state_file env d")
  case (Inl e)
  then show ?thesis by (intro that(1)) (simp add: load_or_migrate_locked_def upd_defs)
next
  case (Inr found)
  show ?thesis
  proof (cases found)
    case (Some s)
    then show ?thesis using Inr memory_of_file read_state_file_valid by (intro that(2)) auto
  next
    case None
    with Inr have none: "read_state_file env d = Inr None" by simp
    then have load: "load_or_migrate_locked env d = migrate_legacy_locked env d"
      by (simp add: load_or_migrate_locked_def upd_defs)
    show ?thesis
    proof (rule migrate_outcome [OF codec none])
      fix s b l assume m: "migrate_legacy_locked env d = (Inr s, d\<lparr>ud_state := Some b, ud_legacy := l\<rparr>)"
        and reads: "\<And>d'. ud_state d' = Some b \<Longrightarrow> read_state_file env d' = Inr (Some s)"
      have "validate_state s = Inr ()"
        using reads [of "d\<lparr>ud_state := Some b\<rparr>"] by (auto dest: read_state_file_valid)
      then show ?thesis
        using m load memory_of_file [OF reads] by (intro that(3)) auto
    qed (use load that(1,2) validate_default in auto)
  qed
qed

lemma load_keeps_memory:
  assumes "faithful_codec (ue_state env)" and "load_or_migrate_locked env d = (Inr s, d')"
  shows "memory env d' = Inr s \<and> validate_state s = Inr ()"
  by (rule load_outcome [OF assms(1), of d]) (use assms(2) in \<open>auto simp: memory_def\<close>)

section \<open>Operations that keep the memory\<close>

definition keeps_memory :: "UpdateEnv \<Rightarrow> ('e, 'a) UpdateOp \<Rightarrow> bool" where
  "keeps_memory env m \<longleftrightarrow>
     (\<forall>d s. memory env d = Inr s \<longrightarrow> (\<exists>t. memory env (snd (m d)) = Inr t \<and> state_remembers s t))"


text \<open>The memory depends on the codec of the state, the state file and the markers only.\<close>

lemma load_env:
  assumes "ue_state e = ue_state env"
  shows "load_or_migrate_locked e = load_or_migrate_locked env" "write_state e = write_state env"
proof -
  have r: "read_state_file e = read_state_file env"
    by (rule ext) (simp only: read_state_file_def assms)
  show w: "write_state e = write_state env"
    by (intro ext) (simp only: write_state_def assms r)
  have "migrate_legacy_locked e = migrate_legacy_locked env"
    by (rule ext) (simp only: migrate_legacy_locked_def w)
  then show "load_or_migrate_locked e = load_or_migrate_locked env"
    by (simp only: load_or_migrate_locked_def r)
qed

lemma memory_env: "ue_state e = ue_state env \<Longrightarrow> memory e = memory env"
  by (rule ext) (simp only: memory_def load_env(1) [of e env])

lemma write_state_fst: "fst (write_state env s d) = fst (write_state env s d')"
proof -
  have same: "read_state_file env (d\<lparr>ud_state := x\<rparr>) = read_state_file env (d'\<lparr>ud_state := x\<rparr>)" for x
    by (simp add: read_state_file_def)
  show ?thesis
  proof (cases "read_state_file env (d'\<lparr>ud_state := Some (UPDATE_STATE_MAGIC @ projr (cord_ser (ue_state env) (UpdateStateStore.V1 s)))\<rparr>)")
    case (Inl e)
    with same show ?thesis
      by (cases "validate_state s"; cases "cord_ser (ue_state env) (UpdateStateStore.V1 s)") (simp_all add: write_state_def upd_defs Let_def read_bounded_def)
  next
    case (Inr found)
    with same show ?thesis
      by (cases "validate_state s"; cases "cord_ser (ue_state env) (UpdateStateStore.V1 s)"; cases found)
        (simp_all add: write_state_def upd_defs Let_def read_bounded_def)
  qed
qed

lemma then_read_fst: "fst (upd_then m (\<lambda>_. upd_then (upd_set g) (\<lambda>_. upd_read (\<lambda>_. r))) d) = and_then (fst (m d)) (\<lambda>_. r)"
  by (auto simp: upd_defs split: prod.split sum.split)

lemma memory_cong:
  assumes "ud_state d = ud_state d'" and "ud_legacy d = ud_legacy d'"
  shows "memory env d = memory env d'"
proof -
  have "fst (migrate_legacy_locked env d) = fst (migrate_legacy_locked env d')"
    using write_state_fst [of env _ d d'] assms
    by (simp add: migrate_legacy_locked_def Let_def then_read_fst split: option.split)
  moreover have "read_state_file env d = read_state_file env d'"
    using assms by (simp add: read_state_file_def)
  ultimately show ?thesis
    by (simp add: memory_def load_or_migrate_locked_def upd_defs split: sum.split option.split)
qed

lemma keeps_memoryD:
  "keeps_memory env m \<Longrightarrow> memory env d = Inr s \<Longrightarrow> \<exists>t. memory env (snd (m d)) = Inr t \<and> state_remembers s t"
  by (simp add: keeps_memory_def)

lemma keeps_read: "keeps_memory env (upd_read f)"
  by (auto simp: keeps_memory_def upd_read_def state_remembers_def)

lemma keeps_err: "keeps_memory env m \<Longrightarrow> keeps_memory env (upd_err f m)"
  by (simp add: keeps_memory_def upd_err_def)

lemma keeps_then:
  assumes "keeps_memory env m" and "\<And>x. keeps_memory env (f x)"
  shows "keeps_memory env (upd_then m f)"
  unfolding keeps_memory_def
proof (intro allI impI)
  fix d s assume "memory env d = Inr s"
  then obtain t where t: "memory env (snd (m d)) = Inr t" "state_remembers s t"
    using assms(1) by (auto simp: keeps_memory_def)
  show "\<exists>t. memory env (snd (upd_then m f d)) = Inr t \<and> state_remembers s t"
  proof (cases "m d")
    case (Pair r d1)
    then show ?thesis
    proof (cases r)
      case (Inr x)
      obtain u where "memory env (snd (f x d1)) = Inr u" "state_remembers t u"
        using assms(2) [of x] t Pair by (auto simp: keeps_memory_def)
      then show ?thesis using t Pair Inr by (auto simp: upd_then_def intro: state_remembers_trans)
    qed (use t in \<open>auto simp: upd_then_def\<close>)
  qed
qed

lemma keeps_frame:
  assumes "\<And>d. ud_state (snd (m d)) = ud_state d" and "\<And>d. ud_legacy (snd (m d)) = ud_legacy d"
  shows "keeps_memory env m"
  using memory_cong [of "snd (m _)" _ env] assms by (auto simp: keeps_memory_def state_remembers_def)

lemma keeps_load:
  assumes "faithful_codec (ue_state env)"
  shows "keeps_memory env (load_or_migrate_locked env)"
  unfolding keeps_memory_def
proof (intro allI impI)
  fix d s assume "memory env d = Inr s"
  then have "load_or_migrate_locked env d = (Inr s, snd (load_or_migrate_locked env d))"
    by (simp add: memory_def prod_eq_iff)
  then show "\<exists>t. memory env (snd (load_or_migrate_locked env d)) = Inr t \<and> state_remembers s t"
    using load_keeps_memory [OF assms] by (auto simp: state_remembers_def)
qed

text \<open>An operation that, on the disk it is given, writes at most one state, and one that remembers \<open>s\<close>.\<close>

definition writes_over :: "UpdateEnv \<Rightarrow> UpdateStateV1 \<Rightarrow> ('e, 'a) UpdateOp \<Rightarrow> UpdateDisk \<Rightarrow> bool" where
  "writes_over env s m d \<longleftrightarrow> snd (m d) = d \<or> (\<exists>t. snd (m d) = snd (write_state env t d) \<and> state_remembers s t)"

lemma writes_over_read: "writes_over env s (upd_read f) d"
  by (simp add: writes_over_def upd_read_def)

lemma writes_over_write: "state_remembers s t \<Longrightarrow> writes_over env s (write_state env t) d"
  by (auto simp: writes_over_def)

lemma writes_over_then:
  assumes "\<And>x. f d = Inr x \<Longrightarrow> writes_over env s (g x) d"
  shows "writes_over env s (upd_then (upd_read f) g) d"
  using assms by (cases "f d") (auto simp: writes_over_def upd_defs)

lemma keeps_load_then:
  assumes codec: "faithful_codec (ue_state env)" and f: "\<And>s d. writes_over env s (f s) d"
  shows "keeps_memory env (upd_then (load_or_migrate_locked env) f)"
  unfolding keeps_memory_def
proof (intro allI impI)
  fix d s assume "memory env d = Inr s"
  then obtain d1 where load: "load_or_migrate_locked env d = (Inr s, d1)"
    by (cases "load_or_migrate_locked env d") (simp add: memory_def)
  have m: "memory env d1 = Inr s"
    using load_keeps_memory [OF codec load] by simp
  have "\<exists>t. memory env (snd (f s d1)) = Inr t \<and> state_remembers s t"
  proof (cases "snd (f s d1) = d1")
    case False
    then obtain t where t: "snd (f s d1) = snd (write_state env t d1)" "state_remembers s t"
      using f [of s d1] by (auto simp: writes_over_def)
    show ?thesis
    proof (rule write_state_outcome [OF codec, of t d1])
      fix b assume "write_state env t d1 = (Inr (), d1\<lparr>ud_state := Some b\<rparr>)"
        "\<And>d'. ud_state d' = Some b \<Longrightarrow> read_state_file env d' = Inr (Some t)"
      then show ?thesis using t by (auto simp: memory_def memory_of_file)
    qed (use t False in auto)
  qed (use m in \<open>auto simp: state_remembers_def\<close>)
  then show "\<exists>t. memory env (snd (upd_then (load_or_migrate_locked env) f d)) = Inr t \<and> state_remembers s t"
    by (simp add: upd_then_def load)
qed

lemma keeps_accept_seen:
  assumes "faithful_codec (ue_state env)"
  shows "keeps_memory env (accept_seen env release)"
  unfolding accept_seen_def accept_seen_in_def
  by (rule keeps_then [OF keeps_read])+ (rule keeps_load_then [OF assms], rule writes_over_then,
    auto intro!: writes_over_read writes_over_write simp: state_remembers_def, (erule advance_remembers)+)

lemma keeps_record_installed:
  assumes "faithful_codec (ue_state env)"
  shows "keeps_memory env (record_installed env release)"
  unfolding record_installed_def record_installed_in_def
  by (rule keeps_then [OF keeps_read])+ (rule keeps_load_then [OF assms], rule writes_over_then, clarsimp, rule writes_over_then,
    auto intro!: writes_over_read writes_over_write simp: state_remembers_def split: if_splits, (erule advance_remembers)+)

lemma keeps_read_update_state:
  assumes "faithful_codec (ue_state env)"
  shows "keeps_memory env (read_update_state env)"
  unfolding read_update_state_def by (intro keeps_then keeps_read keeps_load assms)

lemma keeps_accept_signed_manifest:
  assumes "faithful_codec (ue_state env)"
  shows "keeps_memory env (accept_signed_manifest_bytes env bytes)"
  unfolding accept_signed_manifest_bytes_def Let_def
  by (intro keeps_then keeps_read keeps_err keeps_accept_seen assms)

lemma keeps_self_replace: "keeps_memory env (self_replace e binary)"
  by (rule keeps_frame) (simp_all add: self_replace_def split: option.split)

lemma keeps_passive_cache: "keeps_memory env (write_passive_cache e text)"
  by (rule keeps_frame) (simp_all add: write_passive_cache_def write_passive_cache_in_def upd_defs split: sum.split option.split)

lemma keeps_if: "keeps_memory env m \<Longrightarrow> keeps_memory env m' \<Longrightarrow> keeps_memory env (if b then m else m')"
  by simp

lemma keeps_update:
  assumes "faithful_codec (ue_state env)"
  shows "keeps_memory env (update env check_only repo)"
  unfolding update_def fetch_latest_manifest_def Let_def
  by (intro keeps_then keeps_read keeps_err keeps_if keeps_self_replace keeps_accept_signed_manifest keeps_record_installed assms)

lemma keeps_notice:
  assumes codec: "faithful_codec (ue_state env)" and "memory env d = Inr s"
  shows "\<exists>t. memory env (snd (passive_update_notice env repo d)) = Inr t \<and> state_remembers s t"
proof -
  have fetch: "keeps_memory env (fetch_latest_manifest_with_timeout env r 500 2000)" for r
    unfolding fetch_latest_manifest_with_timeout_def by (intro keeps_then keeps_read keeps_accept_signed_manifest codec)
  define r where "r = (case repo of None \<Rightarrow> REPO | Some r \<Rightarrow> r)"
  have "snd (passive_update_notice env repo d) = d
      \<or> (\<exists>shown. snd (passive_update_notice env repo d) = snd (write_passive_cache env shown (snd (fetch_latest_manifest_with_timeout env r 500 2000 d))))"
    unfolding passive_update_notice_def r_def [symmetric] Let_def by (auto split: prod.split option.split)
  moreover have "\<exists>u. memory env (snd (write_passive_cache env shown (snd (fetch_latest_manifest_with_timeout env r 500 2000 d)))) = Inr u
      \<and> state_remembers s u" for shown
    using keeps_memoryD [OF fetch assms(2)] keeps_memoryD [OF keeps_passive_cache] by (metis state_remembers_trans)
  ultimately show ?thesis
    using assms(2) by (auto simp: state_remembers_def)
qed

lemma read_state_file_none: "ud_state d = Some b \<Longrightarrow> read_state_file env d \<noteq> Inr None"
  by (simp add: read_state_file_def read_bounded_def and_then_Inr_iff split: option.split)

lemma op_keeps:
  assumes "faithful_codec (ue_state env)" and "same_codec env e"
    and "faithful_codec (ue_state e) \<Longrightarrow> keeps_memory e m" and "memory env d = Inr s"
  shows "\<exists>t. memory env (snd (m d)) = Inr t \<and> state_remembers s t"
proof -
  have same: "memory e = memory env" "faithful_codec (ue_state e)"
    using memory_env [of e env] assms(1,2) by (simp_all add: same_codec_def)
  show ?thesis
    using keeps_memoryD [OF assms(3) [OF same(2)], of d s] assms(4) unfolding same(1) by blast
qed

lemma update_step_keeps:
  assumes codec: "faithful_codec (ue_state env)" and "update_step env d d'" and "memory env d = Inr s"
  shows "\<exists>t. memory env d' = Inr t \<and> state_remembers s t"
  using assms(2,3)
proof (cases rule: update_step.cases)
  case (markers b l)
  have "\<exists>t. read_state_file env d = Inr (Some t)"
    using markers assms(3) read_state_file_none [of d b env]
    by (auto simp: memory_def load_or_migrate_locked_def upd_defs split: sum.splits option.splits)
  then obtain t where t: "read_state_file env d = Inr (Some t)" by blast
  then have "read_state_file env d' = Inr (Some t)"
    using markers by (simp add: read_state_file_def)
  with t show ?thesis
    using assms(3) by (simp add: memory_def memory_of_file state_remembers_def)
next
  case (see e release)
  then show ?thesis using op_keeps [OF codec _ keeps_accept_seen assms(3)] by blast
next
  case (install e release)
  then show ?thesis using op_keeps [OF codec _ keeps_record_installed assms(3)] by blast
next
  case (query e)
  then show ?thesis using op_keeps [OF codec _ keeps_read_update_state assms(3)] by blast
next
  case (accept e bytes)
  then show ?thesis using op_keeps [OF codec _ keeps_accept_signed_manifest assms(3)] by blast
next
  case (run e check_only repo)
  then show ?thesis using op_keeps [OF codec _ keeps_update assms(3)] by blast
next
  case (notice e repo)
  then have "memory e d = Inr s" "faithful_codec (ue_state e)"
    using codec assms(3) memory_env [of e env] by (simp_all add: same_codec_def)
  then show ?thesis
    using keeps_notice [of e d s repo] notice memory_env [of e env] by (simp add: same_codec_def)
qed

lemma update_steps_keep:
  assumes "faithful_codec (ue_state env)" and "(update_step env)\<^sup>*\<^sup>* d d'" and "memory env d = Inr s"
  shows "\<exists>t. memory env d' = Inr t \<and> state_remembers s t"
  using assms(2,3)
proof (induction rule: rtranclp_induct)
  case base
  then show ?case by (auto simp: state_remembers_def)
next
  case (step d1 d2)
  then show ?case using update_step_keeps [OF assms(1)] by (metis state_remembers_trans)
qed

text \<open>What accepting a release checks: it is newer than the remembered one, or the same.\<close>

definition newer_or_same :: "AcceptedReleaseV1 option \<Rightarrow> AcceptedReleaseV1 \<Rightarrow> bool" where
  "newer_or_same earlier release \<longleftrightarrow>
     (case earlier of None \<Rightarrow> True
      | Some x \<Rightarrow> acc_epoch x < acc_epoch release
          \<or> acc_epoch x = acc_epoch release \<and> acc_version x = acc_version release
            \<and> (acc_signed_manifest_sha256 x = None \<or> acc_signed_manifest_sha256 release = None
               \<or> acc_signed_manifest_sha256 x = acc_signed_manifest_sha256 release))"

lemma advance_newer_or_same: "advance current offered f = Inr r \<Longrightarrow> newer_or_same current offered"
  by (auto simp: advance_def newer_or_same_def split: option.splits if_splits)

lemma newer_or_same_remembers: "remembers x y \<Longrightarrow> newer_or_same y release \<Longrightarrow> newer_or_same x release"
  by (auto simp: remembers_def newer_or_same_def split: option.splits)

lemma accept_seen_newer:
  assumes "accept_seen env release d = (Inr (), d')" and "memory env d = Inr s"
  shows "newer_or_same (highest_seen s) release"
proof -
  obtain d1 where "load_or_migrate_locked env d = (Inr s, d1)"
    using assms(2) by (cases "load_or_migrate_locked env d") (simp add: memory_def)
  then show ?thesis
    using assms(1) advance_newer_or_same [of "highest_seen s" release "''seen''"]
    by (auto simp: accept_seen_def accept_seen_in_def upd_defs split: sum.splits)
qed

text \<open>
  C23. The memory of releases never goes back. From a disk with a readable memory (the old markers
  included), whatever sequence of operations runs, in whatever order, with whatever result, under any
  clock, network or lock, and even when the removal of the old markers is cut short: the memory stays readable; the highest release seen and the
  highest installed only move to a higher epoch, or stay at the same version and manifest, a migrated marker only gaining its
  hash; the installed one is never above the seen one. A release accepted at any later time is newer than
  the one seen at the start, or the same.
\<close>

theorem release_memory_never_goes_back:
  assumes "faithful_codec (ue_state env)" and "memory env d = Inr s" and "(update_step env)\<^sup>*\<^sup>* d d'"
  shows "\<exists>t. memory env d' = Inr t \<and> remembers (highest_seen s) (highest_seen t) \<and> remembers (highest_installed s) (highest_installed t)
    \<and> (\<forall>i. highest_installed t = Some i \<longrightarrow> (\<exists>h. highest_seen t = Some h \<and> acc_epoch i \<le> acc_epoch h))
    \<and> (\<forall>e release d''. same_codec env e \<and> accept_seen e release d' = (Inr (), d'') \<longrightarrow> newer_or_same (highest_seen s) release)"
proof -
  obtain t where t: "memory env d' = Inr t" "state_remembers s t"
    using update_steps_keep [OF assms(1,3,2)] by blast
  have "load_or_migrate_locked env d' = (Inr t, snd (load_or_migrate_locked env d'))"
    using t by (simp add: memory_def prod_eq_iff)
  then have "validate_state t = Inr ()"
    using load_keeps_memory [OF assms(1)] by blast
  then have "\<forall>i. highest_installed t = Some i \<longrightarrow> (\<exists>h. highest_seen t = Some h \<and> acc_epoch i \<le> acc_epoch h)"
    by (auto simp: validate_state_def and_then_Inr_iff split: option.splits if_splits)
  moreover have "newer_or_same (highest_seen s) release"
    if "same_codec env e" "accept_seen e release d' = (Inr (), d'')" for e release d''
    using accept_seen_newer [OF that(2), of t] memory_env [of e env] that(1) t newer_or_same_remembers
    by (auto simp: same_codec_def state_remembers_def)
  ultimately show ?thesis
    using t by (auto simp: state_remembers_def)
qed

section \<open>What an update installs\<close>

lemma upd_then_read [simp]: "upd_then (upd_read f) g d = (case f d of Inl e \<Rightarrow> (Inl e, d) | Inr x \<Rightarrow> g x d)"
  by (simp add: upd_defs split: sum.split)

definition keeps_binary :: "('e, 'a) UpdateOp \<Rightarrow> bool" where
  "keeps_binary m \<longleftrightarrow> (\<forall>d. ud_binary (snd (m d)) = ud_binary d)"

lemma keeps_binary_intros:
  "keeps_binary (upd_read f)" "keeps_binary m \<Longrightarrow> keeps_binary (upd_err h m)"
  "keeps_binary m \<Longrightarrow> (\<And>x. keeps_binary (g x)) \<Longrightarrow> keeps_binary (upd_then m g)"
  "keeps_binary a \<Longrightarrow> keeps_binary b \<Longrightarrow> keeps_binary (if c then a else b)"
  by (auto simp: keeps_binary_def upd_read_def upd_err_def upd_then_def split: prod.split sum.split) (metis snd_conv)+

lemma keeps_binary_write: "keeps_binary (write_state env s)"
  by (auto simp: keeps_binary_def write_state_def upd_defs Let_def split: sum.split option.split)

lemma keeps_binary_load: "keeps_binary (load_or_migrate_locked env)"
proof -
  have "ud_binary (snd (migrate_legacy_locked env d)) = ud_binary d" for d
    using keeps_binary_write [of env] unfolding keeps_binary_def migrate_legacy_locked_def Let_def upd_then_def upd_set_def upd_read_def
    by (auto split: option.split prod.split sum.split) (metis snd_conv)+
  then show ?thesis
    by (auto simp: keeps_binary_def load_or_migrate_locked_def upd_read_def split: sum.split option.split)
qed

lemma keeps_binary_record: "keeps_binary (accept_seen env release)" "keeps_binary (record_installed env release)"
  unfolding accept_seen_def accept_seen_in_def record_installed_def record_installed_in_def split_beta
  by (intro keeps_binary_intros keeps_binary_load keeps_binary_write)+

lemma keeps_binary_accept: "keeps_binary (accept_signed_manifest_bytes env bytes)"
  unfolding accept_signed_manifest_bytes_def Let_def by (intro keeps_binary_intros keeps_binary_record)

text \<open>What a fetched manifest is: signed with the compiled-in key, complete, and accepted by the memory.\<close>

definition manifest_release :: "UpdateEnv \<Rightarrow> Bytes \<Rightarrow> ReleaseManifestV1 \<Rightarrow> AcceptedReleaseV1" where
  "manifest_release env bytes manifest =
     \<lparr>acc_version = rm_version manifest, acc_epoch = rm_release_epoch manifest, acc_signed_manifest_sha256 = Some (sha256 (ue_prims env) bytes)\<rparr>"

definition signed_release :: "UpdateEnv \<Rightarrow> Bytes \<Rightarrow> ReleaseManifestV1 \<Rightarrow> bool" where
  "signed_release env bytes manifest \<longleftrightarrow>
     (\<exists>sm body. cord_de (ue_signed env) bytes = Inr sm \<and> manifest = manifest_v1 (sm_body sm) \<and> ue_body env (sm_body sm) = Inr body
        \<and> sm_signing_public_key sm = ue_pubkey env
        \<and> ed25519_verify_strict (ue_prims env) (ue_pubkey env) (manifest_signature_message body) (sm_signature sm))"

lemma verify_signed_release: "verify_signed_manifest env bytes = Inr body \<Longrightarrow> signed_release env bytes (manifest_v1 body)"
  by (auto simp: verify_signed_manifest_def verify_signed_manifest_with_key_def verify_manifest_signature_def manifest_body_bytes_def
      signed_release_def and_then_Inr_iff split: if_splits)

lemma fetch_outcome:
  assumes "fetch_latest_manifest env repo d = (Inr validated, d1)"
  obtains bytes where "download_small env (asset_url repo MANIFEST_FILE) = Inr bytes" "signed_release env bytes (vm_manifest validated)"
    "validate_complete_manifest env (vm_manifest validated) = Inr ()"
    "vm_accepted validated = manifest_release env bytes (vm_manifest validated)"
    "accept_seen env (vm_accepted validated) d = (Inr (), d1)"
proof -
  obtain bytes where bytes: "download_small env (asset_url repo MANIFEST_FILE) = Inr bytes"
      "accept_signed_manifest_bytes env bytes d = (Inr validated, d1)"
    using assms by (cases "download_small env (asset_url repo MANIFEST_FILE)") (simp_all add: fetch_latest_manifest_def)
  obtain body where body: "verify_signed_manifest env bytes = Inr body" "validate_complete_manifest env (manifest_v1 body) = Inr ()"
      "accept_seen env (manifest_release env bytes (manifest_v1 body)) d = (Inr (), d1)"
      "validated = \<lparr>vm_manifest = manifest_v1 body, vm_accepted = manifest_release env bytes (manifest_v1 body)\<rparr>"
    using bytes(2)
    by (cases "accept_seen env (manifest_release env bytes (manifest_v1 (projr (verify_signed_manifest env bytes)))) d")
      (auto simp: accept_signed_manifest_bytes_def Let_def manifest_release_def upd_then_def [of "upd_err _ _"] upd_err_def upd_read_def split: sum.splits)
  show ?thesis
    by (rule that [OF bytes(1)]) (use body verify_signed_release in auto)
qed

lemma cli_artifact_member:
  assumes "cli_artifact_for_current_platform env manifest = Inr artifact"
  shows "\<exists>target. detect_target env = Inr target \<and> artifact \<in> set (rm_artifacts manifest) \<and> ra_kind artifact = CLI_ARTIFACT_KIND
     \<and> at_triple (ra_target artifact) = ct_triple target"
proof -
  obtain target where t: "detect_target env = Inr target"
    using assms by (auto simp: cli_artifact_for_current_platform_def and_then_Inr_iff)
  define found where "found = filter (\<lambda>a. ra_kind a = CLI_ARTIFACT_KIND \<and> at_triple (ra_target a) = ct_triple target) (rm_artifacts manifest)"
  have "found = [artifact]"
    using assms t by (auto simp: cli_artifact_for_current_platform_def found_def [symmetric] split: list.splits if_splits)
  then have "artifact \<in> set found" by simp
  then show ?thesis using t by (auto simp: found_def)
qed

lemma version_less_total: "\<not> version_less v w \<Longrightarrow> v \<noteq> w \<Longrightarrow> version_less w v"
  by (cases v; cases w) (auto simp: version_less_def)

lemma update_after_fetch:
  assumes fetched: "fetch_latest_manifest env (case repo_opt of None \<Rightarrow> REPO | Some r \<Rightarrow> r) d = (Inr validated, d1)"
    and same: "ud_binary d1 = ud_binary d"
    and run: "update env check_only repo_opt d = (r, d')"
    and replaced: "ud_binary d' \<noteq> ud_binary d \<or> (\<exists>a b. r = Inr (Updated a b))"
  obtains latest artifact artifact_bytes where "\<not> check_only" "parse_version (rm_version (vm_manifest validated)) = Inr latest"
    "\<not> version_less latest (ue_current env)" "latest \<noteq> ue_current env"
    "cli_artifact_for_current_platform env (vm_manifest validated) = Inr artifact"
    "verify_artifact_bytes env artifact artifact_bytes = Inr ()"
    "extract_installable_artifact env artifact artifact_bytes = Inr (ud_binary d')"
    "r = Inr (Updated (ue_current env) latest) \<or> (\<exists>e. r = Inl (UpdateError.State e))"
proof -
  have frame: "ud_binary (snd (record_installed env release d2)) = ud_binary d2" for release d2
    using keeps_binary_record(2) [of env release] by (simp add: keeps_binary_def)
  have failed: "map_err f m = Inl y \<longleftrightarrow> (\<exists>e. m = Inl e \<and> y = f e)" for f :: "StateError \<Rightarrow> UpdateError" and m :: "StateError + unit" and y
    by (cases m) auto
  note unfolded = run [unfolded update_def Let_def, unfolded upd_then_def [of "upd_err Manifest _"], unfolded upd_err_def [of Manifest]]
  show ?thesis
    using unfolded fetched same replaced
    by (auto simp: upd_then_def [of "upd_err _ _"] upd_err_def upd_then_def [of "self_replace _ _"] self_replace_def upd_read_def
        frame failed split: if_splits sum.splits option.splits prod.splits intro: that)
qed


text \<open>
  C22. An update installs nothing but a signed and newer release. When the running binary has changed, or the update reports
  \<open>Updated\<close>, then: it was no check only; the manifest that was downloaded is signed with the compiled-in
  key and complete; the artifact is the manifest's for this platform; the bytes downloaded have the size and the hash
  the manifest gives; the new binary is those bytes or their decompression within the limit; the
  release is strictly newer than the running one, and newer than or the same as the one remembered. Even when
  recording the installation fails afterwards, that is the error reported.
\<close>

theorem update_installs_only_signed_newer_releases:
  assumes run: "update env check_only repo_opt d = (r, d')"
    and replaced: "ud_binary d' \<noteq> ud_binary d \<or> (\<exists>a b. r = Inr (Updated a b))"
  shows "\<not> check_only \<and> (\<exists>bytes manifest target artifact artifact_bytes latest.
     download_small env (asset_url (case repo_opt of None \<Rightarrow> REPO | Some repo \<Rightarrow> repo) MANIFEST_FILE) = Inr bytes
     \<and> signed_release env bytes manifest \<and> validate_complete_manifest env manifest = Inr ()
     \<and> detect_target env = Inr target \<and> artifact \<in> set (rm_artifacts manifest)
     \<and> ra_kind artifact = CLI_ARTIFACT_KIND \<and> at_triple (ra_target artifact) = ct_triple target
     \<and> of_nat (length artifact_bytes) = ra_size artifact \<and> sha256 (ue_prims env) artifact_bytes = ra_sha256 artifact
     \<and> extract_installable_artifact env artifact artifact_bytes = Inr (ud_binary d')
     \<and> parse_version (rm_version manifest) = Inr latest \<and> version_less (ue_current env) latest
     \<and> (\<forall>s. memory env d = Inr s \<longrightarrow> newer_or_same (highest_seen s) (manifest_release env bytes manifest))
     \<and> (r = Inr (Updated (ue_current env) latest) \<or> (\<exists>e. r = Inl (UpdateError.State e))))"
proof -
  define repo where "repo = (case repo_opt of None \<Rightarrow> REPO | Some repo \<Rightarrow> repo)"
  obtain f d1 where f: "fetch_latest_manifest env repo d = (f, d1)" by fastforce
  have "keeps_binary (fetch_latest_manifest env repo)"
    unfolding fetch_latest_manifest_def by (intro keeps_binary_intros keeps_binary_accept)
  then have same: "ud_binary d1 = ud_binary d"
    using f by (metis keeps_binary_def snd_conv)
  have "\<exists>validated. f = Inr validated"
    using f same run replaced by (cases f) (auto simp: update_def repo_def Let_def upd_then_def upd_err_def)
  then obtain validated where fetched: "fetch_latest_manifest env repo d = (Inr validated, d1)" using f by blast
  obtain bytes where b: "download_small env (asset_url repo MANIFEST_FILE) = Inr bytes" "signed_release env bytes (vm_manifest validated)"
    "validate_complete_manifest env (vm_manifest validated) = Inr ()"
    "vm_accepted validated = manifest_release env bytes (vm_manifest validated)" "accept_seen env (vm_accepted validated) d = (Inr (), d1)"
    by (rule fetch_outcome [OF fetched])
  obtain latest artifact artifact_bytes where u: "\<not> check_only" "parse_version (rm_version (vm_manifest validated)) = Inr latest"
    "\<not> version_less latest (ue_current env)" "latest \<noteq> ue_current env"
    "cli_artifact_for_current_platform env (vm_manifest validated) = Inr artifact" "verify_artifact_bytes env artifact artifact_bytes = Inr ()"
    "extract_installable_artifact env artifact artifact_bytes = Inr (ud_binary d')"
    "r = Inr (Updated (ue_current env) latest) \<or> (\<exists>e. r = Inl (UpdateError.State e))"
    by (rule update_after_fetch [OF fetched [unfolded repo_def] same run replaced])
  have "newer_or_same (highest_seen s) (manifest_release env bytes (vm_manifest validated))" if "memory env d = Inr s" for s
    using accept_seen_newer [OF b(5) that] b(4) by simp
  moreover have "of_nat (length artifact_bytes) = ra_size artifact" "sha256 (ue_prims env) artifact_bytes = ra_sha256 artifact"
    using u(6) by (auto simp: verify_artifact_bytes_def split: if_splits)
  ultimately show ?thesis
    using b(1-3) u(1,2,7,8) version_less_total [OF u(3,4)] cli_artifact_member [OF u(5)] unfolding repo_def by blast
qed

section \<open>A sample update\<close>

text \<open>A marker of release 1.0.1 is left on the disk, 1.0.1 runs, and the manifest of 1.0.2 is offered.\<close>

definition sample_release :: AcceptedReleaseV1 where
  "sample_release = \<lparr>acc_version = ''1.0.2'', acc_epoch = 1000002, acc_signed_manifest_sha256 = Some (replicate 32 7)\<rparr>"

definition sample_migrated :: UpdateStateV1 where
  "sample_migrated = \<lparr>highest_seen = Some \<lparr>acc_version = ''1.0.1'', acc_epoch = 1000001, acc_signed_manifest_sha256 = None\<rparr>, highest_installed = None\<rparr>"

definition sample_seen :: UpdateStateV1 where
  "sample_seen = \<lparr>highest_seen = Some sample_release, highest_installed = None\<rparr>"

definition sample_installed :: UpdateStateV1 where
  "sample_installed = \<lparr>highest_seen = Some sample_release, highest_installed = Some sample_release\<rparr>"

definition sample_state_codec :: "UpdateStateStore CordCodec" where
  "sample_state_codec =
     \<lparr>cord_ser = (\<lambda>v. if v = UpdateStateStore.V1 sample_migrated then Inr [1] else if v = UpdateStateStore.V1 sample_seen then Inr [2]
        else if v = UpdateStateStore.V1 sample_installed then Inr [3] else Inl (CordError ''unsupported'')),
      cord_de = (\<lambda>b. if b = [1] then Inr (UpdateStateStore.V1 sample_migrated) else if b = [2] then Inr (UpdateStateStore.V1 sample_seen)
        else if b = [3] then Inr (UpdateStateStore.V1 sample_installed) else Inl (CordError ''unsupported''))\<rparr>"

definition sample_artifact :: ReleaseArtifactV1 where
  "sample_artifact = \<lparr>ra_name = ''thorax'', ra_kind = ''thorax-cli'', ra_format = ''raw'', ra_url = Some ''a'',
     ra_target = \<lparr>at_triple = ''x86_64-unknown-linux-gnu'', at_os = ''linux'', at_arch = ''x86_64'', at_abi = Some ''gnu''\<rparr>,
     ra_size = 2, ra_sha256 = replicate 32 7\<rparr>"

definition sample_manifest :: ReleaseManifestV1 where
  "sample_manifest = \<lparr>rm_version = ''1.0.2'', rm_release_epoch = 1000002, rm_published_at = ''t'',
     rm_source = \<lparr>src_tag = ''v1.0.2'', src_commit = ''c'', src_workflow_run_id = ''1''\<rparr>,
     rm_artifacts = [sample_artifact], rm_keys = []\<rparr>"

definition sample_signed :: SignedReleaseManifest where
  "sample_signed = \<lparr>sm_body = ReleaseManifest.V1 sample_manifest, sm_signing_public_key = [8], sm_signature = replicate 64 9\<rparr>"

definition sample_update_prims :: Primitives where
  "sample_update_prims = \<lparr>sha256 = (\<lambda>_. replicate 32 7), hmac_sha256 = (\<lambda>_. id), hkdf_expand = (\<lambda>_ _ _ _. None), ed25519_public = id,
     ed25519_sign = (\<lambda>_ _. replicate 64 9), ed25519_public_valid = (\<lambda>k. k = [8]), ed25519_verify_strict = (\<lambda>k _ s. k = [8] \<and> s = replicate 64 9),
     hpke_derive_keypair = (\<lambda>b. (b, b)), hpke_public_valid = (\<lambda>_. True), hpke_encapped_valid = (\<lambda>_. True),
     hpke_single_shot_seal = (\<lambda>_ _ _ _ _. Inl []), hpke_single_shot_open = (\<lambda>_ _ _ _ _. Inl []),
     aead_encrypt = (\<lambda>_ _ _ _. None), aead_decrypt = (\<lambda>_ _ _ _. None)\<rparr>"

definition sample_update_env :: UpdateEnv where
  "sample_update_env = \<lparr>ue_prims = sample_update_prims, ue_pubkey = [8], ue_body = (\<lambda>_. Inr [4]),
     ue_signed = single_codec sample_signed, ue_state = sample_state_codec, ue_os = ''linux'', ue_arch = ''x86_64'',
     ue_rfc3339 = (\<lambda>_. Inr 0), ue_now = 0, ue_debug = id, ue_ed25519_error = ''signature error'',
     ue_current = \<lparr>v_major = 1, v_minor = 0, v_patch = 1\<rparr>, ue_head = (\<lambda>_ _. None),
     ue_get = (\<lambda>_ url. if url = ''a'' then Inr [Inr [6, 6]] else Inr [Inr [5]]), ue_gunzip = (\<lambda>_ b. Inr b), ue_replace = (\<lambda>_. None),
     ue_var = (\<lambda>name. if name = ''HOME'' then Some ''/root'' else None), ue_lock_busy = False\<rparr>"

definition sample_update_disk :: UpdateDisk where
  "sample_update_disk = \<lparr>ud_state = None, ud_legacy = Some [\<lparr>le_name = Some ''1000001'', le_is_file = True\<rparr>], ud_passive = None, ud_binary = [1]\<rparr>"

definition stored :: "u8 \<Rightarrow> UpdateDisk" where
  "stored n = \<lparr>ud_state = Some (UPDATE_STATE_MAGIC @ [n]), ud_legacy = None, ud_passive = None, ud_binary = [1]\<rparr>"

lemma sample_env_fields [simp]:
  "ue_prims sample_update_env = sample_update_prims" "ue_pubkey sample_update_env = [8]" "ue_body sample_update_env b = Inr [4]"
  "ue_signed sample_update_env = single_codec sample_signed" "ue_state sample_update_env = sample_state_codec"
  "ue_os sample_update_env = ''linux''" "ue_arch sample_update_env = ''x86_64''" "ue_rfc3339 sample_update_env t = Inr 0"
  "ue_now sample_update_env = 0" "ue_current sample_update_env = \<lparr>v_major = 1, v_minor = 0, v_patch = 1\<rparr>"
  "ue_head sample_update_env g u = None" "ue_get sample_update_env g url = (if url = ''a'' then Inr [Inr [6, 6]] else Inr [Inr [5]])"
  "ue_replace sample_update_env x = None" "ue_lock_busy sample_update_env = False"
  "update_state_base sample_update_env = Inr ''/root/.local/state/thorax''"
  by (simp_all add: sample_update_env_def update_state_base_def)

lemma sample_codec_faithful: "faithful_codec sample_state_codec"
  by (simp add: faithful_codec_def sample_state_codec_def)

lemma sample_states_valid:
  "validate_state sample_migrated = Inr ()" "validate_state sample_seen = Inr ()" "validate_state sample_installed = Inr ()"
  by (simp_all add: validate_state_def validate_release_def sample_migrated_def sample_seen_def sample_installed_def sample_release_def)

lemma sample_state_distinct: "sample_migrated \<noteq> sample_seen" "sample_migrated \<noteq> sample_installed" "sample_seen \<noteq> sample_installed"
  by (simp_all add: sample_migrated_def sample_seen_def sample_installed_def sample_release_def)

lemma magic_length [simp]: "length UPDATE_STATE_MAGIC = 20"
  by (simp add: UPDATE_STATE_MAGIC_def)

lemma sample_state_write:
  "write_state sample_update_env sample_migrated d = (Inr (), d\<lparr>ud_state := Some (UPDATE_STATE_MAGIC @ [1])\<rparr>)"
  "write_state sample_update_env sample_seen d = (Inr (), d\<lparr>ud_state := Some (UPDATE_STATE_MAGIC @ [2])\<rparr>)"
  "write_state sample_update_env sample_installed d = (Inr (), d\<lparr>ud_state := Some (UPDATE_STATE_MAGIC @ [3])\<rparr>)"
  using sample_codec_faithful sample_states_valid sample_state_distinct
  by (auto intro!: write_state_ok simp: sample_state_codec_def MAX_UPDATE_STATE_BYTES_def)

lemma sample_read:
  "ud_state d = Some (UPDATE_STATE_MAGIC @ [2]) \<Longrightarrow> load_or_migrate_locked sample_update_env d = (Inr sample_seen, d)"
  by (rule memory_of_file, rule read_after_write)
    (use sample_codec_faithful sample_states_valid sample_state_distinct in \<open>auto simp: sample_state_codec_def MAX_UPDATE_STATE_BYTES_def\<close>)

lemma sample_marker: "parse_u64 ''1000001'' = Some 1000001" "version_from_epoch 1000001 = ''1.0.1''"
  by code_simp+

lemma sample_load: "load_or_migrate_locked sample_update_env sample_update_disk = (Inr sample_migrated, stored 1)"
proof -
  have "marker_epoch \<lparr>le_name = Some ''1000001'', le_is_file = True\<rparr> = Some 1000001"
    by (simp only: marker_epoch_def LegacyEntry.select_convs option.case sample_marker if_True)
  then have "highest_marker [\<lparr>le_name = Some ''1000001'', le_is_file = True\<rparr>] = Some 1000001"
    "filter (\<lambda>e. marker_epoch e = None) [\<lparr>le_name = Some ''1000001'', le_is_file = True\<rparr>] = []"
    by (simp_all add: highest_marker_def List.map_filter_def)
  then have "migrate_legacy_locked sample_update_env sample_update_disk = (Inr sample_migrated, stored 1)"
    using sample_state_write(1) [unfolded sample_migrated_def]
    by (simp add: migrate_legacy_locked_def sample_update_disk_def sample_marker(2) upd_then_def upd_set_def upd_read_def stored_def sample_migrated_def)
  moreover have "read_state_file sample_update_env sample_update_disk = Inr None"
    by (simp add: read_state_file_def read_bounded_def sample_update_disk_def)
  ultimately show ?thesis
    by (simp add: load_or_migrate_locked_def)
qed

lemma sample_accept: "accept_seen sample_update_env sample_release sample_update_disk = (Inr (), stored 2)"
proof -
  have "advance (highest_seen sample_migrated) sample_release ''seen'' = Inr (Some sample_release, True)"
    "sample_migrated\<lparr>highest_seen := Some sample_release\<rparr> = sample_seen" "validate_release sample_release = Inr ()"
    by (simp_all add: advance_def sample_migrated_def sample_release_def sample_seen_def validate_release_def)
  then show ?thesis
    using sample_state_write(2)
    by (simp add: accept_seen_def accept_seen_in_def acquire_lock_def sample_load upd_then_def [of "load_or_migrate_locked _"] stored_def)
qed

lemma sample_record:
  assumes "ud_state d = Some (UPDATE_STATE_MAGIC @ [2])"
  shows "record_installed sample_update_env sample_release d = (Inr (), d\<lparr>ud_state := Some (UPDATE_STATE_MAGIC @ [3])\<rparr>)"
proof -
  have "advance (highest_seen sample_seen) sample_release ''seen'' = Inr (Some sample_release, False)"
    "advance (highest_installed sample_seen) sample_release ''installed'' = Inr (Some sample_release, True)"
    "sample_seen\<lparr>highest_seen := Some sample_release, highest_installed := Some sample_release\<rparr> = sample_installed"
    "validate_release sample_release = Inr ()" "highest_seen sample_seen = Some sample_release"
    by (simp_all add: advance_def sample_release_def sample_seen_def sample_installed_def validate_release_def)
  then show ?thesis
    using sample_state_write(3)
    by (simp add: record_installed_def record_installed_in_def acquire_lock_def sample_read [OF assms] upd_then_def [of "load_or_migrate_locked _"])
qed

lemma sample_versions:
  "parse_version ''1.0.2'' = Inr \<lparr>v_major = 1, v_minor = 0, v_patch = 2\<rparr>"
  "release_epoch \<lparr>v_major = 1, v_minor = 0, v_patch = 2\<rparr> = Inr 1000002"
proof -
  have "str_trim ''1.0.2'' = version_text \<lparr>v_major = 1, v_minor = 0, v_patch = 2\<rparr>"
    by code_simp
  then show "parse_version ''1.0.2'' = Inr \<lparr>v_major = 1, v_minor = 0, v_patch = 2\<rparr>"
    by (simp add: parse_version_iff)
qed (simp add: release_epoch_iff)

lemma sample_cli_artifact: "cli_artifact_for_current_platform sample_update_env sample_manifest = Inr sample_artifact"
  by (simp add: cli_artifact_for_current_platform_def detect_target_def sample_manifest_def sample_artifact_def CLI_ARTIFACT_KIND_def)

lemma sample_manifest_validates: "validate_complete_manifest sample_update_env sample_manifest = Inr ()"
proof -
  have "check_artifacts sample_update_env {} [sample_artifact] = Inr ()"
    by (simp add: check_artifact_def bounded_field_def bounded_optional_field_def sample_artifact_def MAX_MANIFEST_FIELD_BYTES_def MAX_ARTIFACT_BYTES_def)
  then show ?thesis
    using sample_versions sample_cli_artifact
    by (simp add: validate_complete_manifest_def bounded_field_def sample_manifest_def MAX_MANIFEST_FIELD_BYTES_def MAX_MANIFEST_ARTIFACTS_def)
qed

lemma sample_fetch:
  "fetch_latest_manifest sample_update_env REPO sample_update_disk = (Inr \<lparr>vm_manifest = sample_manifest, vm_accepted = sample_release\<rparr>, stored 2)"
proof -
  have get: "download_small sample_update_env (asset_url REPO MANIFEST_FILE) = Inr [5]"
    by (simp add: download_small_def download_small_with_agent_def asset_url_def MAX_MANIFEST_BYTES_def)
  have verify: "verify_signed_manifest sample_update_env [5] = Inr (ReleaseManifest.V1 sample_manifest)"
    by (simp add: verify_signed_manifest_def verify_signed_manifest_with_key_def verify_manifest_signature_def single_codec_def sample_signed_def
        sample_update_prims_def ED25519_SIGNATURE_LEN_def manifest_body_bytes_def)
  have "sample_release = \<lparr>acc_version = rm_version sample_manifest, acc_epoch = rm_release_epoch sample_manifest,
      acc_signed_manifest_sha256 = Some (sha256 sample_update_prims [5])\<rparr>"
    by (simp add: sample_release_def sample_manifest_def sample_update_prims_def)
  then show ?thesis
    using sample_accept
    by (simp add: fetch_latest_manifest_def get accept_signed_manifest_bytes_def verify sample_manifest_validates Let_def upd_then_def upd_err_def upd_read_def)
qed

lemma sample_download: "download_with_progress_bounded sample_update_env (artifact_url REPO sample_artifact) (unat (ra_size sample_artifact)) = Inr [6, 6]"
  by (simp add: download_with_progress_bounded_def artifact_url_def sample_artifact_def)

lemma sample_update:
  "update sample_update_env False None sample_update_disk =
     (Inr (Updated \<lparr>v_major = 1, v_minor = 0, v_patch = 1\<rparr> \<lparr>v_major = 1, v_minor = 0, v_patch = 2\<rparr>), (stored 3)\<lparr>ud_binary := [6, 6]\<rparr>)"
proof -
  have verify: "verify_artifact_bytes sample_update_env sample_artifact [6, 6] = Inr ()"
    "extract_installable_artifact sample_update_env sample_artifact [6, 6] = Inr [6, 6]"
    "\<not> unat (ra_size sample_artifact) > MAX_ARTIFACT_BYTES" "rm_version sample_manifest = ''1.0.2''"
    by (simp_all add: verify_artifact_bytes_def extract_installable_artifact_def sample_artifact_def sample_update_prims_def MAX_ARTIFACT_BYTES_def
        sample_manifest_def)
  have record': "record_installed sample_update_env sample_release ((stored 2)\<lparr>ud_binary := [6, 6]\<rparr>) = (Inr (), (stored 3)\<lparr>ud_binary := [6, 6]\<rparr>)"
    by (subst sample_record) (simp_all add: stored_def)
  show ?thesis
    using sample_fetch sample_versions(1) sample_cli_artifact sample_download verify record'
    by (simp add: update_def Let_def upd_then_def [of "upd_err _ _"] upd_then_def [of "self_replace _ _"] upd_err_def self_replace_def upd_read_def
        version_less_def)
qed

theorem update_installs_only_signed_newer_releases_witness:
  "ud_binary (snd (update sample_update_env False None sample_update_disk)) = [6, 6]
   \<and> (\<exists>bytes manifest. signed_release sample_update_env bytes manifest \<and> validate_complete_manifest sample_update_env manifest = Inr ()
        \<and> newer_or_same (highest_seen sample_migrated) (manifest_release sample_update_env bytes manifest))"
proof -
  have "memory sample_update_env sample_update_disk = Inr sample_migrated"
    by (simp add: memory_def sample_load)
  moreover have "ud_binary (snd (update sample_update_env False None sample_update_disk)) = [6, 6]"
    by (simp add: sample_update)
  ultimately show ?thesis
    using update_installs_only_signed_newer_releases [OF sample_update] by auto
qed

theorem release_memory_never_goes_back_witness:
  "memory sample_update_env sample_update_disk = Inr sample_migrated
   \<and> (update_step sample_update_env)\<^sup>*\<^sup>* sample_update_disk (snd (update sample_update_env False None sample_update_disk))
   \<and> (\<exists>t. memory sample_update_env (snd (update sample_update_env False None sample_update_disk)) = Inr t
        \<and> remembers (highest_seen sample_migrated) (highest_seen t))"
proof -
  have codec: "faithful_codec (ue_state sample_update_env)" and m: "memory sample_update_env sample_update_disk = Inr sample_migrated"
    by (simp_all add: sample_codec_faithful memory_def sample_load)
  have steps: "(update_step sample_update_env)\<^sup>*\<^sup>* sample_update_disk (snd (update sample_update_env False None sample_update_disk))"
    by (rule r_into_rtranclp, rule update_step.run) (simp add: same_codec_def)
  show ?thesis
    using release_memory_never_goes_back [OF codec m steps] m steps by blast
qed

end
