(* ===== verification/Spec2Isabelle.thy ===== *)
theory Spec2Isabelle
  imports Thorax_Merge Thorax_Selector Thorax_Conflicts Thorax_Join Thorax_Update
begin

text \<open>
  A verification development for thorax, a secret store whose vault is a file of signed records in
  a git repository. Nothing in the vault is trusted as it stands: a reader checks every record,
  decides which signers may have written it, and compares the outcome with what this machine has
  seen before.

  \<^bold>\<open>The parts of the program and the theories that model them\<close> (paths are below \<open>src/crates/\<close>)

  \<^item> \<open>Thorax_Prelude\<close>: bytes, \<open>u8\<close> and \<open>u64\<close> as words of their width, results (\<open>E + 'a\<close> with \<open>and_then\<close>
    and \<open>map_err\<close> for the question mark operator), \<open>BTreeMap\<close> and \<open>BTreeSet\<close> as sorted association
    lists and lists, UTF-8, and the locale of ordered maps with its interpretation.
  \<^item> \<open>Thorax_Format\<close>: \<open>thorax-core/src/format.rs\<close>, the record bodies, selectors, permissions and the
    signed envelope. A field of the source is a field of the record, with a prefix where two
    structures share a name.
  \<^item> \<open>Thorax_Authz\<close>: \<open>authz.rs\<close>, matching and subsumption of selectors, authority sets, delegation.
  \<^item> \<open>Thorax_Crypto\<close>: \<open>crypto.rs\<close>, \<open>ids.rs\<close>, \<open>hazmat.rs\<close>: hashes, identifiers, handles, record
    builders and signing. The provider (\<open>CryptoProvider\<close>) is a record of functions, with the
    deterministic provider of the source as an instance.
  \<^item> \<open>Thorax_Structure\<close>: \<open>validate/structure.rs\<close>, every check of a body and its error.
  \<^item> \<open>Thorax_Ratchet\<close>: \<open>ratchet.rs\<close> and the invitations, the rollback memory of a machine.
  \<^item> \<open>Thorax_Lww\<close>: the last-writer-wins resolution of \<open>validate/effective.rs\<close>.
  \<^item> \<open>Thorax_Effective\<close>: the rest of \<open>validate/effective.rs\<close>, which users, groups, memberships, grants,
    handles and entry points count, as a fixpoint between authority and selection.
  \<^item> \<open>Thorax_State\<close>: \<open>validate/state.rs\<close>, queries on the effective state, the index of secrets.
  \<^item> \<open>Thorax_Pipeline\<close>: \<open>validate/pipeline.rs\<close>, the stages of \<open>validate_v1\<close> in their order.
  \<^item> \<open>Thorax_Validation\<close>: the theorems about validation as a whole.
  \<^item> \<open>Thorax_Codec\<close>: vault and join-artifact framing (\<open>validate/mod.rs\<close>, \<open>join.rs\<close>).
  \<^item> \<open>Thorax_Merge\<close>: \<open>merge.rs\<close>, the three-way merge.
  \<^item> \<open>Thorax_Selector\<close>: \<open>thorax-frontend/src/selector.rs\<close>, parsing and printing of selectors.
  \<^item> \<open>Thorax_Store\<close>: \<open>thorax-store/src/lib.rs\<close> and \<open>transaction.rs\<close>. The disk is a map from paths to
    bytes, a store operation a function from a disk to a result and a disk.
  \<^item> \<open>Thorax_Transaction\<close>: \<open>thorax-ops/src/transaction.rs\<close>, the write-ahead journal and its recovery,
    with the fault points of the source as an argument.
  \<^item> \<open>Thorax_Session\<close>: \<open>thorax-ops/src/session.rs\<close>, loading, reloading and committing. A method is a
    function on the pair of the session and the disk.
  \<^item> \<open>Thorax_Commit\<close>: what the operations below rely on, facts about a validated report and about a
    commit that returned.
  \<^item> \<open>Thorax_Provider\<close>: \<open>thorax-crypto/src/lib.rs\<close>, the production provider: transcripts, identities,
    the ratchet MAC, content encryption and key wrapping over the primitives of other crates.
  \<^item> \<open>Thorax_Secrets\<close>: \<open>thorax-ops/src/secrets.rs\<close> and \<open>reconcile.rs\<close>, sealing, opening, writing and
    converging secrets.
  \<^item> \<open>Thorax_Isolation\<close>: the comparison of two vaults that differ in secrets only.
  \<^item> \<open>Thorax_Principals\<close>: \<open>thorax-ops/src/principals.rs\<close>, users, handles, groups, memberships, grants.
    \<open>locked_\<close> marks the method of the locked session, \<open>unlocked_\<close> the one of the unlocked session.
  \<^item> \<open>Thorax_Trust\<close>: the rest of \<open>thorax-ops/src/trust.rs\<close>, creating a vault, resetting the memory and
    checking a merge, with the acceptance of a rollback (\<open>conflicts.rs\<close>).
  \<^item> \<open>Thorax_Conflicts\<close>: \<open>thorax-ops/src/conflicts.rs\<close>, resolving and revealing conflicts.
  \<^item> \<open>Thorax_Invite\<close>: \<open>thorax-ops/src/invite.rs\<close>, preparing, committing and claiming invitations.
  \<^item> \<open>Thorax_Join\<close>: the rest of \<open>thorax-ops/src/enrollment.rs\<close>, join candidates and their approval.
  \<^item> \<open>Thorax_Release\<close>: \<open>thorax-update/src/manifest.rs\<close>, \<open>verify.rs\<close> and \<open>download.rs\<close>, versions and epochs,
    signed release manifests, artifacts and bounded downloads.
  \<^item> \<open>Thorax_Update\<close>: \<open>thorax-update/src/state.rs\<close> and \<open>lib.rs\<close>, the memory of releases, the update of
    the running binary and the passive notice. An operation is a function on a disk of its own.

  \<^bold>\<open>How they interact.\<close> The self-update stands beside the vault and shares only signatures and the
  idea of a rollback memory with it. A session loads the vault through the store, recovers an interrupted
  transaction, validates the records against the ratchet, and holds the report. A mutation edits a
  copy of the vault, validates it, and hands the encoded after-images to the transaction layer,
  which journals them before it touches ratchet and vault. The ratchet update that validation
  reports is what makes the next validation notice a rollback. An operation of an unlocked session
  checks the authority of its identity on the report, signs its records, commits them, and checks
  that they took effect; one that adds access then reseals the secrets a new reader lacks.

  \<^bold>\<open>What the lemmas show\<close>

  \<^item> Validation: rolled-back and conflicted keys fail closed; the root is the trusted one; accepted
    records are signed; a converged state is authorised by itself; authority is reachability over
    memberships; one ratchet update settles validation; the secret index equals a scan; resolution
    does not depend on the order of the records; the next counter is above every admitted one.
  \<^item> Authority: subsumption is sound, and exact on validated selectors; delegation never escalates.
  \<^item> Memory: a ratchet is a join of all it has seen, also through its records and its file;
    abandoning a transaction keeps it; accepting a rollback lowers it at one key; after a reset the
    next session loads as on a fresh machine; an invitation and an approval carry it to a fresh machine.
  \<^item> Files: round trips of vault, ratchet and join artifacts; readers accept nothing but what they
    should; compare-and-swap excludes stale writers.
  \<^item> Transactions: a commit is atomic under any number of interruptions, at any fault point; recovery
    never overwrites a file it does not recognise; a pending journal stops every writer.
  \<^item> Sessions: a commit publishes exactly a validated state; an invitation is published whole;
    the approval of a join gives nothing but what was approved, and seals the secrets this makes
    readable again with the values they had.
  \<^item> Secrets: a sealed value opens for the readers it was sealed for and nobody else; a value that was
    set reads back; no secret record influences users, groups, grants or authority; what is signed,
    hashed and bound to a key exchange is kept apart.
  \<^item> Principals: without authority none of the twelve operations on secrets and principals changes
    anything; an operation that returns is in force; a deletion takes everything with it that names
    what is deleted; a resolution is authorised and ends its conflict, for a secret with the value of
    the chosen candidate.
  \<^item> Self-update: an epoch is a faithful number for a version; the memory of releases never goes back,
    whatever operations run; an update installs nothing but a signed and newer release.
  \<^item> Text and merge: selectors print and parse back; a merge is the union of the records, or refused.

  \<^bold>\<open>Interfaces\<close> are locales, interpreted on the model: ordered maps, authority sets as joins,
  signature schemes, rollback memories (for updates, for absorbed records and for the releases
  seen), sites of a last-writer-wins decision (eight of them), framed formats (three of them), prefix codes, and write
  barriers (a pending journal, and an identity that is not a user).

  \<^bold>\<open>Bounds.\<close> No definition uses fuel. Loops are structural or carry a measure; the authority fixpoint is
  bounded by 64 rounds because the source bounds it, and a state that has not converged by then is
  reported as unresolved, as in the source. Counters are 64-bit words with the saturating addition
  of the source.

  \<^bold>\<open>Parameters.\<close> The serialiser (the \<open>cord\<close> crate), the hash, signature and encryption primitives, the
  canonical form of a path and random seeds are arguments of the definitions. What a theorem needs
  of them (that the serialiser reads back what it wrote, that the hash tells two given images
  apart) is a hypothesis of that theorem, and its witness instantiates it.

  \<^bold>\<open>Not modelled.\<close> Locks (an operation of the model runs alone; a contended lock appears only where a
  load survives it), file permissions and the system calls below an atomic write, workspace
  discovery, the keychain and its prompts, process execution, the network, the command line, the
  terminal interface, the Kubernetes controller and the language bindings.
\<close>

end
